(* ===== verification/Prelude.thy ===== *)
theory Prelude
  imports Main "HOL-Library.Sublist" "HOL-Library.AList" "HOL-Library.Char_ord"
begin

text \<open>
  What every component of the model shares: Go's fixed-width integers read as \<open>int\<close>, the
  functions of the packages \<open>strings\<close> and \<open>strconv\<close> that the service calls, on byte
  strings, and generic facts about lists that the component theories use.
  Strings are lists of bytes (\<open>char\<close>), as Go's are.
\<close>

section \<open>Collections of facts\<close>

named_theorems op_defs \<open>definitions of the operations of a component, to be unfolded together\<close>
named_theorems frame_simps \<open>which parts of the state an operation leaves alone\<close>
named_theorems str_simps \<open>facts about the string functions\<close>

section \<open>Integers of a fixed width\<close>

text \<open>Go's \<open>int\<close>, \<open>int64\<close> and \<open>time.Duration\<close> are 64-bit two's complement.\<close>

definition int64 :: "int \<Rightarrow> int" where
  "int64 x = (x + 2 ^ 63) mod 2 ^ 64 - 2 ^ 63"

definition in_int64 :: "int \<Rightarrow> bool" where
  "in_int64 x \<longleftrightarrow> - (2 ^ 63) \<le> x \<and> x < 2 ^ 63"

definition max_int32 :: int where
  "max_int32 = 2147483647"

lemma int64_id [simp]: "in_int64 x \<Longrightarrow> int64 x = x"
  unfolding int64_def in_int64_def by simp

lemma in_int64_int64 [simp]: "in_int64 (int64 x)"
  unfolding int64_def in_int64_def by (simp add: algebra_simps)

section \<open>Package strings\<close>

definition has_prefix :: "string \<Rightarrow> string \<Rightarrow> bool" where
  "has_prefix s p \<longleftrightarrow> take (length p) s = p"

definition has_suffix :: "string \<Rightarrow> string \<Rightarrow> bool" where
  "has_suffix s p \<longleftrightarrow> length p \<le> length s \<and> drop (length s - length p) s = p"

fun contains :: "string \<Rightarrow> string \<Rightarrow> bool" where
  "contains [] p = (p = [])"
| "contains (c # s) p = (has_prefix (c # s) p \<or> contains s p)"

text \<open>\<open>strings.ToLower\<close> and \<open>ToUpper\<close> on the ASCII letters; other bytes are left as they are.\<close>

definition lower_char :: "char \<Rightarrow> char" where
  "lower_char c = (let n = of_char c :: nat in if 65 \<le> n \<and> n \<le> 90 then char_of (n + 32) else c)"

definition to_lower :: "string \<Rightarrow> string" where
  "to_lower = map lower_char"

definition upper_char :: "char \<Rightarrow> char" where
  "upper_char c = (let n = of_char c :: nat in if 97 \<le> n \<and> n \<le> 122 then char_of (n - 32) else c)"

definition to_upper :: "string \<Rightarrow> string" where
  "to_upper = map upper_char"

text \<open>\<open>s[:strings.LastIndexByte(s, c)]\<close>: what stands before the last \<open>c\<close>, if there is one.\<close>

fun before_last :: "char \<Rightarrow> string \<Rightarrow> string option" where
  "before_last c [] = None"
| "before_last c (x # xs) =
     (case before_last c xs of
        Some ys \<Rightarrow> Some (x # ys)
      | None \<Rightarrow> if x = c then Some [] else None)"

text \<open>\<open>strings.SplitN(s, sep, 2)\<close> for a separator of one byte.\<close>

fun split2 :: "char \<Rightarrow> string \<Rightarrow> string list" where
  "split2 c [] = [[]]"
| "split2 c (x # xs) =
     (if x = c then [[], xs]
      else (case split2 c xs of [] \<Rightarrow> [[x]] | y # ys \<Rightarrow> (x # y) # ys))"

lemma has_prefix_append [str_simps, simp]: "has_prefix (p @ s) p"
  by (simp add: has_prefix_def)

lemma has_prefix_iff: "has_prefix s p \<longleftrightarrow> (\<exists>t. s = p @ t)"
  unfolding has_prefix_def by (metis append_eq_conv_conj append_take_drop_id)

lemma has_suffix_append [str_simps, simp]: "has_suffix (s @ p) p"
  by (simp add: has_suffix_def)

lemma has_suffix_iff: "has_suffix s p \<longleftrightarrow> (\<exists>t. s = t @ p)"
proof
  assume "has_suffix s p"
  then have "s = take (length s - length p) s @ p"
    unfolding has_suffix_def by (metis append_take_drop_id)
  then show "\<exists>t. s = t @ p" ..
qed auto

lemma lower_char_idem [simp]: "lower_char (lower_char c) = lower_char c"
proof (cases "65 \<le> (of_char c :: nat) \<and> (of_char c :: nat) \<le> 90")
  case True
  then have "(of_char (char_of ((of_char c :: nat) + 32) :: char) :: nat) = of_char c + 32"
    by simp
  with True show ?thesis by (simp add: lower_char_def Let_def)
next
  case False
  then show ?thesis by (auto simp: lower_char_def Let_def)
qed

lemma to_lower_idem [simp]: "to_lower (to_lower s) = to_lower s"
  by (simp add: to_lower_def)

lemma to_lower_append [simp]: "to_lower (s @ t) = to_lower s @ to_lower t"
  by (simp add: to_lower_def)

lemma to_lower_Nil [simp]: "to_lower [] = []"
  by (simp add: to_lower_def)

lemma to_lower_eq_Nil [simp]: "to_lower s = [] \<longleftrightarrow> s = []"
  by (simp add: to_lower_def)

lemma before_last_None: "before_last c s = None \<longleftrightarrow> c \<notin> set s"
  by (induction s) (auto split: option.splits)

lemma before_last_append: "c \<notin> set t \<Longrightarrow> before_last c (s @ c # t) = Some s"
  by (induction s) (auto simp: before_last_None split: option.splits)

lemma before_last_Some:
  "before_last c s = Some p \<Longrightarrow> \<exists>t. s = p @ c # t \<and> c \<notin> set t"
proof (induction s arbitrary: p)
  case (Cons x s)
  then show ?case
    by (force simp: before_last_None split: option.splits if_splits)
qed simp

lemma split2_append: "c \<notin> set p \<Longrightarrow> split2 c (p @ c # s) = [p, s]"
  by (induction p) auto

section \<open>Package strconv: Itoa and Atoi\<close>

definition digit_char :: "nat \<Rightarrow> char" where
  "digit_char d = char_of (48 + d)"

fun dec_digits :: "nat \<Rightarrow> string" where
  "dec_digits n = (if n < 10 then [digit_char n] else dec_digits (n div 10) @ [digit_char (n mod 10)])"

declare dec_digits.simps [simp del]

definition itoa :: "int \<Rightarrow> string" where
  "itoa i = (if i < 0 then CHR ''-'' # dec_digits (nat (- i)) else dec_digits (nat i))"

definition digit_val :: "char \<Rightarrow> nat option" where
  "digit_val c = (let n = of_char c :: nat in if 48 \<le> n \<and> n \<le> 57 then Some (n - 48) else None)"

fun parse_digits :: "nat \<Rightarrow> string \<Rightarrow> nat option" where
  "parse_digits acc [] = Some acc"
| "parse_digits acc (c # s) =
     (case digit_val c of None \<Rightarrow> None | Some d \<Rightarrow> parse_digits (acc * 10 + d) s)"

text \<open>\<open>Atoi\<close>: an optional sign, at least one digit, and a value in the range of \<open>int\<close>.\<close>

definition parse_unsigned :: "string \<Rightarrow> nat option" where
  "parse_unsigned s = (if s = [] then None else parse_digits 0 s)"

definition atoi :: "string \<Rightarrow> int option" where
  "atoi s =
     (let v = (case s of
                 [] \<Rightarrow> None
               | c # t \<Rightarrow>
                   if c = CHR ''-'' then map_option (\<lambda>n. - int n) (parse_unsigned t)
                   else if c = CHR ''+'' then map_option int (parse_unsigned t)
                   else map_option int (parse_unsigned s))
      in case v of None \<Rightarrow> None | Some i \<Rightarrow> if in_int64 i then Some i else None)"

lemma digit_val_digit_char [simp]: "d < 10 \<Longrightarrow> digit_val (digit_char d) = Some d"
  by (simp add: digit_val_def digit_char_def)

lemma digit_char_ge: "d < 10 \<Longrightarrow> 48 \<le> (of_char (digit_char d) :: nat)"
  by (simp add: digit_char_def)

lemma parse_digits_append:
  "parse_digits acc (s @ t) =
     (case parse_digits acc s of None \<Rightarrow> None | Some a \<Rightarrow> parse_digits a t)"
  by (induction s arbitrary: acc) (auto split: option.splits)

lemma parse_dec_digits: "parse_digits 0 (dec_digits n) = Some n"
proof (induction n rule: dec_digits.induct)
  case (1 n)
  show ?case
  proof (cases "n < 10")
    case True
    then show ?thesis by (subst dec_digits.simps) simp
  next
    case False
    with 1 have IH: "parse_digits 0 (dec_digits (n div 10)) = Some (n div 10)" by simp
    from False show ?thesis
      by (subst dec_digits.simps) (simp add: parse_digits_append IH)
  qed
qed

lemma dec_digits_not_Nil [simp]: "dec_digits n \<noteq> []"
  by (subst dec_digits.simps) simp

lemma set_dec_digits: "c \<in> set (dec_digits n) \<Longrightarrow> \<exists>d<10. c = digit_char d"
proof (induction n rule: dec_digits.induct)
  case (1 n)
  then show ?case
    by (subst (asm) dec_digits.simps) (auto split: if_splits intro: exI [of _ "n mod 10"])
qed

lemma dec_digits_no_sign:
  "CHR ''-'' \<notin> set (dec_digits n)" "CHR ''+'' \<notin> set (dec_digits n)" "CHR ''v'' \<notin> set (dec_digits n)"
  "CHR '':'' \<notin> set (dec_digits n)"
proof -
  have *: "c \<notin> set (dec_digits n)" if "digit_val c = None" for c
    using that by (auto dest!: set_dec_digits)
  show "CHR ''-'' \<notin> set (dec_digits n)" "CHR ''+'' \<notin> set (dec_digits n)"
    "CHR ''v'' \<notin> set (dec_digits n)" "CHR '':'' \<notin> set (dec_digits n)"
    by (rule *, simp add: digit_val_def)+
qed

lemma atoi_itoa:
  assumes "in_int64 i"
  shows "atoi (itoa i) = Some i"
proof (cases "i < 0")
  case True
  with assms show ?thesis
    by (simp add: atoi_def itoa_def parse_unsigned_def parse_dec_digits)
next
  case False
  obtain c s where cs: "dec_digits (nat i) = c # s"
    by (cases "dec_digits (nat i)") auto
  with dec_digits_no_sign [of "nat i"] have "c \<noteq> CHR ''-''" "c \<noteq> CHR ''+''" by auto
  with False assms cs parse_dec_digits [of "nat i"] show ?thesis
    by (simp add: atoi_def itoa_def parse_unsigned_def)
qed

lemma itoa_inj: "itoa i = itoa j \<Longrightarrow> 0 \<le> i \<Longrightarrow> 0 \<le> j \<Longrightarrow> i = j"
  by (metis itoa_def linorder_not_less nat_eq_iff option.inject parse_dec_digits)

lemma itoa_no_v: "0 \<le> i \<Longrightarrow> CHR ''v'' \<notin> set (itoa i)"
  by (simp add: itoa_def dec_digits_no_sign)

section \<open>Lists\<close>

text \<open>
  The first occurrence of every key, in order: the \<open>seen\<close> map with which the code skips what
  it has met before.
\<close>

fun first_by :: "('a \<Rightarrow> 'b) \<Rightarrow> 'b list \<Rightarrow> 'a list \<Rightarrow> 'a list" where
  "first_by f seen [] = []"
| "first_by f seen (x # xs) =
     (if f x \<in> set seen then first_by f seen xs else x # first_by f (f x # seen) xs)"

lemma set_first_by_subset: "set (first_by f seen xs) \<subseteq> set xs"
  by (induction xs arbitrary: seen) auto

lemma keys_first_by: "f ` set (first_by f seen xs) = f ` set xs - set seen"
  by (induction xs arbitrary: seen) auto

lemma distinct_first_by: "distinct (map f (first_by f seen xs))"
proof (induction xs arbitrary: seen)
  case (Cons x xs)
  have "f x \<notin> set (map f (first_by f (f x # seen) xs))"
    using keys_first_by [of f "f x # seen" xs] by auto
  with Cons.IH show ?case by simp
qed simp

lemma first_by_distinct: "distinct (map f xs) \<Longrightarrow> f ` set xs \<inter> set seen = {} \<Longrightarrow> first_by f seen xs = xs"
  by (induction xs arbitrary: seen) auto

text \<open>An in-place update of the rows that satisfy a condition: SQL's \<open>UPDATE ... WHERE\<close>.\<close>

definition update_where :: "('a \<Rightarrow> bool) \<Rightarrow> ('a \<Rightarrow> 'a) \<Rightarrow> 'a list \<Rightarrow> 'a list" where
  "update_where P f xs = map (\<lambda>x. if P x then f x else x) xs"

lemma length_update_where [simp]: "length (update_where P f xs) = length xs"
  by (simp add: update_where_def)

lemma set_update_where: "set (update_where P f xs) = f ` {x \<in> set xs. P x} \<union> {x \<in> set xs. \<not> P x}"
  by (auto simp: update_where_def)

lemma update_where_none: "\<forall>x\<in>set xs. \<not> P x \<Longrightarrow> update_where P f xs = xs"
  unfolding update_where_def by (induction xs) auto

lemma map_update_where: "(\<And>x. P x \<Longrightarrow> g (f x) = g x) \<Longrightarrow> map g (update_where P f xs) = map g xs"
  by (auto simp: update_where_def)

lemma find_update_where:
  assumes "\<And>x. P (f x) = P x"
  shows "List.find P (update_where P f xs) = map_option f (List.find P xs)"
  unfolding update_where_def using assms by (induction xs) auto

lemma find_update_where_other:
  assumes "\<And>x. P x \<Longrightarrow> \<not> Q x" and "\<And>x. P x \<Longrightarrow> \<not> Q (f x)"
  shows "List.find Q (update_where P f xs) = List.find Q xs"
  unfolding update_where_def using assms by (induction xs) auto

lemma find_None_iff_filter: "List.find P xs = None \<longleftrightarrow> filter P xs = []"
  by (induction xs) auto

lemma find_eq_hd_filter: "filter P xs \<noteq> [] \<Longrightarrow> List.find P xs = Some (hd (filter P xs))"
  by (induction xs) auto

lemma find_SomeD: "List.find P xs = Some x \<Longrightarrow> x \<in> set xs \<and> P x"
  by (induction xs) (auto split: if_splits)

lemma find_append: "List.find P (xs @ ys) = (case List.find P xs of Some x \<Rightarrow> Some x | None \<Rightarrow> List.find P ys)"
  by (induction xs) auto

lemma sorted_take_drop:
  "sorted (map f xs) \<Longrightarrow> x \<in> set (take n xs) \<Longrightarrow> y \<in> set (drop n xs) \<Longrightarrow> f x \<le> f y"
proof -
  assume "sorted (map f xs)" and xy: "x \<in> set (take n xs)" "y \<in> set (drop n xs)"
  then have "sorted (map f (take n xs) @ map f (drop n xs))"
    by (metis append_take_drop_id map_append)
  with xy show ?thesis by (auto simp: sorted_append)
qed

lemma sorted_wrt_map_mono:
  "sorted_wrt P (map f xs) \<Longrightarrow> (\<And>x y. P (f x) (f y) \<Longrightarrow> Q x y) \<Longrightarrow> sorted_wrt Q xs"
  by (induction xs) auto

lemma list_all2_set_right: "list_all2 R xs ys \<Longrightarrow> y \<in> set ys \<Longrightarrow> \<exists>x \<in> set xs. R x y"
  by (induction rule: list_all2_induct) auto

lemma list_all2_set_left: "list_all2 R xs ys \<Longrightarrow> x \<in> set xs \<Longrightarrow> \<exists>y \<in> set ys. R x y"
  by (induction rule: list_all2_induct) auto

lemma list_all2_sorted_wrt:
  "list_all2 R xs ys \<Longrightarrow> sorted_wrt P xs \<Longrightarrow> (\<And>x x' y y'. R x y \<Longrightarrow> R x' y' \<Longrightarrow> P x x' \<Longrightarrow> Q y y') \<Longrightarrow>
   sorted_wrt Q ys"
proof (induction rule: list_all2_induct)
  case (Cons x xs y ys)
  have "Q y y'" if y': "y' \<in> set ys" for y'
  proof -
    obtain x' where x': "x' \<in> set xs" "R x' y'"
      using list_all2_set_right [OF Cons.hyps(2) y'] by blast
    then have "P x x'" using Cons.prems(1) by simp
    then show ?thesis by (rule Cons.prems(2) [OF Cons.hyps(1) x'(2)])
  qed
  moreover have "sorted_wrt Q ys" using Cons.prems Cons.IH by simp
  ultimately show ?case by simp
qed simp

lemma distinct_map_eqD: "distinct (map f xs) \<Longrightarrow> x \<in> set xs \<Longrightarrow> y \<in> set xs \<Longrightarrow> f x = f y \<Longrightarrow> x = y"
  by (auto simp: distinct_map dest: inj_onD)

section \<open>Step relations\<close>

text \<open>What holds at the start and survives every step holds in every state that is reached.\<close>

locale step_invariant =
  fixes step :: "'s \<Rightarrow> 's \<Rightarrow> bool" and start :: 's and inv :: "'s \<Rightarrow> bool"
  assumes start_inv: "inv start"
    and step_inv: "step s s' \<Longrightarrow> inv s \<Longrightarrow> inv s'"
begin

lemma reached: "step\<^sup>*\<^sup>* start s \<Longrightarrow> inv s"
  by (induction rule: rtranclp_induct) (auto intro: start_inv step_inv)

end

end
