(* ===== verification/Domain.thy ===== *)
theory Domain
  imports Prelude
begin

text \<open>
  The domain layer, \<open>internal/domain\<close>: error values with their texts, the entities (analyses,
  outbox events, links, forms), the methods that move an outbox event through its states, and
  the value objects. Error texts matter here: the services put them into results and into the
  columns \<open>error_message\<close> and \<open>error_details\<close>.
\<close>

section \<open>Identifiers and time\<close>

text \<open>
  A UUID is kept as its canonical text (\<open>uuid.UUID\<close>; columns of type \<open>UUID\<close>), a point in time as
  nanoseconds (\<open>time.Time\<close>), a duration as nanoseconds (\<open>time.Duration\<close>).
\<close>

datatype uuid = UUID string

primrec uuid_string :: "uuid \<Rightarrow> string" where
  "uuid_string (UUID s) = s"

lemma uuid_string_inj [simp]: "uuid_string a = uuid_string b \<longleftrightarrow> a = b"
  by (cases a; cases b) simp

definition uuid_Nil :: uuid where
  "uuid_Nil = UUID ''00000000-0000-0000-0000-000000000000''"

type_synonym time = int
type_synonym duration = int

definition Millisecond :: duration where "Millisecond = 1000000"
definition Second :: duration where "Second = 1000000000"

section \<open>Errors\<close>

text \<open>
  The sentinel errors and the error types of \<open>errors.go\<close>, the errors of the packages the code
  tests for, and the two ways the code builds others: a text (\<open>fmt.Errorf\<close> without \<open>%w\<close>,
  \<open>errors.New\<close>) and a text around a cause (\<open>fmt.Errorf("...: %w", err)\<close>).
\<close>

datatype detail = DetailStr string | DetailInt int

datatype sentinel =
    ErrAnalysisNotFound | ErrInvalidURL | ErrURLNotReachable | ErrTimeoutExceeded
  | ErrInvalidRequest | ErrInternalServerError | ErrUnauthorized | ErrRateLimitExceeded
  | ErrCircuitBreakerOpen | ErrCacheUnavailable | ErrConcurrentModification

datatype error =
    Sentinel sentinel
  | ErrNoRows
  | ErrOpenState
  | ErrCanceled
  | ErrText string
  | ErrWrap string error
  | OptimisticLockError int int
  | InvalidStateTransitionError string string
  | MaxRetriesExceededError string int int
  | DomainError string string int "error option" "(string \<times> detail) list"

type_synonym 'a result = "error + 'a"

definition sentinel_text :: "sentinel \<Rightarrow> string" where
  "sentinel_text s = (case s of
     ErrAnalysisNotFound \<Rightarrow> ''analysis not found''
   | ErrInvalidURL \<Rightarrow> ''invalid URL''
   | ErrURLNotReachable \<Rightarrow> ''URL not reachable''
   | ErrTimeoutExceeded \<Rightarrow> ''analysis timeout exceeded''
   | ErrInvalidRequest \<Rightarrow> ''invalid request''
   | ErrInternalServerError \<Rightarrow> ''internal server error''
   | ErrUnauthorized \<Rightarrow> ''unauthorized''
   | ErrRateLimitExceeded \<Rightarrow> ''rate limit exceeded''
   | ErrCircuitBreakerOpen \<Rightarrow> ''circuit breaker open''
   | ErrCacheUnavailable \<Rightarrow> ''cache service unavailable''
   | ErrConcurrentModification \<Rightarrow> ''concurrent modification detected'')"

text \<open>\<open>err.Error()\<close>.\<close>

fun Error :: "error \<Rightarrow> string" where
  "Error (Sentinel s) = sentinel_text s"
| "Error ErrNoRows = ''sql: no rows in result set''"
| "Error ErrOpenState = ''circuit breaker is open''"
| "Error ErrCanceled = ''context canceled''"
| "Error (ErrText t) = t"
| "Error (ErrWrap t e) = t @ '': '' @ Error e"
| "Error (OptimisticLockError ex ac) =
     ''optimistic lock failed: expected version '' @ itoa ex @ '', got '' @ itoa ac"
| "Error (InvalidStateTransitionError f t) = ''invalid state transition from '' @ f @ '' to '' @ t"
| "Error (MaxRetriesExceededError i r m) =
     ''max retries exceeded for event '' @ i @ '': '' @ itoa r @ ''/'' @ itoa m"
| "Error (DomainError code message status cause details) =
     (case cause of None \<Rightarrow> message | Some e \<Rightarrow> message @ '': '' @ Error e)"

text \<open>\<open>errors.Is(err, target)\<close>: some error of the chain of causes is the target.\<close>

fun errors_Is :: "error \<Rightarrow> error \<Rightarrow> bool" where
  "errors_Is (ErrWrap t e) target = (ErrWrap t e = target \<or> errors_Is e target)"
| "errors_Is (DomainError code message status cause details) target =
     (DomainError code message status cause details = target \<or>
      (case cause of None \<Rightarrow> False | Some e \<Rightarrow> errors_Is e target))"
| "errors_Is e target = (e = target)"

definition NewDomainError :: "string \<Rightarrow> string \<Rightarrow> int \<Rightarrow> error option \<Rightarrow> error" where
  "NewDomainError code message status cause = DomainError code message status cause []"

fun WithDetails :: "error \<Rightarrow> string \<Rightarrow> detail \<Rightarrow> error" where
  "WithDetails (DomainError code message status cause details) k v =
     DomainError code message status cause (AList.update k v details)"
| "WithDetails e k v = e"

definition NewURLNotReachableError :: "string \<Rightarrow> int \<Rightarrow> error option \<Rightarrow> error" where
  "NewURLNotReachableError url status cause =
     WithDetails (WithDetails
       (NewDomainError ''URL_NOT_REACHABLE'' (''URL '' @ url @ '' is not reachable'') status cause)
       ''url'' (DetailStr url)) ''status_code'' (DetailInt status)"

definition NewInvalidURLError :: "string \<Rightarrow> error option \<Rightarrow> error" where
  "NewInvalidURLError url cause =
     WithDetails (NewDomainError ''INVALID_URL'' (''Invalid URL: '' @ url) 400 cause)
       ''url'' (DetailStr url)"

definition NewTimeoutError :: "string \<Rightarrow> detail \<Rightarrow> error" where
  "NewTimeoutError url timeout =
     WithDetails (WithDetails
       (NewDomainError ''TIMEOUT_EXCEEDED'' (''Analysis timeout exceeded for URL: '' @ url) 408
          (Some (Sentinel ErrTimeoutExceeded)))
       ''url'' (DetailStr url)) ''timeout'' timeout"

definition NewRateLimitError :: "string \<Rightarrow> error" where
  "NewRateLimitError message =
     NewDomainError ''RATE_LIMITING_EXCEEDED'' message 429 (Some (Sentinel ErrRateLimitExceeded))"

definition NewUnauthorizedError :: "string \<Rightarrow> error" where
  "NewUnauthorizedError message =
     NewDomainError ''UNAUTHORIZED'' message 401 (Some (Sentinel ErrUnauthorized))"

definition NewInternalServerError :: "string \<Rightarrow> error option \<Rightarrow> error" where
  "NewInternalServerError message cause = NewDomainError ''INTERNAL_SERVER_ERROR'' message 500 cause"

definition NewConcurrentModificationError :: "string \<Rightarrow> int \<Rightarrow> int \<Rightarrow> error" where
  "NewConcurrentModificationError rid expected actual =
     WithDetails (WithDetails (WithDetails
       (NewDomainError ''CONCURRENT_MODIFICATION''
          (''Resource '' @ rid @ '' was modified by another process'') 409
          (Some (Sentinel ErrConcurrentModification)))
       ''resource_id'' (DetailStr rid)) ''expected_version'' (DetailInt expected))
       ''actual_version'' (DetailInt actual)"

lemma errors_Is_refl [simp]: "errors_Is e e"
  by (cases e) auto

lemma errors_Is_wrap [simp]: "errors_Is e target \<Longrightarrow> errors_Is (ErrWrap t e) target"
  by simp

lemma errors_Is_WithDetails [simp]:
  "(case target of DomainError _ _ _ _ _ \<Rightarrow> False | _ \<Rightarrow> True) \<Longrightarrow>
   errors_Is (WithDetails e k v) target = errors_Is e target"
  by (cases e) (auto split: error.splits)

lemma Error_WithDetails [simp]: "Error (WithDetails e k v) = Error e"
  by (cases e) auto

section \<open>Entities\<close>

text \<open>
  \<open>AnalysisStatus\<close> is a string type: besides the four constants any text can stand in a value
  decoded from JSON. The columns for the outbox status and the priority are enumerations of the
  database, so these two have the constants only.
\<close>

datatype analysis_status =
  StatusRequested | StatusInProgress | StatusCompleted | StatusFailed | StatusOther string

definition status_string :: "analysis_status \<Rightarrow> string" where
  "status_string s = (case s of
     StatusRequested \<Rightarrow> ''requested'' | StatusInProgress \<Rightarrow> ''in_progress''
   | StatusCompleted \<Rightarrow> ''completed'' | StatusFailed \<Rightarrow> ''failed'' | StatusOther t \<Rightarrow> t)"

definition status_of_string :: "string \<Rightarrow> analysis_status" where
  "status_of_string s =
     (if s = ''requested'' then StatusRequested
      else if s = ''in_progress'' then StatusInProgress
      else if s = ''completed'' then StatusCompleted
      else if s = ''failed'' then StatusFailed else StatusOther s)"

definition known_status :: "analysis_status \<Rightarrow> bool" where
  "known_status s \<longleftrightarrow> (case s of StatusOther _ \<Rightarrow> False | _ \<Rightarrow> True)"

lemma status_of_string_inverse [simp]:
  "known_status s \<Longrightarrow> status_of_string (status_string s) = s"
  by (cases s) (simp_all add: known_status_def status_string_def status_of_string_def)

datatype outbox_status =
  OutboxStatusPending | OutboxStatusProcessing | OutboxStatusPublished | OutboxStatusFailed

definition outbox_status_string :: "outbox_status \<Rightarrow> string" where
  "outbox_status_string s = (case s of
     OutboxStatusPending \<Rightarrow> ''pending'' | OutboxStatusProcessing \<Rightarrow> ''processing''
   | OutboxStatusPublished \<Rightarrow> ''published'' | OutboxStatusFailed \<Rightarrow> ''failed'')"

datatype priority = PriorityLow | PriorityNormal | PriorityHigh | PriorityUrgent

definition priority_string :: "priority \<Rightarrow> string" where
  "priority_string p = (case p of
     PriorityLow \<Rightarrow> ''low'' | PriorityNormal \<Rightarrow> ''normal'' | PriorityHigh \<Rightarrow> ''high''
   | PriorityUrgent \<Rightarrow> ''urgent'')"

definition priority_of_string :: "string \<Rightarrow> priority option" where
  "priority_of_string s =
     (if s = ''low'' then Some PriorityLow else if s = ''normal'' then Some PriorityNormal
      else if s = ''high'' then Some PriorityHigh else if s = ''urgent'' then Some PriorityUrgent
      else None)"

lemma priority_of_string_inverse [simp]: "priority_of_string (priority_string p) = Some p"
  by (cases p) (simp_all add: priority_string_def priority_of_string_def)

text \<open>
  The order of the database enumeration \<open>analysis_priority\<close> (migrations): the order of its
  declaration, low, normal, high, urgent.
\<close>

definition priority_rank :: "priority \<Rightarrow> nat" where
  "priority_rank p =
     (case p of PriorityLow \<Rightarrow> 0 | PriorityNormal \<Rightarrow> 1 | PriorityHigh \<Rightarrow> 2 | PriorityUrgent \<Rightarrow> 3)"

instantiation priority :: linorder
begin

definition less_eq_priority :: "priority \<Rightarrow> priority \<Rightarrow> bool" where
  "less_eq_priority p q \<longleftrightarrow> priority_rank p \<le> priority_rank q"

definition less_priority :: "priority \<Rightarrow> priority \<Rightarrow> bool" where
  "less_priority p q \<longleftrightarrow> priority_rank p < priority_rank q"

instance
proof
  fix p q r :: priority
  show "p < q \<longleftrightarrow> p \<le> q \<and> \<not> q \<le> p"
    by (auto simp: less_eq_priority_def less_priority_def)
  show "p \<le> p" by (simp add: less_eq_priority_def)
  show "p \<le> q \<Longrightarrow> q \<le> r \<Longrightarrow> p \<le> r" by (simp add: less_eq_priority_def)
  show "p \<le> q \<Longrightarrow> q \<le> p \<Longrightarrow> p = q"
    by (cases p; cases q) (simp_all add: less_eq_priority_def priority_rank_def)
  show "p \<le> q \<or> q \<le> p" by (auto simp: less_eq_priority_def)
qed

end

datatype outbox_event_type =
  OutboxEventAnalysisRequested | OutboxEventAnalysisRetry | OutboxEventOther string

definition event_type_string :: "outbox_event_type \<Rightarrow> string" where
  "event_type_string t = (case t of
     OutboxEventAnalysisRequested \<Rightarrow> ''analysis.requested''
   | OutboxEventAnalysisRetry \<Rightarrow> ''analysis.retry''
   | OutboxEventOther s \<Rightarrow> s)"

datatype link_type = LinkTypeInternal | LinkTypeExternal

text \<open>The remaining string types keep their texts.\<close>

type_synonym html_version = string
abbreviation (input) "HTML5 \<equiv> ''HTML5''"
abbreviation (input) "HTML401 \<equiv> ''HTML 4.01''"
abbreviation (input) "XHTML10 \<equiv> ''XHTML 1.0''"
abbreviation (input) "XHTML11 \<equiv> ''XHTML 1.1''"
abbreviation (input) "Unknown \<equiv> ''Unknown''"

text \<open>
  Slices whose being \<open>nil\<close> can be told from their being empty (\<open>encoding/json\<close> writes \<open>null\<close> or
  \<open>[]\<close>) are options; \<open>elems\<close> is what a loop over them sees.
\<close>

type_synonym 'a slice = "'a list option"

definition elems :: "'a slice \<Rightarrow> 'a list" where
  "elems s = (case s of None \<Rightarrow> [] | Some xs \<Rightarrow> xs)"

lemma elems_simps [simp]: "elems None = []" "elems (Some xs) = xs"
  by (simp_all add: elems_def)

definition go_append :: "'a slice \<Rightarrow> 'a \<Rightarrow> 'a slice" where
  "go_append s x = Some (elems s @ [x])"

lemma elems_go_append [simp]: "elems (go_append s x) = elems s @ [x]"
  by (simp add: go_append_def)

record link =
  link_url :: string
  link_type :: link_type

record heading_counts =
  H1 :: int
  H2 :: int
  H3 :: int
  H4 :: int
  H5 :: int
  H6 :: int

record inaccessible_link =
  il_url :: string
  il_status_code :: int
  il_error :: string

record link_analysis =
  la_internal_count :: int
  la_external_count :: int
  la_total_count :: int
  la_external_links :: "link slice"
  la_inaccessible_links :: "inaccessible_link slice"

record login_form =
  lf_method :: string
  lf_action :: string
  lf_fields :: "string slice"

record form_analysis =
  fa_total_count :: int
  fa_login_forms_detected :: int
  fa_login_form_details :: "login_form slice"

record analysis_data =
  ad_html_version :: html_version
  ad_title :: string
  ad_heading_counts :: heading_counts
  ad_links :: link_analysis
  ad_forms :: form_analysis
  ad_fetch_time :: int
  ad_processing_time :: int

record analysis_error =
  ae_code :: string
  ae_message :: string
  ae_status_code :: int
  ae_details :: string

record analysis =
  an_id :: uuid
  an_url :: string
  an_status :: analysis_status
  an_content_hash :: string
  an_content_size :: int
  an_created_at :: time
  an_completed_at :: "time option"
  an_duration :: "duration option"
  an_results :: "analysis_data option"
  an_error :: "analysis_error option"
  an_lock_version :: int

record analysis_options =
  include_headings :: bool
  check_links :: bool
  detect_forms :: bool
  opt_timeout :: duration

record web_page_content =
  wp_url :: string
  wp_status_code :: int
  wp_html :: string
  wp_content_type :: string
  wp_headers :: "(string \<times> string) list"
  wp_fetch_duration :: duration

record request_payload =
  rp_analysis_id :: uuid
  rp_url :: string
  rp_options :: analysis_options
  rp_priority :: priority
  rp_created_at :: time

text \<open>
  A JSON value; a time stands for its RFC 3339 text. The payload of an outbox event is an
  \<open>AnalysisRequestPayload\<close> or, for other event types, whatever JSON value the row holds.
\<close>

datatype json =
    JNull
  | JBool bool
  | JNum int
  | JStr string
  | JTime time
  | JArr "json list"
  | JObj "(string \<times> json) list"

datatype payload = AnalysisRequestPayload request_payload | GenericPayload json

record outbox_event =
  oe_id :: uuid
  oe_aggregate_id :: uuid
  oe_aggregate_type :: string
  oe_event_type :: outbox_event_type
  oe_priority :: priority
  oe_retry_count :: int
  oe_max_retries :: int
  oe_status :: outbox_status
  oe_payload :: payload
  oe_error_details :: "string option"
  oe_created_at :: time
  oe_started_at :: "time option"
  oe_published_at :: "time option"
  oe_processed_at :: "time option"
  oe_completed_at :: "time option"
  oe_next_retry_at :: "time option"

record process_result =
  pr_success :: bool
  pr_content_hash :: string
  pr_error_code :: string
  pr_error_message :: string

record publish_result =
  pu_published :: bool
  pu_error :: string

section \<open>Methods of the entities\<close>

text \<open>\<open>Time.Sub\<close> saturates at the range of a duration.\<close>

definition time_Sub :: "time \<Rightarrow> time \<Rightarrow> duration" where
  "time_Sub t u = max (- (2 ^ 63)) (min (2 ^ 63 - 1) (t - u))"

definition CalculateDuration :: "analysis \<Rightarrow> duration" where
  "CalculateDuration a =
     (case an_completed_at a of None \<Rightarrow> 0 | Some t \<Rightarrow> time_Sub t (an_created_at a))"

definition UpdateContentHash :: "analysis \<Rightarrow> string \<Rightarrow> analysis" where
  "UpdateContentHash a hash = a\<lparr>an_content_hash := hash\<rparr>"

definition IncrementVersion :: "analysis \<Rightarrow> analysis" where
  "IncrementVersion a = a\<lparr>an_lock_version := int64 (an_lock_version a + 1)\<rparr>"

definition CheckVersion :: "analysis \<Rightarrow> int \<Rightarrow> unit result" where
  "CheckVersion a expected =
     (if an_lock_version a \<noteq> expected
      then Inl (OptimisticLockError expected (an_lock_version a)) else Inr ())"

definition MarkPublished :: "outbox_event \<Rightarrow> time \<Rightarrow> outbox_event result" where
  "MarkPublished e t =
     (if oe_status e \<noteq> OutboxStatusProcessing
      then Inl (InvalidStateTransitionError (outbox_status_string (oe_status e))
                  (outbox_status_string OutboxStatusPublished))
      else Inr (e\<lparr>oe_status := OutboxStatusPublished, oe_published_at := Some t\<rparr>))"

definition MarkProcessed :: "outbox_event \<Rightarrow> time \<Rightarrow> outbox_event result" where
  "MarkProcessed e t =
     (if oe_status e \<noteq> OutboxStatusPublished
      then Inl (InvalidStateTransitionError (outbox_status_string (oe_status e)) ''processed'')
      else Inr (e\<lparr>oe_processed_at := Some t\<rparr>))"

definition MarkCompleted :: "outbox_event \<Rightarrow> time \<Rightarrow> outbox_event result" where
  "MarkCompleted e t =
     (if oe_processed_at e = None
      then Inl (InvalidStateTransitionError (outbox_status_string (oe_status e)) ''completed'')
      else Inr (e\<lparr>oe_completed_at := Some t\<rparr>))"

definition MarkFailed :: "outbox_event \<Rightarrow> string \<Rightarrow> time option \<Rightarrow> outbox_event result" where
  "MarkFailed e details next_retry =
     (if oe_max_retries e \<le> oe_retry_count e
      then Inl (MaxRetriesExceededError (uuid_string (oe_id e)) (oe_retry_count e) (oe_max_retries e))
      else Inr (e\<lparr>oe_status := OutboxStatusFailed, oe_error_details := Some details,
                  oe_next_retry_at := next_retry, oe_retry_count := int64 (oe_retry_count e + 1)\<rparr>))"

definition CanRetry :: "outbox_event \<Rightarrow> bool" where
  "CanRetry e \<longleftrightarrow> oe_retry_count e < oe_max_retries e"

section \<open>The life of an outbox event under its methods\<close>

text \<open>
  A program that holds an \<open>*OutboxEvent\<close> can only call its methods; a call that returns an error
  leaves the event as it is.
\<close>

datatype outbox_call =
    CallPublished time
  | CallProcessed time
  | CallCompleted time
  | CallFailed string "time option"

fun outbox_method :: "outbox_event \<Rightarrow> outbox_call \<Rightarrow> outbox_event result" where
  "outbox_method e (CallPublished t) = MarkPublished e t"
| "outbox_method e (CallProcessed t) = MarkProcessed e t"
| "outbox_method e (CallCompleted t) = MarkCompleted e t"
| "outbox_method e (CallFailed d t) = MarkFailed e d t"

fun outbox_calls :: "outbox_event \<Rightarrow> outbox_call list \<Rightarrow> outbox_event" where
  "outbox_calls e [] = e"
| "outbox_calls e (c # cs) =
     (case outbox_method e c of Inl _ \<Rightarrow> outbox_calls e cs | Inr e' \<Rightarrow> outbox_calls e' cs)"

definition outbox_timeline :: "outbox_event \<Rightarrow> bool" where
  "outbox_timeline e \<longleftrightarrow>
     (oe_status e = OutboxStatusPublished \<longrightarrow> oe_published_at e \<noteq> None) \<and>
     (oe_processed_at e \<noteq> None \<longrightarrow> oe_published_at e \<noteq> None) \<and>
     (oe_completed_at e \<noteq> None \<longrightarrow> oe_processed_at e \<noteq> None) \<and>
     oe_retry_count e \<le> oe_max_retries e \<and>
     in_int64 (oe_retry_count e) \<and> in_int64 (oe_max_retries e)"

lemmas outbox_method_defs = MarkPublished_def MarkProcessed_def MarkCompleted_def MarkFailed_def

lemma int64_succ_below: "x < y \<Longrightarrow> in_int64 x \<Longrightarrow> in_int64 y \<Longrightarrow> int64 (x + 1) = x + 1"
  by (rule int64_id) (simp add: in_int64_def)

lemma in_int64_succ: "x < y \<Longrightarrow> in_int64 x \<Longrightarrow> in_int64 y \<Longrightarrow> in_int64 (x + 1)"
  by (simp add: in_int64_def)

lemma outbox_method_timeline:
  "outbox_timeline e \<Longrightarrow> outbox_method e c = Inr e' \<Longrightarrow> outbox_timeline e'"
  using int64_succ_below [of "oe_retry_count e" "oe_max_retries e"]
    in_int64_succ [of "oe_retry_count e" "oe_max_retries e"]
  by (cases c) (auto simp: outbox_timeline_def outbox_method_defs split: if_splits)

lemma outbox_calls_timeline: "outbox_timeline e \<Longrightarrow> outbox_timeline (outbox_calls e cs)"
  by (induction e cs rule: outbox_calls.induct)
     (auto split: sum.splits dest: outbox_method_timeline)

lemma outbox_method_frame:
  "outbox_method e c = Inr e' \<Longrightarrow>
     oe_id e' = oe_id e \<and> oe_aggregate_id e' = oe_aggregate_id e \<and> oe_payload e' = oe_payload e \<and>
     oe_max_retries e' = oe_max_retries e"
  by (cases c) (auto simp: outbox_method_defs split: if_splits)

lemma MarkFailed_ok_iff: "(\<exists>e'. MarkFailed e d t = Inr e') \<longleftrightarrow> CanRetry e"
  by (auto simp: MarkFailed_def CanRetry_def)

end
