(* ===== verification/Json.thy ===== *)
theory Json
  imports Domain
begin

text \<open>
  \<open>encoding/json\<close> as the service uses it, on JSON values rather than on their text: the encoders
  follow the struct tags of \<open>internal/domain/analysis.go\<close> (names, \<open>omitempty\<close>, fields that are not
  written), the decoders what \<open>json.Unmarshal\<close> does with a struct: a missing or \<open>null\<close> field
  keeps its zero value, a value of another kind is an error. A time stands for its RFC 3339 text.
\<close>

section \<open>JSON values\<close>

definition json_type_error :: error where
  "json_type_error = ErrText ''json: cannot unmarshal value into Go value''"

definition bind_result :: "'a result \<Rightarrow> ('a \<Rightarrow> 'b result) \<Rightarrow> 'b result" where
  "bind_result r f = (case r of Inl e \<Rightarrow> Inl e | Inr x \<Rightarrow> f x)"

lemma bind_result_simps [simp]: "bind_result (Inl e) f = Inl e" "bind_result (Inr x) f = f x"
  by (simp_all add: bind_result_def)

fun map_result :: "('a \<Rightarrow> 'b result) \<Rightarrow> 'a list \<Rightarrow> 'b list result" where
  "map_result f [] = Inr []"
| "map_result f (x # xs) = bind_result (f x) (\<lambda>y. bind_result (map_result f xs) (\<lambda>ys. Inr (y # ys)))"

lemma map_result_map:
  "(\<And>x. x \<in> set xs \<Longrightarrow> f (g x) = Inr (h x)) \<Longrightarrow> map_result f (map g xs) = Inr (map h xs)"
  by (induction xs) auto

lemma map_result_all2: "map_result f xs = Inr ys \<Longrightarrow> list_all2 (\<lambda>x y. f x = Inr y) xs ys"
  by (induction xs arbitrary: ys) (auto simp: bind_result_def split: sum.splits)

definition json_field :: "string \<Rightarrow> (json \<Rightarrow> 'a result) \<Rightarrow> 'a \<Rightarrow> (string \<times> json) list \<Rightarrow> 'a result" where
  "json_field k dec zero fs =
     (case map_of fs k of None \<Rightarrow> Inr zero | Some j \<Rightarrow> if j = JNull then Inr zero else dec j)"

definition json_struct :: "((string \<times> json) list \<Rightarrow> 'a result) \<Rightarrow> 'a \<Rightarrow> json \<Rightarrow> 'a result" where
  "json_struct f zero j =
     (case j of JNull \<Rightarrow> Inr zero | JObj fs \<Rightarrow> f fs | _ \<Rightarrow> Inl json_type_error)"

definition dec_string :: "json \<Rightarrow> string result" where
  "dec_string j = (case j of JStr s \<Rightarrow> Inr s | _ \<Rightarrow> Inl json_type_error)"

lemma dec_string_JStr [simp]: "dec_string (JStr s) = Inr s"
  by (simp add: dec_string_def)

definition dec_bool :: "json \<Rightarrow> bool result" where
  "dec_bool j = (case j of JBool b \<Rightarrow> Inr b | _ \<Rightarrow> Inl json_type_error)"

definition dec_int :: "json \<Rightarrow> int result" where
  "dec_int j =
     (case j of JNum i \<Rightarrow> if in_int64 i then Inr i else Inl json_type_error | _ \<Rightarrow> Inl json_type_error)"

definition dec_uint :: "json \<Rightarrow> int result" where
  "dec_uint j =
     (case j of JNum i \<Rightarrow> if 0 \<le> i \<and> i < 2 ^ 64 then Inr i else Inl json_type_error
      | _ \<Rightarrow> Inl json_type_error)"

definition dec_time :: "json \<Rightarrow> time result" where
  "dec_time j = (case j of JTime t \<Rightarrow> Inr t | _ \<Rightarrow> Inl json_type_error)"

definition dec_slice :: "(json \<Rightarrow> 'a result) \<Rightarrow> json \<Rightarrow> 'a slice result" where
  "dec_slice dec j =
     (case j of JArr js \<Rightarrow> bind_result (map_result dec js) (\<lambda>xs. Inr (Some xs))
      | _ \<Rightarrow> Inl json_type_error)"

definition dec_pointer :: "(json \<Rightarrow> 'a result) \<Rightarrow> json \<Rightarrow> 'a option result" where
  "dec_pointer dec j = bind_result (dec j) (\<lambda>x. Inr (Some x))"

definition enc_slice :: "('a \<Rightarrow> json) \<Rightarrow> 'a slice \<Rightarrow> json" where
  "enc_slice enc s = (case s of None \<Rightarrow> JNull | Some xs \<Rightarrow> JArr (map enc xs))"

text \<open>\<open>omitempty\<close>: the field is left out when it has its zero value.\<close>

definition omit_if :: "bool \<Rightarrow> string \<times> json \<Rightarrow> (string \<times> json) list" where
  "omit_if b f = (if b then [] else [f])"

lemmas dec_simps = dec_string_def dec_bool_def dec_int_def dec_uint_def dec_time_def
  dec_pointer_def json_field_def json_struct_def

lemma dec_slice_enc:
  "(\<And>x. x \<in> set (elems s) \<Longrightarrow> dec (enc x) = Inr x) \<Longrightarrow>
   (if enc_slice enc s = JNull then Inr None else dec_slice dec (enc_slice enc s)) = Inr s"
  by (cases s) (auto simp: enc_slice_def dec_slice_def map_result_map [where h = "\<lambda>x. x"])

section \<open>The values of the domain\<close>

definition enc_heading_counts :: "heading_counts \<Rightarrow> json" where
  "enc_heading_counts h =
     JObj [(''h1'', JNum (H1 h)), (''h2'', JNum (H2 h)), (''h3'', JNum (H3 h)),
           (''h4'', JNum (H4 h)), (''h5'', JNum (H5 h)), (''h6'', JNum (H6 h))]"

definition zero_heading_counts :: heading_counts where
  "zero_heading_counts = \<lparr>H1 = 0, H2 = 0, H3 = 0, H4 = 0, H5 = 0, H6 = 0\<rparr>"

definition dec_heading_counts :: "json \<Rightarrow> heading_counts result" where
  "dec_heading_counts = json_struct (\<lambda>ob.
     bind_result (json_field ''h1'' dec_int 0 ob) (\<lambda>a.
     bind_result (json_field ''h2'' dec_int 0 ob) (\<lambda>b.
     bind_result (json_field ''h3'' dec_int 0 ob) (\<lambda>c.
     bind_result (json_field ''h4'' dec_int 0 ob) (\<lambda>d.
     bind_result (json_field ''h5'' dec_int 0 ob) (\<lambda>e.
     bind_result (json_field ''h6'' dec_int 0 ob) (\<lambda>f.
       Inr \<lparr>H1 = a, H2 = b, H3 = c, H4 = d, H5 = e, H6 = f\<rparr>)))))))
     zero_heading_counts"

definition enc_inaccessible_link :: "inaccessible_link \<Rightarrow> json" where
  "enc_inaccessible_link l =
     JObj [(''url'', JStr (il_url l)), (''status_code'', JNum (il_status_code l)),
           (''error'', JStr (il_error l))]"

definition dec_inaccessible_link :: "json \<Rightarrow> inaccessible_link result" where
  "dec_inaccessible_link = json_struct (\<lambda>ob.
     bind_result (json_field ''url'' dec_string [] ob) (\<lambda>u.
     bind_result (json_field ''status_code'' dec_int 0 ob) (\<lambda>s.
     bind_result (json_field ''error'' dec_string [] ob) (\<lambda>e.
       Inr \<lparr>il_url = u, il_status_code = s, il_error = e\<rparr>))))
     \<lparr>il_url = [], il_status_code = 0, il_error = []\<rparr>"

text \<open>\<open>ExternalLinks\<close> has the tag \<open>json:"-"\<close>: it is neither written nor read.\<close>

definition enc_link_analysis :: "link_analysis \<Rightarrow> json" where
  "enc_link_analysis l =
     JObj [(''internal_count'', JNum (la_internal_count l)),
           (''external_count'', JNum (la_external_count l)),
           (''total_count'', JNum (la_total_count l)),
           (''inaccessible_links'', enc_slice enc_inaccessible_link (la_inaccessible_links l))]"

definition zero_link_analysis :: link_analysis where
  "zero_link_analysis =
     \<lparr>la_internal_count = 0, la_external_count = 0, la_total_count = 0,
      la_external_links = None, la_inaccessible_links = None\<rparr>"

definition dec_link_analysis :: "json \<Rightarrow> link_analysis result" where
  "dec_link_analysis = json_struct (\<lambda>ob.
     bind_result (json_field ''internal_count'' dec_int 0 ob) (\<lambda>i.
     bind_result (json_field ''external_count'' dec_int 0 ob) (\<lambda>x.
     bind_result (json_field ''total_count'' dec_int 0 ob) (\<lambda>t.
     bind_result (json_field ''inaccessible_links'' (dec_slice dec_inaccessible_link) None ob) (\<lambda>l.
       Inr \<lparr>la_internal_count = i, la_external_count = x, la_total_count = t,
            la_external_links = None, la_inaccessible_links = l\<rparr>)))))
     zero_link_analysis"

definition enc_login_form :: "login_form \<Rightarrow> json" where
  "enc_login_form f =
     JObj [(''method'', JStr (lf_method f)), (''action'', JStr (lf_action f)),
           (''fields'', enc_slice JStr (lf_fields f))]"

definition dec_login_form :: "json \<Rightarrow> login_form result" where
  "dec_login_form = json_struct (\<lambda>ob.
     bind_result (json_field ''method'' dec_string [] ob) (\<lambda>m.
     bind_result (json_field ''action'' dec_string [] ob) (\<lambda>a.
     bind_result (json_field ''fields'' (dec_slice dec_string) None ob) (\<lambda>f.
       Inr \<lparr>lf_method = m, lf_action = a, lf_fields = f\<rparr>))))
     \<lparr>lf_method = [], lf_action = [], lf_fields = None\<rparr>"

definition enc_form_analysis :: "form_analysis \<Rightarrow> json" where
  "enc_form_analysis f =
     JObj [(''total_count'', JNum (fa_total_count f)),
           (''login_forms_detected'', JNum (fa_login_forms_detected f)),
           (''login_form_details'', enc_slice enc_login_form (fa_login_form_details f))]"

definition zero_form_analysis :: form_analysis where
  "zero_form_analysis =
     \<lparr>fa_total_count = 0, fa_login_forms_detected = 0, fa_login_form_details = None\<rparr>"

definition dec_form_analysis :: "json \<Rightarrow> form_analysis result" where
  "dec_form_analysis = json_struct (\<lambda>ob.
     bind_result (json_field ''total_count'' dec_int 0 ob) (\<lambda>t.
     bind_result (json_field ''login_forms_detected'' dec_int 0 ob) (\<lambda>n.
     bind_result (json_field ''login_form_details'' (dec_slice dec_login_form) None ob) (\<lambda>d.
       Inr \<lparr>fa_total_count = t, fa_login_forms_detected = n, fa_login_form_details = d\<rparr>))))
     zero_form_analysis"

definition enc_analysis_data :: "analysis_data \<Rightarrow> json" where
  "enc_analysis_data d =
     JObj [(''html_version'', JStr (ad_html_version d)), (''title'', JStr (ad_title d)),
           (''heading_counts'', enc_heading_counts (ad_heading_counts d)),
           (''links'', enc_link_analysis (ad_links d)), (''forms'', enc_form_analysis (ad_forms d)),
           (''fetch_time'', JNum (ad_fetch_time d)),
           (''processing_time'', JNum (ad_processing_time d))]"

definition zero_analysis_data :: analysis_data where
  "zero_analysis_data =
     \<lparr>ad_html_version = [], ad_title = [], ad_heading_counts = zero_heading_counts,
      ad_links = zero_link_analysis, ad_forms = zero_form_analysis,
      ad_fetch_time = 0, ad_processing_time = 0\<rparr>"

definition dec_analysis_data :: "json \<Rightarrow> analysis_data result" where
  "dec_analysis_data = json_struct (\<lambda>ob.
     bind_result (json_field ''html_version'' dec_string [] ob) (\<lambda>v.
     bind_result (json_field ''title'' dec_string [] ob) (\<lambda>t.
     bind_result (json_field ''heading_counts'' dec_heading_counts zero_heading_counts ob) (\<lambda>h.
     bind_result (json_field ''links'' dec_link_analysis zero_link_analysis ob) (\<lambda>l.
     bind_result (json_field ''forms'' dec_form_analysis zero_form_analysis ob) (\<lambda>f.
     bind_result (json_field ''fetch_time'' dec_uint 0 ob) (\<lambda>ft.
     bind_result (json_field ''processing_time'' dec_uint 0 ob) (\<lambda>pt.
       Inr \<lparr>ad_html_version = v, ad_title = t, ad_heading_counts = h, ad_links = l,
            ad_forms = f, ad_fetch_time = ft, ad_processing_time = pt\<rparr>))))))))
     zero_analysis_data"

definition enc_analysis_error :: "analysis_error \<Rightarrow> json" where
  "enc_analysis_error e =
     JObj ([(''code'', JStr (ae_code e)), (''message'', JStr (ae_message e))] @
       omit_if (ae_status_code e = 0) (''status_code'', JNum (ae_status_code e)) @
       omit_if (ae_details e = []) (''details'', JStr (ae_details e)))"

definition dec_analysis_error :: "json \<Rightarrow> analysis_error result" where
  "dec_analysis_error = json_struct (\<lambda>ob.
     bind_result (json_field ''code'' dec_string [] ob) (\<lambda>c.
     bind_result (json_field ''message'' dec_string [] ob) (\<lambda>m.
     bind_result (json_field ''status_code'' dec_int 0 ob) (\<lambda>s.
     bind_result (json_field ''details'' dec_string [] ob) (\<lambda>d.
       Inr \<lparr>ae_code = c, ae_message = m, ae_status_code = s, ae_details = d\<rparr>)))))
     \<lparr>ae_code = [], ae_message = [], ae_status_code = 0, ae_details = []\<rparr>"

text \<open>
  \<open>Analysis\<close>: \<open>LockVersion\<close> has the tag \<open>json:"-"\<close>; pointers and numbers are left out when they are
  \<open>nil\<close> or zero.
\<close>

definition enc_analysis :: "analysis \<Rightarrow> json" where
  "enc_analysis a =
     JObj ([(''analysis_id'', JStr (uuid_string (an_id a))), (''url'', JStr (an_url a)),
            (''status'', JStr (status_string (an_status a)))] @
       omit_if (an_content_hash a = []) (''content_hash'', JStr (an_content_hash a)) @
       omit_if (an_content_size a = 0) (''content_size'', JNum (an_content_size a)) @
       [(''created_at'', JTime (an_created_at a))] @
       omit_if (an_completed_at a = None) (''completed_at'', JTime (the (an_completed_at a))) @
       omit_if (an_duration a = None) (''duration'', JNum (the (an_duration a))) @
       omit_if (an_results a = None) (''results'', enc_analysis_data (the (an_results a))) @
       omit_if (an_error a = None) (''error'', enc_analysis_error (the (an_error a))))"

definition dec_uuid :: "json \<Rightarrow> uuid result" where
  "dec_uuid j = bind_result (dec_string j) (\<lambda>s. Inr (UUID s))"

definition zero_analysis :: analysis where
  "zero_analysis =
     \<lparr>an_id = uuid_Nil, an_url = [], an_status = status_of_string [], an_content_hash = [],
      an_content_size = 0, an_created_at = 0, an_completed_at = None, an_duration = None,
      an_results = None, an_error = None, an_lock_version = 0\<rparr>"

definition dec_analysis :: "json \<Rightarrow> analysis result" where
  "dec_analysis = json_struct (\<lambda>ob.
     bind_result (json_field ''analysis_id'' dec_uuid uuid_Nil ob) (\<lambda>i.
     bind_result (json_field ''url'' dec_string [] ob) (\<lambda>u.
     bind_result (json_field ''status'' dec_string [] ob) (\<lambda>s.
     bind_result (json_field ''content_hash'' dec_string [] ob) (\<lambda>ch.
     bind_result (json_field ''content_size'' dec_int 0 ob) (\<lambda>cs.
     bind_result (json_field ''created_at'' dec_time 0 ob) (\<lambda>ca.
     bind_result (json_field ''completed_at'' (dec_pointer dec_time) None ob) (\<lambda>co.
     bind_result (json_field ''duration'' (dec_pointer dec_int) None ob) (\<lambda>du.
     bind_result (json_field ''results'' (dec_pointer dec_analysis_data) None ob) (\<lambda>re.
     bind_result (json_field ''error'' (dec_pointer dec_analysis_error) None ob) (\<lambda>er.
       Inr \<lparr>an_id = i, an_url = u, an_status = status_of_string s, an_content_hash = ch,
            an_content_size = cs, an_created_at = ca, an_completed_at = co, an_duration = du,
            an_results = re, an_error = er, an_lock_version = 0\<rparr>)))))))))))
     zero_analysis"

definition enc_options :: "analysis_options \<Rightarrow> json" where
  "enc_options p =
     JObj [(''include_headings'', JBool (include_headings p)), (''check_links'', JBool (check_links p)),
           (''detect_forms'', JBool (detect_forms p)), (''timeout'', JNum (opt_timeout p))]"

definition zero_options :: analysis_options where
  "zero_options =
     \<lparr>include_headings = False, check_links = False, detect_forms = False, opt_timeout = 0\<rparr>"

definition dec_options :: "json \<Rightarrow> analysis_options result" where
  "dec_options = json_struct (\<lambda>ob.
     bind_result (json_field ''include_headings'' dec_bool False ob) (\<lambda>h.
     bind_result (json_field ''check_links'' dec_bool False ob) (\<lambda>c.
     bind_result (json_field ''detect_forms'' dec_bool False ob) (\<lambda>f.
     bind_result (json_field ''timeout'' dec_int 0 ob) (\<lambda>t.
       Inr \<lparr>include_headings = h, check_links = c, detect_forms = f, opt_timeout = t\<rparr>)))))
     zero_options"

definition enc_payload :: "request_payload \<Rightarrow> json" where
  "enc_payload p =
     JObj [(''analysis_id'', JStr (uuid_string (rp_analysis_id p))), (''url'', JStr (rp_url p)),
           (''options'', enc_options (rp_options p)),
           (''priority'', JStr (priority_string (rp_priority p))),
           (''created_at'', JTime (rp_created_at p))]"

text \<open>
  The priority of a payload is a string in the code and is not read again after decoding; a text
  outside the four constants is read as \<open>normal\<close> here.
\<close>

definition dec_priority :: "json \<Rightarrow> priority result" where
  "dec_priority j = bind_result (dec_string j) (\<lambda>s.
     Inr (case priority_of_string s of None \<Rightarrow> PriorityNormal | Some p \<Rightarrow> p))"

definition dec_payload :: "json \<Rightarrow> request_payload result" where
  "dec_payload = json_struct (\<lambda>ob.
     bind_result (json_field ''analysis_id'' dec_uuid uuid_Nil ob) (\<lambda>i.
     bind_result (json_field ''url'' dec_string [] ob) (\<lambda>u.
     bind_result (json_field ''options'' dec_options zero_options ob) (\<lambda>p.
     bind_result (json_field ''priority'' dec_priority PriorityNormal ob) (\<lambda>q.
     bind_result (json_field ''created_at'' dec_time 0 ob) (\<lambda>t.
       Inr \<lparr>rp_analysis_id = i, rp_url = u, rp_options = p, rp_priority = q,
            rp_created_at = t\<rparr>))))))
     \<lparr>rp_analysis_id = uuid_Nil, rp_url = [], rp_options = zero_options,
      rp_priority = PriorityNormal, rp_created_at = 0\<rparr>"

section \<open>Decoding what was encoded\<close>

text \<open>
  The integers a Go value can hold: \<open>int\<close> and \<open>int64\<close> fields in the signed range, the two
  \<open>uint64\<close> fields in the unsigned one.
\<close>

definition links_in_range :: "link_analysis \<Rightarrow> bool" where
  "links_in_range l \<longleftrightarrow> in_int64 (la_internal_count l) \<and> in_int64 (la_external_count l) \<and>
     in_int64 (la_total_count l) \<and> (\<forall>x \<in> set (elems (la_inaccessible_links l)). in_int64 (il_status_code x))"

definition data_in_range :: "analysis_data \<Rightarrow> bool" where
  "data_in_range d \<longleftrightarrow>
     (let h = ad_heading_counts d in in_int64 (H1 h) \<and> in_int64 (H2 h) \<and> in_int64 (H3 h) \<and>
        in_int64 (H4 h) \<and> in_int64 (H5 h) \<and> in_int64 (H6 h)) \<and>
     links_in_range (ad_links d) \<and>
     in_int64 (fa_total_count (ad_forms d)) \<and> in_int64 (fa_login_forms_detected (ad_forms d)) \<and>
     0 \<le> ad_fetch_time d \<and> ad_fetch_time d < 2 ^ 64 \<and>
     0 \<le> ad_processing_time d \<and> ad_processing_time d < 2 ^ 64"

definition analysis_in_range :: "analysis \<Rightarrow> bool" where
  "analysis_in_range a \<longleftrightarrow> in_int64 (an_content_size a) \<and>
     (case an_duration a of None \<Rightarrow> True | Some d \<Rightarrow> in_int64 d) \<and>
     (case an_results a of None \<Rightarrow> True | Some d \<Rightarrow> data_in_range d) \<and>
     (case an_error a of None \<Rightarrow> True | Some e \<Rightarrow> in_int64 (ae_status_code e)) \<and>
     known_status (an_status a)"

text \<open>What survives the encoding: everything but the two fields with the tag \<open>json:"-"\<close>.\<close>

definition json_view_data :: "analysis_data \<Rightarrow> analysis_data" where
  "json_view_data d = d\<lparr>ad_links := (ad_links d)\<lparr>la_external_links := None\<rparr>\<rparr>"

definition json_view :: "analysis \<Rightarrow> analysis" where
  "json_view a = a\<lparr>an_lock_version := 0, an_results := map_option json_view_data (an_results a)\<rparr>"

lemma dec_enc_heading_counts:
  "in_int64 (H1 h) \<Longrightarrow> in_int64 (H2 h) \<Longrightarrow> in_int64 (H3 h) \<Longrightarrow> in_int64 (H4 h) \<Longrightarrow> in_int64 (H5 h) \<Longrightarrow>
   in_int64 (H6 h) \<Longrightarrow> dec_heading_counts (enc_heading_counts h) = Inr h"
  by (simp add: dec_heading_counts_def enc_heading_counts_def dec_simps)

lemma dec_enc_inaccessible_link:
  "in_int64 (il_status_code l) \<Longrightarrow> dec_inaccessible_link (enc_inaccessible_link l) = Inr l"
  by (simp add: dec_inaccessible_link_def enc_inaccessible_link_def dec_simps)

lemma json_field_slice:
  "(\<And>x. x \<in> set (elems s) \<Longrightarrow> dec (enc x) = Inr x) \<Longrightarrow> map_of fs k = Some (enc_slice enc s) \<Longrightarrow>
   json_field k (dec_slice dec) None fs = Inr s"
  by (simp add: json_field_def dec_slice_enc)

lemma dec_enc_link_analysis:
  "links_in_range l \<Longrightarrow> dec_link_analysis (enc_link_analysis l) = Inr (l\<lparr>la_external_links := None\<rparr>)"
  using json_field_slice [of "la_inaccessible_links l" dec_inaccessible_link enc_inaccessible_link]
  by (simp add: links_in_range_def dec_link_analysis_def enc_link_analysis_def json_struct_def
      dec_enc_inaccessible_link) (simp add: dec_simps)

lemma dec_enc_login_form: "dec_login_form (enc_login_form f) = Inr f"
  using json_field_slice [of "lf_fields f" dec_string JStr]
  by (simp add: dec_login_form_def enc_login_form_def json_struct_def)
     (simp add: json_field_def)

lemma dec_enc_form_analysis:
  "in_int64 (fa_total_count f) \<Longrightarrow> in_int64 (fa_login_forms_detected f) \<Longrightarrow>
   dec_form_analysis (enc_form_analysis f) = Inr f"
  using json_field_slice [of "fa_login_form_details f" dec_login_form enc_login_form]
  by (simp add: dec_form_analysis_def enc_form_analysis_def json_struct_def dec_enc_login_form)
     (simp add: dec_simps)

lemma enc_not_null [simp]:
  "enc_heading_counts h \<noteq> JNull" "enc_link_analysis l \<noteq> JNull" "enc_form_analysis f \<noteq> JNull"
  "enc_analysis_data d \<noteq> JNull" "enc_analysis_error e \<noteq> JNull" "enc_analysis a \<noteq> JNull"
  "enc_options p \<noteq> JNull" "enc_payload q \<noteq> JNull"
  by (simp_all add: enc_heading_counts_def enc_link_analysis_def enc_form_analysis_def
      enc_analysis_data_def enc_analysis_error_def enc_analysis_def enc_options_def enc_payload_def)

lemma dec_enc_analysis_data:
  "data_in_range d \<Longrightarrow> dec_analysis_data (enc_analysis_data d) = Inr (json_view_data d)"
  by (simp add: data_in_range_def Let_def dec_analysis_data_def enc_analysis_data_def json_struct_def
      json_field_def dec_enc_heading_counts dec_enc_link_analysis dec_enc_form_analysis
      dec_string_def dec_uint_def json_view_data_def)

lemma dec_enc_analysis_error:
  "in_int64 (ae_status_code e) \<Longrightarrow> dec_analysis_error (enc_analysis_error e) = Inr e"
  by (simp add: dec_analysis_error_def enc_analysis_error_def omit_if_def dec_simps)

lemma map_of_omit_if [simp]:
  "map_of (omit_if b (k, v) @ xs) k' = (if \<not> b \<and> k = k' then Some v else map_of xs k')"
  "map_of (omit_if b (k, v)) k' = (if \<not> b \<and> k = k' then Some v else None)"
  by (simp_all add: omit_if_def)

lemma dec_enc_analysis:
  assumes "analysis_in_range a"
  shows "dec_analysis (enc_analysis a) = Inr (json_view a)"
proof -
  have id: "dec_uuid (JStr (uuid_string (an_id a))) = Inr (an_id a)"
    by (cases "an_id a") (simp add: dec_uuid_def dec_string_def)
  have "json_field ''completed_at'' (dec_pointer dec_time) None
      (case enc_analysis a of JObj ob \<Rightarrow> ob) = Inr (an_completed_at a)"
    by (cases "an_completed_at a") (simp_all add: enc_analysis_def dec_simps del: map_of_append)
  moreover have "json_field ''duration'' (dec_pointer dec_int) None
      (case enc_analysis a of JObj ob \<Rightarrow> ob) = Inr (an_duration a)"
    using assms by (cases "an_duration a") (simp_all add: enc_analysis_def dec_simps analysis_in_range_def del: map_of_append)
  moreover have "json_field ''results'' (dec_pointer dec_analysis_data) None
      (case enc_analysis a of JObj ob \<Rightarrow> ob) = Inr (map_option json_view_data (an_results a))"
    using assms by (cases "an_results a")
      (simp_all add: enc_analysis_def json_field_def dec_pointer_def analysis_in_range_def dec_enc_analysis_data del: map_of_append)
  moreover have "json_field ''error'' (dec_pointer dec_analysis_error) None
      (case enc_analysis a of JObj ob \<Rightarrow> ob) = Inr (an_error a)"
    using assms by (cases "an_error a")
      (simp_all add: enc_analysis_def json_field_def dec_pointer_def analysis_in_range_def dec_enc_analysis_error del: map_of_append)
  ultimately show ?thesis
    using assms id
    by (simp add: enc_analysis_def dec_analysis_def json_struct_def del: map_of_append)
       (simp add: json_field_def dec_int_def dec_time_def json_view_def analysis_in_range_def del: map_of_append)
qed

lemma dec_enc_options: "in_int64 (opt_timeout p) \<Longrightarrow> dec_options (enc_options p) = Inr p"
  by (simp add: dec_options_def enc_options_def dec_simps)

lemma dec_enc_payload:
  assumes "in_int64 (opt_timeout (rp_options p))"
  shows "dec_payload (enc_payload p) = Inr p"
proof -
  have "dec_uuid (JStr (uuid_string (rp_analysis_id p))) = Inr (rp_analysis_id p)"
    by (cases "rp_analysis_id p") (simp add: dec_uuid_def dec_string_def)
  with assms show ?thesis
    by (simp add: dec_payload_def enc_payload_def json_struct_def json_field_def dec_enc_options
        dec_string_def dec_time_def dec_priority_def)
qed

lemma json_view_idem [simp]: "json_view (json_view a) = json_view a"
  by (cases "an_results a") (simp_all add: json_view_def json_view_data_def)

end
