(* ===== verification/Net.thy ===== *)
theory Net
  imports Domain
begin

text \<open>
  URLs and addresses. The struct \<open>url.URL\<close> is modelled with the fields the service reads and
  writes; parsing a URL, writing it out and resolving a reference (\<open>url.Parse\<close>, \<open>URL.String\<close>,
  \<open>URL.ResolveReference\<close>) are parameters wherever they are used. \<open>URL.Hostname\<close>, \<open>net.ParseIP\<close> and
  \<open>IP.To4\<close> decide which hosts the fetcher refuses, so these are modelled in full.
  The value objects of \<open>value_objects.go\<close> are here too.
\<close>

section \<open>URLs\<close>

record url =
  Scheme :: string
  Opaque :: string
  User :: "string option"
  Host :: string
  Path :: string
  RawPath :: string
  RawQuery :: string
  Fragment :: string
  RawFragment :: string

text \<open>
  \<open>NewNormalizedURL\<close>, from the parsed URL: the default scheme, lower case for scheme and host, no
  default port, no bare slash, no fragment.
\<close>

definition default_scheme :: "url \<Rightarrow> url" where
  "default_scheme u = (if Scheme u = [] then u\<lparr>Scheme := ''https''\<rparr> else u)"

definition lower_scheme_host :: "url \<Rightarrow> url" where
  "lower_scheme_host u = u\<lparr>Scheme := to_lower (Scheme u), Host := to_lower (Host u)\<rparr>"

definition strip_default_port :: "url \<Rightarrow> url" where
  "strip_default_port u =
     (if (Scheme u = ''http'' \<and> has_suffix (Host u) '':80'') \<or>
         (Scheme u = ''https'' \<and> has_suffix (Host u) '':443'')
      then u\<lparr>Host := (case before_last CHR '':'' (Host u) of Some h \<Rightarrow> h | None \<Rightarrow> Host u)\<rparr>
      else u)"

definition normalize_url :: "url \<Rightarrow> url" where
  "normalize_url u =
     (let u = strip_default_port (lower_scheme_host (default_scheme u));
          u = (if Path u = ''/'' then u\<lparr>Path := []\<rparr> else u)
      in u\<lparr>Fragment := []\<rparr>)"

definition NewNormalizedURL ::
  "(string \<Rightarrow> url result) \<Rightarrow> (url \<Rightarrow> string) \<Rightarrow> string \<Rightarrow> string result" where
  "NewNormalizedURL parse str raw =
     (case parse raw of
        Inl e \<Rightarrow> Inl (ErrWrap ''failed to parse URL'' e)
      | Inr u \<Rightarrow> Inr (str (normalize_url u)))"

lemma lower_char_eqD: "lower_char c = d \<Longrightarrow> c \<noteq> d \<Longrightarrow> 97 \<le> (of_char d :: nat)"
  by (auto simp: lower_char_def Let_def split: if_splits)

lemma lower_char_fixed:
  assumes "\<not> (65 \<le> (of_char d :: nat) \<and> (of_char d :: nat) \<le> 90)" "(of_char d :: nat) < 97"
  shows "lower_char c = d \<longleftrightarrow> c = d"
proof
  show "lower_char c = d \<Longrightarrow> c = d"
    using lower_char_eqD [of c d] assms(2) by auto
  show "c = d \<Longrightarrow> lower_char c = d"
    using assms(1) by (auto simp: lower_char_def Let_def)
qed

lemma lower_char_colon [simp]: "lower_char c = CHR '':'' \<longleftrightarrow> c = CHR '':''"
  by (rule lower_char_fixed) simp_all

lemma colon_to_lower [simp]: "CHR '':'' \<in> set (to_lower s) \<longleftrightarrow> CHR '':'' \<in> set s"
proof -
  have "CHR '':'' = lower_char c \<longleftrightarrow> c = CHR '':''" for c
    using eq_commute [of "CHR '':''" "lower_char c"] lower_char_colon [of c] by (rule trans)
  then show ?thesis by (auto simp: to_lower_def image_iff)
qed

lemma before_last_to_lower:
  "before_last CHR '':'' (to_lower s) = map_option to_lower (before_last CHR '':'' s)"
  by (induction s) (auto simp: to_lower_def split: option.splits)

lemma before_last_to_lower_None [simp]:
  "before_last CHR '':'' (to_lower s) = None \<longleftrightarrow> before_last CHR '':'' s = None"
  by (simp add: before_last_to_lower)

text \<open>
  What \<open>normalize_url\<close> returns is in normal form, and a URL in normal form with at most one colon
  in its host is left as it is: normalising twice is normalising once.
\<close>

definition normal_form :: "url \<Rightarrow> bool" where
  "normal_form u \<longleftrightarrow>
     Scheme u \<noteq> [] \<and> to_lower (Scheme u) = Scheme u \<and> to_lower (Host u) = Host u \<and>
     \<not> (Scheme u = ''http'' \<and> has_suffix (Host u) '':80'') \<and>
     \<not> (Scheme u = ''https'' \<and> has_suffix (Host u) '':443'') \<and>
     Path u \<noteq> ''/'' \<and> Fragment u = []"

lemma normalize_url_normal: "normal_form u \<Longrightarrow> normalize_url u = u"
  by (cases u) (auto simp: normal_form_def normalize_url_def default_scheme_def lower_scheme_host_def
      strip_default_port_def Let_def)

lemma before_last_colon_suffix:
  assumes "has_suffix h (CHR '':'' # p)" "CHR '':'' \<notin> set p"
  shows "\<exists>g. h = g @ CHR '':'' # p \<and> before_last CHR '':'' h = Some g"
  using assms by (auto simp: has_suffix_iff before_last_append)

lemma has_suffix_colonD: "has_suffix h p \<Longrightarrow> c \<in> set p \<Longrightarrow> c \<in> set h"
  by (auto simp: has_suffix_iff)

lemma to_lower_before_last:
  assumes "to_lower h = h" "before_last CHR '':'' h = Some g"
  shows "to_lower g = g"
  using before_last_to_lower [of h] assms by simp

text \<open>Hosts with at most one colon: names and IPv4 addresses with an optional port.\<close>

definition single_colon :: "string \<Rightarrow> bool" where
  "single_colon h \<longleftrightarrow> (\<forall>g. before_last CHR '':'' h = Some g \<longrightarrow> CHR '':'' \<notin> set g)"

lemma normalize_url_is_normal:
  assumes "single_colon (Host u)"
  shows "normal_form (normalize_url u)"
proof -
  let ?v = "lower_scheme_host (default_scheme u)"
  have sch: "Scheme ?v \<noteq> []" "to_lower (Scheme ?v) = Scheme ?v" "to_lower (Host ?v) = Host ?v"
    by (auto simp: lower_scheme_host_def default_scheme_def)
  have sc: "CHR '':'' \<notin> set g" if "before_last CHR '':'' (Host ?v) = Some g" for g
  proof -
    have "Host ?v = to_lower (Host u)" by (simp add: lower_scheme_host_def default_scheme_def)
    with that obtain g0 where "before_last CHR '':'' (Host u) = Some g0" "g = to_lower g0"
      by (auto simp: before_last_to_lower)
    with assms show ?thesis by (auto simp: single_colon_def)
  qed
  let ?w = "strip_default_port ?v"
  have w: "Scheme ?w = Scheme ?v" "to_lower (Host ?w) = Host ?w"
    using sch by (auto simp: strip_default_port_def split: option.splits intro: to_lower_before_last)
  have port: "\<not> (Scheme ?w = ''http'' \<and> has_suffix (Host ?w) '':80'')"
      "\<not> (Scheme ?w = ''https'' \<and> has_suffix (Host ?w) '':443'')"
    using sc has_suffix_colonD [of _ "'':80''" "CHR '':''"] has_suffix_colonD [of _ "'':443''" "CHR '':''"]
    by (auto simp: strip_default_port_def before_last_None split: option.splits)
  show ?thesis
    using sch w port by (simp add: normal_form_def normalize_url_def Let_def)
qed

lemma normalize_url_idem:
  "single_colon (Host u) \<Longrightarrow> normalize_url (normalize_url u) = normalize_url u"
  by (rule normalize_url_normal) (rule normalize_url_is_normal)

section \<open>Content hashes\<close>

text \<open>
  \<open>NewContentHash\<close>: SHA-256 (a parameter that returns the digest as numbers below 256) written in
  hexadecimal.
\<close>

definition hex_digit :: "nat \<Rightarrow> char" where
  "hex_digit d = (if d < 10 then char_of (48 + d) else char_of (87 + d))"

fun EncodeToString :: "nat list \<Rightarrow> string" where
  "EncodeToString [] = []"
| "EncodeToString (b # bs) = hex_digit (b div 16) # hex_digit (b mod 16) # EncodeToString bs"

definition NewContentHash :: "(string \<Rightarrow> nat list) \<Rightarrow> string \<Rightarrow> string" where
  "NewContentHash sha256 content = EncodeToString (sha256 content)"

lemma length_EncodeToString [simp]: "length (EncodeToString bs) = 2 * length bs"
  by (induction bs) auto

lemma hex_digit_code:
  "d < 16 \<Longrightarrow> (of_char (hex_digit d) :: nat) = (if d < 10 then 48 + d else 87 + d)"
  by (simp add: hex_digit_def take_bit_eq_mod)

lemma hex_digit_inj: "d < 16 \<Longrightarrow> e < 16 \<Longrightarrow> hex_digit d = hex_digit e \<Longrightarrow> d = e"
proof -
  assume d: "d < 16" and e: "e < 16" and eq: "hex_digit d = hex_digit e"
  have "(if d < 10 then 48 + d else 87 + d) = (if e < 10 then 48 + e else 87 + e)"
    unfolding hex_digit_code [OF d, symmetric] hex_digit_code [OF e, symmetric] eq ..
  with d e show "d = e" by (simp split: if_splits)
qed

lemma EncodeToString_inj:
  "\<forall>b\<in>set bs. b < 256 \<Longrightarrow> \<forall>c\<in>set cs. c < 256 \<Longrightarrow> EncodeToString bs = EncodeToString cs \<Longrightarrow> bs = cs"
proof (induction bs arbitrary: cs)
  case Nil
  then show ?case by (cases cs) auto
next
  case (Cons b bs)
  then obtain c cs' where cs: "cs = c # cs'" by (cases cs) auto
  from Cons.prems cs have "b < 256" "c < 256" by simp_all
  then have bounds: "b div 16 < 16" "c div 16 < 16" by arith+
  from Cons.prems(3) cs have eqs: "hex_digit (b div 16) = hex_digit (c div 16)"
      "hex_digit (b mod 16) = hex_digit (c mod 16)" "EncodeToString bs = EncodeToString cs'"
    by simp_all
  have "b div 16 = c div 16" by (rule hex_digit_inj [OF bounds eqs(1)])
  moreover have "b mod 16 = c mod 16" by (rule hex_digit_inj [OF _ _ eqs(2)]) simp_all
  ultimately have "b = c" by (metis div_mult_mod_eq)
  moreover have "bs = cs'" using Cons.IH [of cs'] Cons.prems cs eqs(3) by simp
  ultimately show ?case using cs by simp
qed

section \<open>Hosts and addresses\<close>

definition valid_optional_port :: "string \<Rightarrow> bool" where
  "valid_optional_port p \<longleftrightarrow>
     (case p of [] \<Rightarrow> True | c # ds \<Rightarrow> c = CHR '':'' \<and> list_all (\<lambda>d. digit_val d \<noteq> None) ds)"

text \<open>\<open>Header.Get\<close> and \<open>Values.Get\<close> of a canonical name: the first value.\<close>

definition header_get :: "(string \<times> string list) list \<Rightarrow> string \<Rightarrow> string" where
  "header_get hs k = (case map_of hs k of Some (v # _) \<Rightarrow> v | _ \<Rightarrow> [])"

text \<open>\<open>URL.Hostname\<close>: the host without its port and without the brackets of an IPv6 literal.\<close>

definition Hostname :: "string \<Rightarrow> string" where
  "Hostname host_port =
     (let h = (case before_last CHR '':'' host_port of
                 None \<Rightarrow> host_port
               | Some p \<Rightarrow> if valid_optional_port (drop (length p) host_port) then p else host_port)
      in if has_prefix h ''['' \<and> has_suffix h '']'' then butlast (tl h) else h)"

text \<open>\<open>net.ParseIP\<close>, in its 16-byte form. First the four decimal fields of an IPv4 address.\<close>

fun split_on :: "char \<Rightarrow> string \<Rightarrow> string list" where
  "split_on c [] = [[]]"
| "split_on c (x # xs) =
     (if x = c then [] # split_on c xs
      else (case split_on c xs of [] \<Rightarrow> [[x]] | y # ys \<Rightarrow> (x # y) # ys))"

text \<open>A field: one to three digits, no leading zero, at most 255.\<close>

definition ipv4_field :: "string \<Rightarrow> nat option" where
  "ipv4_field s =
     (case s of [] \<Rightarrow> None
      | c # t \<Rightarrow> if c = CHR ''0'' \<and> t \<noteq> [] then None
                 else (case parse_digits 0 s of None \<Rightarrow> None | Some n \<Rightarrow> if n \<le> 255 then Some n else None))"

fun all_some :: "'a option list \<Rightarrow> 'a list option" where
  "all_some [] = Some []"
| "all_some (x # xs) =
     (case x of None \<Rightarrow> None | Some y \<Rightarrow> map_option (\<lambda>ys. y # ys) (all_some xs))"

definition parse_ipv4 :: "string \<Rightarrow> nat list option" where
  "parse_ipv4 s =
     (let fs = split_on CHR ''.'' s
      in if length fs = 4 then all_some (map ipv4_field fs) else None)"

text \<open>
  Then IPv6: groups of one to four hexadecimal digits, one \<open>::\<close> at most, and an IPv4 address in
  place of the last two groups. \<open>i\<close> bytes are parsed, \<open>ell\<close> is where the \<open>::\<close> stood.
\<close>

definition hex_val :: "char \<Rightarrow> nat option" where
  "hex_val c = (let n = of_char c :: nat in
     if 48 \<le> n \<and> n \<le> 57 then Some (n - 48)
     else if 97 \<le> n \<and> n \<le> 102 then Some (n - 87)
     else if 65 \<le> n \<and> n \<le> 70 then Some (n - 55) else None)"

definition hex_group :: "string \<Rightarrow> nat option" where
  "hex_group ds =
     (if ds = [] \<or> 4 < length ds then None
      else Some (foldl (\<lambda>a d. a * 16 + the (hex_val d)) 0 ds))"

function parse_groups :: "nat list \<Rightarrow> nat option \<Rightarrow> string \<Rightarrow> (nat list \<times> nat option) option" where
  "parse_groups bytes ell s =
     (if 16 \<le> length bytes then (if s = [] then Some (bytes, ell) else None)
      else
        (let ds = takeWhile (\<lambda>c. hex_val c \<noteq> None) s; rest = dropWhile (\<lambda>c. hex_val c \<noteq> None) s
         in case hex_group ds of
              None \<Rightarrow> None
            | Some v \<Rightarrow>
                (case rest of
                   [] \<Rightarrow> Some (bytes @ [v div 256, v mod 256], ell)
                 | c # t \<Rightarrow>
                     if c = CHR ''.'' then
                       (if (ell = None \<and> length bytes \<noteq> 12) \<or> 16 < length bytes + 4 then None
                        else map_option (\<lambda>v4. (bytes @ v4, ell)) (parse_ipv4 s))
                     else if c \<noteq> CHR '':'' \<or> t = [] then None
                     else
                       (let bytes' = bytes @ [v div 256, v mod 256]
                        in if hd t = CHR '':'' then
                             (if ell \<noteq> None then None
                              else if tl t = [] then Some (bytes', Some (length bytes'))
                              else parse_groups bytes' (Some (length bytes')) (tl t))
                           else parse_groups bytes' ell t))))"
  by pat_completeness auto
termination
  by (relation "measure (\<lambda>(bytes, ell, s). 16 - length bytes)") auto

declare parse_groups.simps [simp del]

definition parse_ipv6 :: "string \<Rightarrow> nat list option" where
  "parse_ipv6 s =
     (if s = ''::'' then Some (replicate 16 0)
      else
        (case (if has_prefix s ''::'' then parse_groups [] (Some 0) (drop 2 s)
               else parse_groups [] None s) of
           None \<Rightarrow> None
         | Some (bytes, ell) \<Rightarrow>
             if length bytes < 16 then
               (case ell of
                  None \<Rightarrow> None
                | Some e \<Rightarrow> Some (take e bytes @ replicate (16 - length bytes) 0 @ drop e bytes))
             else if ell \<noteq> None then None else Some bytes))"

definition v4_prefix :: "nat list" where
  "v4_prefix = replicate 10 0 @ [255, 255]"

text \<open>The first of \<open>.\<close>, \<open>:\<close> and \<open>%\<close> decides which form is parsed; an address with a zone is refused.\<close>

definition ParseIP :: "string \<Rightarrow> nat list option" where
  "ParseIP s =
     (case List.find (\<lambda>c. c = CHR ''.'' \<or> c = CHR '':'' \<or> c = CHR ''%'') s of
        Some c \<Rightarrow>
          if c = CHR ''.'' then map_option (\<lambda>v4. v4_prefix @ v4) (parse_ipv4 s)
          else if c = CHR '':'' then (if CHR ''%'' \<in> set s then None else parse_ipv6 s)
          else None
      | None \<Rightarrow> None)"

definition To4 :: "nat list \<Rightarrow> nat list option" where
  "To4 ip = (if take 12 ip = v4_prefix then Some (drop 12 ip) else None)"

lemma length_parse_ipv4: "parse_ipv4 s = Some v \<Longrightarrow> length v = 4"
proof -
  have "all_some xs = Some ys \<Longrightarrow> length ys = length xs" for xs :: "nat option list" and ys
    by (induction xs arbitrary: ys) (auto split: option.splits)
  then show "parse_ipv4 s = Some v \<Longrightarrow> length v = 4"
    by (auto simp: parse_ipv4_def Let_def split: if_splits)
qed

definition dotted :: "nat \<Rightarrow> nat \<Rightarrow> nat \<Rightarrow> nat \<Rightarrow> string" where
  "dotted a b c d =
     dec_digits a @ CHR ''.'' # dec_digits b @ CHR ''.'' # dec_digits c @ CHR ''.'' # dec_digits d"

lemma split_on_append: "c \<notin> set p \<Longrightarrow> split_on c (p @ c # s) = p # split_on c s"
  by (induction p) auto

lemma split_on_none: "c \<notin> set p \<Longrightarrow> split_on c p = [p]"
  by (induction p) auto

lemma dec_digits_hd: "n \<noteq> 0 \<Longrightarrow> hd (dec_digits n) \<noteq> CHR ''0''"
proof (induction n rule: dec_digits.induct)
  case (1 n)
  show ?case
  proof (cases "n < 10")
    case True
    have "digit_char n \<noteq> CHR ''0''"
    proof
      assume "digit_char n = CHR ''0''"
      then have "digit_val (digit_char n) = Some 0" by (simp add: digit_val_def)
      with True 1 show False by simp
    qed
    with True show ?thesis by (subst dec_digits.simps) simp
  next
    case False
    with 1 have "hd (dec_digits (n div 10)) \<noteq> CHR ''0''" by auto
    with False show ?thesis by (subst dec_digits.simps) simp
  qed
qed

lemma ipv4_field_dec_digits:
  assumes "n \<le> 255"
  shows "ipv4_field (dec_digits n) = Some n"
proof (cases "n = 0")
  case True
  then show ?thesis by (subst dec_digits.simps) (simp add: ipv4_field_def digit_char_def digit_val_def)
next
  case False
  obtain c t where ct: "dec_digits n = c # t" by (cases "dec_digits n") auto
  with dec_digits_hd [OF False] have "c \<noteq> CHR ''0''" by simp
  with ct parse_dec_digits [of n] assms show ?thesis by (simp add: ipv4_field_def)
qed

lemma dec_digits_no_dot: "CHR ''.'' \<notin> set (dec_digits n)" "CHR ''%'' \<notin> set (dec_digits n)"
proof -
  have *: "c \<notin> set (dec_digits n)" if "digit_val c = None" for c
    using that by (auto dest!: set_dec_digits)
  show "CHR ''.'' \<notin> set (dec_digits n)" "CHR ''%'' \<notin> set (dec_digits n)"
    by (rule *, simp add: digit_val_def)+
qed

lemma parse_ipv4_dotted:
  "a \<le> 255 \<Longrightarrow> b \<le> 255 \<Longrightarrow> c \<le> 255 \<Longrightarrow> d \<le> 255 \<Longrightarrow> parse_ipv4 (dotted a b c d) = Some [a, b, c, d]"
  by (simp add: dotted_def parse_ipv4_def split_on_append split_on_none dec_digits_no_dot
      ipv4_field_dec_digits)

lemma find_dotted:
  "List.find (\<lambda>c. c = CHR ''.'' \<or> c = CHR '':'' \<or> c = CHR ''%'') (dotted a b c d) = Some CHR ''.''"
proof -
  have "List.find (\<lambda>c. c = CHR ''.'' \<or> c = CHR '':'' \<or> c = CHR ''%'') (dec_digits a) = None"
    using dec_digits_no_dot [of a] dec_digits_no_sign [of a] by (auto simp: find_None_iff)
  then show ?thesis by (simp add: dotted_def find_append)
qed

lemma ParseIP_dotted:
  "a \<le> 255 \<Longrightarrow> b \<le> 255 \<Longrightarrow> c \<le> 255 \<Longrightarrow> d \<le> 255 \<Longrightarrow>
   ParseIP (dotted a b c d) = Some (v4_prefix @ [a, b, c, d])"
  by (simp add: ParseIP_def find_dotted parse_ipv4_dotted)

lemma To4_v4 [simp]: "To4 (v4_prefix @ v) = Some v"
  by (simp add: To4_def v4_prefix_def)

lemma colon_notin_dotted: "CHR '':'' \<notin> set (dotted a b c d)"
  using dec_digits_no_sign by (simp add: dotted_def)

end
