(* ===== verification/World.thy ===== *)
theory World
  imports Json Net
begin

text \<open>
  The state that the three programs of the service share and the world outside it. The tables
  have the columns and constraints of \<open>migrations/\<close>; the cache is a map from keys to JSON values
  with an expiry; the broker is the list of the messages published so far. Every call that leaves
  the process (a statement, a commit, a cache command, a publish) asks the environment how it
  went and what time it is: the environment is an arbitrary function of the number of calls made
  so far, so what is proved holds for every pattern of failures. A call can also take effect and
  still report an error (a connection lost after a commit).
\<close>

section \<open>The environment\<close>

datatype outcome =
    Ok
  | Lost error   \<comment> \<open>no effect, error reported\<close>
  | Late error   \<comment> \<open>effect, error reported\<close>

text \<open>
  What the code takes from packages that are not part of it, \<open>uuid.NewSHA1\<close>, SHA-256, parsing a URL,
  writing it out and resolving a reference, are functions of the environment.
\<close>

record env =
  fault :: "nat \<Rightarrow> outcome"
  clock :: "nat \<Rightarrow> time"
  uuid_NewSHA1 :: "uuid \<Rightarrow> string \<Rightarrow> uuid"
  sha256_Sum :: "string \<Rightarrow> nat list"
  url_Parse :: "string \<Rightarrow> url result"
  url_String :: "url \<Rightarrow> string"
  ResolveReference :: "url \<Rightarrow> url \<Rightarrow> url"

section \<open>Tables\<close>

record analysis_row =
  ar_id :: uuid
  ar_url :: string
  ar_url_normalized :: string
  ar_status :: analysis_status
  ar_content_hash :: "string option"
  ar_content_size :: "int option"
  ar_duration :: "int option"
  ar_version :: int
  ar_lock_version :: int
  ar_options :: "json option"
  ar_results :: "json option"
  ar_error_code :: "string option"
  ar_error_message :: "string option"
  ar_error_status_code :: "int option"
  ar_error_details :: "string option"
  ar_created_at :: time
  ar_completed_at :: "time option"
  ar_updated_at :: time

record outbox_row =
  or_id :: uuid
  or_aggregate_id :: uuid
  or_aggregate_type :: string
  or_event_type :: outbox_event_type
  or_priority :: priority
  or_retry_count :: int
  or_max_retries :: int
  or_status :: outbox_status
  or_payload :: json
  or_error_details :: "string option"
  or_created_at :: time
  or_started_at :: "time option"
  or_published_at :: "time option"
  or_processed_at :: "time option"
  or_completed_at :: "time option"
  or_next_retry_at :: "time option"

record cache_entry =
  ce_value :: json
  ce_expires :: "time option"

datatype header = HeaderString string | HeaderOther

datatype settlement = Acked | Nacked | Rejected  \<comment> \<open>what the broker was told of a delivery\<close>

record message =
  msg_exchange :: string
  msg_routing_key :: string
  msg_headers :: "(string \<times> header) list"
  msg_body :: json

datatype metric =
    OutboxMetric bool priority
  | LinkMetric bool link_type
  | FetchMetric duration
  | ProcessingMetric duration

record world =
  analysis_tab :: "analysis_row list"
  outbox_tab :: "outbox_row list"
  cache_tab :: "string \<rightharpoonup> cache_entry"
  bus :: "message list"
  settled :: "(nat \<times> settlement) list"  \<comment> \<open>by delivery tag\<close>
  metrics :: "metric list"
  tick :: nat
  client_timeout :: duration  \<comment> \<open>the timeout set on the HTTP client of the fetcher\<close>

definition empty_world :: world where
  "empty_world = \<lparr>analysis_tab = [], outbox_tab = [], cache_tab = Map.empty, bus = [],
     settled = [], metrics = [], tick = 0, client_timeout = 30 * Second\<rparr>"

section \<open>Calls that leave the process\<close>

definition call :: "env \<Rightarrow> world \<Rightarrow> outcome \<times> world" where
  "call env w = (fault env (tick w), w\<lparr>tick := Suc (tick w)\<rparr>)"

definition now :: "env \<Rightarrow> world \<Rightarrow> time" where
  "now env w = clock env (tick w)"

definition record_metric :: "metric \<Rightarrow> world \<Rightarrow> world" where
  "record_metric m w = w\<lparr>metrics := metrics w @ [m]\<rparr>"

lemma record_metric_simps [simp]:
  "outbox_tab (record_metric m w) = outbox_tab w" "bus (record_metric m w) = bus w"
  "analysis_tab (record_metric m w) = analysis_tab w" "cache_tab (record_metric m w) = cache_tab w"
  "tick (record_metric m w) = tick w" "settled (record_metric m w) = settled w"
  by (simp_all add: record_metric_def)

text \<open>
  A statement: \<open>f\<close> is what it does to the tables when the database executes it, or the error the
  database raises.
\<close>

definition statement :: "env \<Rightarrow> (world \<Rightarrow> ('a \<times> world) result) \<Rightarrow> world \<Rightarrow> 'a result \<times> world" where
  "statement env f w =
     (case call env w of
        (Ok, w1) \<Rightarrow> (case f w1 of Inl e \<Rightarrow> (Inl e, w1) | Inr (x, w2) \<Rightarrow> (Inr x, w2))
      | (Lost e, w1) \<Rightarrow> (Inl e, w1)
      | (Late e, w1) \<Rightarrow> (case f w1 of Inl _ \<Rightarrow> (Inl e, w1) | Inr (x, w2) \<Rightarrow> (Inl e, w2)))"

text \<open>
  A transaction: \<open>BeginTxx\<close>, the body, \<open>Commit\<close>, with the deferred \<open>Rollback\<close>. Until the commit
  only the transaction sees its changes; a rollback leaves the tables as they were. Time goes on
  in either case.
\<close>

definition undo :: "world \<Rightarrow> world \<Rightarrow> world" where
  "undo w w' = w\<lparr>tick := tick w'\<rparr>"

definition in_tx :: "env \<Rightarrow> (world \<Rightarrow> 'a result \<times> world) \<Rightarrow> world \<Rightarrow> 'a result \<times> world" where
  "in_tx env body w =
     (case call env w of
        (Lost e, w1) \<Rightarrow> (Inl (ErrWrap ''failed to begin transaction'' e), w1)
      | (Late e, w1) \<Rightarrow> (Inl (ErrWrap ''failed to begin transaction'' e), w1)
      | (Ok, w1) \<Rightarrow>
          (case body w1 of
             (Inl e, w2) \<Rightarrow> (Inl e, undo w1 w2)
           | (Inr x, w2) \<Rightarrow>
               (case call env w2 of
                  (Ok, w3) \<Rightarrow> (Inr x, w3)
                | (Lost e, w3) \<Rightarrow> (Inl (ErrWrap ''failed to commit transaction'' e), undo w1 w3)
                | (Late e, w3) \<Rightarrow> (Inl (ErrWrap ''failed to commit transaction'' e), w3))))"

definition wrap_error :: "string \<Rightarrow> 'a result \<times> world \<Rightarrow> 'a result \<times> world" where
  "wrap_error t r = (case r of (Inl e, w) \<Rightarrow> (Inl (ErrWrap t e), w) | (Inr x, w) \<Rightarrow> (Inr x, w))"

lemma wrap_error_simps [simp]:
  "wrap_error t (Inl e, w) = (Inl (ErrWrap t e), w)"
  "wrap_error t (Inr x, w) = (Inr x, w)"
  "snd (wrap_error t r) = snd r"
  by (auto simp: wrap_error_def split: prod.splits sum.splits)

lemma call_simps [simp]: "fst (call env w) = fault env (tick w)" "snd (call env w) = w\<lparr>tick := Suc (tick w)\<rparr>"
  by (simp_all add: call_def)

text \<open>No call fails from the \<open>n\<close>-th on.\<close>

definition no_faults :: "env \<Rightarrow> bool" where
  "no_faults env \<longleftrightarrow> (\<forall>n. fault env n = Ok)"

lemma statement_ok:
  "no_faults env \<Longrightarrow> statement env f w =
     (case f (w\<lparr>tick := Suc (tick w)\<rparr>) of
        Inl e \<Rightarrow> (Inl e, w\<lparr>tick := Suc (tick w)\<rparr>) | Inr (x, w2) \<Rightarrow> (Inr x, w2))"
  by (simp add: statement_def call_def no_faults_def split: sum.splits)

lemma in_tx_ok:
  "no_faults env \<Longrightarrow> in_tx env body w =
     (case body (w\<lparr>tick := Suc (tick w)\<rparr>) of
        (Inl e, w2) \<Rightarrow> (Inl e, undo (w\<lparr>tick := Suc (tick w)\<rparr>) w2)
      | (Inr x, w2) \<Rightarrow> (Inr x, w2\<lparr>tick := Suc (tick w2)\<rparr>))"
  by (simp add: in_tx_def call_def no_faults_def split: prod.splits sum.splits)

text \<open>What can have happened when a statement or a transaction is over.\<close>

lemma statement_cases:
  assumes "statement env f w = (r, w')"
  obtains (ok) x where "r = Inr x" "f (w\<lparr>tick := Suc (tick w)\<rparr>) = Inr (x, w')"
    | (late) e x where "r = Inl e" "f (w\<lparr>tick := Suc (tick w)\<rparr>) = Inr (x, w')"
    | (failed) e where "r = Inl e" "w' = w\<lparr>tick := Suc (tick w)\<rparr>"
  using assms by (auto simp: statement_def call_def split: outcome.splits sum.splits)

lemma in_tx_cases:
  assumes "in_tx env body w = (r, w')"
  obtains (committed) x w2 where "r = Inr x" "body (w\<lparr>tick := Suc (tick w)\<rparr>) = (Inr x, w2)"
        "w' = w2\<lparr>tick := Suc (tick w2)\<rparr>"
    | (unsure) e x w2 where "r = Inl e" "body (w\<lparr>tick := Suc (tick w)\<rparr>) = (Inr x, w2)"
        "w' = w2\<lparr>tick := Suc (tick w2)\<rparr>"
    | (rolled_back) e n where "r = Inl e" "w' = w\<lparr>tick := n\<rparr>"
  using assms
  by (auto simp: in_tx_def call_def undo_def split: outcome.splits sum.splits prod.splits)

text \<open>
  Invariants of the world that do not look at the clock pass through statements and transactions:
  it is enough that what the statement does keeps them.
\<close>

definition tick_free :: "(world \<Rightarrow> bool) \<Rightarrow> bool" where
  "tick_free P \<longleftrightarrow> (\<forall>w n. P (w\<lparr>tick := n\<rparr>) = P w)"

lemma tick_freeD: "tick_free P \<Longrightarrow> P (w\<lparr>tick := n\<rparr>) = P w"
  by (simp add: tick_free_def)

lemma statement_preserves:
  assumes "tick_free P" "P w" "\<And>w x w'. P w \<Longrightarrow> f w = Inr (x, w') \<Longrightarrow> P w'"
  shows "P (snd (statement env f w))"
proof -
  have "P (w\<lparr>tick := Suc (tick w)\<rparr>)" using assms(1,2) by (simp add: tick_freeD)
  then show ?thesis
    unfolding statement_def call_def
    by (auto split: outcome.splits sum.splits intro: assms(3))
qed

lemma in_tx_preserves:
  assumes "tick_free P" "P w" "\<And>w. P w \<Longrightarrow> P (snd (body w))"
  shows "P (snd (in_tx env body w))"
proof -
  have *: "P (w\<lparr>tick := n\<rparr>)" for n using assms(1,2) by (simp add: tick_freeD)
  have b: "P (snd (body (w\<lparr>tick := Suc (tick w)\<rparr>)))" by (rule assms(3)) (rule *)
  have c: "P (w'\<lparr>tick := n\<rparr>)" if "body (w\<lparr>tick := Suc (tick w)\<rparr>) = (r, w')" for r w' n
    using b that assms(1) by (simp add: tick_freeD)
  show ?thesis
    unfolding in_tx_def call_def undo_def
    by (auto simp: * c split: outcome.splits sum.splits prod.splits)
qed

lemma wrap_error_preserves: "P (snd r) \<Longrightarrow> P (snd (wrap_error t r))"
  by simp

section \<open>A concrete environment\<close>

text \<open>
  An environment on which the theorems are run: no call fails, the clock counts the calls, and the
  functions of the environment are small ones on texts of the form \<open>scheme://host/path\<close>.
\<close>

definition sample_Parse :: "string \<Rightarrow> url result" where
  "sample_Parse s =
     (let sch = takeWhile (\<lambda>c. c \<noteq> CHR '':'') s;
          rest = drop (length sch + 3) s
      in if rest = [] then Inl (ErrText ''parse error'')
         else Inr \<lparr>Scheme = sch, Opaque = [], User = None,
                   Host = takeWhile (\<lambda>c. c \<noteq> CHR ''/'') rest,
                   Path = dropWhile (\<lambda>c. c \<noteq> CHR ''/'') rest,
                   RawPath = [], RawQuery = [], Fragment = [], RawFragment = []\<rparr>)"

definition sample_String :: "url \<Rightarrow> string" where
  "sample_String u = Scheme u @ ''://'' @ Host u @ Path u"

definition sample_resolve :: "url \<Rightarrow> url \<Rightarrow> url" where
  "sample_resolve b r =
     (if Scheme r = [] then r\<lparr>Scheme := Scheme b, Host := (if Host r = [] then Host b else Host r)\<rparr> else r)"

definition sample_env :: env where
  "sample_env = \<lparr>fault = (\<lambda>n. Ok), clock = int, uuid_NewSHA1 = (\<lambda>n s. UUID (uuid_string n @ s)),
     sha256_Sum = (\<lambda>s. take 32 (map of_char s @ replicate 32 0)),
     url_Parse = sample_Parse, url_String = sample_String, ResolveReference = sample_resolve\<rparr>"

lemma sample_env_simps [simp]:
  "fault sample_env n = Ok" "clock sample_env n = int n"
  "uuid_NewSHA1 sample_env a s = UUID (uuid_string a @ s)"
  "url_Parse sample_env = sample_Parse" "url_String sample_env = sample_String"
  "ResolveReference sample_env = sample_resolve" "no_faults sample_env"
  by (simp_all add: sample_env_def no_faults_def)

section \<open>Sequences of operations\<close>

text \<open>
  The contract every component keeps with its store: each of its operations, on inputs it accepts,
  keeps the invariant, whatever the calls that leave the process do. The client is any sequence of
  operations.
\<close>

locale keeps_invariant =
  fixes inv :: "'w \<Rightarrow> bool"
    and good :: "'c \<Rightarrow> 'w \<Rightarrow> bool"
    and exec :: "'c \<Rightarrow> 'w \<Rightarrow> 'w"
  assumes keeps: "inv w \<Longrightarrow> good c w \<Longrightarrow> inv (exec c w)"
begin

fun accepted :: "'c list \<Rightarrow> 'w \<Rightarrow> bool" where
  "accepted [] w = True"
| "accepted (c # cs) w = (good c w \<and> accepted cs (exec c w))"

lemma run_keeps: "inv w \<Longrightarrow> accepted cs w \<Longrightarrow> inv (fold exec cs w)"
  by (induction cs arbitrary: w) (simp_all add: keeps)

lemma accepted_all: "(\<And>c w. c \<in> set cs \<Longrightarrow> good c w) \<Longrightarrow> accepted cs w"
  by (induction cs arbitrary: w) simp_all

end

end
