(* ===== verification/Analysis_Repo.thy ===== *)
theory Analysis_Repo
  imports World
begin

text \<open>
  \<open>internal/adapters/repos/analysis_repository.go\<close>: the statements of the analysis repository on
  the table \<open>analysis\<close>, with the constraints of its migration (primary key, unique URL and version,
  the width of the hash column, the enumeration of the status, 32-bit counters) and the conversion
  of a row to a \<open>domain.Analysis\<close>. The query builder fails on no query the repository builds, so the
  branch for its error is not modelled.
\<close>

definition AnalysisNamespace :: uuid where
  "AnalysisNamespace = UUID ''a8b5e5c0-7d3f-5e1a-b8c4-8f9d2a1b3c4e''"

section \<open>Reading\<close>

text \<open>\<open>time.Duration(n) * time.Millisecond\<close> in 64 bits.\<close>

definition row_duration :: "int \<Rightarrow> duration" where
  "row_duration n = int64 (n * Millisecond)"

definition nullable :: "'a \<Rightarrow> 'a option \<Rightarrow> 'a" where
  "nullable zero v = (case v of None \<Rightarrow> zero | Some x \<Rightarrow> x)"

definition convertRowToAnalysis :: "analysis_row \<Rightarrow> analysis result" where
  "convertRowToAnalysis r =
     (let a = \<lparr>an_id = ar_id r, an_url = ar_url r, an_status = ar_status r,
               an_content_hash = nullable [] (ar_content_hash r),
               an_content_size = nullable 0 (ar_content_size r),
               an_created_at = ar_created_at r, an_completed_at = ar_completed_at r,
               an_duration = map_option row_duration (ar_duration r),
               an_results = None, an_error = None, an_lock_version = ar_lock_version r\<rparr>;
          err = (case ar_error_code r of
                   None \<Rightarrow> None
                 | Some code \<Rightarrow> Some \<lparr>ae_code = code,
                     ae_message = nullable [] (ar_error_message r),
                     ae_status_code = nullable 0 (ar_error_status_code r),
                     ae_details = nullable [] (ar_error_details r)\<rparr>)
      in case ar_results r of
           None \<Rightarrow> Inr (a\<lparr>an_error := err\<rparr>)
         | Some j \<Rightarrow>
             (case dec_analysis_data j of
                Inl e \<Rightarrow> Inl (ErrWrap ''failed to unmarshal results JSON'' e)
              | Inr d \<Rightarrow> Inr (a\<lparr>an_results := Some d, an_error := err\<rparr>)))"

text \<open>
  \<open>ORDER BY completed_at DESC LIMIT 1\<close>: PostgreSQL puts the rows without a time first. Among rows
  with the same time the model takes the first of the table; the properties do not depend on it.
\<close>

definition completed_before :: "analysis_row \<Rightarrow> analysis_row \<Rightarrow> bool" where
  "completed_before r s \<longleftrightarrow>
     (case (ar_completed_at r, ar_completed_at s) of
        (Some a, Some b) \<Rightarrow> a < b
      | (Some _, None) \<Rightarrow> True
      | (None, _) \<Rightarrow> False)"

fun latest_completed :: "analysis_row list \<Rightarrow> analysis_row option" where
  "latest_completed [] = None"
| "latest_completed (r # rs) =
     (case latest_completed rs of
        None \<Rightarrow> Some r
      | Some s \<Rightarrow> if completed_before r s then Some s else Some r)"

text \<open>
  \<open>findByCriteria\<close>: the first row of the query (\<open>ErrNoRows\<close> when there is none), with the text the
  caller gives for that case, converted.
\<close>

definition find_row :: "(analysis_row \<Rightarrow> bool) \<Rightarrow> bool \<Rightarrow> analysis_row list \<Rightarrow> analysis_row option" where
  "find_row crit ordered rows =
     (if ordered then latest_completed (filter crit rows) else List.find crit rows)"

definition findByCriteria ::
  "env \<Rightarrow> (analysis_row \<Rightarrow> bool) \<Rightarrow> bool \<Rightarrow> string \<Rightarrow> world \<Rightarrow> analysis result \<times> world" where
  "findByCriteria env crit ordered errorContext w =
     (case statement env (\<lambda>w. case find_row crit ordered (analysis_tab w) of
                                 None \<Rightarrow> Inl ErrNoRows | Some r \<Rightarrow> Inr (r, w)) w of
        (Inl e, w1) \<Rightarrow>
          (Inl (if errors_Is e ErrNoRows then ErrText errorContext
                else ErrWrap ''failed to query analysis'' e), w1)
      | (Inr r, w1) \<Rightarrow> (convertRowToAnalysis r, w1))"

definition an_Find :: "env \<Rightarrow> uuid \<Rightarrow> world \<Rightarrow> analysis result \<times> world" where
  "an_Find env i =
     findByCriteria env (\<lambda>r. ar_id r = i) False
       (''analysis with ID '' @ uuid_string i @ '' not found'')"

definition hash_match :: "string \<Rightarrow> analysis_row \<Rightarrow> bool" where
  "hash_match h r \<longleftrightarrow>
     ar_content_hash r = Some h \<and> ar_status r = StatusCompleted \<and> ar_results r \<noteq> None"

definition an_FindByContentHash :: "env \<Rightarrow> string \<Rightarrow> world \<Rightarrow> analysis result \<times> world" where
  "an_FindByContentHash env h w =
     (case findByCriteria env (hash_match h) True (Error ErrNoRows) w of
        (Inl e, w1) \<Rightarrow> (Inl (if Error e = Error ErrNoRows then ErrNoRows else e), w1)
      | (Inr a, w1) \<Rightarrow> (Inr a, w1))"

section \<open>Inserting\<close>

text \<open>\<open>SELECT COALESCE(MAX(version), 0) + 1 ... WHERE url = ?\<close>\<close>

definition next_version :: "string \<Rightarrow> analysis_row list \<Rightarrow> int" where
  "next_version url rows =
     foldr max (map ar_version (filter (\<lambda>r. ar_url r = url) rows)) 0 + 1"

definition pg_overflow :: error where
  "pg_overflow = ErrText ''pq: integer out of range''"

definition getNextVersionWithExecutor :: "env \<Rightarrow> string \<Rightarrow> world \<Rightarrow> int result \<times> world" where
  "getNextVersionWithExecutor env url w =
     wrap_error ''failed to get next version''
       (statement env (\<lambda>w. if max_int32 < next_version url (analysis_tab w) then Inl pg_overflow
                            else Inr (next_version url (analysis_tab w), w)) w)"

definition analysis_id_name :: "string \<Rightarrow> int \<Rightarrow> string" where
  "analysis_id_name normalized version = normalized @ ''::v'' @ itoa version"

definition insert_analysis :: "analysis_row \<Rightarrow> world \<Rightarrow> (unit \<times> world) result" where
  "insert_analysis r w =
     (if \<exists>s \<in> set (analysis_tab w). ar_id s = ar_id r then
        Inl (ErrText ''pq: duplicate key value violates unique constraint analysis_pkey'')
      else if \<exists>s \<in> set (analysis_tab w). ar_url s = ar_url r \<and> ar_version s = ar_version r then
        Inl (ErrText ''pq: duplicate key value violates unique constraint uk_analysis_url_version'')
      else Inr ((), w\<lparr>analysis_tab := analysis_tab w @ [r]\<rparr>))"

definition new_row :: "uuid \<Rightarrow> string \<Rightarrow> string \<Rightarrow> int \<Rightarrow> json option \<Rightarrow> time \<Rightarrow> time \<Rightarrow> analysis_row" where
  "new_row i url normalized version opts created updated =
     \<lparr>ar_id = i, ar_url = url, ar_url_normalized = normalized, ar_status = StatusRequested,
      ar_content_hash = None, ar_content_size = None, ar_duration = None, ar_version = version,
      ar_lock_version = 1, ar_options = opts, ar_results = None, ar_error_code = None,
      ar_error_message = None, ar_error_status_code = None, ar_error_details = None,
      ar_created_at = created, ar_completed_at = None, ar_updated_at = updated\<rparr>"

definition new_analysis :: "uuid \<Rightarrow> string \<Rightarrow> time \<Rightarrow> int \<Rightarrow> analysis" where
  "new_analysis i url created lock_version =
     \<lparr>an_id = i, an_url = url, an_status = StatusRequested, an_content_hash = [],
      an_content_size = 0, an_created_at = created, an_completed_at = None, an_duration = None,
      an_results = None, an_error = None, an_lock_version = lock_version\<rparr>"

text \<open>
  \<open>Save\<close> and \<open>SaveInTx\<close>: normalise, number by the URL as given, name by the normalised URL and the
  number, insert; the row comes back with its creation time and lock version (1, the default).
\<close>

definition an_insert ::
  "env \<Rightarrow> string \<Rightarrow> string \<Rightarrow> json option \<Rightarrow> world \<Rightarrow> analysis result \<times> world" where
  "an_insert env ctx url opts w =
     (case NewNormalizedURL (url_Parse env) (url_String env) url of
        Inl e \<Rightarrow> (Inl (ErrWrap ''failed to normalize URL'' e), w)
      | Inr normalized \<Rightarrow>
          (case wrap_error ''failed to get next version'' (getNextVersionWithExecutor env url w) of
             (Inl e, w1) \<Rightarrow> (Inl e, w1)
           | (Inr version, w1) \<Rightarrow>
               (let i = uuid_NewSHA1 env AnalysisNamespace (analysis_id_name normalized version);
                    created = now env w1
                in case wrap_error ctx
                          (statement env
                             (\<lambda>w. insert_analysis
                                    (new_row i url normalized version opts created (now env w)) w) w1) of
                     (Inl e, w2) \<Rightarrow> (Inl e, w2)
                   | (Inr _, w2) \<Rightarrow> (Inr (new_analysis i url created 1), w2))))"

definition an_Save :: "env \<Rightarrow> string \<Rightarrow> analysis_options \<Rightarrow> world \<Rightarrow> analysis result \<times> world" where
  "an_Save env url options w = an_insert env ''failed to save analysis'' url None w"

definition an_SaveInTx :: "env \<Rightarrow> string \<Rightarrow> analysis_options \<Rightarrow> world \<Rightarrow> analysis result \<times> world" where
  "an_SaveInTx env url options w =
     an_insert env ''failed to save analysis in transaction'' url (Some (enc_options options)) w"

section \<open>Updating\<close>

text \<open>
  \<open>updateByCriteria\<close> with \<open>WHERE id = ?\<close>: the database may refuse the statement, and the number of
  rows it changed is not looked at. Increments of \<open>lock_version\<close> stay in 32 bits.
\<close>

definition bump_lock :: "analysis_row \<Rightarrow> analysis_row" where
  "bump_lock r = r\<lparr>ar_lock_version := ar_lock_version r + 1\<rparr>"

definition lock_overflow :: "uuid \<Rightarrow> world \<Rightarrow> bool" where
  "lock_overflow i w \<longleftrightarrow> (\<exists>r \<in> set (analysis_tab w). ar_id r = i \<and> ar_lock_version r = max_int32)"

definition update_analysis ::
  "uuid \<Rightarrow> (analysis_row \<Rightarrow> analysis_row) \<Rightarrow> world \<Rightarrow> (unit \<times> world) result" where
  "update_analysis i f w =
     Inr ((), w\<lparr>analysis_tab := update_where (\<lambda>r. ar_id r = i) f (analysis_tab w)\<rparr>)"

definition updateByCriteria ::
  "env \<Rightarrow> (world \<Rightarrow> (unit \<times> world) result) \<Rightarrow> string \<Rightarrow> world \<Rightarrow> unit result \<times> world" where
  "updateByCriteria env f errorContext w = wrap_error errorContext (statement env f w)"

definition locked_update ::
  "env \<Rightarrow> uuid \<Rightarrow> (time \<Rightarrow> analysis_row \<Rightarrow> analysis_row) \<Rightarrow> world \<Rightarrow> (unit \<times> world) result" where
  "locked_update env i f w =
     (if lock_overflow i w then Inl pg_overflow
      else update_analysis i (\<lambda>r. bump_lock (f (now env w) r)\<lparr>ar_updated_at := now env w\<rparr>) w)"

definition enc_results :: "analysis_data option \<Rightarrow> json" where
  "enc_results results = (case results of None \<Rightarrow> JNull | Some d \<Rightarrow> enc_analysis_data d)"

definition set_completed ::
  "string \<Rightarrow> int \<Rightarrow> json \<Rightarrow> time \<Rightarrow> analysis_row \<Rightarrow> analysis_row" where
  "set_completed h sz results t r =
     r\<lparr>ar_content_hash := Some h, ar_content_size := Some sz, ar_status := StatusCompleted,
       ar_results := Some results, ar_completed_at := Some t\<rparr>"

definition hash_too_long :: "string \<Rightarrow> bool" where
  "hash_too_long h \<longleftrightarrow> 64 < length h"

definition pg_too_long :: error where
  "pg_too_long = ErrText ''pq: value too long for type character varying(64)''"

definition an_Update ::
  "env \<Rightarrow> uuid \<Rightarrow> string \<Rightarrow> int \<Rightarrow> analysis_data option \<Rightarrow> world \<Rightarrow> unit result \<times> world" where
  "an_Update env i h sz results w =
     updateByCriteria env
       (\<lambda>w. if hash_too_long h then Inl pg_too_long
            else locked_update env i (set_completed h sz (enc_results results)) w)
       ''failed to update analysis results'' w"

definition an_UpdateStatus :: "env \<Rightarrow> uuid \<Rightarrow> analysis_status \<Rightarrow> world \<Rightarrow> unit result \<times> world" where
  "an_UpdateStatus env i s w =
     updateByCriteria env
       (\<lambda>w. if \<not> known_status s then Inl (ErrText ''pq: invalid input value for enum analysis_status'')
            else locked_update env i (\<lambda>t r. r\<lparr>ar_status := s\<rparr>) w)
       ''failed to update analysis status'' w"

definition an_UpdateCompletionDuration :: "env \<Rightarrow> uuid \<Rightarrow> int \<Rightarrow> world \<Rightarrow> unit result \<times> world" where
  "an_UpdateCompletionDuration env i d w =
     updateByCriteria env
       (\<lambda>w. locked_update env i (\<lambda>t r. r\<lparr>ar_duration := Some d, ar_completed_at := Some t\<rparr>) w)
       ''failed to update analysis duration and completion'' w"

definition an_MarkFailed ::
  "env \<Rightarrow> uuid \<Rightarrow> string \<Rightarrow> string \<Rightarrow> int \<Rightarrow> world \<Rightarrow> unit result \<times> world" where
  "an_MarkFailed env i code msg status w =
     updateByCriteria env
       (\<lambda>w. locked_update env i (\<lambda>t r. r\<lparr>ar_status := StatusFailed, ar_error_code := Some code,
               ar_error_message := Some msg, ar_error_status_code := Some status,
               ar_completed_at := Some t\<rparr>) w)
       ''failed to mark analysis as failed'' w"

text \<open>
  \<open>CopyResults\<close>: the size of the source is read first (a missing row, or a row without a size, is an
  error); the results come from a subquery, and neither the lock version nor \<open>updated_at\<close> changes.
\<close>

definition an_CopyResults :: "env \<Rightarrow> uuid \<Rightarrow> uuid \<Rightarrow> string \<Rightarrow> world \<Rightarrow> unit result \<times> world" where
  "an_CopyResults env i src h w =
     (case statement env
             (\<lambda>w. case List.find (\<lambda>r. ar_id r = src) (analysis_tab w) of
                    None \<Rightarrow> Inl ErrNoRows
                  | Some r \<Rightarrow> (case ar_content_size r of
                                 None \<Rightarrow> Inl (ErrText ''sql: Scan error: converting NULL to int64 is unsupported'')
                               | Some n \<Rightarrow> Inr (n, w))) w of
        (Inl e, w1) \<Rightarrow> (Inl (ErrWrap ''failed to get content size from source analysis'' e), w1)
      | (Inr sz, w1) \<Rightarrow>
          updateByCriteria env
            (\<lambda>w. if hash_too_long h then Inl pg_too_long
                 else update_analysis i
                   (\<lambda>r. r\<lparr>ar_content_hash := Some h, ar_content_size := Some sz,
                          ar_status := StatusCompleted,
                          ar_results := (case List.find (\<lambda>r. ar_id r = src) (analysis_tab w) of
                                           None \<Rightarrow> None | Some s \<Rightarrow> ar_results s),
                          ar_completed_at := Some (now env w)\<rparr>) w)
            ''failed to copy analysis results'' w1)"

section \<open>Deleting\<close>

definition an_Delete :: "env \<Rightarrow> uuid \<Rightarrow> world \<Rightarrow> unit result \<times> world" where
  "an_Delete env i w =
     in_tx env (\<lambda>w.
       (case statement env
               (\<lambda>w. Inr (length (filter (\<lambda>r. ar_id r = i) (analysis_tab w)),
                         w\<lparr>analysis_tab := filter (\<lambda>r. ar_id r \<noteq> i) (analysis_tab w)\<rparr>)) w of
          (Inl e, w1) \<Rightarrow> (Inl (ErrWrap ''failed to delete analysis'' e), w1)
        | (Inr n, w1) \<Rightarrow>
            (if n = 0 then (Inl (ErrText (''analysis with ID '' @ uuid_string i @ '' not found'')), w1)
             else (Inr (), w1)))) w"

section \<open>The table\<close>

text \<open>
  What the constraints of the migration and the code keep true of the table: identifiers are
  unique, and so are URL and version; the status is one of the enumeration; a completed row has a
  hash, its results and a completion time; the counters are positive.
\<close>

definition row_ok :: "analysis_row \<Rightarrow> bool" where
  "row_ok r \<longleftrightarrow> known_status (ar_status r) \<and> 1 \<le> ar_lock_version r \<and> 1 \<le> ar_version r \<and>
     (ar_status r = StatusCompleted \<longrightarrow>
        ar_content_hash r \<noteq> None \<and> ar_results r \<noteq> None \<and> ar_completed_at r \<noteq> None) \<and>
     (ar_status r = StatusFailed \<longrightarrow> ar_error_code r \<noteq> None \<and> ar_completed_at r \<noteq> None)"

definition analysis_table_ok :: "world \<Rightarrow> bool" where
  "analysis_table_ok w \<longleftrightarrow>
     distinct (map ar_id (analysis_tab w)) \<and>
     distinct (map (\<lambda>r. (ar_url r, ar_version r)) (analysis_tab w)) \<and>
     (\<forall>r \<in> set (analysis_tab w). row_ok r)"

lemma analysis_table_ok_tick [simp]: "tick_free analysis_table_ok"
  by (simp add: tick_free_def analysis_table_ok_def)

lemmas update_defs = updateByCriteria_def locked_update_def update_analysis_def bump_lock_def

lemma locked_update_ok:
  assumes "locked_update env i f w = Inr ((), w')" "analysis_table_ok w"
    and keep: "\<And>t r. row_ok r \<Longrightarrow> row_ok (f t r)"
    and frame: "\<And>t r. ar_id (f t r) = ar_id r \<and> ar_url (f t r) = ar_url r \<and> ar_version (f t r) = ar_version r"
  shows "analysis_table_ok w'"
proof -
  let ?g = "\<lambda>r. bump_lock (f (now env w) r)\<lparr>ar_updated_at := now env w\<rparr>"
  from assms(1) have w': "w' = w\<lparr>analysis_tab := update_where (\<lambda>r. ar_id r = i) ?g (analysis_tab w)\<rparr>"
    by (auto simp: locked_update_def update_analysis_def split: if_splits)
  have "map ar_id (update_where (\<lambda>r. ar_id r = i) ?g (analysis_tab w)) = map ar_id (analysis_tab w)"
    by (rule map_update_where) (simp add: bump_lock_def frame)
  moreover have "map (\<lambda>r. (ar_url r, ar_version r)) (update_where (\<lambda>r. ar_id r = i) ?g (analysis_tab w))
      = map (\<lambda>r. (ar_url r, ar_version r)) (analysis_tab w)"
    by (rule map_update_where) (simp add: bump_lock_def frame)
  moreover have "row_ok (?g r)" if "r \<in> set (analysis_tab w)" for r
  proof -
    have "row_ok (f (now env w) r)"
      using that assms(2) by (intro keep) (simp add: analysis_table_ok_def)
    then show ?thesis by (simp add: row_ok_def bump_lock_def)
  qed
  ultimately show ?thesis
    using assms(2) by (auto simp: w' analysis_table_ok_def set_update_where)
qed

lemma updateByCriteria_ok:
  assumes "analysis_table_ok w" "\<And>w w'. analysis_table_ok w \<Longrightarrow> f w = Inr ((), w') \<Longrightarrow> analysis_table_ok w'"
  shows "analysis_table_ok (snd (updateByCriteria env f ctx w))"
  unfolding updateByCriteria_def wrap_error_simps
  by (rule statement_preserves) (use assms in auto)

lemma an_Update_ok: "analysis_table_ok w \<Longrightarrow> analysis_table_ok (snd (an_Update env i h sz results w))"
  unfolding an_Update_def
  by (rule updateByCriteria_ok)
     (auto split: if_splits elim!: locked_update_ok simp: set_completed_def row_ok_def known_status_def)

lemma an_UpdateStatus_ok:
  assumes "analysis_table_ok w" "s = StatusRequested \<or> s = StatusInProgress"
  shows "analysis_table_ok (snd (an_UpdateStatus env i s w))"
  unfolding an_UpdateStatus_def
  by (rule updateByCriteria_ok [OF assms(1)])
     (use assms(2) in \<open>auto split: if_splits elim!: locked_update_ok simp: row_ok_def known_status_def\<close>)

lemma an_UpdateCompletionDuration_ok:
  "analysis_table_ok w \<Longrightarrow> analysis_table_ok (snd (an_UpdateCompletionDuration env i d w))"
  unfolding an_UpdateCompletionDuration_def
  by (rule updateByCriteria_ok) (auto elim!: locked_update_ok simp: row_ok_def)

lemma an_MarkFailed_ok: "analysis_table_ok w \<Longrightarrow> analysis_table_ok (snd (an_MarkFailed env i c m s w))"
  unfolding an_MarkFailed_def
  by (rule updateByCriteria_ok) (auto elim!: locked_update_ok simp: row_ok_def known_status_def)

lemma foldr_max_ge: "x \<in> set xs \<Longrightarrow> x \<le> foldr max xs (0::int)"
  by (induction xs) auto

lemma foldr_max_nonneg: "0 \<le> foldr max xs (0::int)"
  by (induction xs) auto

lemma foldr_max_mem: "foldr max xs (0::int) = 0 \<or> foldr max xs 0 \<in> set xs"
  by (induction xs) (auto simp: max_def)

lemma next_version_fresh: "r \<in> set rows \<Longrightarrow> ar_url r = url \<Longrightarrow> ar_version r < next_version url rows"
  using foldr_max_ge [of "ar_version r" "map ar_version (filter (\<lambda>r. ar_url r = url) rows)"]
  by (auto simp: next_version_def)

lemma next_version_pos: "1 \<le> next_version url rows"
  using foldr_max_nonneg [of "map ar_version (filter (\<lambda>r. ar_url r = url) rows)"]
  by (simp add: next_version_def)

lemma insert_analysis_ok:
  "analysis_table_ok w \<Longrightarrow> insert_analysis r w = Inr (u, w') \<Longrightarrow> row_ok r \<Longrightarrow> analysis_table_ok w'"
  unfolding insert_analysis_def analysis_table_ok_def by (fastforce split: if_splits)

lemma getNextVersion_ok:
  assumes "analysis_table_ok w" "getNextVersionWithExecutor env url w = (r1, w1)"
  shows "analysis_table_ok w1" "r1 = Inr v \<Longrightarrow> 1 \<le> v"
proof -
  have w1: "w1 = snd (getNextVersionWithExecutor env url w)" using assms(2) by simp
  show "analysis_table_ok w1"
    unfolding w1 getNextVersionWithExecutor_def wrap_error_simps
    by (rule statement_preserves [OF analysis_table_ok_tick assms(1)]) (auto split: if_splits)
  show "r1 = Inr v \<Longrightarrow> 1 \<le> v"
    using assms(2) next_version_pos
    by (auto simp: getNextVersionWithExecutor_def statement_def wrap_error_def
        split: prod.splits sum.splits outcome.splits if_splits)
qed

lemma insert_statement_ok:
  assumes "analysis_table_ok w" "1 \<le> v"
  shows "analysis_table_ok (snd (statement env
           (\<lambda>w. insert_analysis (new_row i url n v opts c (now env w)) w) w))"
  by (rule statement_preserves [OF analysis_table_ok_tick assms(1)])
     (use assms(2) in \<open>auto elim!: insert_analysis_ok simp: new_row_def row_ok_def known_status_def\<close>)

lemma an_insert_ok:
  assumes "analysis_table_ok w"
  shows "analysis_table_ok (snd (an_insert env ctx url opts w))"
proof (cases "NewNormalizedURL (url_Parse env) (url_String env) url")
  case (Inl e)
  with assms show ?thesis by (simp add: an_insert_def)
next
  case (Inr n)
  obtain r1 w1 where v: "getNextVersionWithExecutor env url w = (r1, w1)" by force
  note ok = getNextVersion_ok [OF assms v]
  show ?thesis
  proof (cases r1)
    case (Inl e)
    with Inr v ok(1) show ?thesis by (simp add: an_insert_def)
  next
    case v1: (Inr v)
    let ?c = "now env w1"
    let ?i = "uuid_NewSHA1 env AnalysisNamespace (analysis_id_name n v)"
    obtain r2 w2 where st: "statement env
        (\<lambda>w. insert_analysis (new_row ?i url n v opts ?c (now env w)) w) w1 = (r2, w2)" by force
    have "analysis_table_ok w2"
      using insert_statement_ok [OF ok(1) ok(2) [OF v1], of env ?i url n opts ?c] st by simp
    with Inr v v1 st show ?thesis
      by (cases r2) (simp_all add: an_insert_def Let_def)
  qed
qed

lemma an_Delete_ok: "analysis_table_ok w \<Longrightarrow> analysis_table_ok (snd (an_Delete env i w))"
  unfolding an_Delete_def
proof (rule in_tx_preserves [OF analysis_table_ok_tick], assumption)
  fix w assume w: "analysis_table_ok w"
  let ?f = "\<lambda>w. Inr (length (filter (\<lambda>r. ar_id r = i) (analysis_tab w)),
                     w\<lparr>analysis_tab := filter (\<lambda>r. ar_id r \<noteq> i) (analysis_tab w)\<rparr>) :: (nat \<times> world) result"
  have "analysis_table_ok (snd (statement env ?f w))"
    by (rule statement_preserves [OF analysis_table_ok_tick w])
       (auto simp: analysis_table_ok_def intro: distinct_map_filter)
  then show "analysis_table_ok (snd (case statement env ?f w of
      (Inl e, w1) \<Rightarrow> (Inl (ErrWrap ''failed to delete analysis'' e), w1)
    | (Inr n, w1) \<Rightarrow> (if n = 0 then (Inl (ErrText (''analysis with ID '' @ uuid_string i @ '' not found'')), w1)
                      else (Inr (), w1))))"
    by (auto split: prod.splits sum.splits)
qed

section \<open>Clients of the repository\<close>

datatype analysis_call =
    CallSave string analysis_options
  | CallSaveInTx string analysis_options
  | CallUpdate uuid string int "analysis_data option"
  | CallUpdateStatus uuid analysis_status
  | CallUpdateCompletionDuration uuid int
  | CallMarkFailed uuid string string int
  | CallDelete uuid

primrec analysis_exec :: "env \<Rightarrow> analysis_call \<Rightarrow> world \<Rightarrow> world" where
  "analysis_exec env (CallSave u p) w = snd (an_Save env u p w)"
| "analysis_exec env (CallSaveInTx u p) w = snd (an_SaveInTx env u p w)"
| "analysis_exec env (CallUpdate i h n d) w = snd (an_Update env i h n d w)"
| "analysis_exec env (CallUpdateStatus i s) w = snd (an_UpdateStatus env i s w)"
| "analysis_exec env (CallUpdateCompletionDuration i d) w = snd (an_UpdateCompletionDuration env i d w)"
| "analysis_exec env (CallMarkFailed i c m n) w = snd (an_MarkFailed env i c m n w)"
| "analysis_exec env (CallDelete i) w = snd (an_Delete env i w)"

text \<open>\<open>UpdateStatus\<close> writes any status; the services pass \<open>in_progress\<close> only.\<close>

definition plain_status :: "analysis_call \<Rightarrow> bool" where
  "plain_status c \<longleftrightarrow>
     (case c of CallUpdateStatus i s \<Rightarrow> s = StatusRequested \<or> s = StatusInProgress | _ \<Rightarrow> True)"

interpretation analysis_calls: keeps_invariant analysis_table_ok "\<lambda>c w. plain_status c" "analysis_exec env"
proof unfold_locales
  show "analysis_table_ok w \<Longrightarrow> plain_status c \<Longrightarrow> analysis_table_ok (analysis_exec env c w)" for c w
    by (cases c) (simp_all add: plain_status_def an_Save_def an_SaveInTx_def an_insert_ok an_Update_ok
        an_UpdateStatus_ok an_UpdateCompletionDuration_ok an_MarkFailed_ok an_Delete_ok)
qed

section \<open>Properties\<close>

definition sample_options :: analysis_options where
  "sample_options = \<lparr>include_headings = True, check_links = True, detect_forms = True, opt_timeout = 30 * Second\<rparr>"

text \<open>
  C11: whatever sequence of calls the services make and whatever calls to the database fail, the
  table keeps its invariant: unique identifiers, unique pairs of URL and version, known statuses,
  and results, hash and completion time in every completed row, an error code in every failed one.
\<close>

theorem analysis_table_invariant:
  "\<forall>c \<in> set cs. plain_status c \<Longrightarrow> analysis_table_ok w \<Longrightarrow> analysis_table_ok (fold (analysis_exec env) cs w)"
  by (rule analysis_calls.run_keeps) (auto intro: analysis_calls.accepted_all)

lemma empty_world_table_ok: "analysis_table_ok empty_world"
  by (simp add: analysis_table_ok_def empty_world_def)

theorem analysis_table_invariant_witness:
  "analysis_table_ok (fold (analysis_exec sample_env)
     [CallSave ''http://a.b/c'' sample_options, CallUpdateStatus (UUID ''x'') StatusInProgress] empty_world)"
  by (rule analysis_table_invariant) (simp_all add: plain_status_def empty_world_table_ok)

text \<open>Reading back a row that an update has just written.\<close>

lemma find_row_id: "find_row crit False rows = List.find crit rows"
  by (simp add: find_row_def)

lemma an_Find_ok:
  assumes "no_faults env"
  shows "fst (an_Find env i w) =
    (case List.find (\<lambda>r. ar_id r = i) (analysis_tab w) of
       None \<Rightarrow> Inl (ErrText (''analysis with ID '' @ uuid_string i @ '' not found''))
     | Some r \<Rightarrow> convertRowToAnalysis r)"
  by (simp add: an_Find_def findByCriteria_def statement_ok [OF assms] find_row_id split: option.splits)

lemma an_Update_ok_row:
  assumes "no_faults env" "\<not> hash_too_long h" "\<not> lock_overflow i w"
  shows "an_Update env i h sz d w =
    (Inr (), w\<lparr>tick := Suc (tick w),
       analysis_tab := update_where (\<lambda>r. ar_id r = i)
         (\<lambda>r. bump_lock (set_completed h sz (enc_results d) (clock env (Suc (tick w))) r)
                \<lparr>ar_updated_at := clock env (Suc (tick w))\<rparr>)
         (analysis_tab w)\<rparr>)"
  using assms by (simp add: an_Update_def updateByCriteria_def statement_ok locked_update_def
      lock_overflow_def update_analysis_def now_def)


definition sample_data :: analysis_data where
  "sample_data = \<lparr>ad_html_version = HTML5, ad_title = ''t'',
     ad_heading_counts = \<lparr>H1 = 1, H2 = 0, H3 = 0, H4 = 0, H5 = 0, H6 = 0\<rparr>,
     ad_links = \<lparr>la_internal_count = 0, la_external_count = 0, la_total_count = 0,
       la_external_links = None, la_inaccessible_links = None\<rparr>,
     ad_forms = \<lparr>fa_total_count = 0, fa_login_forms_detected = 0, fa_login_form_details = None\<rparr>,
     ad_fetch_time = 5, ad_processing_time = 3\<rparr>"

definition sample_row :: "string \<Rightarrow> analysis_row" where
  "sample_row u = new_row (UUID u) u u 1 None 0 0"


lemma getNextVersion_no_faults:
  "no_faults env \<Longrightarrow> next_version u (analysis_tab w) \<le> max_int32 \<Longrightarrow>
   getNextVersionWithExecutor env u w = (Inr (next_version u (analysis_tab w)), w\<lparr>tick := Suc (tick w)\<rparr>)"
  by (simp add: getNextVersionWithExecutor_def statement_ok)

lemma an_insert_no_faults:
  assumes "no_faults env" "NewNormalizedURL (url_Parse env) (url_String env) u = Inr n"
    and "next_version u (analysis_tab w) \<le> max_int32"
  shows "an_insert env ctx u opts w =
    (let w1 = w\<lparr>tick := Suc (tick w)\<rparr>; v = next_version u (analysis_tab w);
         i = uuid_NewSHA1 env AnalysisNamespace (analysis_id_name n v); c = clock env (Suc (tick w));
         w2 = w1\<lparr>tick := Suc (Suc (tick w))\<rparr>
     in case insert_analysis (new_row i u n v opts c (clock env (Suc (Suc (tick w))))) w2 of
          Inl e \<Rightarrow> (Inl (ErrWrap ctx e), w2)
        | Inr (_, w3) \<Rightarrow> (Inr (new_analysis i u c 1), w3))"
  using assms by (simp add: an_insert_def getNextVersion_no_faults statement_ok now_def Let_def
      split: sum.splits)

lemma next_version_new [simp]:
  assumes "u \<notin> ar_url ` set rows"
  shows "next_version u rows = 1"
proof -
  have "filter (\<lambda>r. ar_url r = u) rows = []" using assms by (auto simp: filter_empty_conv)
  then show ?thesis by (simp add: next_version_def)
qed

lemma insert_duplicate_key:
  "ar_id r \<in> ar_id ` set (analysis_tab w) \<Longrightarrow> \<exists>e. insert_analysis r w = Inl e"
  by (auto simp: insert_analysis_def)

text \<open>
  Also: the identifier of a new analysis is made of the normalised URL and a version that is counted
  by the URL as it was given. So the first analyses of two spellings of one URL get the same
  identifier: after \<open>Save\<close> of the one, saving the other is refused by the primary key, leaves the
  table as it was, and is refused again however often it is tried.
\<close>

theorem respelled_url_refused:
  assumes "no_faults env" "u \<noteq> u'"
    and "NewNormalizedURL (url_Parse env) (url_String env) u = Inr n"
    and "NewNormalizedURL (url_Parse env) (url_String env) u' = Inr n"
    and "u \<notin> ar_url ` set (analysis_tab w)" "u' \<notin> ar_url ` set (analysis_tab w)"
    and "an_Save env u opts w = (Inr a, w1)"
    and "analysis_tab w2 = analysis_tab w1"
  shows "(\<exists>e. fst (an_SaveInTx env u' opts w2) = Inl e) \<and>
     analysis_tab (snd (an_SaveInTx env u' opts w2)) = analysis_tab w1"
proof -
  let ?i = "uuid_NewSHA1 env AnalysisNamespace (analysis_id_name n 1)"
  have m: "(1::int) \<le> max_int32" by (simp add: max_int32_def)
  have ins: "\<exists>r. analysis_tab w1 = analysis_tab w @ [r] \<and> ar_id r = ?i \<and> ar_url r = u"
    using assms(7) an_insert_no_faults [OF assms(1,3), of w] assms(5) m
    by (auto simp: an_Save_def Let_def insert_analysis_def new_row_def split: if_splits)
  then have n1: "next_version u' (analysis_tab w2) = 1" and dup: "?i \<in> ar_id ` set (analysis_tab w2)"
    using assms(2,6,8) by (auto intro!: next_version_new)
  let ?r = "new_row ?i u' n 1 (Some (enc_options opts)) (clock env (Suc (tick w2))) (clock env (Suc (Suc (tick w2))))"
  obtain e where "insert_analysis ?r (w2\<lparr>tick := Suc (Suc (tick w2))\<rparr>) = Inl e"
    using insert_duplicate_key [of ?r "w2\<lparr>tick := Suc (Suc (tick w2))\<rparr>"] dup by (auto simp: new_row_def)
  then show ?thesis
    using an_insert_no_faults [OF assms(1,4), of w2] m
    by (simp add: n1 [unfolded assms(8)] an_SaveInTx_def Let_def assms(8))
qed

theorem respelled_url_refused_witness:
  "\<exists>e. fst (an_SaveInTx sample_env ''HTTP://a.b'' sample_options
       (snd (an_Save sample_env ''http://a.b/'' sample_options empty_world))) = Inl e"
proof -
  let ?r = "an_Save sample_env ''http://a.b/'' sample_options empty_world"
  have norm: "NewNormalizedURL sample_Parse sample_String ''http://a.b/'' = Inr ''http://a.b''"
    "NewNormalizedURL sample_Parse sample_String ''HTTP://a.b'' = Inr ''http://a.b''"
    by code_simp+
  have "\<exists>a. fst ?r = Inr a"
    using an_insert_no_faults [of sample_env "''http://a.b/''" "''http://a.b''" empty_world] norm
    by (simp add: an_Save_def empty_world_def Let_def insert_analysis_def max_int32_def)
  then obtain a where "?r = (Inr a, snd ?r)" by (metis prod.collapse)
  then show ?thesis
    using norm respelled_url_refused [of sample_env "''http://a.b/''" "''HTTP://a.b''" "''http://a.b''"
        empty_world sample_options a "snd ?r" "snd ?r"]
    by (simp add: empty_world_def)
qed

end
