(* ===== verification/Outbox_Repo.thy ===== *)
theory Outbox_Repo
  imports Analysis_Repo "HOL-Library.Product_Lexorder"
begin

text \<open>
  \<open>internal/adapters/repos/outbox_repository.go\<close>: the statements of the outbox repository on the
  table \<open>outbox_events\<close> with the constraints of its migration, and the conversion of rows to
  \<open>domain.OutboxEvent\<close>. \<open>NOW()\<close> is the time at which the transaction began. Columns of type UUID
  always parse, and the query builder does not fail, so these two error branches are left out.
\<close>

definition OutboxNamespace :: uuid where
  "OutboxNamespace = UUID ''b9c6f6d1-8e4a-5f2b-c9d5-9fadab2c4d5f''"

section \<open>Rows and events\<close>

definition unmarshalPayload :: "outbox_event_type \<Rightarrow> json \<Rightarrow> payload result" where
  "unmarshalPayload t j =
     (case t of
        OutboxEventOther _ \<Rightarrow> Inr (GenericPayload j)
      | _ \<Rightarrow> (case dec_payload j of
                 Inl e \<Rightarrow> Inl (ErrWrap ''failed to unmarshal AnalysisRequestPayload'' e)
               | Inr p \<Rightarrow> Inr (AnalysisRequestPayload p)))"

definition convertRowToEvent :: "outbox_row \<Rightarrow> outbox_event result" where
  "convertRowToEvent r =
     (case unmarshalPayload (or_event_type r) (or_payload r) of
        Inl e \<Rightarrow> Inl (ErrWrap ''failed to unmarshal payload'' e)
      | Inr p \<Rightarrow> Inr \<lparr>oe_id = or_id r, oe_aggregate_id = or_aggregate_id r,
          oe_aggregate_type = or_aggregate_type r, oe_event_type = or_event_type r,
          oe_priority = or_priority r, oe_retry_count = or_retry_count r,
          oe_max_retries = or_max_retries r, oe_status = or_status r, oe_payload = p,
          oe_error_details = or_error_details r, oe_created_at = or_created_at r,
          oe_started_at = or_started_at r, oe_published_at = or_published_at r,
          oe_processed_at = or_processed_at r, oe_completed_at = or_completed_at r,
          oe_next_retry_at = or_next_retry_at r\<rparr>)"

definition enc_event_payload :: "payload \<Rightarrow> json" where
  "enc_event_payload p = (case p of AnalysisRequestPayload q \<Rightarrow> enc_payload q | GenericPayload j \<Rightarrow> j)"

section \<open>Inserting\<close>

definition outbox_event_name :: "outbox_event \<Rightarrow> string" where
  "outbox_event_name e =
     uuid_string (oe_aggregate_id e) @ ''::'' @ event_type_string (oe_event_type e) @ ''::'' @
     itoa (oe_created_at e div Second)"

definition with_id :: "env \<Rightarrow> outbox_event \<Rightarrow> outbox_event" where
  "with_id env e =
     (if oe_id e = uuid_Nil
      then e\<lparr>oe_id := uuid_NewSHA1 env OutboxNamespace (outbox_event_name e)\<rparr> else e)"

definition event_row :: "outbox_event \<Rightarrow> outbox_row" where
  "event_row e =
     \<lparr>or_id = oe_id e, or_aggregate_id = oe_aggregate_id e, or_aggregate_type = oe_aggregate_type e,
      or_event_type = oe_event_type e, or_priority = oe_priority e,
      or_retry_count = oe_retry_count e, or_max_retries = oe_max_retries e,
      or_status = oe_status e, or_payload = enc_event_payload (oe_payload e),
      or_error_details = None, or_created_at = oe_created_at e, or_started_at = None,
      or_published_at = None, or_processed_at = None, or_completed_at = None,
      or_next_retry_at = None\<rparr>"

definition fits_int32 :: "int \<Rightarrow> bool" where
  "fits_int32 n \<longleftrightarrow> - max_int32 - 1 \<le> n \<and> n \<le> max_int32"

definition insert_outbox :: "outbox_row \<Rightarrow> world \<Rightarrow> (unit \<times> world) result" where
  "insert_outbox r w =
     (if 50 < length (or_aggregate_type r) then Inl (ErrText ''pq: value too long for type character varying(50)'')
      else if 100 < length (event_type_string (or_event_type r)) then
        Inl (ErrText ''pq: value too long for type character varying(100)'')
      else if \<not> fits_int32 (or_retry_count r) \<or> \<not> fits_int32 (or_max_retries r) then Inl pg_overflow
      else if or_id r \<in> or_id ` set (outbox_tab w) then
        Inl (ErrText ''pq: duplicate key value violates unique constraint outbox_events_pkey'')
      else Inr ((), w\<lparr>outbox_tab := outbox_tab w @ [r]\<rparr>))"

text \<open>\<open>SaveInTx\<close> gives the event an identifier when it has none; the caller sees the change.\<close>

definition ob_SaveInTx :: "env \<Rightarrow> outbox_event \<Rightarrow> world \<Rightarrow> outbox_event result \<times> world" where
  "ob_SaveInTx env e w =
     (let e' = with_id env e
      in case statement env (insert_outbox (event_row e')) w of
           (Inl err, w1) \<Rightarrow> (Inl (ErrWrap ''failed to save outbox event'' err), w1)
         | (Inr _, w1) \<Rightarrow> (Inr e', w1))"

section \<open>Queries\<close>

text \<open>
  The \<open>LIMIT\<close> is a non-negative number. Rows with equal keys come in the order of the table (the
  database promises no order for them); the properties hold for any.
\<close>

definition pending_key :: "outbox_row \<Rightarrow> nat \<times> time" where
  "pending_key r = (3 - priority_rank (or_priority r), or_created_at r)"

definition retryable :: "time \<Rightarrow> outbox_row \<Rightarrow> bool" where
  "retryable t r \<longleftrightarrow>
     or_status r = OutboxStatusFailed \<and>
     (case or_next_retry_at r of None \<Rightarrow> False | Some n \<Rightarrow> n \<le> t) \<and>
     or_retry_count r < or_max_retries r"

definition retry_key :: "outbox_row \<Rightarrow> time" where
  "retry_key r = (case or_next_retry_at r of None \<Rightarrow> 0 | Some t \<Rightarrow> t)"

definition select_pending :: "nat \<Rightarrow> outbox_row list \<Rightarrow> outbox_row list" where
  "select_pending limit rows =
     take limit (sort_key pending_key (filter (\<lambda>r. or_status r = OutboxStatusPending) rows))"

definition select_retryable :: "time \<Rightarrow> nat \<Rightarrow> outbox_row list \<Rightarrow> outbox_row list" where
  "select_retryable t limit rows = take limit (sort_key retry_key (filter (retryable t) rows))"

definition ob_findByCriteria ::
  "env \<Rightarrow> (time \<Rightarrow> outbox_row list \<Rightarrow> outbox_row list) \<Rightarrow> string \<Rightarrow> world \<Rightarrow>
     outbox_event list result \<times> world" where
  "ob_findByCriteria env query errorContext w =
     (case statement env (\<lambda>w. Inr (query (now env w) (outbox_tab w), w)) w of
        (Inl e, w1) \<Rightarrow> (Inl (ErrWrap (''failed to query '' @ errorContext) e), w1)
      | (Inr rows, w1) \<Rightarrow> (map_result convertRowToEvent rows, w1))"

definition ob_FindPending :: "env \<Rightarrow> nat \<Rightarrow> world \<Rightarrow> outbox_event list result \<times> world" where
  "ob_FindPending env limit = ob_findByCriteria env (\<lambda>t. select_pending limit) ''pending outbox events''"

definition ob_FindRetryable :: "env \<Rightarrow> nat \<Rightarrow> world \<Rightarrow> outbox_event list result \<times> world" where
  "ob_FindRetryable env limit =
     ob_findByCriteria env (\<lambda>t. select_retryable t limit) ''retryable outbox events''"

definition latest_event :: "uuid \<Rightarrow> outbox_row list \<Rightarrow> outbox_row option" where
  "latest_event agg rows =
     (case sort_key (\<lambda>r. - or_created_at r) (filter (\<lambda>r. or_aggregate_id r = agg) rows) of
        [] \<Rightarrow> None | r # _ \<Rightarrow> Some r)"

definition ob_GetByAggregateID :: "env \<Rightarrow> uuid \<Rightarrow> world \<Rightarrow> outbox_event result \<times> world" where
  "ob_GetByAggregateID env agg w =
     (case statement env (\<lambda>w. case latest_event agg (outbox_tab w) of
                                 None \<Rightarrow> Inl ErrNoRows | Some r \<Rightarrow> Inr (r, w)) w of
        (Inl e, w1) \<Rightarrow>
          (Inl (if errors_Is e ErrNoRows
                then ErrText (''outbox event not found for aggregate ID: '' @ uuid_string agg)
                else ErrWrap ''failed to query outbox event by aggregate ID'' e), w1)
      | (Inr r, w1) \<Rightarrow> (convertRowToEvent r, w1))"

section \<open>Claiming and marking\<close>

definition claimable_row :: "uuid \<Rightarrow> outbox_row \<Rightarrow> bool" where
  "claimable_row i r \<longleftrightarrow>
     or_id r = i \<and> (or_status r = OutboxStatusPending \<or> or_status r = OutboxStatusFailed)"

definition set_processing :: "time \<Rightarrow> outbox_row \<Rightarrow> outbox_row" where
  "set_processing t r = r\<lparr>or_status := OutboxStatusProcessing, or_started_at := Some t\<rparr>"

definition claim_statement :: "uuid \<Rightarrow> time \<Rightarrow> world \<Rightarrow> (outbox_row \<times> world) result" where
  "claim_statement i t w =
     (case List.find (claimable_row i) (outbox_tab w) of
        None \<Rightarrow> Inl ErrNoRows
      | Some r \<Rightarrow> Inr (set_processing t r,
          w\<lparr>outbox_tab := update_where (claimable_row i) (set_processing t) (outbox_tab w)\<rparr>))"

definition ob_ClaimForProcessing :: "env \<Rightarrow> uuid \<Rightarrow> world \<Rightarrow> outbox_event result \<times> world" where
  "ob_ClaimForProcessing env i =
     in_tx env (\<lambda>w.
       case statement env (claim_statement i (now env w)) w of
         (Inl e, w1) \<Rightarrow>
           (Inl (if errors_Is e ErrNoRows then ErrText ''event not found or already claimed''
                 else ErrWrap ''failed to claim event'' e), w1)
       | (Inr r, w1) \<Rightarrow> (convertRowToEvent r, w1))"

text \<open>
  The common shape of the statements that mark an event: how many rows an \<open>UPDATE ... WHERE id = ?\<close>
  has changed, and the error when there is none.
\<close>

definition mark_rows ::
  "uuid \<Rightarrow> (outbox_row \<Rightarrow> bool) \<Rightarrow> (outbox_row \<Rightarrow> outbox_row) \<Rightarrow> world \<Rightarrow> (nat \<times> world) result" where
  "mark_rows i overflow f w =
     (if \<exists>r \<in> set (outbox_tab w). or_id r = i \<and> overflow r then Inl pg_overflow
      else Inr (length (filter (\<lambda>r. or_id r = i) (outbox_tab w)),
                w\<lparr>outbox_tab := update_where (\<lambda>r. or_id r = i) f (outbox_tab w)\<rparr>))"

definition mark_event ::
  "env \<Rightarrow> string \<Rightarrow> uuid \<Rightarrow> (outbox_row \<Rightarrow> bool) \<Rightarrow> (time \<Rightarrow> outbox_row \<Rightarrow> outbox_row) \<Rightarrow> time \<Rightarrow> world \<Rightarrow>
     unit result \<times> world" where
  "mark_event env what i overflow f t w =
     (case statement env (mark_rows i overflow (f t)) w of
        (Inl e, w1) \<Rightarrow> (Inl (ErrWrap what e), w1)
      | (Inr n, w1) \<Rightarrow>
          (if n = 0 then (Inl (ErrText (''event not found: '' @ uuid_string i)), w1) else (Inr (), w1)))"

definition never :: "outbox_row \<Rightarrow> bool" where
  "never r \<longleftrightarrow> False"

definition ob_MarkPublished :: "env \<Rightarrow> uuid \<Rightarrow> world \<Rightarrow> unit result \<times> world" where
  "ob_MarkPublished env i =
     in_tx env (\<lambda>w. mark_event env ''failed to mark event as published'' i never
       (\<lambda>t r. r\<lparr>or_status := OutboxStatusPublished, or_published_at := Some t\<rparr>) (now env w) w)"

definition ob_MarkProcessed :: "env \<Rightarrow> uuid \<Rightarrow> world \<Rightarrow> unit result \<times> world" where
  "ob_MarkProcessed env i w =
     mark_event env ''failed to mark event as processed'' i never
       (\<lambda>t r. r\<lparr>or_processed_at := Some t\<rparr>) (now env w) w"

definition ob_MarkCompleted :: "env \<Rightarrow> uuid \<Rightarrow> world \<Rightarrow> unit result \<times> world" where
  "ob_MarkCompleted env i w =
     mark_event env ''failed to mark event as completed'' i never
       (\<lambda>t r. r\<lparr>or_completed_at := Some t\<rparr>) (now env w) w"

definition ob_MarkFailed ::
  "env \<Rightarrow> uuid \<Rightarrow> string \<Rightarrow> time option \<Rightarrow> world \<Rightarrow> unit result \<times> world" where
  "ob_MarkFailed env i details next_retry =
     in_tx env (\<lambda>w. mark_event env ''failed to mark event as failed'' i
       (\<lambda>r. or_retry_count r = max_int32)
       (\<lambda>t r. r\<lparr>or_status := OutboxStatusFailed, or_retry_count := or_retry_count r + 1,
                or_error_details := Some details, or_next_retry_at := next_retry\<rparr>) (now env w) w)"

definition ob_MarkPermanentlyFailed :: "env \<Rightarrow> uuid \<Rightarrow> string \<Rightarrow> world \<Rightarrow> unit result \<times> world" where
  "ob_MarkPermanentlyFailed env i details =
     in_tx env (\<lambda>w. mark_event env ''failed to mark event as permanently failed'' i never
       (\<lambda>t r. r\<lparr>or_status := OutboxStatusFailed, or_error_details := Some details,
                or_next_retry_at := None\<rparr>) (now env w) w)"

section \<open>What the operations do to the table\<close>

lemma claim_effect:
  assumes "ob_ClaimForProcessing env i w = (r, w')"
  obtains (claimed) t row e where "r = Inr e" "List.find (claimable_row i) (outbox_tab w) = Some row"
        "convertRowToEvent (set_processing t row) = Inr e"
        "outbox_tab w' = update_where (claimable_row i) (set_processing t) (outbox_tab w)"
    | (lost) t e where "r = Inl e"
        "outbox_tab w' = update_where (claimable_row i) (set_processing t) (outbox_tab w)"
    | (unclaimed) e where "r = Inl e" "outbox_tab w' = outbox_tab w"
proof -
  let ?w1 = "w\<lparr>tick := Suc (tick w)\<rparr>"
  let ?body = "\<lambda>w. case statement env (claim_statement i (now env w)) w of
         (Inl e, w1) \<Rightarrow>
           (Inl (if errors_Is e ErrNoRows then ErrText ''event not found or already claimed''
                 else ErrWrap ''failed to claim event'' e), w1)
       | (Inr r, w1) \<Rightarrow> (convertRowToEvent r, w1)"
  have body: "\<exists>t row. List.find (claimable_row i) (outbox_tab w) = Some row \<and>
      convertRowToEvent (set_processing t row) = Inr e \<and>
      outbox_tab w2 = update_where (claimable_row i) (set_processing t) (outbox_tab w)"
    if "?body ?w1 = (Inr e, w2)" for e w2
  proof -
    obtain q w3 where st: "statement env (claim_statement i (now env ?w1)) ?w1 = (q, w3)" by force
    from st show ?thesis
      by (cases rule: statement_cases)
         (use that st in \<open>auto simp: claim_statement_def split: option.splits\<close>)
  qed
  from assms have tx: "in_tx env ?body w = (r, w')" by (simp add: ob_ClaimForProcessing_def)
  show thesis
  proof (cases rule: in_tx_cases [OF tx])
    case (1 x w2)
    with body [of x w2] show thesis by (auto intro: claimed)
  next
    case (2 e x w2)
    with body [of x w2] show thesis by (auto intro: lost)
  next
    case (3 e n)
    then show thesis by (intro unclaimed) auto
  qed
qed

lemma mark_event_effect:
  assumes "mark_event env what i ov f t w = (r, w')"
  shows "outbox_tab w' = outbox_tab w \<or> outbox_tab w' = update_where (\<lambda>r. or_id r = i) (f t) (outbox_tab w)"
    and "r = Inr u \<Longrightarrow> outbox_tab w' = update_where (\<lambda>r. or_id r = i) (f t) (outbox_tab w) \<and>
            i \<in> or_id ` set (outbox_tab w)"
proof -
  obtain q w1 where st: "statement env (mark_rows i ov (f t)) w = (q, w1)" by force
  then have w1: "w1 = w'" using assms by (auto simp: mark_event_def split: sum.splits if_splits)
  from st show "outbox_tab w' = outbox_tab w \<or> outbox_tab w' = update_where (\<lambda>r. or_id r = i) (f t) (outbox_tab w)"
    by (cases rule: statement_cases) (auto simp: mark_rows_def w1 split: if_splits)
  assume "r = Inr u"
  with assms st obtain n where n: "q = Inr n" "n \<noteq> 0"
    by (auto simp: mark_event_def split: sum.splits if_splits)
  from st show "outbox_tab w' = update_where (\<lambda>r. or_id r = i) (f t) (outbox_tab w) \<and>
            i \<in> or_id ` set (outbox_tab w)"
    by (cases rule: statement_cases)
       (use n in \<open>auto simp: mark_rows_def w1 filter_empty_conv split: if_splits\<close>)
qed

lemma mark_tx_effect:
  assumes "in_tx env (\<lambda>w. mark_event env what i ov f (now env w) w) w = (r, w')"
  shows "\<exists>t. outbox_tab w' = outbox_tab w \<or> outbox_tab w' = update_where (\<lambda>r. or_id r = i) (f t) (outbox_tab w)"
    and "r = Inr u \<Longrightarrow> \<exists>t. outbox_tab w' = update_where (\<lambda>r. or_id r = i) (f t) (outbox_tab w) \<and>
            i \<in> or_id ` set (outbox_tab w)"
proof -
  let ?w1 = "w\<lparr>tick := Suc (tick w)\<rparr>"
  note body = mark_event_effect [of env what i ov f "now env ?w1" ?w1]
  from assms show "\<exists>t. outbox_tab w' = outbox_tab w \<or> outbox_tab w' = update_where (\<lambda>r. or_id r = i) (f t) (outbox_tab w)"
  proof (cases rule: in_tx_cases)
    case (committed x w2)
    with body(1) [OF committed(2)] show ?thesis by auto
  next
    case (unsure e x w2)
    with body(1) [OF unsure(2)] show ?thesis by auto
  qed simp
  assume r: "r = Inr u"
  from assms show "\<exists>t. outbox_tab w' = update_where (\<lambda>r. or_id r = i) (f t) (outbox_tab w) \<and>
            i \<in> or_id ` set (outbox_tab w)"
  proof (cases rule: in_tx_cases)
    case (committed x w2)
    with body(2) [OF committed(2)] show ?thesis by auto
  qed (use r in simp_all)
qed

section \<open>The claim contract\<close>

text \<open>
  What the publishers rely on when several of them poll one table: a claim that succeeds takes
  something that could be claimed and cannot be any more, and no claim makes anything claimable.
\<close>

locale claim_store =
  fixes claim :: "'k \<Rightarrow> 'w \<Rightarrow> 'e result \<times> 'w"
    and claimable :: "'k \<Rightarrow> 'w \<Rightarrow> bool"
  assumes claim_takes: "claim k w = (Inr e, w') \<Longrightarrow> claimable k w \<and> \<not> claimable k w'"
    and claim_only_takes: "claim k w = (r, w') \<Longrightarrow> claimable j w' \<Longrightarrow> claimable j w"
begin

fun winners :: "'k list \<Rightarrow> 'w \<Rightarrow> 'k list" where
  "winners [] w = []"
| "winners (k # ks) w =
     (case claim k w of (Inl _, w') \<Rightarrow> winners ks w' | (Inr _, w') \<Rightarrow> k # winners ks w')"

lemma winners_claimable: "k \<in> set (winners ks w) \<Longrightarrow> claimable k w"
proof (induction ks w rule: winners.induct)
  case (2 j ks w)
  obtain r w' where c: "claim j w = (r, w')" by force
  with 2 show ?case
    by (cases r) (auto dest: claim_takes intro: claim_only_takes [OF c])
qed simp

lemma winners_distinct: "distinct (winners ks w)"
proof (induction ks w rule: winners.induct)
  case (2 k ks w)
  obtain r w' where c: "claim k w = (r, w')" by force
  with 2 show ?case
    by (cases r) (auto dest: claim_takes winners_claimable)
qed simp

end

definition claimable :: "uuid \<Rightarrow> world \<Rightarrow> bool" where
  "claimable i w \<longleftrightarrow> (\<exists>r \<in> set (outbox_tab w). claimable_row i r)"

lemma claimable_after:
  "outbox_tab w' = update_where (claimable_row i) (set_processing t) (outbox_tab w) \<Longrightarrow>
   claimable j w' \<longleftrightarrow> j \<noteq> i \<and> claimable j w"
  by (auto simp: claimable_def claimable_row_def set_processing_def set_update_where)

lemma claimable_same: "outbox_tab w' = outbox_tab w \<Longrightarrow> claimable j w' = claimable j w"
  by (simp add: claimable_def)

interpretation outbox_claim: claim_store "ob_ClaimForProcessing env" claimable
proof unfold_locales
  fix k w e w' assume "ob_ClaimForProcessing env k w = (Inr e, w')"
  then show "claimable k w \<and> \<not> claimable k w'"
  proof (cases rule: claim_effect)
    case (claimed t row e)
    then show ?thesis
      using find_SomeD [OF claimed(2)] claimable_after [OF claimed(4)] by (auto simp: claimable_def)
  qed simp_all
next
  fix k w r w' j assume "ob_ClaimForProcessing env k w = (r, w')" "claimable j w'"
  then show "claimable j w"
  proof (cases rule: claim_effect)
    case (claimed t row e)
    with \<open>claimable j w'\<close> claimable_after [OF claimed(4)] show ?thesis by blast
  next
    case (lost t e)
    with \<open>claimable j w'\<close> claimable_after [OF lost(2)] show ?thesis by blast
  next
    case (unclaimed e)
    with \<open>claimable j w'\<close> claimable_same [OF unclaimed(2)] show ?thesis by blast
  qed
qed

section \<open>The table\<close>

definition outbox_row_ok :: "outbox_row \<Rightarrow> bool" where
  "outbox_row_ok r \<longleftrightarrow> 0 \<le> or_retry_count r \<and>
     (or_status r = OutboxStatusProcessing \<longrightarrow> or_started_at r \<noteq> None) \<and>
     (or_status r = OutboxStatusPublished \<longrightarrow> or_published_at r \<noteq> None) \<and>
     (or_status r = OutboxStatusFailed \<longrightarrow> or_error_details r \<noteq> None)"

definition outbox_table_ok :: "world \<Rightarrow> bool" where
  "outbox_table_ok w \<longleftrightarrow> distinct (map or_id (outbox_tab w)) \<and> (\<forall>r \<in> set (outbox_tab w). outbox_row_ok r)"

datatype outbox_op =
    OpSave outbox_event
  | OpClaim uuid
  | OpPublished uuid
  | OpProcessed uuid
  | OpCompleted uuid
  | OpFailed uuid string "time option"
  | OpPermanentlyFailed uuid string

primrec outbox_exec :: "env \<Rightarrow> outbox_op \<Rightarrow> world \<Rightarrow> world" where
  "outbox_exec env (OpSave e) w = snd (ob_SaveInTx env e w)"
| "outbox_exec env (OpClaim i) w = snd (ob_ClaimForProcessing env i w)"
| "outbox_exec env (OpPublished i) w = snd (ob_MarkPublished env i w)"
| "outbox_exec env (OpProcessed i) w = snd (ob_MarkProcessed env i w)"
| "outbox_exec env (OpCompleted i) w = snd (ob_MarkCompleted env i w)"
| "outbox_exec env (OpFailed i d t) w = snd (ob_MarkFailed env i d t w)"
| "outbox_exec env (OpPermanentlyFailed i d) w = snd (ob_MarkPermanentlyFailed env i d w)"

text \<open>An event is saved as pending, with no retries yet.\<close>

definition saves_pending :: "outbox_op \<Rightarrow> bool" where
  "saves_pending c \<longleftrightarrow>
     (case c of OpSave e \<Rightarrow> oe_status e = OutboxStatusPending \<and> oe_retry_count e = 0 | _ \<Rightarrow> True)"

lemma outbox_table_update:
  assumes "outbox_table_ok w" "outbox_tab w' = update_where P f (outbox_tab w)"
    and "\<And>r. or_id (f r) = or_id r" "\<And>r. outbox_row_ok r \<Longrightarrow> outbox_row_ok (f r)"
  shows "outbox_table_ok w'"
proof -
  have "map or_id (outbox_tab w') = map or_id (outbox_tab w)"
    unfolding assms(2) by (rule map_update_where) (simp add: assms(3))
  with assms show ?thesis by (auto simp: outbox_table_ok_def set_update_where)
qed

lemma outbox_table_same: "outbox_table_ok w \<Longrightarrow> outbox_tab w' = outbox_tab w \<Longrightarrow> outbox_table_ok w'"
  by (simp add: outbox_table_ok_def)

lemma mark_keeps:
  assumes "outbox_table_ok w"
    and "outbox_tab w' = outbox_tab w \<or> outbox_tab w' = update_where (\<lambda>r. or_id r = i) f (outbox_tab w)"
    and "\<And>r. or_id (f r) = or_id r" "\<And>r. outbox_row_ok r \<Longrightarrow> outbox_row_ok (f r)"
  shows "outbox_table_ok w'"
  using assms(2) outbox_table_same [OF assms(1)] outbox_table_update [OF assms(1) _ assms(3,4)] by blast

lemma claim_keeps:
  assumes "outbox_table_ok w"
  shows "outbox_table_ok (snd (ob_ClaimForProcessing env i w))"
proof -
  obtain r w' where c: "ob_ClaimForProcessing env i w = (r, w')" by force
  have upd: "outbox_tab w' = update_where (claimable_row i) (set_processing t) (outbox_tab w) \<Longrightarrow>
      outbox_table_ok w'" for t
    by (erule outbox_table_update [OF assms]) (simp_all add: set_processing_def outbox_row_ok_def)
  from c have "outbox_table_ok w'"
    by (cases rule: claim_effect) (use upd outbox_table_same [OF assms] in blast)+
  with c show ?thesis by simp
qed

lemma save_keeps:
  assumes "outbox_table_ok w" "oe_status e = OutboxStatusPending" "oe_retry_count e = 0"
  shows "outbox_table_ok (snd (ob_SaveInTx env e w))"
proof -
  have ok: "outbox_row_ok (event_row (with_id env e))"
    using assms(2,3) by (simp add: outbox_row_ok_def event_row_def with_id_def)
  obtain r w' where st: "statement env (insert_outbox (event_row (with_id env e))) w = (r, w')" by force
  have "outbox_tab w' = outbox_tab w \<or> outbox_table_ok w'"
    using st
    by (cases rule: statement_cases)
       (use ok assms(1) in \<open>auto simp: insert_outbox_def outbox_table_ok_def split: if_splits\<close>)
  then have "outbox_table_ok w'" using assms(1) outbox_table_same by blast
  with st show ?thesis by (simp add: ob_SaveInTx_def Let_def split: sum.splits)
qed

lemmas ob_mark_defs = ob_MarkPublished_def ob_MarkProcessed_def ob_MarkCompleted_def ob_MarkFailed_def
  ob_MarkPermanentlyFailed_def

lemma mark_tx_keeps:
  assumes "outbox_table_ok w" "\<And>t r. or_id (f t r) = or_id r" "\<And>t r. outbox_row_ok r \<Longrightarrow> outbox_row_ok (f t r)"
  shows "outbox_table_ok (snd (in_tx env (\<lambda>w. mark_event env what i ov f (now env w) w) w))"
    and "outbox_table_ok (snd (mark_event env what i ov f t0 w))"
proof -
  obtain r w' where m: "in_tx env (\<lambda>w. mark_event env what i ov f (now env w) w) w = (r, w')" by force
  from mark_tx_effect(1) [OF m] obtain t where
    "outbox_tab w' = outbox_tab w \<or> outbox_tab w' = update_where (\<lambda>r. or_id r = i) (f t) (outbox_tab w)" ..
  from mark_keeps [OF assms(1) this] assms(2,3) m
  show "outbox_table_ok (snd (in_tx env (\<lambda>w. mark_event env what i ov f (now env w) w) w))" by simp
  obtain r w' where m: "mark_event env what i ov f t0 w = (r, w')" by force
  from mark_keeps [OF assms(1) mark_event_effect(1) [OF m]] assms(2,3) m
  show "outbox_table_ok (snd (mark_event env what i ov f t0 w))" by simp
qed

interpretation outbox_ops: keeps_invariant outbox_table_ok "\<lambda>c w. saves_pending c" "outbox_exec env"
proof unfold_locales
  show "outbox_table_ok w \<Longrightarrow> saves_pending c \<Longrightarrow> outbox_table_ok (outbox_exec env c w)" for c w
    by (cases c)
       (auto simp: saves_pending_def ob_mark_defs outbox_row_ok_def
          intro!: save_keeps claim_keeps mark_tx_keeps)
qed

section \<open>Properties\<close>

definition sample_payload :: request_payload where
  "sample_payload = \<lparr>rp_analysis_id = UUID ''a'', rp_url = ''http://a.b'', rp_options = sample_options,
     rp_priority = PriorityNormal, rp_created_at = 0\<rparr>"

definition sample_event :: "string \<Rightarrow> priority \<Rightarrow> time \<Rightarrow> outbox_event" where
  "sample_event i p t = \<lparr>oe_id = UUID i, oe_aggregate_id = UUID ''a'', oe_aggregate_type = ''analysis'',
     oe_event_type = OutboxEventAnalysisRequested, oe_priority = p, oe_retry_count = 0,
     oe_max_retries = 3, oe_status = OutboxStatusPending,
     oe_payload = AnalysisRequestPayload sample_payload, oe_error_details = None, oe_created_at = t,
     oe_started_at = None, oe_published_at = None, oe_processed_at = None, oe_completed_at = None,
     oe_next_retry_at = None\<rparr>"

definition fresh_event :: "outbox_event \<Rightarrow> bool" where
  "fresh_event e \<longleftrightarrow>
     oe_error_details e = None \<and> oe_started_at e = None \<and> oe_published_at e = None \<and>
     oe_processed_at e = None \<and> oe_completed_at e = None \<and> oe_next_retry_at e = None \<and>
     (case (oe_event_type e, oe_payload e) of
        (OutboxEventOther _, GenericPayload _) \<Rightarrow> True
      | (OutboxEventOther _, _) \<Rightarrow> False
      | (_, AnalysisRequestPayload p) \<Rightarrow> in_int64 (opt_timeout (rp_options p))
      | _ \<Rightarrow> False)"

lemma sample_agg: "oe_aggregate_id (sample_event i p t) = UUID ''a''"
  by (simp add: sample_event_def)

lemma sample_fresh: "fresh_event (sample_event i p t)"
  by (simp add: fresh_event_def sample_event_def sample_payload_def sample_options_def Second_def in_int64_def)

text \<open>
  C12: whatever the publishers and subscribers do to the outbox, and whichever statements and
  commits fail, identifiers stay unique, retry counts non-negative, and each status keeps its
  evidence: a start time in processing rows, a publication time in published rows, an error text in
  failed rows.
\<close>

theorem outbox_table_invariant:
  "\<forall>c \<in> set cs. saves_pending c \<Longrightarrow> outbox_table_ok w \<Longrightarrow> outbox_table_ok (fold (outbox_exec env) cs w)"
  by (rule outbox_ops.run_keeps) (auto intro: outbox_ops.accepted_all)

theorem outbox_table_invariant_witness:
  "outbox_table_ok (fold (outbox_exec sample_env)
     [OpSave (sample_event ''e'' PriorityNormal 1), OpClaim (UUID ''e''),
      OpFailed (UUID ''e'') ''x'' None] empty_world)"
  by (rule outbox_table_invariant)
     (simp_all add: saves_pending_def sample_event_def outbox_table_ok_def empty_world_def)

text \<open>
  The claims that several publishers make on one table, in the order in which the database runs
  them; the result is the list of the events some publisher got.
\<close>

primrec claims :: "env \<Rightarrow> uuid list \<Rightarrow> world \<Rightarrow> uuid list" where
  "claims env [] w = []"
| "claims env (i # is) w =
     (case ob_ClaimForProcessing env i w of
        (Inl _, w') \<Rightarrow> claims env is w' | (Inr _, w') \<Rightarrow> i # claims env is w')"

lemma claims_winners: "claims env is w = claim_store.winners (ob_ClaimForProcessing env) is w"
  by (induction "is" arbitrary: w)
     (simp_all add: outbox_claim.winners.simps split: prod.splits sum.splits)

text \<open>
  Also: no event is claimed twice: however many publishers interleave their claims, and whichever
  calls fail, at most one claim of each event succeeds, and only for an event that was pending or
  failed when the sequence began.
\<close>

theorem claims_exclusive:
  "distinct (claims env is w) \<and> set (claims env is w) \<subseteq> {i. claimable i w}"
  unfolding claims_winners
  using outbox_claim.winners_distinct outbox_claim.winners_claimable by blast

definition event_before :: "outbox_event \<Rightarrow> outbox_event \<Rightarrow> bool" where
  "event_before a b \<longleftrightarrow>
     oe_priority b < oe_priority a \<or> oe_priority a = oe_priority b \<and> oe_created_at a \<le> oe_created_at b"

lemma convertRowToEvent_fields:
  "convertRowToEvent r = Inr e \<Longrightarrow>
     oe_id e = or_id r \<and> oe_priority e = or_priority r \<and> oe_created_at e = or_created_at r \<and>
     oe_status e = or_status r \<and> oe_retry_count e = or_retry_count r \<and>
     oe_max_retries e = or_max_retries r \<and> oe_next_retry_at e = or_next_retry_at r"
  by (auto simp: convertRowToEvent_def split: sum.splits)

lemma priority_rank_le3: "priority_rank p \<le> 3"
  by (simp add: priority_rank_def split: priority.splits)

lemma priority_rank_inj: "priority_rank p = priority_rank q \<Longrightarrow> p = q"
  by (cases p; cases q) (simp_all add: priority_rank_def)

lemma pending_key_le:
  "pending_key r \<le> pending_key s \<Longrightarrow>
   or_priority s < or_priority r \<or> or_priority r = or_priority s \<and> or_created_at r \<le> or_created_at s"
  using priority_rank_le3 [of "or_priority r"] priority_rank_le3 [of "or_priority s"]
    priority_rank_inj [of "or_priority r" "or_priority s"]
  by (auto simp: pending_key_def less_priority_def)

lemma ob_find_rows:
  assumes "fst (ob_findByCriteria env query ctx w) = Inr evs"
  shows "list_all2 (\<lambda>r e. convertRowToEvent r = Inr e) (query (clock env (Suc (tick w))) (outbox_tab w)) evs"
proof -
  obtain q w1 where st: "statement env (\<lambda>w. Inr (query (now env w) (outbox_tab w), w)) w = (q, w1)" by force
  then show ?thesis
    by (cases rule: statement_cases)
       (use assms st in \<open>auto simp: ob_findByCriteria_def now_def dest: map_result_all2\<close>)
qed

lemma sorted_take_sort: "sorted (map f (take n (sort_key f xs)))"
  by (simp add: sorted_wrt_take flip: take_map)

lemma event_row_roundtrip:
  assumes "fresh_event e"
  shows "convertRowToEvent (event_row e) = Inr e"
  using assms by (cases "oe_event_type e"; cases "oe_payload e"; cases e)
    (auto simp: fresh_event_def convertRowToEvent_def event_row_def unmarshalPayload_def
        enc_event_payload_def dec_enc_payload)

lemma fresh_with_id [simp]: "fresh_event (with_id env e) = fresh_event e"
  by (auto simp: fresh_event_def with_id_def split: outbox_event_type.splits)

text \<open>
  Also: an event saved without faults, with a payload of its type, is read back as it was saved, with
  the identifier it was given.
\<close>

theorem save_then_get:
  assumes "no_faults env" "fresh_event e" "oe_aggregate_id e \<notin> or_aggregate_id ` set (outbox_tab w)"
    and "ob_SaveInTx env e w = (Inr e', w')"
  shows "fst (ob_GetByAggregateID env (oe_aggregate_id e) w') = Inr e' \<and> e' = with_id env e"
proof -
  have w': "outbox_tab w' = outbox_tab w @ [event_row e']" and e': "e' = with_id env e"
    using assms(4)
    by (auto simp: statement_ok [OF assms(1)] ob_SaveInTx_def Let_def insert_outbox_def split: if_splits sum.splits)
  have agg: "or_aggregate_id (event_row e') = oe_aggregate_id e"
    by (simp add: e' with_id_def event_row_def)
  have none: "filter (\<lambda>r. or_aggregate_id r = oe_aggregate_id e) (outbox_tab w) = []"
    using assms(3) by (force simp: filter_empty_conv)
  have "latest_event (oe_aggregate_id e) (outbox_tab w') = Some (event_row e')"
    by (simp add: latest_event_def w' none agg)
  then show ?thesis
    using assms(2) by (simp add: ob_GetByAggregateID_def statement_ok [OF assms(1)] e'
        event_row_roundtrip)
qed

theorem save_then_get_witness:
  "\<exists>e'. fst (ob_GetByAggregateID sample_env (UUID ''a'')
     (snd (ob_SaveInTx sample_env (sample_event ''e'' PriorityNormal 1) empty_world))) = Inr e'"
proof -
  let ?e = "sample_event ''e'' PriorityNormal 1"
  obtain e' where e': "ob_SaveInTx sample_env ?e empty_world =
      (Inr e', snd (ob_SaveInTx sample_env ?e empty_world))"
    by (auto simp: ob_SaveInTx_def Let_def statement_ok insert_outbox_def event_row_def with_id_def
        sample_event_def empty_world_def event_type_string_def fits_int32_def max_int32_def uuid_Nil_def)
  show ?thesis
    using save_then_get [OF _ sample_fresh _ e'] by (simp add: empty_world_def sample_agg)
qed

text \<open>
  Also: \<open>FindPending\<close> returns at most the requested number of events, all pending, the higher
  priority first and within a priority the older first; and an event that is pending and not
  returned comes after all that are.
\<close>

theorem find_pending_order:
  assumes "fst (ob_FindPending env n w) = Inr evs"
  shows "length evs \<le> n \<and> sorted_wrt event_before evs \<and>
    (\<forall>e \<in> set evs. oe_status e = OutboxStatusPending \<and> oe_id e \<in> or_id ` set (outbox_tab w)) \<and>
    (\<forall>r \<in> set (outbox_tab w). or_status r = OutboxStatusPending \<longrightarrow> or_id r \<in> oe_id ` set evs \<or>
       (\<forall>e \<in> set evs. or_priority r < oe_priority e \<or>
          oe_priority e = or_priority r \<and> oe_created_at e \<le> or_created_at r))"
proof -
  let ?rows = "select_pending n (outbox_tab w)"
  let ?all = "sort_key pending_key (filter (\<lambda>r. or_status r = OutboxStatusPending) (outbox_tab w))"
  have all2: "list_all2 (\<lambda>r e. convertRowToEvent r = Inr e) ?rows evs"
    using ob_find_rows [OF assms [unfolded ob_FindPending_def]] by blast
  have len: "length evs \<le> n"
    using list_all2_lengthD [OF all2] by (simp add: select_pending_def)
  have sorted: "sorted_wrt event_before evs"
  proof (rule list_all2_sorted_wrt [OF all2])
    show "sorted_wrt (\<lambda>r s. pending_key r \<le> pending_key s) ?rows"
      using sorted_take_sort [of pending_key n] by (simp only: select_pending_def sorted_map)
  qed (auto dest!: convertRowToEvent_fields pending_key_le simp: event_before_def)
  have of_row: "\<exists>r \<in> set ?rows. convertRowToEvent r = Inr e" if "e \<in> set evs" for e
    using list_all2_set_right [OF all2 that] .
  have returned: "or_id r \<in> oe_id ` set evs" if "r \<in> set ?rows" for r
    using list_all2_set_left [OF all2 that] convertRowToEvent_fields by force
  have rest: "or_priority r < oe_priority e \<or> oe_priority e = or_priority r \<and> oe_created_at e \<le> or_created_at r"
    if r: "r \<in> set (outbox_tab w)" "or_status r = OutboxStatusPending" "r \<notin> set ?rows" and e: "e \<in> set evs" for r e
  proof -
    obtain s where s: "s \<in> set ?rows" "convertRowToEvent s = Inr e" using of_row [OF e] ..
    have "r \<in> set ?all" using r by simp
    then have "r \<in> set (drop n ?all)"
      using r(3) unfolding select_pending_def by (metis UnE append_take_drop_id set_append)
    then have "pending_key s \<le> pending_key r"
      using s(1) sorted_take_drop [of pending_key ?all s n r] by (simp add: select_pending_def)
    then show ?thesis
      using pending_key_le [of s r] convertRowToEvent_fields [OF s(2)] by auto
  qed
  have "oe_status e = OutboxStatusPending \<and> oe_id e \<in> or_id ` set (outbox_tab w)" if "e \<in> set evs" for e
    using of_row [OF that] convertRowToEvent_fields by (fastforce simp: select_pending_def dest: in_set_takeD)
  with len sorted rest returned show ?thesis by blast
qed

definition sample_outbox :: world where
  "sample_outbox = empty_world\<lparr>outbox_tab :=
     [event_row (sample_event ''l'' PriorityLow 1), event_row (sample_event ''h'' PriorityHigh 2),
      event_row (sample_event ''n'' PriorityHigh 1)]\<rparr>"

lemma sample_find_pending:
  "fst (ob_FindPending sample_env 2 sample_outbox) =
     Inr [sample_event ''n'' PriorityHigh 1, sample_event ''h'' PriorityHigh 2]"
proof -
  have "select_pending 2 (outbox_tab sample_outbox) =
      map event_row [sample_event ''n'' PriorityHigh 1, sample_event ''h'' PriorityHigh 2]"
    by (simp add: select_pending_def sample_outbox_def event_row_def sample_event_def pending_key_def
        priority_rank_def)
  then show ?thesis
    using map_result_map [of "[sample_event ''n'' PriorityHigh 1, sample_event ''h'' PriorityHigh 2]"
        convertRowToEvent event_row id]
    by (simp add: ob_FindPending_def ob_findByCriteria_def statement_ok event_row_roundtrip sample_fresh)
qed

theorem find_pending_order_witness:
  "\<exists>evs. fst (ob_FindPending sample_env 2 sample_outbox) = Inr evs \<and> evs \<noteq> [] \<and> sorted_wrt event_before evs"
  using find_pending_order [OF sample_find_pending] sample_find_pending by blast

text \<open>
  Also: \<open>FindRetryable\<close> returns only failed events that have retries left and whose retry time is not
  in the future, the one due first at the head: an event whose retries are used up is never found
  again.
\<close>

theorem find_retryable_sound:
  assumes "fst (ob_FindRetryable env n w) = Inr evs"
  shows "length evs \<le> n \<and>
    (\<forall>e \<in> set evs. oe_status e = OutboxStatusFailed \<and> CanRetry e \<and>
       (\<exists>d. oe_next_retry_at e = Some d \<and> d \<le> clock env (Suc (tick w))) \<and>
       oe_id e \<in> or_id ` set (outbox_tab w)) \<and>
    sorted_wrt (\<lambda>a b. the (oe_next_retry_at a) \<le> the (oe_next_retry_at b)) evs"
proof -
  let ?t = "clock env (Suc (tick w))"
  have all2: "list_all2 (\<lambda>r e. convertRowToEvent r = Inr e) (select_retryable ?t n (outbox_tab w)) evs"
    using ob_find_rows [OF assms [unfolded ob_FindRetryable_def]] by blast
  let ?rows = "select_retryable ?t n (outbox_tab w)"
  have ok: "retryable ?t r \<and> r \<in> set (outbox_tab w)" if "r \<in> set ?rows" for r
    using that by (auto simp: select_retryable_def dest: in_set_takeD)
  have of_row: "\<exists>r \<in> set ?rows. convertRowToEvent r = Inr e" if "e \<in> set evs" for e
    using list_all2_set_right [OF all2 that] .
  have each: "oe_status e = OutboxStatusFailed \<and> CanRetry e \<and>
       (\<exists>d. oe_next_retry_at e = Some d \<and> d \<le> ?t) \<and> oe_id e \<in> or_id ` set (outbox_tab w)"
    if e: "e \<in> set evs" for e
  proof -
    obtain r where r: "r \<in> set ?rows" "convertRowToEvent r = Inr e" using of_row [OF e] ..
    show ?thesis
      using ok [OF r(1)] convertRowToEvent_fields [OF r(2)]
      by (auto simp: retryable_def CanRetry_def split: option.splits)
  qed
  have "sorted_wrt (\<lambda>r s. r \<in> set ?rows \<and> s \<in> set ?rows \<and> retry_key r \<le> retry_key s) ?rows"
  proof -
    have "sorted (map retry_key ?rows)"
      unfolding select_retryable_def by (rule sorted_take_sort)
    then show ?thesis unfolding sorted_map by (rule sorted_wrt_mono_rel [rotated]) simp
  qed
  then have "sorted_wrt (\<lambda>a b. the (oe_next_retry_at a) \<le> the (oe_next_retry_at b)) evs"
  proof (rule list_all2_sorted_wrt [OF all2])
    fix r s a b assume "convertRowToEvent r = Inr a" "convertRowToEvent s = Inr b"
      "r \<in> set ?rows \<and> s \<in> set ?rows \<and> retry_key r \<le> retry_key s"
    then show "the (oe_next_retry_at a) \<le> the (oe_next_retry_at b)"
      using ok [of r] ok [of s] by (auto dest!: convertRowToEvent_fields
          simp: retryable_def retry_key_def split: option.splits)
  qed
  moreover have "length evs \<le> n"
    using list_all2_lengthD [OF all2] by (simp add: select_retryable_def)
  ultimately show ?thesis using each by blast
qed

theorem find_retryable_sound_witness:
  "\<exists>evs. fst (ob_FindRetryable sample_env 5 (empty_world\<lparr>tick := 7, outbox_tab :=
       [(event_row (sample_event ''f'' PriorityLow 1))
          \<lparr>or_status := OutboxStatusFailed, or_next_retry_at := Some 3\<rparr>]\<rparr>)) = Inr evs \<and>
     length evs = 1 \<and> (\<forall>e \<in> set evs. CanRetry e)"
proof -
  let ?r = "(event_row (sample_event ''f'' PriorityLow 1))\<lparr>or_status := OutboxStatusFailed, or_next_retry_at := Some 3\<rparr>"
  let ?w = "empty_world\<lparr>tick := 7, outbox_tab := [?r]\<rparr>"
  have p: "in_int64 (opt_timeout (rp_options sample_payload))"
    by (simp add: sample_payload_def sample_options_def Second_def in_int64_def)
  have "\<exists>e. convertRowToEvent ?r = Inr e"
    by (simp add: convertRowToEvent_def event_row_def sample_event_def unmarshalPayload_def
        enc_event_payload_def dec_enc_payload [OF p])
  then obtain e where "fst (ob_FindRetryable sample_env 5 ?w) = Inr [e]"
    by (auto simp: ob_FindRetryable_def ob_findByCriteria_def statement_ok select_retryable_def
        retryable_def event_row_def sample_event_def now_def)
  then show ?thesis using find_retryable_sound by fastforce
qed

end
