(* ===== verification/Backoff.thy ===== *)
theory Backoff
  imports Complex_Main Prelude Domain
begin

text \<open>
  \<open>internal/shared/backoff/backoff.go\<close> with its configuration, and the retry limits of
  \<open>internal/config/settings.go\<close>. Floating-point numbers are read as real numbers; the random
  number is \<open>k / 2^53\<close> for the 53 random bits \<open>k\<close>, which is how \<open>rand.Float64\<close> makes it.
\<close>

record backoff_config =
  BaseDelay :: duration
  Multiplier :: real
  Jitter :: real
  MaxDelay :: duration

definition rand_Float64 :: "nat \<Rightarrow> real" where
  "rand_Float64 k = real (k mod 2 ^ 53) / 2 ^ 53"

text \<open>The loop, and the whole function; \<open>time.Duration\<close> of a non-negative number rounds down.\<close>

fun grow :: "real \<Rightarrow> real \<Rightarrow> real \<Rightarrow> nat \<Rightarrow> real" where
  "grow backoff mx m 0 = backoff"
| "grow backoff mx m (Suc retries) = (if backoff < mx then grow (backoff * m) mx m retries else backoff)"

definition Backoff :: "backoff_config \<Rightarrow> nat \<Rightarrow> int \<Rightarrow> duration" where
  "Backoff cfg k retries =
     (if retries = 0 then BaseDelay cfg
      else let mx = real_of_int (MaxDelay cfg);
               b = grow (real_of_int (BaseDelay cfg)) mx (Multiplier cfg) (nat retries);
               b = (if mx < b then mx else b);
               b = b * (1 + Jitter cfg * (rand_Float64 k * 2 - 1));
               b = (if b < 0 then 0 else b)
           in \<lfloor>b\<rfloor>)"

definition default_backoff :: backoff_config where
  "default_backoff = \<lparr>BaseDelay = Second, Multiplier = 1.6, Jitter = 0.2, MaxDelay = 10 * Second\<rparr>"

record max_retries_by_priority =
  Low :: int
  Normal :: int
  High :: int
  Urgent :: int

definition GetMaxRetriesForPriority :: "max_retries_by_priority \<Rightarrow> string \<Rightarrow> int" where
  "GetMaxRetriesForPriority c p =
     (case priority_of_string p of
        Some PriorityLow \<Rightarrow> Low c
      | Some PriorityNormal \<Rightarrow> Normal c
      | Some PriorityHigh \<Rightarrow> High c
      | Some PriorityUrgent \<Rightarrow> Urgent c
      | None \<Rightarrow> Normal c)"

definition default_max_retries :: max_retries_by_priority where
  "default_max_retries = \<lparr>Low = 3, Normal = 5, High = 7, Urgent = 10\<rparr>"

section \<open>The closed form\<close>

lemma rand_Float64_bounds: "0 \<le> rand_Float64 k" "rand_Float64 k < 1"
proof -
  have "k mod 2 ^ 53 < (2::nat) ^ 53" by simp
  then have "real (k mod 2 ^ 53) < 2 ^ 53" by (metis of_nat_less_iff of_nat_numeral of_nat_power)
  then show "rand_Float64 k < 1" by (simp add: rand_Float64_def)
qed (simp add: rand_Float64_def)

lemma grow_ge: "1 \<le> m \<Longrightarrow> 0 \<le> b \<Longrightarrow> b \<le> grow b mx m n"
proof (induction n arbitrary: b)
  case (Suc n)
  have "b \<le> b * m" using Suc.prems by (simp add: mult_le_cancel_left1)
  moreover have "b * m \<le> grow (b * m) mx m n" using Suc.prems by (intro Suc.IH) auto
  ultimately show ?case by simp
qed simp

lemma grow_closed:
  assumes "1 \<le> m" "0 \<le> b"
  shows "min mx (grow b mx m n) = min mx (b * m ^ n)"
  using assms(2)
proof (induction n arbitrary: b)
  case (Suc n)
  show ?case
  proof (cases "b < mx")
    case True
    have "min mx (grow (b * m) mx m n) = min mx (b * m * m ^ n)"
      using Suc.prems assms(1) by (intro Suc.IH) simp
    with True show ?thesis by (simp add: mult.assoc)
  next
    case False
    have "b * 1 \<le> b * m ^ Suc n"
      using Suc.prems assms(1) by (intro mult_left_mono one_le_power) auto
    with False show ?thesis by (simp add: min_def)
  qed
qed simp

section \<open>The contract of a strategy\<close>

text \<open>
  What the publisher needs of a strategy: a delay between two bounds, whatever the random bits.
  A configuration with sensible values gives it; the bounds are those of the jitter.
\<close>

locale backoff_strategy =
  fixes delay :: "nat \<Rightarrow> int \<Rightarrow> duration" and lo hi :: duration
  assumes delay_ge: "lo \<le> delay k n" and delay_le: "delay k n \<le> hi"
begin

lemma retry_window: "t + lo \<le> t + delay k n \<and> t + delay k n \<le> t + hi"
  using delay_ge [of k n] delay_le [of k n] by simp

end

definition valid_backoff :: "backoff_config \<Rightarrow> bool" where
  "valid_backoff c \<longleftrightarrow> 0 \<le> BaseDelay c \<and> BaseDelay c \<le> MaxDelay c \<and> 1 \<le> Multiplier c \<and>
     0 \<le> Jitter c \<and> Jitter c \<le> 1"

definition backoff_lo :: "backoff_config \<Rightarrow> duration" where
  "backoff_lo c = \<lfloor>real_of_int (BaseDelay c) * (1 - Jitter c)\<rfloor>"

definition backoff_hi :: "backoff_config \<Rightarrow> duration" where
  "backoff_hi c = \<lfloor>real_of_int (MaxDelay c) * (1 + Jitter c)\<rfloor>"

lemma jitter_factor:
  assumes "0 \<le> j" "j \<le> 1"
  shows "1 - j \<le> 1 + j * (rand_Float64 k * 2 - 1)" "1 + j * (rand_Float64 k * 2 - 1) \<le> 1 + j"
proof -
  have "j * (rand_Float64 k * 2 - 1) \<le> j * 1" "j * (- 1) \<le> j * (rand_Float64 k * 2 - 1)"
    using assms(1) rand_Float64_bounds [of k] by (intro mult_left_mono; simp)+
  then show "1 - j \<le> 1 + j * (rand_Float64 k * 2 - 1)" "1 + j * (rand_Float64 k * 2 - 1) \<le> 1 + j"
    by simp_all
qed

lemma Backoff_closed:
  assumes "valid_backoff c" "0 < n"
  shows "Backoff c k n =
    \<lfloor>min (MaxDelay c) (BaseDelay c * Multiplier c ^ nat n) * (1 + Jitter c * (rand_Float64 k * 2 - 1))\<rfloor>"
proof -
  let ?mx = "real_of_int (MaxDelay c)" and ?b = "real_of_int (BaseDelay c)"
  let ?g = "grow ?b ?mx (Multiplier c) (nat n)" and ?f = "1 + Jitter c * (rand_Float64 k * 2 - 1)"
  have v: "0 \<le> ?b" "1 \<le> Multiplier c" "0 \<le> Jitter c" "Jitter c \<le> 1" "0 \<le> ?mx"
    using assms(1) by (auto simp: valid_backoff_def)
  have clip: "(if ?mx < ?g then ?mx else ?g) = min ?mx (?b * Multiplier c ^ nat n)"
    using grow_closed [OF v(2,1), of ?mx "nat n"] by (simp add: min_def split: if_splits)
  have "0 \<le> ?b * Multiplier c ^ nat n" using v by simp
  then have "0 \<le> min ?mx (?b * Multiplier c ^ nat n) * ?f"
    using v jitter_factor [OF v(3,4), of k] by (intro mult_nonneg_nonneg) auto
  then show ?thesis
    using assms(2) by (simp add: Backoff_def Let_def clip)
qed

lemma Backoff_bounds:
  assumes "valid_backoff c" "0 \<le> n"
  shows "backoff_lo c \<le> Backoff c k n" "Backoff c k n \<le> backoff_hi c"
proof -
  let ?mx = "real_of_int (MaxDelay c)" and ?b = "real_of_int (BaseDelay c)"
  let ?f = "1 + Jitter c * (rand_Float64 k * 2 - 1)"
  have v: "0 \<le> ?b" "1 \<le> Multiplier c" "0 \<le> Jitter c" "Jitter c \<le> 1" "?b \<le> ?mx"
    using assms(1) by (auto simp: valid_backoff_def)
  note jf = jitter_factor [OF v(3,4), of k]
  have "backoff_lo c \<le> Backoff c k n \<and> Backoff c k n \<le> backoff_hi c"
  proof (cases "n = 0")
    case True
    have "?b * (1 - Jitter c) \<le> ?b * 1" "?mx * 1 \<le> ?mx * (1 + Jitter c)"
      using v by (intro mult_left_mono; simp)+
    then have "\<lfloor>?b * (1 - Jitter c)\<rfloor> \<le> BaseDelay c" "BaseDelay c \<le> \<lfloor>?mx * (1 + Jitter c)\<rfloor>"
      using v by (simp_all add: floor_le_iff le_floor_iff)
    with True show ?thesis by (simp add: Backoff_def backoff_lo_def backoff_hi_def)
  next
    case False
    with assms(2) have n: "0 < n" by simp
    let ?m = "min ?mx (?b * Multiplier c ^ nat n)"
    have "?b * 1 \<le> ?b * Multiplier c ^ nat n" using v by (intro mult_left_mono one_le_power) auto
    then have m: "?b \<le> ?m" "?m \<le> ?mx" using v by auto
    have "?b * (1 - Jitter c) \<le> ?m * ?f" using v m jf by (intro mult_mono) auto
    moreover have "?m * ?f \<le> ?mx * (1 + Jitter c)" using v m jf by (intro mult_mono) auto
    ultimately show ?thesis
      unfolding Backoff_closed [OF assms(1) n] backoff_lo_def backoff_hi_def
      by (blast intro: floor_mono)
  qed
  then show "backoff_lo c \<le> Backoff c k n" "Backoff c k n \<le> backoff_hi c" by auto
qed

lemma default_backoff_valid: "valid_backoff default_backoff"
  by (simp add: valid_backoff_def default_backoff_def Second_def)

text \<open>
  A configuration that is valid; its strategy, asked for a number of retries that is not negative,
  keeps the contract, and so does the default one.
\<close>

locale backoff_settings =
  fixes cfg :: backoff_config
  assumes valid: "valid_backoff cfg"

sublocale backoff_settings \<subseteq> strategy: backoff_strategy "\<lambda>k n. Backoff cfg k (max 0 n)" "backoff_lo cfg" "backoff_hi cfg"
  by unfold_locales (simp_all add: Backoff_bounds [OF valid])

interpretation default_settings: backoff_settings default_backoff
  by unfold_locales (rule default_backoff_valid)

section \<open>Properties\<close>



text \<open>
  Also: the maximum delay does not bound the delay: it is applied before the jitter. With the default
  configuration there are random bits for which the tenth retry waits longer than \<open>MaxDelay\<close>, and
  no wait is longer than 12 seconds.
\<close>

theorem backoff_exceeds_max:
  "(\<exists>k. MaxDelay default_backoff < Backoff default_backoff k 10) \<and>
   Backoff default_backoff k 10 \<le> 12 * Second"
proof
  have closed: "Backoff default_backoff k 10 = \<lfloor>10000000000 * (1 + 0.2 * (rand_Float64 k * 2 - 1))\<rfloor>" for k
    by (subst Backoff_closed [OF default_backoff_valid])
       (simp_all add: default_backoff_def Second_def min_def power_divide)
  have "rand_Float64 (2 ^ 52 + 2 ^ 51) = 3 / 4" by (simp add: rand_Float64_def)
  then obtain j where j: "rand_Float64 j = 3 / 4" ..
  have "Backoff default_backoff j 10 = 11000000000"
    unfolding closed j by simp
  moreover have "MaxDelay default_backoff = 10000000000"
    by (simp add: default_backoff_def Second_def)
  ultimately have "MaxDelay default_backoff < Backoff default_backoff j 10" by simp
  then show "\<exists>k. MaxDelay default_backoff < Backoff default_backoff k 10" ..
  show "Backoff default_backoff k 10 \<le> 12 * Second"
    using Backoff_bounds(2) [OF default_backoff_valid, of 10 k]
    by (simp add: backoff_hi_def default_backoff_def Second_def)
qed

end
