(* ===== verification/Cache_Repo.thy ===== *)
theory Cache_Repo
  imports World
begin

text \<open>
  \<open>internal/adapters/repos/cache_repository.go\<close> on \<open>internal/infrastructure/cache.go\<close>: analyses
  under the key of their identifier, as JSON, with an expiry. A command of the cache server either
  takes effect or fails; \<open>GET\<close> of a key that is missing or expired answers \<open>redis.Nil\<close>.
\<close>

definition analysisKeyPrefix :: string where
  "analysisKeyPrefix = ''svc-web-analyzer:analysis:''"

definition redis_Nil :: error where
  "redis_Nil = ErrText ''redis: nil''"

definition live_entry :: "time \<Rightarrow> cache_entry \<Rightarrow> bool" where
  "live_entry t e \<longleftrightarrow> (case ce_expires e of None \<Rightarrow> True | Some x \<Rightarrow> t < x)"

section \<open>The client\<close>

definition keydb_Get :: "env \<Rightarrow> string \<Rightarrow> world \<Rightarrow> json result \<times> world" where
  "keydb_Get env key w =
     (case statement env (\<lambda>w. case cache_tab w key of
                                 None \<Rightarrow> Inl redis_Nil
                               | Some e \<Rightarrow> if live_entry (now env w) e then Inr (ce_value e, w)
                                           else Inl redis_Nil) w of
        (Inl e, w1) \<Rightarrow> (Inl (if errors_Is e redis_Nil then Sentinel ErrCacheUnavailable else e), w1)
      | (Inr v, w1) \<Rightarrow> (Inr v, w1))"

definition keydb_Set ::
  "env \<Rightarrow> duration \<Rightarrow> string \<Rightarrow> json \<Rightarrow> duration \<Rightarrow> world \<Rightarrow> unit result \<times> world" where
  "keydb_Set env DefaultExpiry key v expiry w =
     (let expiry = (if expiry = 0 then DefaultExpiry else expiry)
      in statement env (\<lambda>w. Inr ((), w\<lparr>cache_tab := (cache_tab w)(key \<mapsto>
           \<lparr>ce_value = v, ce_expires = (if 0 < expiry then Some (now env w + expiry) else None)\<rparr>)\<rparr>)) w)"

definition keydb_Delete :: "env \<Rightarrow> string \<Rightarrow> world \<Rightarrow> unit result \<times> world" where
  "keydb_Delete env key w = statement env (\<lambda>w. Inr ((), w\<lparr>cache_tab := (cache_tab w)(key := None)\<rparr>)) w"

section \<open>The repository\<close>

definition analysis_key :: "uuid \<Rightarrow> string" where
  "analysis_key i = analysisKeyPrefix @ uuid_string i"

definition cache_Find :: "env \<Rightarrow> uuid \<Rightarrow> world \<Rightarrow> analysis result \<times> world" where
  "cache_Find env i w =
     (case keydb_Get env (analysis_key i) w of
        (Inl e, w1) \<Rightarrow> (Inl (ErrWrap ''failed to get analysis from cache'' e), w1)
      | (Inr j, w1) \<Rightarrow>
          (case dec_analysis j of
             Inl e \<Rightarrow> (Inl (ErrWrap ''failed to unmarshal cached analysis result'' e), w1)
           | Inr a \<Rightarrow> (Inr a, w1)))"

definition cache_Set :: "env \<Rightarrow> duration \<Rightarrow> analysis \<Rightarrow> world \<Rightarrow> unit result \<times> world" where
  "cache_Set env DefaultExpiry a w =
     wrap_error ''failed to save analysis to cache''
       (keydb_Set env DefaultExpiry (analysis_key (an_id a)) (enc_analysis a) DefaultExpiry w)"

definition cache_Delete :: "env \<Rightarrow> uuid \<Rightarrow> world \<Rightarrow> unit result \<times> world" where
  "cache_Delete env i w = keydb_Delete env (analysis_key i) w"

lemma analysis_key_inj [simp]: "analysis_key i = analysis_key j \<longleftrightarrow> i = j"
  by (simp add: analysis_key_def)

section \<open>The contract of a cache\<close>

text \<open>
  What its clients rely on, over the content of the cache (what it holds, expired or not): what is
  found is in it, setting and deleting change one entry, and an entry in range is its value as JSON
  shows it.
\<close>

locale cache_port =
  fixes content :: "'w \<Rightarrow> 'k \<rightharpoonup> 'v"
    and find :: "'k \<Rightarrow> 'w \<Rightarrow> 'v result \<times> 'w"
    and put :: "'v \<Rightarrow> 'w \<Rightarrow> unit result \<times> 'w"
    and del :: "'k \<Rightarrow> 'w \<Rightarrow> unit result \<times> 'w"
    and key :: "'v \<Rightarrow> 'k" and view :: "'v \<Rightarrow> 'v" and fits :: "'v \<Rightarrow> bool"
  assumes find_hit: "find k w = (Inr v, w') \<Longrightarrow> content w k = Some v"
    and find_frame: "find k w = (r, w') \<Longrightarrow> content w' = content w"
    and put_ok: "fits v \<Longrightarrow> put v w = (Inr u, w') \<Longrightarrow> content w' = (content w)(key v \<mapsto> view v)"
    and put_frame: "fits v \<Longrightarrow> put v w = (q, w') \<Longrightarrow>
          content w' = content w \<or> content w' = (content w)(key v \<mapsto> view v)"
    and del_ok: "del k w = (Inr u, w') \<Longrightarrow> content w' = (content w)(k := None)"
    and del_frame: "del k w = (q, w') \<Longrightarrow> content w' = content w \<or> content w' = (content w)(k := None)"
begin

lemma find_after_put:
  "fits v \<Longrightarrow> put v w = (Inr u, w1) \<Longrightarrow> find (key v) w1 = (Inr x, w2) \<Longrightarrow> x = view v"
  using put_ok find_hit by fastforce

lemma no_hit_after_del: "del k w = (Inr u, w1) \<Longrightarrow> find k w1 = (r, w2) \<Longrightarrow> \<exists>e. r = Inl e"
  using del_ok find_hit by (cases r) fastforce+

lemma found_was_put:
  assumes "fits v" "put v w = (r, w1)" "find k w1 = (Inr x, w2)"
  shows "content w k = Some x \<or> k = key v \<and> x = view v"
  using put_frame [OF assms(1,2)] find_hit [OF assms(3)] by (auto split: if_splits)

end

definition cache_content :: "world \<Rightarrow> uuid \<rightharpoonup> analysis" where
  "cache_content w i =
     (case cache_tab w (analysis_key i) of
        None \<Rightarrow> None
      | Some e \<Rightarrow> (case dec_analysis (ce_value e) of Inl _ \<Rightarrow> None | Inr a \<Rightarrow> Some a))"

lemma cache_content_tick [simp]: "cache_content (w\<lparr>tick := n\<rparr>) = cache_content w"
  by (simp add: cache_content_def fun_eq_iff)

lemma keydb_Get_effect:
  assumes "keydb_Get env k w = (r, w')"
  shows "cache_tab w' = cache_tab w" "r = Inr v \<Longrightarrow> \<exists>e. cache_tab w k = Some e \<and> ce_value e = v"
  using assms
  by (auto simp: keydb_Get_def statement_def call_def
      split: outcome.splits sum.splits option.splits if_splits)

lemma keydb_Set_effect:
  assumes "keydb_Set env dflt k v ex w = (r, w')"
  shows "(\<exists>t. cache_tab w' = (cache_tab w)(k \<mapsto> \<lparr>ce_value = v, ce_expires = t\<rparr>)) \<or> (\<exists>e. r = Inl e) \<and> cache_tab w' = cache_tab w"
  using assms by (auto simp: keydb_Set_def Let_def statement_def call_def split: outcome.splits)

lemma keydb_Delete_effect:
  assumes "keydb_Delete env k w = (r, w')"
  shows "cache_tab w' = (cache_tab w)(k := None) \<or> (\<exists>e. r = Inl e) \<and> cache_tab w' = cache_tab w"
  using assms by (auto simp: keydb_Delete_def statement_def call_def split: outcome.splits)

lemma cache_content_set:
  "analysis_in_range a \<Longrightarrow> cache_tab w' = (cache_tab w)(analysis_key (an_id a) \<mapsto> \<lparr>ce_value = enc_analysis a, ce_expires = t\<rparr>) \<Longrightarrow>
   cache_content w' = (cache_content w)(an_id a \<mapsto> json_view a)"
  by (auto simp: cache_content_def fun_eq_iff dec_enc_analysis)

lemma cache_content_del:
  "cache_tab w' = (cache_tab w)(analysis_key i := None) \<Longrightarrow> cache_content w' = (cache_content w)(i := None)"
  by (auto simp: cache_content_def fun_eq_iff)

lemma cache_content_same: "cache_tab w' = cache_tab w \<Longrightarrow> cache_content w' = cache_content w"
  by (simp add: cache_content_def fun_eq_iff)

lemma cache_Set_effect:
  assumes "analysis_in_range a" "cache_Set env d a w = (r, w')"
  shows "cache_content w' = (cache_content w)(an_id a \<mapsto> json_view a) \<or>
    (\<exists>e. r = Inl e) \<and> cache_content w' = cache_content w"
proof -
  obtain q where q: "keydb_Set env d (analysis_key (an_id a)) (enc_analysis a) d w = (q, w')" "\<exists>e. q = Inl e \<Longrightarrow> \<exists>e. r = Inl e"
    using assms(2) by (cases "keydb_Set env d (analysis_key (an_id a)) (enc_analysis a) d w")
      (auto simp: cache_Set_def wrap_error_def split: sum.splits)
  from keydb_Set_effect [OF q(1)] show ?thesis
    using cache_content_set [OF assms(1)] cache_content_same q(2) by blast
qed

interpretation analysis_cache: cache_port cache_content "cache_Find env" "cache_Set env d" "cache_Delete env"
  an_id json_view analysis_in_range
proof unfold_locales
  fix k w v w' assume f: "cache_Find env k w = (Inr v, w')"
  obtain q w1 where g: "keydb_Get env (analysis_key k) w = (q, w1)" by force
  with f obtain j where "q = Inr j" "dec_analysis j = Inr v"
    by (auto simp: cache_Find_def split: sum.splits)
  with keydb_Get_effect(2) [OF g] show "cache_content w k = Some v" by (auto simp: cache_content_def)
next
  fix k w r w' assume f: "cache_Find env k w = (r, w')"
  obtain q w1 where g: "keydb_Get env (analysis_key k) w = (q, w1)" by force
  with f have "w1 = w'" by (auto simp: cache_Find_def split: sum.splits)
  with keydb_Get_effect(1) [OF g] show "cache_content w' = cache_content w" by (intro cache_content_same) simp
next
  fix v w u w' assume "analysis_in_range v" "cache_Set env d v w = (Inr u, w')"
  from cache_Set_effect [OF this] show "cache_content w' = (cache_content w)(an_id v \<mapsto> json_view v)" by simp
next
  fix v w r w' assume "analysis_in_range v" "cache_Set env d v w = (r, w')"
  from cache_Set_effect [OF this]
  show "cache_content w' = cache_content w \<or> cache_content w' = (cache_content w)(an_id v \<mapsto> json_view v)" by blast
next
  fix k w u w' assume "cache_Delete env k w = (Inr u, w')"
  from keydb_Delete_effect [OF this [unfolded cache_Delete_def]] cache_content_del
  show "cache_content w' = (cache_content w)(k := None)" by auto
next
  fix k w r w' assume "cache_Delete env k w = (r, w')"
  from keydb_Delete_effect [OF this [unfolded cache_Delete_def]] cache_content_del cache_content_same
  show "cache_content w' = cache_content w \<or> cache_content w' = (cache_content w)(k := None)" by blast
qed

section \<open>Properties\<close>

definition sample_analysis :: analysis where
  "sample_analysis = \<lparr>an_id = UUID ''a'', an_url = ''http://a.b'', an_status = StatusInProgress, an_content_hash = [],
     an_content_size = 0, an_created_at = 1, an_completed_at = None, an_duration = None,
     an_results = None, an_error = None, an_lock_version = 2\<rparr>"

lemma sample_analysis_in_range: "analysis_in_range sample_analysis"
  by (simp add: analysis_in_range_def sample_analysis_def in_int64_def known_status_def)

text \<open>
  C17: an analysis that was set and is then found is the one that was set, without the lock version
  and the external links, which are not written to JSON; after a delete that succeeds nothing is
  found; and a find never answers anything but what was in the cache or the last set.
\<close>

theorem cache_roundtrip:
  assumes "analysis_in_range a"
  shows "(cache_Set env d a w = (Inr u, w1) \<longrightarrow> cache_Find env (an_id a) w1 = (Inr x, w2) \<longrightarrow> x = json_view a) \<and>
    (cache_Delete env i w = (Inr u, w1) \<longrightarrow> cache_Find env i w1 = (r, w2) \<longrightarrow> (\<exists>e. r = Inl e)) \<and>
    (cache_Set env d a w = (r', w1) \<longrightarrow> cache_Find env i w1 = (Inr x, w2) \<longrightarrow>
       cache_content w i = Some x \<or> i = an_id a \<and> x = json_view a)"
  by (intro conjI impI; (rule analysis_cache.find_after_put [OF assms] | rule analysis_cache.no_hit_after_del
      | rule analysis_cache.found_was_put [OF assms]); assumption)

theorem cache_roundtrip_witness:
  "\<exists>x. fst (cache_Find sample_env (UUID ''a'') (snd (cache_Set sample_env 10 sample_analysis empty_world))) = Inr x \<and>
     x = json_view sample_analysis"
proof -
  let ?w1 = "snd (cache_Set sample_env 10 sample_analysis empty_world)"
  have s: "cache_Set sample_env 10 sample_analysis empty_world = (Inr (), ?w1)"
    by (simp add: cache_Set_def keydb_Set_def Let_def statement_ok)
  have "\<exists>x. fst (cache_Find sample_env (an_id sample_analysis) ?w1) = Inr x"
    using dec_enc_analysis [OF sample_analysis_in_range]
    by (simp add: cache_Set_def keydb_Set_def Let_def statement_ok cache_Find_def keydb_Get_def
        live_entry_def now_def)
  then obtain x where x: "cache_Find sample_env (an_id sample_analysis) ?w1 =
      (Inr x, snd (cache_Find sample_env (an_id sample_analysis) ?w1))"
    by (metis prod.collapse)
  have "x = json_view sample_analysis"
    using cache_roundtrip [OF sample_analysis_in_range] s x by blast
  with x show ?thesis by (metis fst_conv sample_analysis_def analysis.select_convs(1))
qed

end
