(* ===== verification/Publisher.thy ===== *)
theory Publisher
  imports Outbox_Repo Backoff "HOL-Library.Multiset"
begin

text \<open>
  \<open>internal/service/publisher_service.go\<close> and \<open>internal/adapters/outbox/processor.go\<close>: claim an
  event, publish its payload, mark it; on failure schedule a retry or give up. The strategy for the
  delays is a parameter, called with the number of calls made so far as its random bits. Several
  goroutines and processes publish at the same time: their interleaving, one call to the database
  or the broker at a time, is the relation \<open>pub_sys\<close>.
\<close>

section \<open>Publishing one event\<close>

text \<open>A message on the wire is an object with the payload as its \<open>body\<close>.\<close>

definition Message_marshal :: "json \<Rightarrow> json" where
  "Message_marshal body = JObj [(''body'', body)]"

definition queue_Publish :: "env \<Rightarrow> string \<Rightarrow> string \<Rightarrow> json \<Rightarrow> world \<Rightarrow> unit result \<times> world" where
  "queue_Publish env exchange key body w =
     statement env (\<lambda>w. Inr ((), w\<lparr>bus := bus w @
       [\<lparr>msg_exchange = exchange, msg_routing_key = key, msg_headers = [], msg_body = Message_marshal body\<rparr>]\<rparr>)) w"

definition handlePublishFailure ::
  "env \<Rightarrow> (nat \<Rightarrow> int \<Rightarrow> duration) \<Rightarrow> outbox_event \<Rightarrow> error \<Rightarrow> world \<Rightarrow> unit result \<times> world" where
  "handlePublishFailure env delay e publishErr w =
     (let w = record_metric (OutboxMetric False (oe_priority e)) w
      in if oe_max_retries e \<le> oe_retry_count e then
           wrap_error ''failed to mark event as permanently failed''
             (ob_MarkPermanentlyFailed env (oe_id e) (Error publishErr) w)
         else
           (let next_retry = now env w + delay (tick w) (oe_retry_count e)
            in wrap_error ''failed to mark event as failed''
                 (ob_MarkFailed env (oe_id e) (Error publishErr) (Some next_retry) w)))"

definition not_published :: "string \<Rightarrow> error \<Rightarrow> publish_result" where
  "not_published what e = \<lparr>pu_published = False, pu_error = what @ '': '' @ Error e\<rparr>"

definition PublishEvent ::
  "env \<Rightarrow> string \<Rightarrow> (nat \<Rightarrow> int \<Rightarrow> duration) \<Rightarrow> outbox_event \<Rightarrow> world \<Rightarrow> publish_result \<times> world" where
  "PublishEvent env exchange delay e w =
     (case ob_ClaimForProcessing env (oe_id e) w of
        (Inl err, w1) \<Rightarrow> (not_published ''failed to claim event'' err, w1)
      | (Inr c, w1) \<Rightarrow>
          (case queue_Publish env exchange (event_type_string (oe_event_type c))
                  (enc_event_payload (oe_payload c)) w1 of
             (Inl err, w2) \<Rightarrow>
               (not_published ''failed to publish to queue'' err,
                snd (handlePublishFailure env delay c err w2))
           | (Inr _, w2) \<Rightarrow>
               (case ob_MarkPublished env (oe_id c) w2 of
                  (Inl err, w3) \<Rightarrow> (not_published ''failed to mark as published'' err, w3)
                | (Inr _, w3) \<Rightarrow>
                    (\<lparr>pu_published = True, pu_error = []\<rparr>,
                     record_metric (OutboxMetric True (oe_priority c)) w3))))"

section \<open>The processor\<close>

definition BatchSize :: nat where "BatchSize = 10"

text \<open>
  One tick: fetch a batch and publish its events. The goroutines of a batch are run one after the
  other here, in the order that \<open>sched\<close> chooses.
\<close>

definition publish_all ::
  "env \<Rightarrow> string \<Rightarrow> (nat \<Rightarrow> int \<Rightarrow> duration) \<Rightarrow> outbox_event list \<Rightarrow> world \<Rightarrow> world" where
  "publish_all env exchange delay evs w = fold (\<lambda>e w. snd (PublishEvent env exchange delay e w)) evs w"

definition processPendingEvents ::
  "(outbox_event list \<Rightarrow> outbox_event list) \<Rightarrow> env \<Rightarrow> string \<Rightarrow> (nat \<Rightarrow> int \<Rightarrow> duration) \<Rightarrow> world \<Rightarrow>
     unit result \<times> world" where
  "processPendingEvents sched env exchange delay w =
     (case ob_FindPending env BatchSize w of
        (Inl e, w1) \<Rightarrow> (Inl e, w1)
      | (Inr evs, w1) \<Rightarrow>
          (if evs = [] then (Inr (), w1)
           else (Inr (), publish_all env exchange delay (sched evs) w1)))"

definition processRetryableEvents ::
  "(outbox_event list \<Rightarrow> outbox_event list) \<Rightarrow> env \<Rightarrow> string \<Rightarrow> (nat \<Rightarrow> int \<Rightarrow> duration) \<Rightarrow> world \<Rightarrow>
     unit result \<times> world" where
  "processRetryableEvents sched env exchange delay w =
     (case ob_FindRetryable env BatchSize w of
        (Inl e, w1) \<Rightarrow> (Inl e, w1)
      | (Inr evs, w1) \<Rightarrow>
          (if evs = [] then (Inr (), w1)
           else (Inr (), publish_all env exchange delay (sched evs) w1)))"

section \<open>The steps of a publisher\<close>

datatype pub_pc =
    PubIdle
  | PubClaim outbox_event
  | PubSend outbox_event
  | PubMark outbox_event
  | PubFail outbox_event error
  | PubDone publish_result

definition pub_step ::
  "env \<Rightarrow> string \<Rightarrow> (nat \<Rightarrow> int \<Rightarrow> duration) \<Rightarrow> pub_pc \<Rightarrow> world \<Rightarrow> pub_pc \<times> world" where
  "pub_step env exchange delay pc w =
     (case pc of
        PubIdle \<Rightarrow> (PubIdle, w)
      | PubClaim e \<Rightarrow>
          (case ob_ClaimForProcessing env (oe_id e) w of
             (Inl err, w1) \<Rightarrow> (PubDone (not_published ''failed to claim event'' err), w1)
           | (Inr c, w1) \<Rightarrow> (PubSend c, w1))
      | PubSend c \<Rightarrow>
          (case queue_Publish env exchange (event_type_string (oe_event_type c))
                  (enc_event_payload (oe_payload c)) w of
             (Inl err, w1) \<Rightarrow> (PubFail c err, w1)
           | (Inr _, w1) \<Rightarrow> (PubMark c, w1))
      | PubMark c \<Rightarrow>
          (case ob_MarkPublished env (oe_id c) w of
             (Inl err, w1) \<Rightarrow> (PubDone (not_published ''failed to mark as published'' err), w1)
           | (Inr _, w1) \<Rightarrow>
               (PubDone \<lparr>pu_published = True, pu_error = []\<rparr>,
                record_metric (OutboxMetric True (oe_priority c)) w1))
      | PubFail c err \<Rightarrow>
          (PubDone (not_published ''failed to publish to queue'' err),
           snd (handlePublishFailure env delay c err w))
      | PubDone r \<Rightarrow> (PubDone r, w))"

lemma publish_by_steps:
  "PublishEvent env exchange delay e w = (r, w') \<longleftrightarrow>
   ((\<lambda>(pc, w). pub_step env exchange delay pc w) ^^ 3) (PubClaim e, w) = (PubDone r, w')"
  by (auto simp: PublishEvent_def pub_step_def numeral_3_eq_3 split: prod.splits sum.splits)

text \<open>
  The state of the whole system: what each publisher is at, and the world. A publisher takes one
  step, an idle or finished one starts on an event it has fetched at some time, or another program
  writes to the table: a new event, or the marks of a subscriber.
\<close>

inductive pub_sys ::
  "env \<Rightarrow> string \<Rightarrow> (nat \<Rightarrow> int \<Rightarrow> duration) \<Rightarrow> (nat \<Rightarrow> pub_pc) \<times> world \<Rightarrow> (nat \<Rightarrow> pub_pc) \<times> world \<Rightarrow> bool"
  for env exchange delay
where
  Step: "pub_step env exchange delay (T j) w = (pc, w') \<Longrightarrow>
         pub_sys env exchange delay (T, w) (T(j := pc), w')"
| Fetch: "T j = PubIdle \<or> T j = PubDone r \<Longrightarrow>
         pub_sys env exchange delay (T, w) (T(j := PubClaim e), w)"
| Save: "oe_status e = OutboxStatusPending \<Longrightarrow> oe_retry_count e = 0 \<Longrightarrow>
         pub_sys env exchange delay (T, w) (T, outbox_exec env (OpSave e) w)"
| Subscriber: "c = OpProcessed i \<or> c = OpCompleted i \<Longrightarrow>
         pub_sys env exchange delay (T, w) (T, outbox_exec env c w)"

inductive_cases pub_sysE: "pub_sys env exchange delay s s'"

inductive pub_reach ::
  "env \<Rightarrow> string \<Rightarrow> (nat \<Rightarrow> int \<Rightarrow> duration) \<Rightarrow> world \<Rightarrow> (nat \<Rightarrow> pub_pc) \<times> world \<Rightarrow> bool"
  for env exchange delay w0
where
  Init: "pub_reach env exchange delay w0 (\<lambda>_. PubIdle, w0)"
| More: "pub_reach env exchange delay w0 s \<Longrightarrow> pub_sys env exchange delay s s' \<Longrightarrow>
         pub_reach env exchange delay w0 s'"

text \<open>A publisher holds an event from its claim until it has tried to mark it.\<close>

definition holds :: "uuid \<Rightarrow> pub_pc \<Rightarrow> bool" where
  "holds i pc \<longleftrightarrow>
     (case pc of PubSend c \<Rightarrow> oe_id c = i | PubMark c \<Rightarrow> oe_id c = i | PubFail c _ \<Rightarrow> oe_id c = i | _ \<Rightarrow> False)"

definition busy :: "uuid \<Rightarrow> world \<Rightarrow> bool" where
  "busy i w \<longleftrightarrow> i \<in> or_id ` set (outbox_tab w) \<and>
     (\<forall>r \<in> set (outbox_tab w). or_id r = i \<longrightarrow> or_status r = OutboxStatusProcessing)"

definition pub_inv :: "(nat \<Rightarrow> pub_pc) \<times> world \<Rightarrow> bool" where
  "pub_inv s \<longleftrightarrow>
     (case s of (T, w) \<Rightarrow>
        outbox_table_ok w \<and>
        (\<forall>i j. holds i (T j) \<longrightarrow> busy i w) \<and>
        (\<forall>i j k. holds i (T j) \<longrightarrow> holds i (T k) \<longrightarrow> j = k))"

section \<open>What the steps do\<close>

lemma queue_Publish_effect:
  assumes "queue_Publish env ex key body w = (r, w')"
  shows "outbox_tab w' = outbox_tab w"
    and "bus w' = bus w \<or> bus w' = bus w @ [\<lparr>msg_exchange = ex, msg_routing_key = key, msg_headers = [], msg_body = Message_marshal body\<rparr>]"
    and "r = Inr u \<Longrightarrow> bus w' = bus w @ [\<lparr>msg_exchange = ex, msg_routing_key = key, msg_headers = [], msg_body = Message_marshal body\<rparr>]"
proof -
  from assms have st: "statement env (\<lambda>w. Inr ((), w\<lparr>bus := bus w @
       [\<lparr>msg_exchange = ex, msg_routing_key = key, msg_headers = [], msg_body = Message_marshal body\<rparr>]\<rparr>)) w = (r, w')"
    by (simp add: queue_Publish_def)
  show "outbox_tab w' = outbox_tab w"
    and "bus w' = bus w \<or> bus w' = bus w @ [\<lparr>msg_exchange = ex, msg_routing_key = key, msg_headers = [], msg_body = Message_marshal body\<rparr>]"
    and "r = Inr u \<Longrightarrow> bus w' = bus w @ [\<lparr>msg_exchange = ex, msg_routing_key = key, msg_headers = [], msg_body = Message_marshal body\<rparr>]"
    using st by (cases rule: statement_cases; auto)+
qed

lemma mark_tx_frame:
  assumes "in_tx env (\<lambda>w. mark_event env what i ov f (now env w) w) w = (r, w')" "\<And>t x. or_id (f t x) = or_id x"
  shows "\<exists>g. (\<forall>x. or_id (g x) = or_id x) \<and>
    (outbox_tab w' = outbox_tab w \<or> outbox_tab w' = update_where (\<lambda>x. or_id x = i) g (outbox_tab w))"
  using mark_tx_effect(1) [OF assms(1)] assms(2) by blast

lemma mark_published_effect:
  assumes "ob_MarkPublished env i w = (r, w')"
  shows "\<exists>f. (\<forall>x. or_id (f x) = or_id x) \<and>
    (outbox_tab w' = outbox_tab w \<or> outbox_tab w' = update_where (\<lambda>x. or_id x = i) f (outbox_tab w))"
  by (rule mark_tx_frame [OF assms [unfolded ob_MarkPublished_def]]) simp

lemma failure_effect:
  "\<exists>f. (\<forall>x. or_id (f x) = or_id x) \<and>
    (outbox_tab (snd (handlePublishFailure env d c err w)) = outbox_tab w \<or>
     outbox_tab (snd (handlePublishFailure env d c err w)) = update_where (\<lambda>x. or_id x = oe_id c) f (outbox_tab w))"
proof -
  let ?w = "record_metric (OutboxMetric False (oe_priority c)) w"
  obtain r1 w1 where p: "ob_MarkPermanentlyFailed env (oe_id c) (Error err) ?w = (r1, w1)" by force
  obtain r2 w2 where m: "ob_MarkFailed env (oe_id c) (Error err)
      (Some (now env ?w + d (tick ?w) (oe_retry_count c))) ?w = (r2, w2)" by force
  show ?thesis
  proof (cases "oe_max_retries c \<le> oe_retry_count c")
    case True
    have "\<exists>f. (\<forall>x. or_id (f x) = or_id x) \<and>
        (outbox_tab w1 = outbox_tab ?w \<or> outbox_tab w1 = update_where (\<lambda>x. or_id x = oe_id c) f (outbox_tab ?w))"
      by (rule mark_tx_frame [OF p [unfolded ob_MarkPermanentlyFailed_def]]) simp
    with True p show ?thesis by (simp add: handlePublishFailure_def Let_def)
  next
    case False
    have "\<exists>f. (\<forall>x. or_id (f x) = or_id x) \<and>
        (outbox_tab w2 = outbox_tab ?w \<or> outbox_tab w2 = update_where (\<lambda>x. or_id x = oe_id c) f (outbox_tab ?w))"
      by (rule mark_tx_frame [OF m [unfolded ob_MarkFailed_def]]) simp
    with False m show ?thesis by (simp add: handlePublishFailure_def Let_def)
  qed
qed

lemma claim_event_id:
  assumes "ob_ClaimForProcessing env i w = (Inr c, w')"
  obtains t row where "row \<in> set (outbox_tab w)" "claimable_row i row" "oe_id c = i"
    "outbox_tab w' = update_where (claimable_row i) (set_processing t) (outbox_tab w)"
    "convertRowToEvent (set_processing t row) = Inr c"
  using assms
proof (cases rule: claim_effect)
  case (claimed t row e)
  then have "row \<in> set (outbox_tab w)" "claimable_row i row" using find_SomeD by force+
  with claimed that [of row t] show thesis
    by (auto dest!: convertRowToEvent_fields simp: set_processing_def claimable_row_def)
qed simp_all

lemma pub_step_tab:
  assumes "pub_step env ex d pc w = (pc', w')"
  obtains (same) "outbox_tab w' = outbox_tab w"
    | (claim) e t where "pc = PubClaim e"
        "outbox_tab w' = update_where (claimable_row (oe_id e)) (set_processing t) (outbox_tab w)"
    | (mark) c :: outbox_event and f where "holds (oe_id c) pc" "\<forall>r. or_id (f r) = or_id r"
        "outbox_tab w' = update_where (\<lambda>r. or_id r = oe_id c) f (outbox_tab w)"
proof (cases pc)
  case (PubClaim e)
  obtain r w1 where c: "ob_ClaimForProcessing env (oe_id e) w = (r, w1)" by force
  with PubClaim assms have "w1 = w'" by (auto simp: pub_step_def split: sum.splits)
  with c PubClaim show thesis using claim same by (cases rule: claim_effect) auto
next
  case (PubSend c)
  obtain r w1 where q: "queue_Publish env ex (event_type_string (oe_event_type c))
      (enc_event_payload (oe_payload c)) w = (r, w1)" by force
  with PubSend assms have "w1 = w'" by (auto simp: pub_step_def split: sum.splits)
  with queue_Publish_effect(1) [OF q] show thesis using same by simp
next
  case (PubMark c)
  obtain r w1 where m: "ob_MarkPublished env (oe_id c) w = (r, w1)" by force
  with PubMark assms have "outbox_tab w1 = outbox_tab w'" by (auto simp: pub_step_def split: sum.splits)
  with mark_published_effect [OF m] show thesis
    using same mark [of c] PubMark by (auto simp: holds_def)
next
  case (PubFail c err)
  with assms have "w' = snd (handlePublishFailure env d c err w)" by (simp add: pub_step_def)
  with failure_effect [of env d c err w] show thesis
    using same mark [of c] PubFail by (auto simp: holds_def)
qed (use assms same in \<open>auto simp: pub_step_def\<close>)

lemma pub_step_holds:
  assumes "pub_step env ex d pc w = (pc', w')" "holds i pc'"
  shows "holds i pc \<and> outbox_tab w' = outbox_tab w \<or>
    \<not> busy i w \<and> (\<exists>t. outbox_tab w' = update_where (claimable_row i) (set_processing t) (outbox_tab w)) \<and>
    i \<in> or_id ` set (outbox_tab w) \<and> claimable i w"
proof (cases pc)
  case (PubClaim e)
  obtain r w1 where c: "ob_ClaimForProcessing env (oe_id e) w = (r, w1)" by force
  show ?thesis
  proof (cases r)
    case (Inr ev)
    with c PubClaim assms have pc': "pc' = PubSend ev" "w1 = w'" by (auto simp: pub_step_def)
    with assms(2) have i: "oe_id ev = i" by (simp add: holds_def)
    from c Inr obtain t row where t: "row \<in> set (outbox_tab w)" "claimable_row (oe_id e) row" "oe_id ev = oe_id e"
      "outbox_tab w1 = update_where (claimable_row (oe_id e)) (set_processing t) (outbox_tab w)"
      by (auto elim: claim_event_id)
    have id: "or_id row = i" "or_status row \<noteq> OutboxStatusProcessing" "i \<in> or_id ` set (outbox_tab w)"
      using t(1-3) i by (force simp: claimable_row_def)+
    then have "\<not> busy i w" "claimable i w" using t(1-3) i by (auto simp: busy_def claimable_def)
    with t(3,4) id i pc' show ?thesis by auto
  qed (use c PubClaim assms in \<open>auto simp: pub_step_def holds_def\<close>)
next
  case (PubSend c)
  obtain r w1 where q: "queue_Publish env ex (event_type_string (oe_event_type c))
      (enc_event_payload (oe_payload c)) w = (r, w1)" by force
  with PubSend assms queue_Publish_effect(1) [OF q] show ?thesis
    by (auto simp: pub_step_def holds_def split: sum.splits)
qed (use assms in \<open>auto simp: pub_step_def holds_def split: prod.splits sum.splits\<close>)

lemma busy_same: "outbox_tab w' = outbox_tab w \<Longrightarrow> busy i w' \<longleftrightarrow> busy i w"
  by (simp add: busy_def)

lemma busy_update:
  assumes "busy i w" "outbox_tab w' = update_where P f (outbox_tab w)" "\<And>r. or_id (f r) = or_id r"
    and "\<And>r. r \<in> set (outbox_tab w) \<Longrightarrow> P r \<Longrightarrow> or_id r = i \<Longrightarrow> or_status (f r) = OutboxStatusProcessing"
  shows "busy i w'"
proof -
  have "map or_id (outbox_tab w') = map or_id (outbox_tab w)"
    unfolding assms(2) by (rule map_update_where) (simp add: assms(3))
  then have "or_id ` set (outbox_tab w') = or_id ` set (outbox_tab w)" by (metis list.set_map)
  with assms show ?thesis by (auto simp: busy_def set_update_where)
qed

lemma pub_step_busy:
  assumes "pub_step env ex d pc w = (pc', w')" "\<not> holds i pc" "busy i w"
  shows "busy i w'"
  using assms(1)
proof (cases rule: pub_step_tab)
  case same
  show ?thesis using assms(3) busy_same [OF same] by simp
next
  case (claim e t)
  show ?thesis by (rule busy_update [OF assms(3) claim(2)]) (simp_all add: set_processing_def)
next
  case (mark c f)
  show ?thesis by (rule busy_update [OF assms(3) mark(3)]) (use mark assms(2) in auto)
qed

lemma claim_makes_busy:
  assumes "outbox_table_ok w" "claimable i w"
    and "outbox_tab w' = update_where (claimable_row i) (set_processing t) (outbox_tab w)"
  shows "busy i w'"
proof -
  obtain r where r: "r \<in> set (outbox_tab w)" "claimable_row i r" using assms(2) by (auto simp: claimable_def)
  have "s = r" if "s \<in> set (outbox_tab w)" "or_id s = i" for s
    using that r assms(1) by (auto simp: outbox_table_ok_def claimable_row_def distinct_map dest: inj_onD)
  then have P: "or_id s = i \<Longrightarrow> claimable_row i s" if "s \<in> set (outbox_tab w)" for s
    using r(2) that by blast
  have "set_processing t r \<in> set (outbox_tab w')" "or_id (set_processing t r) = i"
    using r by (auto simp: assms(3) set_update_where claimable_row_def set_processing_def)
  moreover have "or_status s = OutboxStatusProcessing" if "s \<in> set (outbox_tab w')" "or_id s = i" for s
    using that P by (auto simp: assms(3) set_update_where set_processing_def)
  ultimately show ?thesis unfolding busy_def by (metis image_eqI)
qed

lemma pub_step_ok:
  assumes "outbox_table_ok w" "pub_step env ex d pc w = (pc', w')"
  shows "outbox_table_ok w'"
proof -
  have m: "outbox_table_ok (snd (ob_MarkPublished env i w))" if "outbox_table_ok w" for i w
    using outbox_ops.keeps [OF that, of "OpPublished i"] by (simp add: saves_pending_def)
  have f: "outbox_table_ok (snd (ob_MarkFailed env i x t w))"
      "outbox_table_ok (snd (ob_MarkPermanentlyFailed env i x w))"
    if "outbox_table_ok w" for i x t w
    using outbox_ops.keeps [OF that, of "OpFailed i x t"] outbox_ops.keeps [OF that, of "OpPermanentlyFailed i x"]
    by (simp_all add: saves_pending_def)
  have met: "outbox_table_ok (record_metric mt w) = outbox_table_ok w" for mt w
    by (simp add: outbox_table_ok_def)
  show ?thesis
  proof (cases pc)
    case (PubClaim e)
    obtain r w1 where c: "ob_ClaimForProcessing env (oe_id e) w = (r, w1)" by force
    then have "w1 = w'" using PubClaim assms(2) by (auto simp: pub_step_def split: sum.splits)
    with claim_keeps [OF assms(1), of env "oe_id e"] c show ?thesis by simp
  next
    case (PubSend c)
    obtain r w1 where q: "queue_Publish env ex (event_type_string (oe_event_type c))
        (enc_event_payload (oe_payload c)) w = (r, w1)" by force
    then have "w1 = w'" using PubSend assms(2) by (auto simp: pub_step_def split: sum.splits)
    with outbox_table_same [OF assms(1) queue_Publish_effect(1) [OF q]] show ?thesis by simp
  next
    case (PubMark c)
    obtain r w1 where k: "ob_MarkPublished env (oe_id c) w = (r, w1)" by force
    then have "w' = w1 \<or> w' = record_metric (OutboxMetric True (oe_priority c)) w1"
      using PubMark assms(2) by (auto simp: pub_step_def split: sum.splits)
    with m [OF assms(1), of "oe_id c"] k met show ?thesis by auto
  next
    case (PubFail c err)
    with assms show ?thesis
      by (auto simp: pub_step_def handlePublishFailure_def Let_def f met)
  qed (use assms in \<open>auto simp: pub_step_def\<close>)
qed

section \<open>The system of publishers\<close>

lemma save_effect:
  "outbox_tab (snd (ob_SaveInTx env e w)) = outbox_tab w \<or>
   (\<exists>r. outbox_tab (snd (ob_SaveInTx env e w)) = outbox_tab w @ [r] \<and> or_id r \<notin> or_id ` set (outbox_tab w))"
proof -
  obtain r w' where st: "statement env (insert_outbox (event_row (with_id env e))) w = (r, w')" by force
  have "outbox_tab w' = outbox_tab w \<or>
      (\<exists>r. outbox_tab w' = outbox_tab w @ [r] \<and> or_id r \<notin> or_id ` set (outbox_tab w))"
    using st by (cases rule: statement_cases) (auto simp: insert_outbox_def split: if_splits)
  with st show ?thesis by (simp add: ob_SaveInTx_def Let_def split: sum.splits)
qed

lemma save_busy: "busy i w \<Longrightarrow> busy i (snd (ob_SaveInTx env e w))"
  using save_effect [of env e w] by (auto simp: busy_def)

lemma subscriber_busy:
  assumes "busy i w" "c = OpProcessed k \<or> c = OpCompleted k"
  shows "busy i (outbox_exec env c w)"
proof -
  obtain r1 w1 where p: "ob_MarkProcessed env k w = (r1, w1)" by force
  obtain r2 w2 where m: "ob_MarkCompleted env k w = (r2, w2)" by force
  have "busy i w1"
    using mark_event_effect(1) [OF p [unfolded ob_MarkProcessed_def]]
  proof
    assume "outbox_tab w1 = update_where (\<lambda>r. or_id r = k) (\<lambda>r. r\<lparr>or_processed_at := Some (now env w)\<rparr>) (outbox_tab w)"
    then show ?thesis by (rule busy_update [OF assms(1)]) (use assms(1) in \<open>auto simp: busy_def\<close>)
  qed (use busy_same assms(1) in blast)
  moreover have "busy i w2"
    using mark_event_effect(1) [OF m [unfolded ob_MarkCompleted_def]]
  proof
    assume "outbox_tab w2 = update_where (\<lambda>r. or_id r = k) (\<lambda>r. r\<lparr>or_completed_at := Some (now env w)\<rparr>) (outbox_tab w)"
    then show ?thesis by (rule busy_update [OF assms(1)]) (use assms(1) in \<open>auto simp: busy_def\<close>)
  qed (use busy_same assms(1) in blast)
  ultimately show ?thesis using assms(2) p m by auto
qed

lemma pub_inv_step:
  assumes "pub_inv (T, w)" "pub_step env ex d (T j) w = (pc, w')"
  shows "pub_inv (T(j := pc), w')"
proof -
  have ok: "outbox_table_ok w" and b: "\<And>i k. holds i (T k) \<Longrightarrow> busy i w"
    and u: "\<And>i j k. holds i (T j) \<Longrightarrow> holds i (T k) \<Longrightarrow> j = k"
    using assms(1) by (auto simp: pub_inv_def)
  have other: "busy i w'" if "holds i (T k)" "k \<noteq> j" for i k
    using pub_step_busy [OF assms(2), of i] b u that by blast
  have new: "busy i w' \<and> (\<forall>k. holds i (T k) \<longrightarrow> k = j)" if "holds i pc" for i
    using pub_step_holds [OF assms(2) that]
  proof
    assume "holds i (T j) \<and> outbox_tab w' = outbox_tab w"
    then show ?thesis using b u busy_same by blast
  next
    assume c: "\<not> busy i w \<and> (\<exists>t. outbox_tab w' = update_where (claimable_row i) (set_processing t) (outbox_tab w)) \<and>
      i \<in> or_id ` set (outbox_tab w) \<and> claimable i w"
    from c obtain t where "outbox_tab w' = update_where (claimable_row i) (set_processing t) (outbox_tab w)"
      by blast
    then have "busy i w'" using claim_makes_busy [OF ok] c by simp
    moreover have "\<not> holds i (T k)" for k using b [of i k] c by blast
    ultimately show ?thesis by simp
  qed
  let ?T = "T(j := pc)"
  have "busy i w'" if "holds i (?T k)" for i k
    using that other [of i k] new [of i] by (cases "k = j") simp_all
  moreover have "k = l" if "holds i (?T k)" "holds i (?T l)" for i k l
  proof -
    consider "k = j" "l = j" | "k \<noteq> j" "holds i (T k)" "holds i pc" | "l \<noteq> j" "holds i (T l)" "holds i pc"
      | "holds i (T k)" "holds i (T l)"
      using \<open>holds i (?T k)\<close> \<open>holds i (?T l)\<close> by (cases "k = j"; cases "l = j") simp_all
    then show ?thesis
    proof cases
      case 2
      with new [of i] show ?thesis by blast
    next
      case 3
      with new [of i] show ?thesis by blast
    next
      case 4
      then show ?thesis by (rule u)
    qed simp
  qed
  ultimately show ?thesis
    using pub_step_ok [OF ok assms(2)] unfolding pub_inv_def prod.case by blast
qed

lemma pub_inv_sys:
  assumes "pub_sys env ex d s s'" "pub_inv s"
  shows "pub_inv s'"
  using assms(1)
proof (cases rule: pub_sys.cases)
  case (Step T j w pc w')
  with assms(2) pub_inv_step show ?thesis by simp
next
  case (Fetch T j r w e)
  then have "holds i ((T(j := PubClaim e)) k) \<Longrightarrow> holds i (T k)" for i k
    by (auto simp: holds_def split: if_splits)
  moreover have "outbox_table_ok w" "\<And>i k. holds i (T k) \<Longrightarrow> busy i w"
    "\<And>i j k. holds i (T j) \<Longrightarrow> holds i (T k) \<Longrightarrow> j = k"
    using assms(2) Fetch(1) by (auto simp: pub_inv_def)
  ultimately show ?thesis unfolding pub_inv_def Fetch(2) prod.case by blast
next
  case (Save e T w)
  with assms(2) save_busy save_keeps show ?thesis by (auto simp: pub_inv_def)
next
  case (Subscriber c i T w)
  have "outbox_table_ok (outbox_exec env c w)"
    using outbox_ops.keeps [of w c env] assms(2) Subscriber by (auto simp: pub_inv_def saves_pending_def)
  with assms(2) Subscriber subscriber_busy show ?thesis by (auto simp: pub_inv_def)
qed

lemma pub_reach_inv: "pub_reach env ex d w0 s \<Longrightarrow> outbox_table_ok w0 \<Longrightarrow> pub_inv s"
proof (induction rule: pub_reach.induct)
  case Init
  then show ?case by (simp add: pub_inv_def holds_def)
qed (blast intro: pub_inv_sys)

section \<open>A run without faults\<close>

definition message_of :: "string \<Rightarrow> outbox_event \<Rightarrow> message" where
  "message_of exchange e =
     \<lparr>msg_exchange = exchange, msg_routing_key = event_type_string (oe_event_type e),
      msg_headers = [], msg_body = Message_marshal (enc_event_payload (oe_payload e))\<rparr>"

definition set_published :: "time \<Rightarrow> outbox_row \<Rightarrow> outbox_row" where
  "set_published t r = r\<lparr>or_status := OutboxStatusPublished, or_published_at := Some t\<rparr>"

lemma convert_processing:
  "convertRowToEvent r = Inr e \<Longrightarrow>
   convertRowToEvent (set_processing t r) = Inr (e\<lparr>oe_status := OutboxStatusProcessing, oe_started_at := Some t\<rparr>)"
  by (auto simp: convertRowToEvent_def set_processing_def split: sum.splits)

text \<open>The row of the event, claimed and marked; the other rows are not touched.\<close>

lemma publish_no_faults:
  assumes "no_faults env" "row \<in> set (outbox_tab w)" "claimable_row (oe_id e) row"
    and "distinct (map or_id (outbox_tab w))" "convertRowToEvent row = Inr c0"
  shows "\<exists>t0 t1 w'. PublishEvent env ex d e w = (\<lparr>pu_published = True, pu_error = []\<rparr>, w') \<and>
    bus w' = bus w @ [message_of ex c0] \<and>
    outbox_tab w' = update_where (\<lambda>r. or_id r = oe_id e) (\<lambda>r. set_published t1 (set_processing t0 r)) (outbox_tab w)"
proof -
  let ?i = "oe_id e"
  let ?w1 = "w\<lparr>tick := Suc (tick w)\<rparr>"
  have same: "claimable_row ?i r \<longleftrightarrow> or_id r = ?i" if "r \<in> set (outbox_tab w)" for r
    using assms(3) distinct_map_eqD [OF assms(4) that assms(2)] by (auto simp: claimable_row_def)
  have find: "List.find (claimable_row ?i) (outbox_tab w) = Some row"
  proof -
    obtain r where r: "List.find (claimable_row ?i) (outbox_tab w) = Some r"
      using assms(2,3) by (metis find_None_iff not_None_eq)
    then have "r \<in> set (outbox_tab w)" "or_id r = or_id row"
      using find_SomeD [OF r] assms(3) by (auto simp: claimable_row_def)
    with r assms(2,4) show ?thesis by (auto simp: distinct_map dest: inj_onD)
  qed
  let ?t0 = "now env ?w1"
  let ?u = "update_where (claimable_row ?i) (set_processing ?t0) (outbox_tab w)"
  let ?c = "c0\<lparr>oe_status := OutboxStatusProcessing, oe_started_at := Some ?t0\<rparr>"
  have cid: "oe_id c0 = ?i"
    using convertRowToEvent_fields [OF assms(5)] assms(3) by (simp add: claimable_row_def)
  obtain w1 where claim: "ob_ClaimForProcessing env ?i w = (Inr ?c, w1)" "outbox_tab w1 = ?u" "bus w1 = bus w"
    using find convert_processing [OF assms(5), of ?t0]
    by (simp add: ob_ClaimForProcessing_def in_tx_ok [OF assms(1)] statement_ok [OF assms(1)]
        claim_statement_def now_def)
  obtain w2 where send: "queue_Publish env ex (event_type_string (oe_event_type c0))
       (enc_event_payload (oe_payload c0)) w1 = (Inr (), w2)" "outbox_tab w2 = ?u"
       "bus w2 = bus w @ [message_of ex c0]"
    using claim(2,3) by (simp add: queue_Publish_def statement_ok [OF assms(1)] message_of_def)
  have in2: "filter (\<lambda>r. or_id r = ?i) ?u \<noteq> []"
  proof -
    have "set_processing ?t0 row \<in> set ?u" "or_id (set_processing ?t0 row) = ?i"
      using assms(2,3) by (auto simp: set_update_where claimable_row_def set_processing_def)
    then show ?thesis by (auto simp: filter_empty_conv)
  qed
  obtain t1 w3 where mark: "ob_MarkPublished env ?i w2 = (Inr (), w3)" "bus w3 = bus w2"
      "outbox_tab w3 = update_where (\<lambda>r. or_id r = ?i) (set_published t1) ?u"
    using in2 send(2) by (simp add: ob_MarkPublished_def in_tx_ok [OF assms(1)] mark_event_def
        statement_ok [OF assms(1)] mark_rows_def never_def set_published_def [abs_def])
  have "update_where (\<lambda>r. or_id r = ?i) (set_published t1) ?u =
      update_where (\<lambda>r. or_id r = ?i) (\<lambda>r. set_published t1 (set_processing ?t0 r)) (outbox_tab w)"
    using same by (auto simp: update_where_def set_processing_def)
  then have tab: "outbox_tab (record_metric (OutboxMetric True (oe_priority c0)) w3) =
      update_where (\<lambda>r. or_id r = ?i) (\<lambda>r. set_published t1 (set_processing ?t0 r)) (outbox_tab w)"
    using mark(3) by simp
  have "PublishEvent env ex d e w =
      (\<lparr>pu_published = True, pu_error = []\<rparr>, record_metric (OutboxMetric True (oe_priority c0)) w3)"
    by (simp add: PublishEvent_def claim(1) send(1) mark(1) cid)
  moreover have "bus (record_metric (OutboxMetric True (oe_priority c0)) w3) = bus w @ [message_of ex c0]"
    by (simp add: mark(2) send(3))
  ultimately show ?thesis using tab by blast
qed

lemma publish_all_no_faults:
  assumes "no_faults env" "distinct (map oe_id evs)" "distinct (map or_id (outbox_tab w))"
    and "\<forall>e \<in> set evs. \<exists>r \<in> set (outbox_tab w). claimable_row (oe_id e) r \<and> convertRowToEvent r = Inr e"
  shows "let w' = publish_all env ex d evs w in
    bus w' = bus w @ map (message_of ex) evs \<and> map or_id (outbox_tab w') = map or_id (outbox_tab w) \<and>
    (\<forall>r \<in> set (outbox_tab w'). if or_id r \<in> oe_id ` set evs then or_status r = OutboxStatusPublished
       else r \<in> set (outbox_tab w))"
  using assms(2-4)
proof (induction evs arbitrary: w)
  case (Cons e evs)
  let ?i = "oe_id e"
  obtain row where row: "row \<in> set (outbox_tab w)" "claimable_row ?i row" "convertRowToEvent row = Inr e"
    using Cons.prems(3) by auto
  from publish_no_faults [OF assms(1) row(1,2) Cons.prems(2) row(3)] obtain t0 t1 w1 where
    w1: "snd (PublishEvent env ex d e w) = w1" "bus w1 = bus w @ [message_of ex e]"
      "outbox_tab w1 = update_where (\<lambda>r. or_id r = ?i) (\<lambda>r. set_published t1 (set_processing t0 r)) (outbox_tab w)"
    by (metis snd_conv)
  have ids: "map or_id (outbox_tab w1) = map or_id (outbox_tab w)"
    unfolding w1(3) by (rule map_update_where) (simp add: set_published_def set_processing_def)
  have rest: "\<forall>x \<in> set evs. \<exists>r \<in> set (outbox_tab w1). claimable_row (oe_id x) r \<and> convertRowToEvent r = Inr x"
  proof
    fix x assume x: "x \<in> set evs"
    then obtain r where r: "r \<in> set (outbox_tab w)" "claimable_row (oe_id x) r" "convertRowToEvent r = Inr x"
      using Cons.prems(3) by auto
    have "or_id r = oe_id x" using r(2) by (simp add: claimable_row_def)
    moreover have "oe_id x \<noteq> ?i" using imageI [OF x, of oe_id] Cons.prems(1) by auto
    ultimately have "or_id r \<noteq> ?i" by simp
    then have "r \<in> set (outbox_tab w1)" using r(1) by (auto simp: w1(3) set_update_where)
    with r show "\<exists>r \<in> set (outbox_tab w1). claimable_row (oe_id x) r \<and> convertRowToEvent r = Inr x" by blast
  qed
  have "let w' = publish_all env ex d evs w1 in
    bus w' = bus w1 @ map (message_of ex) evs \<and> map or_id (outbox_tab w') = map or_id (outbox_tab w1) \<and>
    (\<forall>r \<in> set (outbox_tab w'). if or_id r \<in> oe_id ` set evs then or_status r = OutboxStatusPublished
       else r \<in> set (outbox_tab w1))"
    by (rule Cons.IH) (use Cons.prems(1,2) ids rest in simp_all)
  moreover have "publish_all env ex d (e # evs) w = publish_all env ex d evs w1"
    by (simp add: publish_all_def w1(1))
  moreover have "if or_id r = ?i then or_status r = OutboxStatusPublished else r \<in> set (outbox_tab w)"
    if "r \<in> set (outbox_tab w1)" for r
    using that by (auto simp: w1(3) set_update_where set_published_def set_processing_def)
  ultimately show ?case
    using w1(2) ids by (auto simp: Let_def split: if_splits)
qed (simp add: publish_all_def)

section \<open>Properties\<close>

definition sample_delay :: "nat \<Rightarrow> int \<Rightarrow> duration" where
  "sample_delay k n = Second"

text \<open>
  C4: in every state that any number of publishers can reach, interleaving their calls in any way
  and with any failures, while new events are saved and subscribers set their marks, at most one
  publisher is between claiming an event and marking it, and the row of that event is in
  processing. So no two publishers send the same event at the same time.
\<close>

theorem one_publisher_per_event:
  assumes "pub_reach env ex d w0 (T, w)" "outbox_table_ok w0" "holds i (T j)"
  shows "busy i w \<and> (\<forall>k. holds i (T k) \<longrightarrow> k = j)"
  using pub_reach_inv [OF assms(1,2)] assms(3) unfolding pub_inv_def prod.case by blast

lemma sample_claim:
  "\<exists>c w. ob_ClaimForProcessing sample_env (UUID ''h'') sample_outbox = (Inr c, w) \<and> oe_id c = UUID ''h''"
  using convert_processing [OF event_row_roundtrip [OF sample_fresh, of "''h''" PriorityHigh 2]]
  by (auto simp: ob_ClaimForProcessing_def in_tx_ok statement_ok claim_statement_def sample_outbox_def
      claimable_row_def event_row_def sample_event_def)

lemma sample_outbox_ok: "outbox_table_ok sample_outbox"
  by (simp add: outbox_table_ok_def sample_outbox_def event_row_def sample_event_def outbox_row_ok_def)

theorem one_publisher_per_event_witness:
  "\<exists>T w. pub_reach sample_env ''x'' sample_delay sample_outbox (T, w) \<and> holds (UUID ''h'') (T 0) \<and>
     busy (UUID ''h'') w"
proof -
  let ?e = "sample_event ''h'' PriorityHigh 2"
  obtain c w where c: "ob_ClaimForProcessing sample_env (UUID ''h'') sample_outbox = (Inr c, w)" "oe_id c = UUID ''h''"
    using sample_claim by blast
  let ?T = "(\<lambda>_. PubIdle)(0 := PubClaim ?e)"
  have "pub_reach sample_env ''x'' sample_delay sample_outbox (?T, sample_outbox)"
    by (rule pub_reach.More [OF pub_reach.Init]) (rule pub_sys.Fetch, simp)
  moreover have "pub_step sample_env ''x'' sample_delay (?T 0) sample_outbox = (PubSend c, w)"
    using c(1) by (simp add: pub_step_def sample_event_def)
  ultimately have r: "pub_reach sample_env ''x'' sample_delay sample_outbox (?T(0 := PubSend c), w)"
    by (rule pub_reach.More [OF _ pub_sys.Step])
  have h: "holds (UUID ''h'') ((?T(0 := PubSend c)) 0)" using c(2) by (simp add: holds_def)
  from one_publisher_per_event [OF r sample_outbox_ok h] r h show ?thesis by blast
qed

lemma rows_of_pending:
  assumes "fst (ob_FindPending env n w) = Inr evs" "e \<in> set evs"
  shows "\<exists>r \<in> set (outbox_tab w). claimable_row (oe_id e) r \<and> convertRowToEvent r = Inr e"
proof -
  have "list_all2 (\<lambda>r e. convertRowToEvent r = Inr e) (select_pending n (outbox_tab w)) evs"
    using ob_find_rows [OF assms(1) [unfolded ob_FindPending_def]] .
  from list_all2_set_right [OF this assms(2)] obtain r where
    r: "r \<in> set (select_pending n (outbox_tab w))" "convertRowToEvent r = Inr e" ..
  then have "r \<in> set (outbox_tab w)" "or_status r = OutboxStatusPending"
    by (auto simp: select_pending_def dest: in_set_takeD)
  with r(2) convertRowToEvent_fields [OF r(2)] show ?thesis by (auto simp: claimable_row_def)
qed

lemma distinct_fetched:
  assumes "fst (ob_FindPending env n w) = Inr evs" "distinct (map or_id (outbox_tab w))"
  shows "distinct (map oe_id evs)"
proof -
  have all2: "list_all2 (\<lambda>r e. convertRowToEvent r = Inr e) (select_pending n (outbox_tab w)) evs"
    using ob_find_rows [OF assms(1) [unfolded ob_FindPending_def]] .
  have "map or_id (select_pending n (outbox_tab w)) = map oe_id evs"
    using all2 by (induction rule: list_all2_induct) (auto dest: convertRowToEvent_fields)
  moreover have "distinct (map or_id (select_pending n (outbox_tab w)))"
    using assms(2) by (auto simp: select_pending_def distinct_map elim!: inj_on_subset dest!: in_set_takeD)
  ultimately show ?thesis by simp
qed

lemma ob_FindPending_state:
  "outbox_tab (snd (ob_FindPending env n w)) = outbox_tab w" "bus (snd (ob_FindPending env n w)) = bus w"
  by (auto simp: ob_FindPending_def ob_findByCriteria_def statement_def call_def
      split: outcome.splits prod.splits sum.splits)

lemma pending_batch_effect:
  assumes "no_faults env" "outbox_table_ok w" "\<And>xs. mset (sched xs) = mset xs"
    and "fst (ob_FindPending env BatchSize w) = Inr evs"
  shows "let w' = snd (processPendingEvents sched env ex d w) in
    bus w' = bus w @ map (message_of ex) (if evs = [] then [] else sched evs) \<and>
    (\<forall>r \<in> set (outbox_tab w'). if or_id r \<in> oe_id ` set evs then or_status r = OutboxStatusPublished
       else r \<in> set (outbox_tab w)) \<and>
    map or_id (outbox_tab w') = map or_id (outbox_tab w)"
proof -
  obtain w1 where f: "ob_FindPending env BatchSize w = (Inr evs, w1)"
    using assms(4) by (metis prod.collapse)
  then have w1: "outbox_tab w1 = outbox_tab w" "bus w1 = bus w"
    using ob_FindPending_state [of env BatchSize w] by auto
  have dist: "distinct (map or_id (outbox_tab w))" using assms(2) by (simp add: outbox_table_ok_def)
  have set: "set (sched evs) = set evs" by (metis assms(3) set_mset_mset)
  have "distinct (map oe_id (sched evs))"
    using distinct_fetched [OF assms(4) dist] by (metis assms(3) mset_map mset_eq_imp_distinct_iff)
  moreover have "\<forall>e \<in> set (sched evs). \<exists>r \<in> set (outbox_tab w1). claimable_row (oe_id e) r \<and> convertRowToEvent r = Inr e"
    using rows_of_pending [OF assms(4)] set w1(1) by simp
  ultimately have "let w' = publish_all env ex d (sched evs) w1 in
    bus w' = bus w1 @ map (message_of ex) (sched evs) \<and> map or_id (outbox_tab w') = map or_id (outbox_tab w1) \<and>
    (\<forall>r \<in> set (outbox_tab w'). if or_id r \<in> oe_id ` set (sched evs) then or_status r = OutboxStatusPublished
       else r \<in> set (outbox_tab w1))"
    using dist w1(1) by (intro publish_all_no_faults [OF assms(1)]) simp_all
  then show ?thesis
    by (auto simp: processPendingEvents_def f w1 set Let_def)
qed

text \<open>
  C7: a tick of the processor on a healthy system publishes the events it fetches, each exactly
  once and in the order in which the goroutines run, and only those: the messages on the exchange
  are those of the batch, the rows of the batch are published, the others are as they were.
\<close>

theorem pending_batch_published:
  assumes "no_faults env" "outbox_table_ok w" "\<And>xs. mset (sched xs) = mset xs"
    and "fst (ob_FindPending env BatchSize w) = Inr evs"
  shows "let w' = snd (processPendingEvents sched env ex d w) in
    bus w' = bus w @ map (message_of ex) (if evs = [] then [] else sched evs) \<and>
    (\<forall>r \<in> set (outbox_tab w'). if or_id r \<in> oe_id ` set evs then or_status r = OutboxStatusPublished
       else r \<in> set (outbox_tab w)) \<and>
    map or_id (outbox_tab w') = map or_id (outbox_tab w)"
  by (rule pending_batch_effect [OF assms])

definition sample_pending :: "outbox_event list" where
  "sample_pending = [sample_event ''n'' PriorityHigh 1, sample_event ''h'' PriorityHigh 2, sample_event ''l'' PriorityLow 1]"

lemma sample_batch_found: "fst (ob_FindPending sample_env BatchSize sample_outbox) = Inr sample_pending"
proof -
  have "select_pending BatchSize (outbox_tab sample_outbox) = map event_row sample_pending"
    by (simp add: select_pending_def sample_pending_def sample_outbox_def event_row_def sample_event_def pending_key_def
        priority_rank_def BatchSize_def)
  then show ?thesis
    using map_result_map [of sample_pending convertRowToEvent event_row id]
    by (simp add: ob_FindPending_def ob_findByCriteria_def statement_ok event_row_roundtrip sample_fresh sample_pending_def)
qed

theorem pending_batch_published_witness:
  "\<exists>w'. w' = snd (processPendingEvents rev sample_env ''x'' sample_delay sample_outbox) \<and>
    length (bus w') = 3"
  using pending_batch_published [OF _ sample_outbox_ok _ sample_batch_found, of rev "''x''" sample_delay]
  by (simp add: Let_def sample_outbox_def empty_world_def sample_pending_def)

text \<open>The calls on the outbox do not touch the broker.\<close>

lemma mark_event_bus: "bus (snd (mark_event env what i ov f t w)) = bus w"
  by (auto simp: mark_event_def statement_def call_def mark_rows_def
      split: outcome.splits prod.splits sum.splits if_splits)

lemma bus_tick_free: "tick_free (\<lambda>w. bus w = b)"
  by (simp add: tick_free_def)

lemma mark_tx_bus: "bus (snd (in_tx env (\<lambda>w. mark_event env what i ov f (now env w) w) w)) = bus w"
  by (rule in_tx_preserves [OF bus_tick_free refl]) (simp add: mark_event_bus)

lemma ob_mark_bus [frame_simps]:
  "bus (snd (ob_MarkPublished env i w)) = bus w"
  "bus (snd (ob_MarkFailed env i x t w)) = bus w"
  "bus (snd (ob_MarkPermanentlyFailed env i x w)) = bus w"
  by (simp_all add: ob_MarkPublished_def ob_MarkFailed_def ob_MarkPermanentlyFailed_def mark_tx_bus)

lemma claim_statement_bus: "bus (snd (statement env (claim_statement i t) w)) = bus w"
  by (auto simp: statement_def call_def claim_statement_def split: outcome.splits sum.splits option.splits)

lemma ob_claim_bus [frame_simps]: "bus (snd (ob_ClaimForProcessing env i w)) = bus w"
  unfolding ob_ClaimForProcessing_def
proof (rule in_tx_preserves [OF bus_tick_free refl])
  fix v :: world assume "bus v = bus w"
  then show "bus (snd (case statement env (claim_statement i (now env v)) v of
         (Inl e, w1) \<Rightarrow>
           (Inl (if errors_Is e ErrNoRows then ErrText ''event not found or already claimed''
                 else ErrWrap ''failed to claim event'' e), w1)
       | (Inr r, w1) \<Rightarrow> (convertRowToEvent r, w1))) = bus w"
    using claim_statement_bus [of env i "now env v" v] by (auto split: prod.splits sum.splits)
qed

lemma failure_bus [frame_simps]: "bus (snd (handlePublishFailure env d c err w)) = bus w"
  by (simp add: handlePublishFailure_def Let_def frame_simps)



lemma orphan_stays:
  assumes "(pub_sys env ex d)\<^sup>*\<^sup>* s s'" "\<forall>k. \<not> holds i (fst s k)" "busy i (snd s)" "outbox_table_ok (snd s)"
  shows "busy i (snd s') \<and> \<not> claimable i (snd s') \<and>
    (\<forall>n evs. fst (ob_FindPending env n (snd s')) = Inr evs \<or> fst (ob_FindRetryable env n (snd s')) = Inr evs
       \<longrightarrow> i \<notin> oe_id ` set evs)"
proof -
  have step: "(\<forall>k. \<not> holds i (fst b k)) \<and> busy i (snd b) \<and> outbox_table_ok (snd b)"
    if "pub_sys env ex d a b" "\<forall>k. \<not> holds i (fst a k)" "busy i (snd a)" "outbox_table_ok (snd a)" for a b
    using that(1)
  proof (cases rule: pub_sys.cases)
    case (Step T j w pc w')
    have "\<not> holds i pc" using pub_step_holds [OF Step(3), of i] that(2,3) Step(1) by auto
    moreover have "busy i w'" using pub_step_busy [OF Step(3)] that(2,3) Step(1) by auto
    moreover have "outbox_table_ok w'" using pub_step_ok [OF _ Step(3)] that(4) Step(1) by auto
    ultimately show ?thesis using that(2) Step by auto
  next
    case (Fetch T j r w e)
    then show ?thesis using that by (auto simp: holds_def)
  next
    case (Save e T w)
    then show ?thesis using that save_busy save_keeps by auto
  next
    case (Subscriber c k T w)
    have "outbox_table_ok (outbox_exec env c w)"
      using outbox_ops.keeps [of w c env] that(4) Subscriber by (auto simp: saves_pending_def)
    then show ?thesis using that Subscriber subscriber_busy by auto
  qed
  have "(\<forall>k. \<not> holds i (fst s' k)) \<and> busy i (snd s') \<and> outbox_table_ok (snd s')"
    using assms by (induction rule: rtranclp_induct) (use step in blast)+
  then have b: "busy i (snd s')" by simp
  have p: "or_status r = OutboxStatusProcessing" if "r \<in> set (outbox_tab (snd s'))" "or_id r = i" for r
    using b that by (simp add: busy_def)
  have "\<not> claimable i (snd s')" using p by (auto simp: claimable_def claimable_row_def)
  moreover have "i \<notin> oe_id ` set evs" if "fst (ob_FindPending env n (snd s')) = Inr evs" for n evs
    using rows_of_pending [OF that] p by (fastforce simp: claimable_row_def)
  moreover have "i \<notin> oe_id ` set evs" if f: "fst (ob_FindRetryable env n (snd s')) = Inr evs" for n evs
  proof
    assume "i \<in> oe_id ` set evs"
    then obtain e where e: "e \<in> set evs" "oe_id e = i" by auto
    have "list_all2 (\<lambda>r e. convertRowToEvent r = Inr e)
        (select_retryable (clock env (Suc (tick (snd s')))) n (outbox_tab (snd s'))) evs"
      using ob_find_rows [OF f [unfolded ob_FindRetryable_def]] .
    from list_all2_set_right [OF this e(1)] obtain r where
      r: "r \<in> set (outbox_tab (snd s'))" "or_status r = OutboxStatusFailed" "convertRowToEvent r = Inr e"
      by (auto simp: select_retryable_def retryable_def dest!: in_set_takeD)
    with p [OF r(1)] e(2) convertRowToEvent_fields [OF r(3)] show False by simp
  qed
  ultimately show ?thesis using b by blast
qed

text \<open>
  Also: an event whose publisher has gone without marking it (it crashed, or the statement that marks
  the row failed) stays in processing for good: from a state in which a row is in processing and no
  publisher holds it, no step of any publisher, of a subscriber or of a saved event leads to one in
  which it can be claimed, or is found as pending or retryable.
\<close>

theorem orphan_never_recovered:
  assumes "(pub_sys env ex d)\<^sup>*\<^sup>* s s'" "\<forall>k. \<not> holds i (fst s k)" "busy i (snd s)" "outbox_table_ok (snd s)"
  shows "busy i (snd s') \<and> \<not> claimable i (snd s') \<and>
    (\<forall>n evs. fst (ob_FindPending env n (snd s')) = Inr evs \<or> fst (ob_FindRetryable env n (snd s')) = Inr evs
       \<longrightarrow> i \<notin> oe_id ` set evs)"
  by (rule orphan_stays [OF assms])

theorem orphan_never_recovered_witness:
  "\<exists>w. busy (UUID ''h'') w \<and> \<not> claimable (UUID ''h'') w"
proof -
  obtain c w where c: "ob_ClaimForProcessing sample_env (UUID ''h'') sample_outbox = (Inr c, w)"
    using sample_claim by blast
  then obtain t where "claimable (UUID ''h'') sample_outbox"
    "outbox_tab w = update_where (claimable_row (UUID ''h'')) (set_processing t) (outbox_tab sample_outbox)"
    by (auto elim!: claim_event_id simp: claimable_def)
  then have b: "busy (UUID ''h'') w" by (rule claim_makes_busy [OF sample_outbox_ok])
  have "outbox_table_ok w" using claim_keeps [OF sample_outbox_ok, of sample_env "UUID ''h''"] c by simp
  then have "busy (UUID ''h'') (snd (\<lambda>_. PubIdle, w)) \<and> \<not> claimable (UUID ''h'') (snd (\<lambda>_::nat. PubIdle, w))"
    using orphan_never_recovered [OF rtranclp.rtrancl_refl, of "UUID ''h''" "(\<lambda>_. PubIdle, w)" sample_env] b
    by (auto simp: holds_def)
  then show ?thesis by auto
qed

text \<open>
  Also: when the last retry fails, the event is not marked as permanently failed: its row gets a
  retry time as if there were another retry to come, and with its retries used up no query for
  retryable events returns it at any time, so the branch that would clear the retry time is not
  taken for it.
\<close>

theorem last_failure_keeps_retry_time:
  assumes "no_faults env" "oe_retry_count c + 1 = oe_max_retries c" "oe_max_retries c \<le> max_int32"
    and "\<forall>r \<in> set (outbox_tab w). or_id r = oe_id c \<longrightarrow>
           or_retry_count r = oe_retry_count c \<and> or_max_retries r = oe_max_retries c"
    and "oe_id c \<in> or_id ` set (outbox_tab w)"
  shows "let (res, w') = handlePublishFailure env d c err w in
    res = Inr () \<and>
    (\<forall>r \<in> set (outbox_tab w'). or_id r = oe_id c \<longrightarrow>
       or_status r = OutboxStatusFailed \<and> or_retry_count r = or_max_retries r \<and>
       or_next_retry_at r \<noteq> None \<and> (\<forall>t. \<not> retryable t r))"
proof -
  let ?w = "record_metric (OutboxMetric False (oe_priority c)) w"
  let ?f = "\<lambda>r. r\<lparr>or_status := OutboxStatusFailed, or_retry_count := or_retry_count r + 1,
      or_error_details := Some (Error err), or_next_retry_at := Some (now env ?w + d (tick ?w) (oe_retry_count c))\<rparr>"
  have ov: "\<not> (\<exists>r \<in> set (outbox_tab w). or_id r = oe_id c \<and> or_retry_count r = max_int32)"
    using assms(2-4) by auto
  have ne: "filter (\<lambda>r. or_id r = oe_id c) (outbox_tab w) \<noteq> []"
    using assms(5) by (auto simp: filter_empty_conv)
  obtain w' where w': "ob_MarkFailed env (oe_id c) (Error err)
      (Some (now env ?w + d (tick ?w) (oe_retry_count c))) ?w = (Inr (), w')"
    "outbox_tab w' = update_where (\<lambda>r. or_id r = oe_id c) ?f (outbox_tab w)"
    using ov ne by (simp add: ob_MarkFailed_def in_tx_ok [OF assms(1)] mark_event_def
        statement_ok [OF assms(1)] mark_rows_def)
  have "handlePublishFailure env d c err w = (Inr (), w')"
    using w'(1) assms(2) by (simp add: handlePublishFailure_def Let_def)
  moreover have "\<forall>r \<in> set (outbox_tab w'). or_id r = oe_id c \<longrightarrow>
       or_status r = OutboxStatusFailed \<and> or_retry_count r = or_max_retries r \<and>
       or_next_retry_at r \<noteq> None \<and> (\<forall>t. \<not> retryable t r)"
    using assms(2,4) by (auto simp: w'(2) set_update_where retryable_def)
  ultimately show ?thesis by simp
qed

theorem last_failure_keeps_retry_time_witness:
  "fst (handlePublishFailure sample_env sample_delay ((sample_event ''h'' PriorityHigh 2)\<lparr>oe_max_retries := 1\<rparr>)
     ErrCanceled (empty_world\<lparr>outbox_tab := [event_row ((sample_event ''h'' PriorityHigh 2)\<lparr>oe_max_retries := 1\<rparr>)]\<rparr>))
   = Inr ()"
  using last_failure_keeps_retry_time [of sample_env "(sample_event ''h'' PriorityHigh 2)\<lparr>oe_max_retries := 1\<rparr>"
      "empty_world\<lparr>outbox_tab := [event_row ((sample_event ''h'' PriorityHigh 2)\<lparr>oe_max_retries := 1\<rparr>)]\<rparr>"
      sample_delay ErrCanceled]
  by (simp add: sample_event_def event_row_def max_int32_def Let_def split: prod.splits)

end
