(* ===== verification/Application.thy ===== *)
theory Application
  imports Outbox_Repo Backoff Cache_Repo
begin

text \<open>
  \<open>internal/service/application_service.go\<close>: starting an analysis (a row and an outbox event in one
  transaction), fetching one through the cache, and the stream of events for a client, a goroutine
  modelled as a step relation.
\<close>

section \<open>Starting an analysis\<close>

definition requested_event :: "max_retries_by_priority \<Rightarrow> analysis \<Rightarrow> string \<Rightarrow> analysis_options \<Rightarrow> outbox_event" where
  "requested_event cfg a url options =
     \<lparr>oe_id = uuid_Nil, oe_aggregate_id = an_id a, oe_aggregate_type = ''analysis'',
      oe_event_type = OutboxEventAnalysisRequested, oe_priority = PriorityNormal, oe_retry_count = 0,
      oe_max_retries = GetMaxRetriesForPriority cfg (priority_string PriorityNormal),
      oe_status = OutboxStatusPending,
      oe_payload = AnalysisRequestPayload
        \<lparr>rp_analysis_id = an_id a, rp_url = url, rp_options = options, rp_priority = PriorityNormal,
         rp_created_at = an_created_at a\<rparr>,
      oe_error_details = None, oe_created_at = an_created_at a, oe_started_at = None,
      oe_published_at = None, oe_processed_at = None, oe_completed_at = None, oe_next_retry_at = None\<rparr>"

definition start_body ::
  "env \<Rightarrow> max_retries_by_priority \<Rightarrow> string \<Rightarrow> analysis_options \<Rightarrow> world \<Rightarrow> analysis result \<times> world" where
  "start_body env cfg url options w =
     (case an_SaveInTx env url options w of
        (Inl e, w1) \<Rightarrow> (Inl (ErrWrap ''failed to save analysis'' e), w1)
      | (Inr a, w1) \<Rightarrow>
          (case ob_SaveInTx env (requested_event cfg a url options) w1 of
             (Inl e, w2) \<Rightarrow> (Inl (ErrWrap ''failed to save outbox event'' e), w2)
           | (Inr _, w2) \<Rightarrow> (Inr a, w2)))"

definition StartAnalysis ::
  "env \<Rightarrow> max_retries_by_priority \<Rightarrow> duration \<Rightarrow> string \<Rightarrow> analysis_options \<Rightarrow> world \<Rightarrow> analysis result \<times> world" where
  "StartAnalysis env cfg DefaultExpiry url options w =
     (case in_tx env (start_body env cfg url options) w of
        (Inl e, w1) \<Rightarrow> (Inl e, w1)
      | (Inr a, w1) \<Rightarrow> (Inr a, snd (cache_Set env DefaultExpiry a w1)))"

section \<open>Fetching an analysis\<close>

definition FetchAnalysis :: "env \<Rightarrow> duration \<Rightarrow> uuid \<Rightarrow> world \<Rightarrow> analysis result \<times> world" where
  "FetchAnalysis env DefaultExpiry i w =
     (case cache_Find env i w of
        (Inr a, w1) \<Rightarrow> (Inr a, w1)
      | (Inl _, w1) \<Rightarrow>
          (case an_Find env i w1 of
             (Inl e, w2) \<Rightarrow> (Inl (ErrWrap ''failed to find analysis'' e), w2)
           | (Inr a, w2) \<Rightarrow> (Inr a, snd (cache_Set env DefaultExpiry a w2))))"

section \<open>The stream of events\<close>

definition EventTypeStarted :: string where "EventTypeStarted = ''analysis_started''"
definition EventTypeProgress :: string where "EventTypeProgress = ''analysis_progress''"
definition EventTypeCompleted :: string where "EventTypeCompleted = ''analysis_completed''"
definition EventTypeFailed :: string where "EventTypeFailed = ''analysis_failed''"

definition getEventStatus :: "analysis_status \<Rightarrow> string" where
  "getEventStatus s = (case s of
     StatusRequested \<Rightarrow> EventTypeStarted | StatusInProgress \<Rightarrow> EventTypeProgress
   | StatusCompleted \<Rightarrow> EventTypeCompleted | StatusFailed \<Rightarrow> EventTypeFailed | StatusOther _ \<Rightarrow> [])"

definition shouldWait :: "string \<Rightarrow> bool" where
  "shouldWait t \<longleftrightarrow> t \<noteq> EventTypeCompleted \<and> t \<noteq> EventTypeFailed"

datatype analysis_event = Heartbeat | AnalysisEvent string analysis string

text \<open>
  The goroutine: before the first send on \<open>checkAnalysisChan\<close>, in the select, at the send that a
  tick of \<open>eventsTicker\<close> leads to, at the send of an event (the flag says whether it returns after
  it), returned. \<open>s_check\<close> counts what is in \<open>checkAnalysisChan\<close> (capacity 1), \<open>s_buf\<close> is the channel
  of events (capacity 10), \<open>s_out\<close> what the client has received.
\<close>

datatype sse_pc = SseInit | SseSelect | SseSendCheck | SsePut analysis_event bool | SseClosed

record sse =
  s_pc :: sse_pc
  s_check :: nat
  s_buf :: "analysis_event list"
  s_out :: "analysis_event list"
  s_cancelled :: bool

definition sse_start :: sse where
  "sse_start = \<lparr>s_pc = SseInit, s_check = 0, s_buf = [], s_out = [], s_cancelled = False\<rparr>"

definition after_check :: "analysis result \<Rightarrow> sse_pc" where
  "after_check r =
     (case r of
        Inl _ \<Rightarrow> SseClosed
      | Inr a \<Rightarrow>
          (let t = getEventStatus (an_status a)
           in if shouldWait t then SseSelect
              else SsePut (AnalysisEvent t a (uuid_string (an_id a))) True))"

inductive sse_step ::
  "(world \<Rightarrow> analysis result \<times> world) \<Rightarrow> sse \<times> world \<Rightarrow> sse \<times> world \<Rightarrow> bool" for fetch
where
  First: "s_pc s = SseInit \<Longrightarrow> s_check s < 1 \<Longrightarrow>
          sse_step fetch (s, w) (s\<lparr>s_pc := SseSelect, s_check := Suc (s_check s)\<rparr>, w)"
| Cancelled: "s_pc s = SseSelect \<Longrightarrow> s_cancelled s \<Longrightarrow> sse_step fetch (s, w) (s\<lparr>s_pc := SseClosed\<rparr>, w)"
| KeepAlive: "s_pc s = SseSelect \<Longrightarrow> sse_step fetch (s, w) (s\<lparr>s_pc := SsePut Heartbeat False\<rparr>, w)"
| EventsTick: "s_pc s = SseSelect \<Longrightarrow> sse_step fetch (s, w) (s\<lparr>s_pc := SseSendCheck\<rparr>, w)"
| SendCheck: "s_pc s = SseSendCheck \<Longrightarrow> s_check s < 1 \<Longrightarrow>
          sse_step fetch (s, w) (s\<lparr>s_pc := SseSelect, s_check := Suc (s_check s)\<rparr>, w)"
| Check: "s_pc s = SseSelect \<Longrightarrow> 0 < s_check s \<Longrightarrow> fetch w = (r, w') \<Longrightarrow>
          sse_step fetch (s, w) (s\<lparr>s_pc := after_check r, s_check := s_check s - 1\<rparr>, w')"
| Put: "s_pc s = SsePut e final \<Longrightarrow> length (s_buf s) < 10 \<Longrightarrow>
          sse_step fetch (s, w)
            (s\<lparr>s_pc := (if final then SseClosed else SseSelect), s_buf := s_buf s @ [e]\<rparr>, w)"
| Receive: "s_buf s = e # b \<Longrightarrow> sse_step fetch (s, w) (s\<lparr>s_buf := b, s_out := s_out s @ [e]\<rparr>, w)"
| Cancel: "sse_step fetch (s, w) (s\<lparr>s_cancelled := True\<rparr>, w)"
| Others: "sse_step fetch (s, w) (s, w')"

abbreviation sse_reach where
  "sse_reach fetch w0 \<equiv> (sse_step fetch)\<^sup>*\<^sup>* (sse_start, w0)"

section \<open>One transaction\<close>

lemma getNextVersion_frame:
  "getNextVersionWithExecutor env url w = (r, w1) \<Longrightarrow>
   analysis_tab w1 = analysis_tab w \<and> outbox_tab w1 = outbox_tab w"
  by (auto simp: getNextVersionWithExecutor_def wrap_error_def statement_def call_def
      split: outcome.splits prod.splits sum.splits if_splits)

lemma an_SaveInTx_Inr:
  assumes "an_SaveInTx env url options w = (Inr a, w2)"
  shows "\<exists>row. analysis_tab w2 = analysis_tab w @ [row] \<and> ar_id row = an_id a \<and> ar_url row = url \<and>
    ar_status row = StatusRequested \<and> ar_options row = Some (enc_options options) \<and>
    ar_lock_version row = 1 \<and> outbox_tab w2 = outbox_tab w"
proof -
  let ?ctx = "''failed to save analysis in transaction''"
  obtain n where n: "NewNormalizedURL (url_Parse env) (url_String env) url = Inr n"
    using assms by (auto simp: an_SaveInTx_def an_insert_def split: sum.splits)
  obtain q w1 where v: "getNextVersionWithExecutor env url w = (q, w1)" by force
  with assms n obtain k where k: "q = Inr k"
    by (cases q) (auto simp: an_SaveInTx_def an_insert_def)
  let ?i = "uuid_NewSHA1 env AnalysisNamespace (analysis_id_name n k)"
  obtain p w3 where st: "statement env (\<lambda>w. insert_analysis
      (new_row ?i url n k (Some (enc_options options)) (now env w1) (now env w)) w) w1 = (p, w3)" by force
  with assms n v k have p: "p = Inr ()" "w3 = w2" "a = new_analysis ?i url (now env w1) 1"
    by (cases p; auto simp: an_SaveInTx_def an_insert_def Let_def)+
  from st show ?thesis
  proof (cases rule: statement_cases)
    case (ok x)
    with p getNextVersion_frame [OF v] show ?thesis
      by (auto simp: insert_analysis_def new_row_def new_analysis_def split: if_splits)
  qed (use p in simp_all)
qed

lemma ob_SaveInTx_Inr:
  assumes "ob_SaveInTx env e w = (Inr e', w')"
  shows "outbox_tab w' = outbox_tab w @ [event_row e'] \<and> e' = with_id env e \<and> analysis_tab w' = analysis_tab w"
proof -
  obtain r w1 where st: "statement env (insert_outbox (event_row (with_id env e))) w = (r, w1)" by force
  with assms have r: "r = Inr ()" "w1 = w'" "e' = with_id env e"
    by (cases r; auto simp: ob_SaveInTx_def Let_def)+
  from st show ?thesis
    by (cases rule: statement_cases) (use r in \<open>auto simp: insert_outbox_def split: if_splits\<close>)
qed

lemma start_body_Inr:
  assumes "start_body env cfg url options w = (Inr a, w')"
  shows "\<exists>row ev. analysis_tab w' = analysis_tab w @ [row] \<and> outbox_tab w' = outbox_tab w @ [ev] \<and>
    ar_id row = an_id a \<and> ar_url row = url \<and> ar_status row = StatusRequested \<and> ar_lock_version row = 1 \<and>
    or_aggregate_id ev = ar_id row \<and> or_status ev = OutboxStatusPending \<and>
    or_event_type ev = OutboxEventAnalysisRequested \<and>
    or_payload ev = enc_payload \<lparr>rp_analysis_id = ar_id row, rp_url = url, rp_options = options,
      rp_priority = PriorityNormal, rp_created_at = an_created_at a\<rparr>"
proof -
  obtain r1 w1 where s1: "an_SaveInTx env url options w = (r1, w1)" by force
  with assms obtain a1 where a1: "r1 = Inr a1" by (cases r1) (auto simp: start_body_def)
  obtain r2 w2 where s2: "ob_SaveInTx env (requested_event cfg a1 url options) w1 = (r2, w2)" by force
  with assms s1 a1 obtain e' where r2: "r2 = Inr e'" "w2 = w'" "a1 = a"
    by (cases r2) (auto simp: start_body_def)
  obtain row where row: "analysis_tab w1 = analysis_tab w @ [row]" "ar_id row = an_id a" "ar_url row = url"
    "ar_status row = StatusRequested" "ar_lock_version row = 1" "outbox_tab w1 = outbox_tab w"
    using an_SaveInTx_Inr [OF s1 [unfolded a1]] r2 by blast
  from ob_SaveInTx_Inr [OF s2 [unfolded r2(1)]] row r2 show ?thesis
    by (intro exI [of _ row] exI [of _ "event_row e'"])
       (simp add: event_row_def with_id_def requested_event_def enc_event_payload_def)
qed

lemma cache_Set_tables:
  "analysis_tab (snd (cache_Set env d a w)) = analysis_tab w"
  "outbox_tab (snd (cache_Set env d a w)) = outbox_tab w"
  "bus (snd (cache_Set env d a w)) = bus w"
  by (auto simp: cache_Set_def keydb_Set_def Let_def statement_def call_def split: outcome.splits)

lemma an_Find_effect:
  assumes "an_Find env i w = (r, w')"
  shows "w' = w\<lparr>tick := Suc (tick w)\<rparr>"
    and "r = Inr a \<Longrightarrow> \<exists>row \<in> set (analysis_tab w). ar_id row = i \<and> convertRowToAnalysis row = Inr a"
  using assms
  by (auto simp: an_Find_def findByCriteria_def find_row_id statement_def call_def
      split: outcome.splits sum.splits prod.splits option.splits dest!: find_SomeD)

lemma cache_Find_tables:
  "cache_Find env i w = (r, w') \<Longrightarrow> w' = w\<lparr>tick := Suc (tick w)\<rparr>"
  by (auto simp: cache_Find_def keydb_Get_def statement_def call_def
      split: outcome.splits sum.splits prod.splits option.splits if_splits)

section \<open>Properties\<close>

lemma StartAnalysis_effect:
  assumes "StartAnalysis env cfg d url options w = (r, w')"
  shows "(\<exists>e. r = Inl e) \<and> analysis_tab w' = analysis_tab w \<and> outbox_tab w' = outbox_tab w \<or>
    (\<exists>row ev t. analysis_tab w' = analysis_tab w @ [row] \<and> outbox_tab w' = outbox_tab w @ [ev] \<and>
       ar_url row = url \<and> ar_status row = StatusRequested \<and> or_aggregate_id ev = ar_id row \<and>
       or_status ev = OutboxStatusPending \<and> or_event_type ev = OutboxEventAnalysisRequested \<and>
       or_payload ev = enc_payload \<lparr>rp_analysis_id = ar_id row, rp_url = url, rp_options = options,
         rp_priority = PriorityNormal, rp_created_at = t\<rparr> \<and>
       (\<forall>a. r = Inr a \<longrightarrow> an_id a = ar_id row))"
proof -
  obtain q w1 where tx: "in_tx env (start_body env cfg url options) w = (q, w1)" by force
  have w': "analysis_tab w' = analysis_tab w1" "outbox_tab w' = outbox_tab w1" "r = q"
    using assms tx cache_Set_tables by (auto simp: StartAnalysis_def split: sum.splits)
  from tx show ?thesis
  proof (cases rule: in_tx_cases)
    case (committed a w2)
    from start_body_Inr [OF committed(2)] show ?thesis
      using committed(1,3) w' by (intro disjI2) (auto; blast)
  next
    case (unsure e a w2)
    from start_body_Inr [OF unsure(2)] show ?thesis
      using unsure(1,3) w' by (intro disjI2) (auto; blast)
  next
    case (rolled_back e n)
    then show ?thesis using w' by (intro disjI1) auto
  qed
qed



lemma FetchAnalysis_effect:
  assumes "FetchAnalysis env d i w = (r, w')"
  shows "analysis_tab w' = analysis_tab w \<and> outbox_tab w' = outbox_tab w \<and>
    (\<forall>a. r = Inr a \<longrightarrow> cache_content w i = Some a \<or>
       (\<exists>row \<in> set (analysis_tab w). ar_id row = i \<and> convertRowToAnalysis row = Inr a))"
proof -
  obtain q w1 where c: "cache_Find env i w = (q, w1)" by force
  show ?thesis
  proof (cases q)
    case (Inr a)
    with c assms analysis_cache.find_hit [of env i w a w1] cache_Find_tables [OF c] show ?thesis
      by (auto simp: FetchAnalysis_def)
  next
    case (Inl e)
    obtain p w2 where f: "an_Find env i w1 = (p, w2)" by force
    note w1 = cache_Find_tables [OF c] and w2 = an_Find_effect [OF f]
    show ?thesis
      using assms c Inl f w1 w2 by (cases p) (auto simp: FetchAnalysis_def cache_Set_tables)
  qed
qed

text \<open>
  Also: what \<open>FetchAnalysis\<close> returns is what the cache holds for the identifier or what the row with
  the identifier says, and it changes neither table.
\<close>

theorem fetch_analysis_source:
  assumes "FetchAnalysis env d i w = (r, w')"
  shows "analysis_tab w' = analysis_tab w \<and> outbox_tab w' = outbox_tab w \<and>
    (\<forall>a. r = Inr a \<longrightarrow> cache_content w i = Some a \<or>
       (\<exists>row \<in> set (analysis_tab w). ar_id row = i \<and> convertRowToAnalysis row = Inr a))"
  using FetchAnalysis_effect [OF assms] .

theorem fetch_analysis_source_witness:
  "outbox_tab (snd (FetchAnalysis sample_env 10 (UUID ''a'') sample_outbox)) = outbox_tab sample_outbox"
  using fetch_analysis_source [OF prod.collapse [symmetric], of sample_env 10 "UUID ''a''" sample_outbox] by blast

text \<open>
  Also: an entry that \<open>FetchAnalysis\<close> has read from the table may be set in the cache after the
  subscriber has stored newer results and deleted the entry. From then on, until the entry
  expires, every client gets the old state, whatever the table says.
\<close>

theorem late_set_wins:
  assumes "no_faults env" "analysis_in_range a" "0 < d"
    and "cache_Set env d a w2 = (Inr u, w3)" "cache_tab w4 = cache_tab w3"
    and "clock env (Suc (tick w4)) < clock env (Suc (tick w2)) + d"
  shows "fst (FetchAnalysis env d (an_id a) w4) = Inr (json_view a)"
proof -
  have "cache_tab w3 (analysis_key (an_id a)) =
      Some \<lparr>ce_value = enc_analysis a, ce_expires = Some (clock env (Suc (tick w2)) + d)\<rparr>"
    using assms(3,4) by (auto simp: cache_Set_def keydb_Set_def Let_def statement_ok [OF assms(1)] now_def)
  then show ?thesis
    using assms(5,6) dec_enc_analysis [OF assms(2)]
    by (simp add: FetchAnalysis_def cache_Find_def keydb_Get_def statement_ok [OF assms(1)]
        live_entry_def now_def split: prod.splits)
qed

text \<open>The table has the analysis completed; the client is told that it is in progress.\<close>

theorem late_set_wins_witness:
  "let w = empty_world\<lparr>analysis_tab := [(sample_row ''a'')\<lparr>ar_status := StatusCompleted\<rparr>]\<rparr>;
       w' = snd (cache_Set sample_env 10 sample_analysis w)
   in (\<forall>r \<in> set (analysis_tab w'). ar_status r = StatusCompleted) \<and>
      fst (FetchAnalysis sample_env 10 (UUID ''a'') w') = Inr (json_view sample_analysis) \<and>
      an_status (json_view sample_analysis) = StatusInProgress"
proof -
  let ?w = "empty_world\<lparr>analysis_tab := [(sample_row ''a'')\<lparr>ar_status := StatusCompleted\<rparr>]\<rparr>"
  let ?w' = "snd (cache_Set sample_env 10 sample_analysis ?w)"
  have s: "cache_Set sample_env 10 sample_analysis ?w = (Inr (), ?w')"
    by (simp add: cache_Set_def keydb_Set_def Let_def statement_ok)
  have t: "tick ?w = 0" "tick ?w' = 1"
    by (simp_all add: cache_Set_def keydb_Set_def Let_def statement_ok empty_world_def)
  have "fst (FetchAnalysis sample_env 10 (an_id sample_analysis) ?w') = Inr (json_view sample_analysis)"
    by (rule late_set_wins [OF _ sample_analysis_in_range _ s refl]) (simp_all add: t)
  moreover have "an_id sample_analysis = UUID ''a''" "an_status (json_view sample_analysis) = StatusInProgress"
    by (simp_all add: sample_analysis_def json_view_def)
  ultimately show ?thesis by (simp add: Let_def cache_Set_tables)
qed

definition terminal_event :: "analysis_event \<Rightarrow> bool" where
  "terminal_event e \<longleftrightarrow>
     (case e of Heartbeat \<Rightarrow> False
      | AnalysisEvent t a i \<Rightarrow> t = getEventStatus (an_status a) \<and> i = uuid_string (an_id a) \<and>
          (an_status a = StatusCompleted \<or> an_status a = StatusFailed))"

definition sse_ok :: "sse \<Rightarrow> bool" where
  "sse_ok s \<longleftrightarrow> length (s_buf s) \<le> 10 \<and> s_check s \<le> 1 \<and>
     (case s_pc s of SsePut e final \<Rightarrow> (if final then terminal_event e else e = Heartbeat) | _ \<Rightarrow> True) \<and>
     (set (s_out s @ s_buf s) \<subseteq> {Heartbeat} \<or>
      s_pc s = SseClosed \<and> (\<exists>h e. s_out s @ s_buf s = h @ [e] \<and> set h \<subseteq> {Heartbeat} \<and> terminal_event e))"

lemma not_wait_terminal:
  "\<not> shouldWait (getEventStatus st) \<Longrightarrow> st = StatusCompleted \<or> st = StatusFailed"
  by (cases st) (simp_all add: shouldWait_def getEventStatus_def EventTypeStarted_def EventTypeProgress_def
      EventTypeCompleted_def EventTypeFailed_def)

lemma sse_ok_step:
  assumes "sse_step fetch (s, w) (s', w')" "sse_ok s"
  shows "sse_ok s'"
  using assms(1)
proof (cases rule: sse_step.cases)
  case (Check r)
  then show ?thesis using assms(2) not_wait_terminal
    by (auto simp: sse_ok_def after_check_def Let_def terminal_event_def split: sum.splits)
next
  case (Put e final)
  then show ?thesis using assms(2) by (auto simp: sse_ok_def split: if_splits)
next
  case (Receive e b)
  then show ?thesis using assms(2) by (auto simp: sse_ok_def)
qed (use assms(2) in \<open>auto simp: sse_ok_def\<close>)

interpretation sse_run: step_invariant "sse_step fetch" "(sse_start, w0)" "\<lambda>x. sse_ok (fst x)"
proof (unfold_locales, goal_cases)
  case 1
  show ?case by (simp add: sse_ok_def sse_start_def)
next
  case (2 x y)
  then show ?case by (cases x; cases y) (auto dest: sse_ok_step)
qed

lemma sse_reach_ok: "sse_reach fetch w0 (s, w) \<Longrightarrow> sse_ok s"
  using sse_run.reached [of fetch w0 "(s, w)"] by simp

text \<open>
  Also: a client of the stream receives heartbeats and, at most once and as the last event, the event
  of an analysis that is completed or failed, with the type of its status and the identifier of the
  analysis; the channel of events never holds more than its capacity.
\<close>

theorem sse_protocol:
  assumes "sse_reach fetch w0 (s, w)"
  shows "length (s_buf s) \<le> 10 \<and>
    (set (s_out s @ s_buf s) \<subseteq> {Heartbeat} \<or>
     s_pc s = SseClosed \<and> (\<exists>h e. s_out s @ s_buf s = h @ [e] \<and> set h \<subseteq> {Heartbeat} \<and> terminal_event e))"
  using sse_reach_ok [OF assms] by (simp add: sse_ok_def)

lemma stuck_step:
  "sse_step fetch a b \<Longrightarrow> s_pc (fst a) = SseSendCheck \<Longrightarrow> s_check (fst a) = 1 \<Longrightarrow>
   s_pc (fst b) = SseSendCheck \<and> s_check (fst b) = 1"
  by (induction rule: sse_step.induct) auto

text \<open>
  C23: the goroutine sends to its own channel: a tick that fires before the first check has been
  taken from the channel leaves it at a send that nobody can receive. It stays there whatever
  happens, also when the client has gone: it sends no event any more and never returns.
\<close>

theorem sse_self_deadlock:
  "\<exists>s. sse_reach fetch w0 (s, w0) \<and>
     {(s_pc s', s_check s') |s' w'. (sse_step fetch)\<^sup>*\<^sup>* (s, w0) (s', w')} = {(SseSendCheck, 1)}"
proof -
  let ?s1 = "sse_start\<lparr>s_pc := SseSelect, s_check := 1\<rparr>" and ?s2 = "sse_start\<lparr>s_pc := SseSendCheck, s_check := 1\<rparr>"
  have "sse_step fetch (sse_start, w0) (?s1, w0)"
    using sse_step.First [of sse_start fetch w0] by (simp add: sse_start_def)
  moreover have "sse_step fetch (?s1, w0) (?s2, w0)"
    using sse_step.EventsTick [of ?s1 fetch w0] by (simp add: sse_start_def)
  ultimately have reach: "sse_reach fetch w0 (?s2, w0)" by simp
  have stuck: "s_pc (fst y) = SseSendCheck \<and> s_check (fst y) = 1" if "(sse_step fetch)\<^sup>*\<^sup>* (?s2, w0) y" for y
    using that by (induction rule: rtranclp_induct) (auto dest: stuck_step)
  let ?S = "{(s_pc s', s_check s') |s' w'. (sse_step fetch)\<^sup>*\<^sup>* (?s2, w0) (s', w')}"
  have "?S \<subseteq> {(SseSendCheck, 1)}" using stuck by auto
  moreover have "(SseSendCheck, 1) \<in> ?S"
    by (rule CollectI, rule exI [of _ ?s2], rule exI [of _ w0]) (simp add: sse_start_def)
  ultimately have "?S = {(SseSendCheck, 1)}" by blast
  with reach show ?thesis by blast
qed

theorem sse_protocol_witness:
  "\<exists>s. sse_reach (FetchAnalysis sample_env 10 (UUID ''a'')) empty_world (s, empty_world) \<and> length (s_buf s) \<le> 10"
  using sse_protocol [OF rtranclp.rtrancl_refl] by blast

end
