(* ===== verification/Subscriber.thy ===== *)
theory Subscriber
  imports Application
begin

text \<open>
  \<open>internal/service/subscriber_service.go\<close>: what happens to a requested analysis: it is marked in
  progress, the page fetched, its content compared with that of earlier analyses, the results copied
  or computed, stored and cached. The ports of the service that other theories model (the fetcher,
  the analyzer, the link checker, an optional cache) are the fields of a record.
\<close>

record ports =
  port_fetch :: "env \<Rightarrow> string \<Rightarrow> duration \<Rightarrow> world \<Rightarrow> web_page_content result \<times> world"
  port_analyze :: "string \<Rightarrow> string \<Rightarrow> analysis_options \<Rightarrow> analysis_data result"
  port_check :: "(env \<Rightarrow> link list \<Rightarrow> world \<Rightarrow> inaccessible_link slice \<times> world) option"
  port_cache :: "duration option"

definition Milliseconds :: "duration \<Rightarrow> int" where
  "Milliseconds d = (if d < 0 then - ((- d) div Millisecond) else d div Millisecond)"

definition to_uint64 :: "int \<Rightarrow> int" where
  "to_uint64 n = n mod 2 ^ 64"

definition failed_result :: "string \<Rightarrow> string \<Rightarrow> error \<Rightarrow> process_result" where
  "failed_result code what e =
     \<lparr>pr_success = False, pr_content_hash = [], pr_error_code = code, pr_error_message = what @ '': '' @ Error e\<rparr>"

text \<open>The cache is asked when there is one; what it answers is only logged.\<close>

definition cache_invalidate :: "env \<Rightarrow> ports \<Rightarrow> uuid \<Rightarrow> world \<Rightarrow> world" where
  "cache_invalidate env P i w = (case port_cache P of None \<Rightarrow> w | Some _ \<Rightarrow> snd (cache_Delete env i w))"

definition cache_refresh :: "env \<Rightarrow> ports \<Rightarrow> uuid \<Rightarrow> world \<Rightarrow> world" where
  "cache_refresh env P i w =
     (case port_cache P of
        None \<Rightarrow> w
      | Some expiry \<Rightarrow>
          (case an_Find env i w of
             (Inl _, w1) \<Rightarrow> w1
           | (Inr a, w1) \<Rightarrow> snd (cache_Set env expiry a w1)))"

definition checkDuplicateContent :: "env \<Rightarrow> string \<Rightarrow> world \<Rightarrow> analysis option result \<times> world" where
  "checkDuplicateContent env h w =
     (case an_FindByContentHash env h w of
        (Inl e, w1) \<Rightarrow>
          (if errors_Is e ErrNoRows then (Inr None, w1)
           else (Inl (ErrWrap ''failed to check for existing content hash'' e), w1))
      | (Inr a, w1) \<Rightarrow> (Inr (Some a), w1))"

definition copyAnalysisResults ::
  "env \<Rightarrow> ports \<Rightarrow> uuid \<Rightarrow> string \<Rightarrow> analysis \<Rightarrow> world \<Rightarrow> unit result \<times> world" where
  "copyAnalysisResults env P i h src w =
     (case an_Update env i h (an_content_size src) (an_results src) w of
        (Inl e, w1) \<Rightarrow> (Inl (ErrWrap ''failed to copy results from existing analysis'' e), w1)
      | (Inr _, w1) \<Rightarrow> (Inr (), cache_refresh env P i w1))"

text \<open>\<open>performFullAnalysis\<close>: the links, the timing and the storing, then the whole.\<close>

definition check_external_links ::
  "env \<Rightarrow> ports \<Rightarrow> analysis_options \<Rightarrow> analysis_data \<Rightarrow> world \<Rightarrow> analysis_data \<times> world" where
  "check_external_links env P options results w =
     (case port_check P of
        None \<Rightarrow> (results, w)
      | Some check \<Rightarrow>
          if check_links options \<and> elems (la_external_links (ad_links results)) \<noteq> [] then
            (case check env (elems (la_external_links (ad_links results))) w of
               (bad, w1) \<Rightarrow> (results\<lparr>ad_links := (ad_links results)\<lparr>la_inaccessible_links := bad\<rparr>\<rparr>, w1))
          else (results, w))"

definition with_timing :: "duration \<Rightarrow> duration \<Rightarrow> analysis_data \<Rightarrow> analysis_data" where
  "with_timing fetch processing results =
     results\<lparr>ad_fetch_time := to_uint64 (Milliseconds fetch),
             ad_processing_time := to_uint64 (Milliseconds processing)\<rparr>"

definition store_results ::
  "env \<Rightarrow> ports \<Rightarrow> uuid \<Rightarrow> string \<Rightarrow> web_page_content \<Rightarrow> duration \<Rightarrow> analysis_data \<Rightarrow> world \<Rightarrow> unit result \<times> world" where
  "store_results env P i h content processing results w =
     (case an_Update env i h (int (length (wp_html content)))
             (Some (with_timing (wp_fetch_duration content) processing results))
             (record_metric (ProcessingMetric processing)
                (record_metric (FetchMetric (wp_fetch_duration content)) w)) of
        (Inl e, w1) \<Rightarrow> (Inl (ErrWrap ''failed to save analysis results'' e), w1)
      | (Inr _, w1) \<Rightarrow> (Inr (), cache_refresh env P i w1))"

definition performFullAnalysis ::
  "env \<Rightarrow> ports \<Rightarrow> uuid \<Rightarrow> string \<Rightarrow> web_page_content \<Rightarrow> analysis_options \<Rightarrow> world \<Rightarrow> unit result \<times> world" where
  "performFullAnalysis env P i h content options w =
     (case port_analyze P (wp_url content) (wp_html content) options of
        Inl e \<Rightarrow> (Inl (ErrWrap ''failed to analyze HTML'' e), w)
      | Inr results \<Rightarrow>
          (case check_external_links env P options results w of
             (results, w1) \<Rightarrow> store_results env P i h content (now env w1 - now env w) results w1))"

text \<open>The handler, in its four parts: take the event, fetch the page, fill in the results, finish.\<close>

definition process_begin :: "env \<Rightarrow> ports \<Rightarrow> uuid \<Rightarrow> world \<Rightarrow> (process_result + outbox_event) \<times> world" where
  "process_begin env P i w =
     (case ob_GetByAggregateID env i w of
        (Inl e, w1) \<Rightarrow> (Inl (failed_result ''OUTBOX_ERROR'' ''failed to get outbox event'' e), w1)
      | (Inr ev, w1) \<Rightarrow>
          (case ob_MarkProcessed env (oe_id ev) w1 of
             (Inl e, w2) \<Rightarrow>
               (Inl (failed_result ''OUTBOX_ERROR'' ''failed to mark outbox event as processed'' e), w2)
           | (Inr _, w2) \<Rightarrow>
               (case an_UpdateStatus env i StatusInProgress w2 of
                  (Inl e, w3) \<Rightarrow>
                    (Inl (failed_result ''STATUS_UPDATE_ERROR'' ''failed to update analysis status'' e), w3)
                | (Inr _, w3) \<Rightarrow> (Inr ev, cache_invalidate env P i w3))))"

definition process_fetch ::
  "env \<Rightarrow> ports \<Rightarrow> request_payload \<Rightarrow> world \<Rightarrow> (process_result + web_page_content) \<times> world" where
  "process_fetch env P p w =
     (case port_fetch P env (rp_url p) (opt_timeout (rp_options p)) w of
        (Inr content, w1) \<Rightarrow> (Inr content, w1)
      | (Inl e, w1) \<Rightarrow>
          (Inl (failed_result ''FETCH_ERROR'' ''failed to fetch web page'' e),
           (case an_MarkFailed env (rp_analysis_id p) ''FETCH_ERROR'' (Error e) 0 w1 of
              (Inl _, w2) \<Rightarrow> w2
            | (Inr _, w2) \<Rightarrow> cache_invalidate env P (rp_analysis_id p) w2)))"

definition process_content ::
  "env \<Rightarrow> ports \<Rightarrow> request_payload \<Rightarrow> string \<Rightarrow> web_page_content \<Rightarrow> world \<Rightarrow> (process_result + unit) \<times> world" where
  "process_content env P p h content w =
     (case checkDuplicateContent env h w of
        (Inl e, w1) \<Rightarrow>
          (Inl (failed_result ''DUPLICATE_CHECK_ERROR'' ''failed to check duplicate content'' e), w1)
      | (Inr (Some src), w1) \<Rightarrow>
          (case copyAnalysisResults env P (rp_analysis_id p) h src w1 of
             (Inl e, w2) \<Rightarrow>
               (Inl (failed_result ''COPY_RESULTS_ERROR'' ''failed to copy analysis results'' e), w2)
           | (Inr _, w2) \<Rightarrow> (Inr (), w2))
      | (Inr None, w1) \<Rightarrow>
          (case performFullAnalysis env P (rp_analysis_id p) h content (rp_options p) w1 of
             (Inl e, w2) \<Rightarrow>
               (Inl (failed_result ''ANALYSIS_ERROR'' ''failed to perform full analysis'' e), w2)
           | (Inr _, w2) \<Rightarrow> (Inr (), w2)))"

definition process_finish ::
  "env \<Rightarrow> ports \<Rightarrow> uuid \<Rightarrow> outbox_event \<Rightarrow> string \<Rightarrow> world \<Rightarrow> process_result \<times> world" where
  "process_finish env P i ev h w =
     (let durationMs = Milliseconds (time_Sub (now env w) (oe_created_at ev))
      in case an_UpdateCompletionDuration env i durationMs w of
           (Inl e, w1) \<Rightarrow>
             (failed_result ''DURATION_UPDATE_ERROR'' ''failed to update analysis duration'' e, w1)
         | (Inr _, w1) \<Rightarrow>
             (case ob_MarkCompleted env (oe_id ev) w1 of
                (Inl e, w2) \<Rightarrow>
                  (failed_result ''OUTBOX_ERROR'' ''failed to mark outbox event as completed'' e, w2)
              | (Inr _, w2) \<Rightarrow>
                  (\<lparr>pr_success = True, pr_content_hash = h, pr_error_code = [], pr_error_message = []\<rparr>,
                   cache_invalidate env P i w2)))"

definition ProcessAnalysisRequest ::
  "env \<Rightarrow> ports \<Rightarrow> request_payload \<Rightarrow> world \<Rightarrow> process_result \<times> world" where
  "ProcessAnalysisRequest env P p w =
     (case process_begin env P (rp_analysis_id p) w of
        (Inl r, w1) \<Rightarrow> (r, w1)
      | (Inr ev, w1) \<Rightarrow>
          (case process_fetch env P p w1 of
             (Inl r, w2) \<Rightarrow> (r, w2)
           | (Inr content, w2) \<Rightarrow>
               (let h = NewContentHash (sha256_Sum env) (wp_html content)
                in case process_content env P p h content w2 of
                     (Inl r, w3) \<Rightarrow> (r, w3)
                   | (Inr _, w3) \<Rightarrow> process_finish env P (rp_analysis_id p) ev h w3)))"

section \<open>Frames and effects\<close>

lemma locked_update_effect:
  assumes "updateByCriteria env (\<lambda>w. if bad then Inl x else locked_update env i f w) ctx w = (r, w')"
  shows "outbox_tab w' = outbox_tab w"
    and "r = Inr u \<Longrightarrow> \<exists>t. analysis_tab w' =
      update_where (\<lambda>r. ar_id r = i) (\<lambda>r. bump_lock (f t r)\<lparr>ar_updated_at := t\<rparr>) (analysis_tab w)"
proof -
  let ?g = "\<lambda>w. if bad then Inl x else locked_update env i f w"
  obtain q where st: "statement env ?g w = (q, w')" and q: "r = Inr u \<Longrightarrow> q = Inr u"
    using assms by (cases "statement env ?g w")
      (auto simp: updateByCriteria_def wrap_error_def split: sum.splits)
  show "outbox_tab w' = outbox_tab w"
    using st by (cases rule: statement_cases)
      (auto simp: locked_update_def update_analysis_def split: if_splits)
  assume "r = Inr u"
  with q have "q = Inr u" by simp
  show "\<exists>t. analysis_tab w' =
      update_where (\<lambda>r. ar_id r = i) (\<lambda>r. bump_lock (f t r)\<lparr>ar_updated_at := t\<rparr>) (analysis_tab w)"
    using st by (cases rule: statement_cases)
      (use \<open>q = Inr u\<close> in \<open>auto simp: locked_update_def update_analysis_def split: if_splits\<close>)
qed

lemma an_Update_effect:
  assumes "an_Update env i h sz d w = (r, w')"
  shows "outbox_tab w' = outbox_tab w"
    and "r = Inr u \<Longrightarrow> \<exists>t. analysis_tab w' = update_where (\<lambda>r. ar_id r = i)
      (\<lambda>r. bump_lock (set_completed h sz (enc_results d) t r)\<lparr>ar_updated_at := t\<rparr>) (analysis_tab w)"
  using locked_update_effect [OF assms [unfolded an_Update_def]] by blast+

lemma an_UpdateStatus_effect:
  assumes "an_UpdateStatus env i s w = (r, w')"
  shows "outbox_tab w' = outbox_tab w"
  using locked_update_effect(1) [OF assms [unfolded an_UpdateStatus_def]] .

lemma an_UpdateCompletionDuration_effect:
  assumes "an_UpdateCompletionDuration env i d w = (r, w')"
  shows "outbox_tab w' = outbox_tab w"
    and "r = Inr u \<Longrightarrow> \<exists>t. analysis_tab w' = update_where (\<lambda>r. ar_id r = i)
      (\<lambda>r. bump_lock (r\<lparr>ar_duration := Some d, ar_completed_at := Some t\<rparr>)\<lparr>ar_updated_at := t\<rparr>) (analysis_tab w)"
  using locked_update_effect [of env False undefined] assms
  by (simp_all add: an_UpdateCompletionDuration_def)

lemma an_MarkFailed_effect:
  assumes "an_MarkFailed env i c m n w = (r, w')"
  shows "outbox_tab w' = outbox_tab w"
    and "r = Inr u \<Longrightarrow> \<exists>t. analysis_tab w' = update_where (\<lambda>r. ar_id r = i)
      (\<lambda>r. bump_lock (r\<lparr>ar_status := StatusFailed, ar_error_code := Some c, ar_error_message := Some m,
         ar_error_status_code := Some n, ar_completed_at := Some t\<rparr>)\<lparr>ar_updated_at := t\<rparr>) (analysis_tab w)"
  using locked_update_effect [of env False undefined] assms
  by (simp_all add: an_MarkFailed_def)

lemma mark_event_analysis: "analysis_tab (snd (mark_event env what i ov f t w)) = analysis_tab w"
  by (auto simp: mark_event_def statement_def call_def mark_rows_def
      split: outcome.splits prod.splits sum.splits if_splits)

lemma ob_mark_analysis [frame_simps]:
  "analysis_tab (snd (ob_MarkProcessed env i w)) = analysis_tab w"
  "analysis_tab (snd (ob_MarkCompleted env i w)) = analysis_tab w"
  by (simp_all add: ob_MarkProcessed_def ob_MarkCompleted_def mark_event_analysis)

lemma ob_Get_frame [frame_simps]:
  "analysis_tab (snd (ob_GetByAggregateID env i w)) = analysis_tab w"
  "outbox_tab (snd (ob_GetByAggregateID env i w)) = outbox_tab w"
  by (auto simp: ob_GetByAggregateID_def statement_def call_def
      split: outcome.splits prod.splits sum.splits option.splits)

lemma cache_Delete_frame [frame_simps]:
  "analysis_tab (snd (cache_Delete env i w)) = analysis_tab w"
  "outbox_tab (snd (cache_Delete env i w)) = outbox_tab w"
  by (auto simp: cache_Delete_def keydb_Delete_def statement_def call_def split: outcome.splits)

lemma cache_invalidate_frame [frame_simps]:
  "analysis_tab (cache_invalidate env P i w) = analysis_tab w"
  "outbox_tab (cache_invalidate env P i w) = outbox_tab w"
  by (auto simp: cache_invalidate_def frame_simps split: option.splits)

lemma cache_refresh_frame [frame_simps]:
  "analysis_tab (cache_refresh env P i w) = analysis_tab w"
  "outbox_tab (cache_refresh env P i w) = outbox_tab w"
proof -
  obtain r w1 where f: "an_Find env i w = (r, w1)" by force
  note w1 = an_Find_effect(1) [OF f]
  show "analysis_tab (cache_refresh env P i w) = analysis_tab w" "outbox_tab (cache_refresh env P i w) = outbox_tab w"
    using f w1 by (auto simp: cache_refresh_def cache_Set_tables split: option.splits sum.splits)
qed

lemma duplicate_frame:
  "checkDuplicateContent env h w = (r, w') \<Longrightarrow> analysis_tab w' = analysis_tab w \<and> outbox_tab w' = outbox_tab w"
  by (auto simp: checkDuplicateContent_def an_FindByContentHash_def findByCriteria_def statement_def call_def
      split: outcome.splits prod.splits sum.splits option.splits if_splits)

section \<open>The contract of the ports\<close>

text \<open>
  What the service relies on in the fetcher and the link checker: whatever they do, they do not
  touch the tables.
\<close>

locale service_contract =
  fixes P :: ports
  assumes fetch_frame: "port_fetch P env u t w = (r, w') \<Longrightarrow>
            analysis_tab w' = analysis_tab w \<and> outbox_tab w' = outbox_tab w"
    and check_frame: "port_check P = Some check \<Longrightarrow> check env ls w = (b, w') \<Longrightarrow>
            analysis_tab w' = analysis_tab w \<and> outbox_tab w' = outbox_tab w"
begin

lemma check_external_frame:
  "check_external_links env P options res w = (res', w') \<Longrightarrow>
   analysis_tab w' = analysis_tab w \<and> outbox_tab w' = outbox_tab w"
  by (auto simp: check_external_links_def split: option.splits if_splits prod.splits dest: check_frame)

lemma store_results_frame:
  assumes "store_results env P i h c pr res w = (r, w')"
  shows "outbox_tab w' = outbox_tab w"
    and "r = Inr u \<Longrightarrow> \<exists>sz d t. analysis_tab w' = update_where (\<lambda>r. ar_id r = i)
      (\<lambda>r. bump_lock (set_completed h sz (enc_results d) t r)\<lparr>ar_updated_at := t\<rparr>) (analysis_tab w)"
    and "analysis_table_ok w \<Longrightarrow> analysis_table_ok w'"
proof -
  let ?w = "record_metric (ProcessingMetric pr) (record_metric (FetchMetric (wp_fetch_duration c)) w)"
  let ?d = "Some (with_timing (wp_fetch_duration c) pr res)"
  obtain q w1 where u: "an_Update env i h (int (length (wp_html c))) ?d ?w = (q, w1)" by force
  have w': "analysis_tab w' = analysis_tab w1" "outbox_tab w' = outbox_tab w1" "r = Inr u \<Longrightarrow> q = Inr ()"
    using assms u by (auto simp: store_results_def frame_simps split: sum.splits)
  show "outbox_tab w' = outbox_tab w" using w' an_Update_effect(1) [OF u] by simp
  show "\<exists>sz d t. analysis_tab w' = update_where (\<lambda>r. ar_id r = i)
      (\<lambda>r. bump_lock (set_completed h sz (enc_results d) t r)\<lparr>ar_updated_at := t\<rparr>) (analysis_tab w)"
    if "r = Inr u"
    using w' that an_Update_effect(2) [OF u w'(3) [OF that]] by auto
  show "analysis_table_ok w'" if "analysis_table_ok w"
  proof -
    have "analysis_table_ok ?w" using that by (simp add: analysis_table_ok_def)
    from an_Update_ok [OF this, of env i h "int (length (wp_html c))" ?d] u w'(1)
    show ?thesis by (simp add: analysis_table_ok_def)
  qed
qed

lemma full_analysis_frame:
  assumes "performFullAnalysis env P i h c options w = (r, w')"
  shows "outbox_tab w' = outbox_tab w"
    and "r = Inr u \<Longrightarrow> \<exists>sz d t. analysis_tab w' = update_where (\<lambda>r. ar_id r = i)
      (\<lambda>r. bump_lock (set_completed h sz (enc_results d) t r)\<lparr>ar_updated_at := t\<rparr>) (analysis_tab w)"
    and "analysis_table_ok w \<Longrightarrow> analysis_table_ok w'"
proof -
  consider (bad) e where "r = Inl e" "w' = w"
    | (run) res w1 where "analysis_tab w1 = analysis_tab w" "outbox_tab w1 = outbox_tab w"
       "store_results env P i h c (now env w1 - now env w) res w1 = (r, w')"
    using assms
    by (auto simp: performFullAnalysis_def split: sum.splits prod.splits dest: check_external_frame)
  then have "outbox_tab w' = outbox_tab w \<and> (r = Inr u \<longrightarrow> (\<exists>sz d t. analysis_tab w' = update_where (\<lambda>r. ar_id r = i)
      (\<lambda>r. bump_lock (set_completed h sz (enc_results d) t r)\<lparr>ar_updated_at := t\<rparr>) (analysis_tab w))) \<and>
    (analysis_table_ok w \<longrightarrow> analysis_table_ok w')"
  proof cases
    case run
    have "analysis_table_ok w1 = analysis_table_ok w" using run(1) by (simp add: analysis_table_ok_def)
    with store_results_frame [OF run(3)] run(1,2) show ?thesis by simp
  qed simp
  then show "outbox_tab w' = outbox_tab w"
    and "r = Inr u \<Longrightarrow> \<exists>sz d t. analysis_tab w' = update_where (\<lambda>r. ar_id r = i)
      (\<lambda>r. bump_lock (set_completed h sz (enc_results d) t r)\<lparr>ar_updated_at := t\<rparr>) (analysis_tab w)"
    and "analysis_table_ok w \<Longrightarrow> analysis_table_ok w'"
    by blast+
qed

lemma copy_frame:
  assumes "copyAnalysisResults env P i h src w = (r, w')"
  shows "outbox_tab w' = outbox_tab w"
    and "r = Inr u \<Longrightarrow> \<exists>sz d t. analysis_tab w' = update_where (\<lambda>r. ar_id r = i)
      (\<lambda>r. bump_lock (set_completed h sz (enc_results d) t r)\<lparr>ar_updated_at := t\<rparr>) (analysis_tab w)"
    and "analysis_table_ok w \<Longrightarrow> analysis_table_ok w'"
proof -
  obtain q w1 where u: "an_Update env i h (an_content_size src) (an_results src) w = (q, w1)" by force
  have w': "analysis_tab w' = analysis_tab w1" "outbox_tab w' = outbox_tab w1" "r = Inr u \<Longrightarrow> q = Inr ()"
    using assms u by (auto simp: copyAnalysisResults_def frame_simps split: sum.splits)
  show "outbox_tab w' = outbox_tab w" using w' an_Update_effect(1) [OF u] by simp
  show "\<exists>sz d t. analysis_tab w' = update_where (\<lambda>r. ar_id r = i)
      (\<lambda>r. bump_lock (set_completed h sz (enc_results d) t r)\<lparr>ar_updated_at := t\<rparr>) (analysis_tab w)"
    if "r = Inr u"
    using w' that an_Update_effect(2) [OF u w'(3) [OF that]] by auto
  show "analysis_table_ok w'" if "analysis_table_ok w"
    using an_Update_ok [OF that, of env i h "an_content_size src" "an_results src"] u w'(1)
    by (simp add: analysis_table_ok_def)
qed

lemma process_content_frame:
  assumes "process_content env P p h c w = (r, w')"
  shows "outbox_tab w' = outbox_tab w"
    and "r = Inr u \<Longrightarrow> \<exists>sz d t. analysis_tab w' = update_where (\<lambda>r. ar_id r = rp_analysis_id p)
      (\<lambda>r. bump_lock (set_completed h sz (enc_results d) t r)\<lparr>ar_updated_at := t\<rparr>) (analysis_tab w)"
    and "analysis_table_ok w \<Longrightarrow> analysis_table_ok w'"
proof -
  let ?i = "rp_analysis_id p"
  obtain q w1 where d: "checkDuplicateContent env h w = (q, w1)" by force
  note w1 = duplicate_frame [OF d]
  then have ok1: "analysis_table_ok w1 = analysis_table_ok w" by (simp add: analysis_table_ok_def)
  have "outbox_tab w' = outbox_tab w \<and> (r = Inr u \<longrightarrow> (\<exists>sz d t. analysis_tab w' = update_where (\<lambda>r. ar_id r = ?i)
      (\<lambda>r. bump_lock (set_completed h sz (enc_results d) t r)\<lparr>ar_updated_at := t\<rparr>) (analysis_tab w))) \<and>
    (analysis_table_ok w \<longrightarrow> analysis_table_ok w')"
  proof (cases q)
    case (Inl e)
    with assms d w1 ok1 show ?thesis by (auto simp: process_content_def)
  next
    case (Inr o1)
    show ?thesis
    proof (cases o1)
      case None
      obtain x w2 where f: "performFullAnalysis env P ?i h c (rp_options p) w1 = (x, w2)" by force
      then have "w2 = w'" "r = Inr u \<Longrightarrow> x = Inr ()"
        using assms d Inr None by (auto simp: process_content_def split: sum.splits)
      with full_analysis_frame [OF f] w1 ok1 show ?thesis by simp
    next
      case (Some src)
      obtain x w2 where f: "copyAnalysisResults env P ?i h src w1 = (x, w2)" by force
      then have "w2 = w'" "r = Inr u \<Longrightarrow> x = Inr ()"
        using assms d Inr Some by (auto simp: process_content_def split: sum.splits)
      with copy_frame [OF f] w1 ok1 show ?thesis by simp
    qed
  qed
  then show "outbox_tab w' = outbox_tab w"
    and "r = Inr u \<Longrightarrow> \<exists>sz d t. analysis_tab w' = update_where (\<lambda>r. ar_id r = ?i)
      (\<lambda>r. bump_lock (set_completed h sz (enc_results d) t r)\<lparr>ar_updated_at := t\<rparr>) (analysis_tab w)"
    and "analysis_table_ok w \<Longrightarrow> analysis_table_ok w'"
    by blast+
qed

lemma mark_op_keeps:
  "outbox_table_ok w \<Longrightarrow> outbox_table_ok (snd (ob_MarkProcessed env i w))"
  "outbox_table_ok w \<Longrightarrow> outbox_table_ok (snd (ob_MarkCompleted env i w))"
  using outbox_ops.keeps [of w "OpProcessed i" env] outbox_ops.keeps [of w "OpCompleted i" env]
  by (simp_all add: saves_pending_def)

lemma process_begin_keeps:
  assumes "process_begin env P i w = (r, w')" "analysis_table_ok w" "outbox_table_ok w"
  shows "analysis_table_ok w' \<and> outbox_table_ok w'"
proof -
  obtain r1 w1 where s1: "ob_GetByAggregateID env i w = (r1, w1)" by force
  have w1: "analysis_tab w1 = analysis_tab w" "outbox_tab w1 = outbox_tab w"
    using ob_Get_frame [of env i w] s1 by auto
  then have ok1: "analysis_table_ok w1" "outbox_table_ok w1"
    using assms(2,3) by (auto simp: analysis_table_ok_def outbox_table_ok_def)
  show ?thesis
  proof (cases r1)
    case (Inl e)
    with assms(1) s1 ok1 show ?thesis by (simp add: process_begin_def)
  next
    case (Inr ev)
    obtain r2 w2 where s2: "ob_MarkProcessed env (oe_id ev) w1 = (r2, w2)" by force
    have ok2: "analysis_table_ok w2" "outbox_table_ok w2"
      using ok1 mark_op_keeps(1) [OF ok1(2), of env "oe_id ev"] ob_mark_analysis(1) [of env "oe_id ev" w1] s2
      by (auto simp: analysis_table_ok_def)
    obtain r3 w3 where s3: "an_UpdateStatus env i StatusInProgress w2 = (r3, w3)" by force
    have ok3: "analysis_table_ok w3" "outbox_table_ok w3"
      using an_UpdateStatus_ok [OF ok2(1), of StatusInProgress env i] s3 an_UpdateStatus_effect [OF s3] ok2(2)
      by (auto simp: outbox_table_ok_def)
    have "w' = w2 \<or> w' = w3 \<or> w' = cache_invalidate env P i w3"
      using assms(1) s1 Inr s2 s3 by (auto simp: process_begin_def split: sum.splits)
    then show ?thesis
      using ok2 ok3 by (auto simp: analysis_table_ok_def outbox_table_ok_def frame_simps)
  qed
qed

lemma process_fetch_keeps:
  assumes "process_fetch env P p w = (r, w')"
  shows "outbox_tab w' = outbox_tab w" "analysis_table_ok w \<Longrightarrow> analysis_table_ok w'"
    "r = Inr c \<Longrightarrow> analysis_tab w' = analysis_tab w"
proof -
  let ?i = "rp_analysis_id p"
  obtain q w1 where f: "port_fetch P env (rp_url p) (opt_timeout (rp_options p)) w = (q, w1)" by force
  note w1 = fetch_frame [OF f]
  have "outbox_tab w' = outbox_tab w \<and> (analysis_table_ok w \<longrightarrow> analysis_table_ok w') \<and>
    (r = Inr c \<longrightarrow> analysis_tab w' = analysis_tab w)"
  proof (cases q)
    case (Inr c)
    with assms f w1 show ?thesis by (auto simp: process_fetch_def analysis_table_ok_def)
  next
    case (Inl e)
    obtain m w2 where m: "an_MarkFailed env ?i ''FETCH_ERROR'' (Error e) 0 w1 = (m, w2)" by force
    have w': "analysis_tab w' = analysis_tab w2" "outbox_tab w' = outbox_tab w2" "\<exists>x. r = Inl x"
      using assms f Inl m by (auto simp: process_fetch_def frame_simps split: sum.splits)
    have "analysis_table_ok w2" if "analysis_table_ok w"
      using an_MarkFailed_ok [of w1 env ?i "''FETCH_ERROR''" "Error e" 0] that w1 m by (auto simp: analysis_table_ok_def)
    with w' w1 an_MarkFailed_effect(1) [OF m] show ?thesis by (auto simp: analysis_table_ok_def)
  qed
  then show "outbox_tab w' = outbox_tab w" "analysis_table_ok w \<Longrightarrow> analysis_table_ok w'"
    "r = Inr c \<Longrightarrow> analysis_tab w' = analysis_tab w" by blast+
qed

lemma process_finish_keeps:
  assumes "process_finish env P i ev h w = (res, w')"
  shows "analysis_table_ok w \<and> outbox_table_ok w \<Longrightarrow> analysis_table_ok w' \<and> outbox_table_ok w'"
    and "pr_success res \<Longrightarrow> pr_content_hash res = h \<and> (\<exists>d t. analysis_tab w' = update_where (\<lambda>r. ar_id r = i)
      (\<lambda>r. bump_lock (r\<lparr>ar_duration := Some d, ar_completed_at := Some t\<rparr>)\<lparr>ar_updated_at := t\<rparr>) (analysis_tab w))"
proof -
  let ?d = "Milliseconds (time_Sub (now env w) (oe_created_at ev))"
  obtain q w1 where u: "an_UpdateCompletionDuration env i ?d w = (q, w1)" by force
  note o1 = an_UpdateCompletionDuration_effect(1) [OF u]
  obtain x w2 where m: "ob_MarkCompleted env (oe_id ev) w1 = (x, w2)" by force
  have a2: "analysis_tab w2 = analysis_tab w1" using ob_mark_analysis(2) [of env "oe_id ev" w1] m by simp
  have w': "w' = w1 \<or> w' = w2 \<or> w' = cache_invalidate env P i w2"
    using assms u m by (auto simp: process_finish_def Let_def split: sum.splits)
  show "analysis_table_ok w' \<and> outbox_table_ok w'" if "analysis_table_ok w \<and> outbox_table_ok w"
  proof -
    have ok1: "analysis_table_ok w1" "outbox_table_ok w1"
      using that an_UpdateCompletionDuration_ok [of w env i ?d] u o1 by (auto simp: outbox_table_ok_def)
    have ok2: "analysis_table_ok w2" "outbox_table_ok w2"
      using ok1 a2 mark_op_keeps(2) [OF ok1(2), of env "oe_id ev"] m by (auto simp: analysis_table_ok_def)
    show ?thesis using w' ok1 ok2 by (auto simp: analysis_table_ok_def outbox_table_ok_def frame_simps)
  qed
  assume s: "pr_success res"
  then have q: "q = Inr ()" "pr_content_hash res = h" "w' = cache_invalidate env P i w2"
    using assms u m by (auto simp: process_finish_def Let_def failed_result_def split: sum.splits)
  with an_UpdateCompletionDuration_effect(2) [OF u q(1)] a2 show "pr_content_hash res = h \<and>
    (\<exists>d t. analysis_tab w' = update_where (\<lambda>r. ar_id r = i)
      (\<lambda>r. bump_lock (r\<lparr>ar_duration := Some d, ar_completed_at := Some t\<rparr>)\<lparr>ar_updated_at := t\<rparr>) (analysis_tab w))"
    by (auto simp: frame_simps)
qed

lemma process_keeps_tables:
  assumes "ProcessAnalysisRequest env P p w = (res, w')" "analysis_table_ok w" "outbox_table_ok w"
  shows "analysis_table_ok w' \<and> outbox_table_ok w'"
proof -
  let ?i = "rp_analysis_id p"
  obtain r1 w1 where s1: "process_begin env P ?i w = (r1, w1)" by force
  note ok1 = process_begin_keeps [OF s1 assms(2,3)]
  show ?thesis
  proof (cases r1)
    case (Inl r)
    with assms(1) s1 ok1 show ?thesis by (simp add: ProcessAnalysisRequest_def)
  next
    case (Inr ev)
    obtain r2 w2 where s2: "process_fetch env P p w1 = (r2, w2)" by force
    have ok2: "analysis_table_ok w2 \<and> outbox_table_ok w2"
      using ok1 process_fetch_keeps(1,2) [OF s2] by (simp add: outbox_table_ok_def)
    show ?thesis
    proof (cases r2)
      case Inl2: (Inl r)
      with assms(1) s1 Inr s2 ok2 show ?thesis by (simp add: ProcessAnalysisRequest_def)
    next
      case c: (Inr c)
      let ?h = "NewContentHash (sha256_Sum env) (wp_html c)"
      obtain r3 w3 where s3: "process_content env P p ?h c w2 = (r3, w3)" by force
      have ok3: "analysis_table_ok w3 \<and> outbox_table_ok w3"
        using ok2 process_content_frame(1,3) [OF s3] by (simp add: outbox_table_ok_def)
      show ?thesis
        using assms(1) s1 Inr s2 c s3 ok3 process_finish_keeps(1) [of env ?i ev ?h w3 res w']
        by (cases r3) (simp_all add: ProcessAnalysisRequest_def Let_def)
    qed
  qed
qed

lemma process_stages:
  assumes "ProcessAnalysisRequest env P p w = (res, w')" "pr_success res"
  obtains ev c w1 w2 w3 where
    "process_begin env P (rp_analysis_id p) w = (Inr ev, w1)" "process_fetch env P p w1 = (Inr c, w2)"
    "process_content env P p (NewContentHash (sha256_Sum env) (wp_html c)) c w2 = (Inr (), w3)"
    "process_finish env P (rp_analysis_id p) ev (NewContentHash (sha256_Sum env) (wp_html c)) w3 = (res, w')"
proof -
  let ?i = "rp_analysis_id p"
  obtain r1 w1 where s1: "process_begin env P ?i w = (r1, w1)" by force
  have f: "\<not> pr_success x" if "process_begin env P ?i w = (Inl x, v)" for x v
    using that by (auto simp: process_begin_def failed_result_def split: prod.splits sum.splits)
  with s1 assms obtain ev where ev: "r1 = Inr ev"
    by (cases r1) (auto simp: ProcessAnalysisRequest_def)
  obtain r2 w2 where s2: "process_fetch env P p w1 = (r2, w2)" by force
  have g: "\<not> pr_success x" if "process_fetch env P p w1 = (Inl x, v)" for x v
    using that by (auto simp: process_fetch_def failed_result_def split: prod.splits sum.splits)
  with s1 ev s2 assms obtain c where c: "r2 = Inr c"
    by (cases r2) (auto simp: ProcessAnalysisRequest_def)
  let ?h = "NewContentHash (sha256_Sum env) (wp_html c)"
  obtain r3 w3 where s3: "process_content env P p ?h c w2 = (r3, w3)" by force
  have k: "\<not> pr_success x" if "process_content env P p ?h c w2 = (Inl x, v)" for x v
    using that by (auto simp: process_content_def failed_result_def split: prod.splits sum.splits option.splits)
  with s1 ev s2 c s3 assms have r3: "r3 = Inr ()"
    by (cases r3) (auto simp: ProcessAnalysisRequest_def Let_def)
  from s1 ev s2 c s3 r3 assms(1) have fin: "process_finish env P ?i ev ?h w3 = (res, w')"
    by (simp add: ProcessAnalysisRequest_def Let_def)
  from s1 ev s2 c s3 r3 fin show thesis by (intro that [of ev w1 c w2 w3]) simp_all
qed

lemma process_success:
  assumes "ProcessAnalysisRequest env P p w = (res, w')" "pr_success res"
    and "r \<in> set (analysis_tab w')" "ar_id r = rp_analysis_id p"
  shows "ar_status r = StatusCompleted \<and> ar_content_hash r = Some (pr_content_hash res) \<and>
    ar_results r \<noteq> None \<and> ar_duration r \<noteq> None \<and> ar_completed_at r \<noteq> None"
proof -
  let ?i = "rp_analysis_id p"
  from process_stages [OF assms(1,2)] obtain ev c w2 w3 h where
    s3: "process_content env P p h c w2 = (Inr (), w3)"
    and fin: "process_finish env P ?i ev h w3 = (res, w')" by metis
  from process_content_frame(2) [OF s3 refl] obtain sz d t where t3: "analysis_tab w3 =
      update_where (\<lambda>r. ar_id r = ?i) (\<lambda>r. bump_lock (set_completed h sz (enc_results d) t r)\<lparr>ar_updated_at := t\<rparr>) (analysis_tab w2)"
    by blast
  from process_finish_keeps(2) [OF fin assms(2)] obtain dd tt where h: "pr_content_hash res = h" and
    t4: "analysis_tab w' = update_where (\<lambda>r. ar_id r = ?i)
      (\<lambda>r. bump_lock (r\<lparr>ar_duration := Some dd, ar_completed_at := Some tt\<rparr>)\<lparr>ar_updated_at := tt\<rparr>) (analysis_tab w3)"
    by blast
  show ?thesis
    using assms(3,4) unfolding t4 t3 h
    by (auto simp: set_update_where bump_lock_def set_completed_def)
qed

text \<open>A success leaves the rows in place: identifiers and URLs are those from before.\<close>

lemma process_begin_same:
  assumes "process_begin env P i w = (Inr ev, w')"
  shows "map (\<lambda>r. (ar_id r, ar_url r)) (analysis_tab w') = map (\<lambda>r. (ar_id r, ar_url r)) (analysis_tab w)"
proof -
  obtain r1 w1 where s1: "ob_GetByAggregateID env i w = (r1, w1)" by force
  obtain ev1 where r1: "r1 = Inr ev1" using assms s1 by (cases r1) (simp_all add: process_begin_def)
  obtain r2 w2 where s2: "ob_MarkProcessed env (oe_id ev1) w1 = (r2, w2)" by force
  obtain u where r2: "r2 = Inr u" using assms s1 r1 s2 by (cases r2) (simp_all add: process_begin_def)
  obtain r3 w3 where s3: "an_UpdateStatus env i StatusInProgress w2 = (r3, w3)" by force
  obtain v where r3: "r3 = Inr v" and w': "w' = cache_invalidate env P i w3"
    using assms s1 r1 s2 r2 s3 by (cases r3) (simp_all add: process_begin_def)
  have a2: "analysis_tab w2 = analysis_tab w"
    using ob_mark_analysis(1) [of env "oe_id ev1" w1] ob_Get_frame(1) [of env i w] s1 s2 by simp
  from locked_update_effect(2) [OF s3 [unfolded an_UpdateStatus_def] r3] obtain t where
    "analysis_tab w3 = update_where (\<lambda>r. ar_id r = i) (\<lambda>r. bump_lock (r\<lparr>ar_status := StatusInProgress\<rparr>)\<lparr>ar_updated_at := t\<rparr>) (analysis_tab w2)"
    by blast
  with w' a2 show ?thesis by (simp add: frame_simps map_update_where bump_lock_def)
qed

lemma process_success_same:
  assumes "ProcessAnalysisRequest env P p w = (res, w')" "pr_success res"
  shows "map (\<lambda>r. (ar_id r, ar_url r)) (analysis_tab w') = map (\<lambda>r. (ar_id r, ar_url r)) (analysis_tab w)"
proof -
  from process_stages [OF assms] obtain ev c w1 w2 w3 h where
    s1: "process_begin env P (rp_analysis_id p) w = (Inr ev, w1)" and s2: "process_fetch env P p w1 = (Inr c, w2)"
    and s3: "process_content env P p h c w2 = (Inr (), w3)"
    and fin: "process_finish env P (rp_analysis_id p) ev h w3 = (res, w')" by metis
  have "map (\<lambda>r. (ar_id r, ar_url r)) (analysis_tab w') = map (\<lambda>r. (ar_id r, ar_url r)) (analysis_tab w3)"
    using process_finish_keeps(2) [OF fin assms(2)] by (auto simp: map_update_where bump_lock_def)
  also have "\<dots> = map (\<lambda>r. (ar_id r, ar_url r)) (analysis_tab w2)"
    using process_content_frame(2) [OF s3 refl] by (auto simp: map_update_where bump_lock_def set_completed_def)
  also have "\<dots> = map (\<lambda>r. (ar_id r, ar_url r)) (analysis_tab w)"
    using process_fetch_keeps(3) [OF s2 refl] process_begin_same [OF s1] by simp
  finally show ?thesis .
qed

lemma process_success_ids:
  assumes "ProcessAnalysisRequest env P p w = (res, w')" "pr_success res"
  shows "map ar_id (analysis_tab w') = map ar_id (analysis_tab w)"
  using arg_cong [OF process_success_same [OF assms], of "map fst"] by (simp add: comp_def)

end

end
