(* ===== verification/Web_Fetcher.thy ===== *)
theory Web_Fetcher
  imports World
begin

text \<open>
  \<open>internal/adapters/web_fetcher.go\<close>: what the fetcher refuses, what it asks for and what it makes
  of the answer. The HTTP client and the circuit breaker are not part of the repository: the client
  is a function from the number of the call, the timeout and the URL to a response or an error, the
  breaker tells for each call whether it rejects it (\<open>ErrOpenState\<close> or \<open>ErrTooManyRequests\<close>).
\<close>

record http_response =
  hr_url :: string
  hr_status :: int
  hr_status_text :: string
  hr_body :: string
  hr_headers :: "(string \<times> string list) list"

record http_port =
  http_get :: "nat \<Rightarrow> duration \<Rightarrow> string \<Rightarrow> http_response result"
  http_head :: "nat \<Rightarrow> duration \<Rightarrow> string \<Rightarrow> http_response result"
  breaker :: "nat \<Rightarrow> error option"

text \<open>When the breaker trips, on its counts of requests and failures.\<close>

definition fetcher_ReadyToTrip :: "nat \<Rightarrow> nat \<Rightarrow> bool" where
  "fetcher_ReadyToTrip requests failures \<longleftrightarrow> 3 \<le> requests \<and> 3 * requests \<le> 5 * failures"

section \<open>What is refused\<close>

definition privateHosts :: "string list" where
  "privateHosts = [''localhost'', ''127.0.0.1'', ''::1'', ''0.0.0.0'']"

definition strip_port :: "string \<Rightarrow> string" where
  "strip_port host = (case before_last CHR '':'' host of Some h \<Rightarrow> h | None \<Rightarrow> host)"

definition private_v4 :: "nat list \<Rightarrow> bool" where
  "private_v4 ip \<longleftrightarrow>
     ip ! 0 = 10 \<or> (ip ! 0 = 172 \<and> 16 \<le> ip ! 1 \<and> ip ! 1 \<le> 31) \<or> (ip ! 0 = 192 \<and> ip ! 1 = 168)"

definition isPrivateOrLocalURL :: "string \<Rightarrow> bool" where
  "isPrivateOrLocalURL host \<longleftrightarrow>
     (let hostLower = to_lower host
      in list_ex (\<lambda>p. hostLower = p \<or> has_suffix hostLower (CHR ''.'' # p)) privateHosts \<or>
         (case ParseIP (strip_port host) of
            None \<Rightarrow> False
          | Some ip \<Rightarrow> (case To4 ip of None \<Rightarrow> False | Some v4 \<Rightarrow> private_v4 v4)))"

definition validateURL :: "env \<Rightarrow> string \<Rightarrow> unit result" where
  "validateURL env targetURL =
     (if targetURL = [] then Inl (ErrText ''URL cannot be empty'')
      else if length targetURL < 3 then Inl (ErrText ''URL must be at least 3 characters long'')
      else if 10000 < length targetURL then Inl (ErrText ''URL must not exceed 10000 characters'')
      else (case url_Parse env targetURL of
              Inl e \<Rightarrow> Inl (ErrWrap ''invalid URL format'' e)
            | Inr u \<Rightarrow>
                if Scheme u = [] then Inl (ErrText ''URL must include a scheme (http or https)'')
                else if Scheme u \<noteq> ''http'' \<and> Scheme u \<noteq> ''https'' then
                  Inl (ErrText (''URL scheme must be http or https, got: '' @ Scheme u))
                else if Host u = [] then Inl (ErrText ''URL must include a host'')
                else if isPrivateOrLocalURL (Hostname (Host u)) then
                  Inl (ErrText ''access to private or local networks is not allowed'')
                else Inr ()))"

section \<open>Fetching\<close>

definition isHTMLContent :: "string \<Rightarrow> bool" where
  "isHTMLContent t \<longleftrightarrow> contains (to_lower t) ''text/html'' \<or> contains (to_lower t) ''application/xhtml''"

fun first_values :: "(string \<times> string list) list \<Rightarrow> (string \<times> string) list" where
  "first_values [] = []"
| "first_values ((k, vs) # hs) = (case vs of [] \<Rightarrow> first_values hs | v # _ \<Rightarrow> (k, v) # first_values hs)"

definition response_content :: "int \<Rightarrow> string \<Rightarrow> duration \<Rightarrow> http_response \<Rightarrow> web_page_content result" where
  "response_content max_size targetURL d resp =
     (if hr_status resp < 200 \<or> 300 \<le> hr_status resp then
        Inl (NewURLNotReachableError targetURL (hr_status resp)
               (Some (ErrText (''HTTP '' @ itoa (hr_status resp) @ '': '' @ hr_status_text resp))))
      else if max_size < int (length (hr_body resp)) then
        Inl (NewDomainError ''RESPONSE_TOO_LARGE''
               (''Response size '' @ itoa (int (length (hr_body resp))) @ '' bytes exceeds maximum allowed '' @
                itoa max_size @ '' bytes'') 413 (Some (ErrText ''response is too large'')))
      else Inr \<lparr>wp_url = hr_url resp, wp_status_code = hr_status resp, wp_html = hr_body resp,
             wp_content_type = header_get (hr_headers resp) ''Content-Type'',
             wp_headers = first_values (hr_headers resp), wp_fetch_duration = d\<rparr>)"

definition fetchWithRetry ::
  "env \<Rightarrow> http_port \<Rightarrow> int \<Rightarrow> string \<Rightarrow> world \<Rightarrow> web_page_content result \<times> world" where
  "fetchWithRetry env H max_size targetURL w =
     (let w1 = w\<lparr>tick := Suc (tick w)\<rparr>
      in case http_get H (tick w) (client_timeout w) targetURL of
           Inl e \<Rightarrow> (Inl (NewURLNotReachableError targetURL 0 (Some e)), w1)
         | Inr resp \<Rightarrow> (response_content max_size targetURL (now env w1 - now env w) resp, w1))"

text \<open>\<open>Execute\<close>: the breaker may reject the call; otherwise it is made, and its error returned.\<close>

definition breaker_execute ::
  "http_port \<Rightarrow> (world \<Rightarrow> 'a result \<times> world) \<Rightarrow> world \<Rightarrow> 'a result \<times> world" where
  "breaker_execute H f w = (case breaker H (tick w) of Some e \<Rightarrow> (Inl e, w) | None \<Rightarrow> f w)"

definition Fetch ::
  "http_port \<Rightarrow> int \<Rightarrow> env \<Rightarrow> string \<Rightarrow> duration \<Rightarrow> world \<Rightarrow> web_page_content result \<times> world" where
  "Fetch H max_size env targetURL timeout w =
     (case validateURL env targetURL of
        Inl e \<Rightarrow> (Inl (NewInvalidURLError targetURL (Some e)), w)
      | Inr _ \<Rightarrow>
          (let w1 = (if 0 < timeout then w\<lparr>client_timeout := timeout\<rparr> else w)
           in case breaker_execute H (fetchWithRetry env H max_size targetURL) w1 of
                (Inl e, w2) \<Rightarrow>
                  (Inl (if errors_Is e ErrOpenState
                        then NewDomainError ''CIRCUIT_BREAKER_OPEN''
                               ''service temporarily unavailable due to repeated failures'' 503 (Some e)
                        else e), w2)
              | (Inr c, w2) \<Rightarrow> (Inr c, w2)))"

lemma Fetch_frame:
  assumes "Fetch H mx env u t w = (r, w')"
  shows "analysis_tab w' = analysis_tab w \<and> outbox_tab w' = outbox_tab w"
proof -
  have "fetchWithRetry env H mx u v = (q, v') \<Longrightarrow> analysis_tab v' = analysis_tab v \<and> outbox_tab v' = outbox_tab v"
    for v q v'
    by (auto simp: fetchWithRetry_def Let_def split: sum.splits)
  then have "breaker_execute H (fetchWithRetry env H mx u) v = (q, v') \<Longrightarrow>
      analysis_tab v' = analysis_tab v \<and> outbox_tab v' = outbox_tab v" for v q v'
    by (auto simp: breaker_execute_def split: option.splits)
  then show ?thesis
    using assms by (force simp: Fetch_def Let_def split: sum.splits prod.splits if_splits)
qed

section \<open>Properties\<close>

lemma not_local_dotted: "has_suffix h (CHR ''.'' # p) \<Longrightarrow> h \<noteq> []"
  by (auto simp: has_suffix_def)

lemma strip_port_dotted [simp]: "strip_port (dotted a b c d) = dotted a b c d"
proof -
  have "before_last CHR '':'' (dotted a b c d) = None"
    using colon_notin_dotted [of a b c d] by (simp only: before_last_None) simp
  then show ?thesis by (simp add: strip_port_def)
qed

lemma private_dotted:
  assumes "a \<le> 255" "b \<le> 255" "c \<le> 255" "d \<le> 255"
    and "a = 10 \<or> (a = 172 \<and> 16 \<le> b \<and> b \<le> 31) \<or> (a = 192 \<and> b = 168)"
  shows "isPrivateOrLocalURL (dotted a b c d)"
  using assms by (simp add: isPrivateOrLocalURL_def Let_def ParseIP_dotted private_v4_def)

text \<open>
  C33: a URL that the fetcher accepts has between 3 and 10000 bytes, the scheme http or https and a
  host; the host is none of the local names and no subdomain of one, and no dotted address of the
  private ranges 10/8, 172.16/12 and 192.168/16.
\<close>

theorem accepted_url_is_public:
  assumes "validateURL env t = Inr u"
  shows "\<exists>v. url_Parse env t = Inr v \<and> 3 \<le> length t \<and> length t \<le> 10000 \<and>
    (Scheme v = ''http'' \<or> Scheme v = ''https'') \<and> Host v \<noteq> [] \<and>
    (\<forall>p \<in> set privateHosts. to_lower (Hostname (Host v)) \<noteq> p \<and>
       \<not> has_suffix (to_lower (Hostname (Host v))) (CHR ''.'' # p)) \<and>
    (\<forall>a b c d. a \<le> 255 \<and> b \<le> 255 \<and> c \<le> 255 \<and> d \<le> 255 \<and> Hostname (Host v) = dotted a b c d \<longrightarrow>
       a \<noteq> 10 \<and> \<not> (a = 172 \<and> 16 \<le> b \<and> b \<le> 31) \<and> \<not> (a = 192 \<and> b = 168))"
proof -
  obtain v where v: "url_Parse env t = Inr v" "3 \<le> length t" "length t \<le> 10000"
      "Scheme v = ''http'' \<or> Scheme v = ''https''" "Host v \<noteq> []" "\<not> isPrivateOrLocalURL (Hostname (Host v))"
    using assms by (fastforce simp: validateURL_def split: if_splits sum.splits)
  have "\<forall>p \<in> set privateHosts. to_lower (Hostname (Host v)) \<noteq> p \<and>
       \<not> has_suffix (to_lower (Hostname (Host v))) (CHR ''.'' # p)"
    using v(6) by (auto simp: isPrivateOrLocalURL_def Let_def list_ex_iff)
  moreover have "a \<noteq> 10 \<and> \<not> (a = 172 \<and> 16 \<le> b \<and> b \<le> 31) \<and> \<not> (a = 192 \<and> b = 168)"
    if "a \<le> 255 \<and> b \<le> 255 \<and> c \<le> 255 \<and> d \<le> 255 \<and> Hostname (Host v) = dotted a b c d" for a b c d
    using that v(6) private_dotted [of a b c d] by auto
  ultimately show ?thesis using v by blast
qed

theorem accepted_url_is_public_witness:
  "validateURL sample_env ''http://a.b/'' = Inr () \<and> (\<exists>v. url_Parse sample_env ''http://a.b/'' = Inr v \<and> Host v \<noteq> [])"
proof -
  have "validateURL sample_env ''http://a.b/'' = Inr ()" by code_simp
  with accepted_url_is_public [OF this] show ?thesis by blast
qed

lemma parsed_v6:
  "ParseIP ''::ffff'' = Some (replicate 14 0 @ [255, 255])"
  "ParseIP ''::ffff:a00'' = Some (replicate 12 0 @ [255, 255, 10, 0])"
  "ParseIP ''fe80:'' = None" "ParseIP ''fd00:'' = None"
  by (simp_all add: ParseIP_def parse_ipv6_def parse_groups.simps hex_group_def hex_val_def has_prefix_def)

lemma parsed_v4:
  "ParseIP ''127.0.0.2'' = Some (v4_prefix @ [127, 0, 0, 2])"
  "ParseIP ''169.254.169.254'' = Some (v4_prefix @ [169, 254, 169, 254])"
  by (simp_all add: ParseIP_def parse_ipv4_def ipv4_field_def digit_val_def)

lemma not_v4:
  "To4 (replicate 14 0 @ [255, 255]) = None" "To4 (replicate 12 0 @ [255, 255, 10, 0]) = None"
proof -
  have "replicate 12 (0::nat) = replicate 10 0 @ [0, 0]"
    using replicate_add [of 10 2 "0::nat"] by (simp add: numeral_2_eq_2)
  then show "To4 (replicate 14 0 @ [255, 255]) = None" "To4 (replicate 12 0 @ [255, 255, 10, 0]) = None"
    by (simp_all add: To4_def v4_prefix_def)
qed

lemmas host_eval = isPrivateOrLocalURL_def Let_def privateHosts_def has_suffix_def to_lower_def lower_char_def
  strip_port_def parsed_v6 parsed_v4 not_v4 private_v4_def

text \<open>
  Also: hosts that name private or local addresses are accepted all the same: a private IPv4 address
  written as an IPv6 address (its part after the last colon is taken for a port), the other loopback
  addresses, link-local and unique local addresses.
\<close>

theorem private_hosts_accepted:
  "map isPrivateOrLocalURL [''::ffff:10.0.0.1'', ''::ffff:a00:1'', ''127.0.0.2'', ''169.254.169.254'', ''fe80::1'', ''fd00::1''] =
     [False, False, False, False, False, False]"
  by (simp add: host_eval)

text \<open>
  C36: what \<open>Fetch\<close> returns: a page only for a URL that was accepted and an answer with a success
  status and a body within the limit, with the timeout of the request set on the client; an invalid
  URL is refused without any call.
\<close>

theorem fetch_outcome:
  "(validateURL env t = Inl e \<longrightarrow> Fetch H mx env t timeout w = (Inl (NewInvalidURLError t (Some e)), w)) \<and>
   (Fetch H mx env t timeout w = (Inr c, w') \<longrightarrow>
      validateURL env t = Inr () \<and> 200 \<le> wp_status_code c \<and> wp_status_code c < 300 \<and>
      int (length (wp_html c)) \<le> mx \<and> tick w' = Suc (tick w) \<and>
      client_timeout w' = (if 0 < timeout then timeout else client_timeout w))"
proof (intro conjI impI)
  assume "validateURL env t = Inl e"
  then show "Fetch H mx env t timeout w = (Inl (NewInvalidURLError t (Some e)), w)" by (simp add: Fetch_def)
next
  assume f: "Fetch H mx env t timeout w = (Inr c, w')"
  let ?w1 = "if 0 < timeout then w\<lparr>client_timeout := timeout\<rparr> else w"
  from f have v: "validateURL env t = Inr ()" by (auto simp: Fetch_def split: sum.splits)
  with f have b: "breaker_execute H (fetchWithRetry env H mx t) ?w1 = (Inr c, w')"
    by (auto simp: Fetch_def Let_def split: sum.splits prod.splits)
  then have "fetchWithRetry env H mx t ?w1 = (Inr c, w')"
    by (auto simp: breaker_execute_def split: option.splits)
  then obtain resp d where "response_content mx t d resp = Inr c" "w' = ?w1\<lparr>tick := Suc (tick ?w1)\<rparr>"
    by (auto simp: fetchWithRetry_def Let_def split: sum.splits)
  then show "validateURL env t = Inr ()" "200 \<le> wp_status_code c" "wp_status_code c < 300"
    "int (length (wp_html c)) \<le> mx" "tick w' = Suc (tick w)"
    "client_timeout w' = (if 0 < timeout then timeout else client_timeout w)"
    using v by (auto simp: response_content_def split: if_splits)
qed

definition sample_http :: http_port where
  "sample_http = \<lparr>http_get = (\<lambda>n d u. Inr \<lparr>hr_url = u, hr_status = 200, hr_status_text = ''200 OK'',
       hr_body = ''<h1>t</h1>'', hr_headers = [(''Content-Type'', [''text/html''])]\<rparr>),
     http_head = (\<lambda>n d u. Inl (ErrText ''no HEAD'')), breaker = (\<lambda>n. None)\<rparr>"

theorem fetch_outcome_witness:
  "\<exists>c w'. Fetch sample_http 100 sample_env ''http://a.b/'' 0 empty_world = (Inr c, w') \<and> wp_status_code c < 300"
proof -
  have "\<exists>c w'. Fetch sample_http 100 sample_env ''http://a.b/'' 0 empty_world = (Inr c, w')"
    using accepted_url_is_public_witness
    by (simp add: Fetch_def breaker_execute_def fetchWithRetry_def response_content_def Let_def sample_http_def)
  then obtain c w' where "Fetch sample_http 100 sample_env ''http://a.b/'' 0 empty_world = (Inr c, w')" by blast
  with fetch_outcome show ?thesis by blast
qed

end
