(* ===== verification/Html_Analyzer.thy ===== *)
theory Html_Analyzer
  imports World "HOL-Library.Multiset"
begin

text \<open>
  \<open>internal/adapters/html_analyzer.go\<close>. Parsing HTML and selecting elements (the package goquery) is
  not part of the repository: a parsed document is a record of what the analyzer's selectors
  find in it, and the parser a function from text to such a record or an error. The regular
  expressions of the version detection are modelled, with ASCII letters for \<open>(?i)\<close>; the goroutines
  of an analysis are writers of its fields, run in some order.
\<close>

section \<open>Patterns\<close>

text \<open>A letter (without case), \<open>\s+\<close>, or \<open>\s*\<close>.\<close>

datatype rx = Lit char | Sp1 | Sp0

definition is_space :: "char \<Rightarrow> bool" where
  "is_space c \<longleftrightarrow> c = CHR '' '' \<or> c = CHR 0x09 \<or> c = CHR 0x0A \<or> c = CHR 0x0C \<or> c = CHR 0x0D"

function match_at :: "rx list \<Rightarrow> string \<Rightarrow> bool" where
  "match_at [] s = True"
| "match_at (Lit c # p) [] = False"
| "match_at (Lit c # p) (x # s) = (lower_char c = lower_char x \<and> match_at p s)"
| "match_at (Sp1 # p) [] = False"
| "match_at (Sp1 # p) (x # s) = (is_space x \<and> match_at (Sp0 # p) s)"
| "match_at (Sp0 # p) [] = match_at p []"
| "match_at (Sp0 # p) (x # s) = (match_at p (x # s) \<or> is_space x \<and> match_at (Sp0 # p) s)"
  by pat_completeness auto
termination
  by (relation "measure (\<lambda>(p, s). 2 * length p + length s)") auto

fun MatchString :: "rx list \<Rightarrow> string \<Rightarrow> bool" where
  "MatchString p [] = match_at p []"
| "MatchString p (x # s) = (match_at p (x # s) \<or> MatchString p s)"

text \<open>Patterns as the code writes them: a space here stands for \<open>\s+\<close>, an underscore for \<open>\s*\<close>.\<close>

definition pattern :: "string \<Rightarrow> rx list" where
  "pattern = map (\<lambda>c. if c = CHR '' '' then Sp1 else if c = CHR ''_'' then Sp0 else Lit c)"

definition html5Regex :: "rx list" where
  "html5Regex = pattern ''<!DOCTYPE html_>''"

definition html401Patterns :: "rx list list" where
  "html401Patterns = map pattern
     [''<!DOCTYPE html PUBLIC \"-//W3C//DTD HTML 4.01//EN\"'',
      ''<!DOCTYPE html PUBLIC \"-//W3C//DTD HTML 4.01 Transitional//EN\"'',
      ''<!DOCTYPE html PUBLIC \"-//W3C//DTD HTML 4.01 Frameset//EN\"'']"

definition xhtml10Patterns :: "rx list list" where
  "xhtml10Patterns = map pattern
     [''<!DOCTYPE html PUBLIC \"-//W3C//DTD XHTML 1.0 Strict//EN\"'',
      ''<!DOCTYPE html PUBLIC \"-//W3C//DTD XHTML 1.0 Transitional//EN\"'',
      ''<!DOCTYPE html PUBLIC \"-//W3C//DTD XHTML 1.0 Frameset//EN\"'']"

definition xhtml11Pattern :: "rx list" where
  "xhtml11Pattern = pattern ''<!DOCTYPE html PUBLIC \"-//W3C//DTD XHTML 1.1//EN\"''"

definition xmlDeclPattern :: "rx list" where
  "xmlDeclPattern = pattern ''<?xml version''"

text \<open>\<open>strings.TrimSpace\<close> on ASCII: the spaces of the patterns and the vertical tab.\<close>

definition trim_char :: "char \<Rightarrow> bool" where
  "trim_char c \<longleftrightarrow> is_space c \<or> c = CHR 0x0B"

definition TrimSpace :: "string \<Rightarrow> string" where
  "TrimSpace s = rev (dropWhile trim_char (rev (dropWhile trim_char s)))"

definition ExtractHTMLVersion :: "string \<Rightarrow> html_version" where
  "ExtractHTMLVersion html =
     (let html = TrimSpace html
      in if MatchString html5Regex html then HTML5
         else if list_ex (\<lambda>p. MatchString p html) html401Patterns then HTML401
         else if list_ex (\<lambda>p. MatchString p html) xhtml10Patterns then XHTML10
         else if MatchString xhtml11Pattern html then XHTML11
         else if MatchString xmlDeclPattern html then XHTML10
         else Unknown)"

section \<open>Documents\<close>

record form_element =
  fe_method :: "string option"
  fe_action :: "string option"
  fe_names :: "string option list"   \<comment> \<open>the attribute name of input, select and textarea elements\<close>
  fe_passwords :: nat                \<comment> \<open>the number of password inputs\<close>

record document =
  doc_titles :: "string list"
  doc_count :: "string \<Rightarrow> nat"
  doc_hrefs :: "string option list"  \<comment> \<open>the attribute href of the elements \<open>a[href]\<close>\<close>
  doc_forms :: "form_element list"

text \<open>
  The parser, and the functions on URLs, are parameters of the analyzer.
\<close>

record html_env =
  new_document :: "string \<Rightarrow> document result"
  parse_url :: "string \<Rightarrow> url result"
  url_text :: "url \<Rightarrow> string"
  resolve_ref :: "url \<Rightarrow> url \<Rightarrow> url"

text \<open>\<open>ReplaceAllString\<close> of \<open>\s+\<close> by a space.\<close>

fun squeeze :: "bool \<Rightarrow> string \<Rightarrow> string" where
  "squeeze b [] = []"
| "squeeze b (c # s) =
     (if is_space c then (if b then squeeze True s else CHR '' '' # squeeze True s)
      else c # squeeze False s)"

definition ExtractTitle :: "html_env \<Rightarrow> string \<Rightarrow> string" where
  "ExtractTitle H html =
     (case new_document H html of
        Inl _ \<Rightarrow> []
      | Inr doc \<Rightarrow>
          squeeze False (TrimSpace (case doc_titles doc of [] \<Rightarrow> [] | t # _ \<Rightarrow> t)))"

definition zero_counts :: heading_counts where
  "zero_counts = \<lparr>H1 = 0, H2 = 0, H3 = 0, H4 = 0, H5 = 0, H6 = 0\<rparr>"

definition ExtractHeadingCounts :: "html_env \<Rightarrow> string \<Rightarrow> heading_counts" where
  "ExtractHeadingCounts H html =
     (case new_document H html of
        Inl _ \<Rightarrow> zero_counts
      | Inr doc \<Rightarrow> \<lparr>H1 = int (doc_count doc ''h1''), H2 = int (doc_count doc ''h2''),
                  H3 = int (doc_count doc ''h3''), H4 = int (doc_count doc ''h4''),
                  H5 = int (doc_count doc ''h5''), H6 = int (doc_count doc ''h6'')\<rparr>)"

text \<open>The loop over the links, with the map of the URLs seen so far.\<close>

definition skipped_href :: "string \<Rightarrow> string \<Rightarrow> bool" where
  "skipped_href href finalURL \<longleftrightarrow>
     finalURL = [] \<or> has_prefix href ''#'' \<or> has_prefix href ''javascript:'' \<or>
     has_prefix href ''mailto:'' \<or> has_prefix href ''tel:''"

fun collect_links :: "html_env \<Rightarrow> url \<Rightarrow> string list \<Rightarrow> string option list \<Rightarrow> link list" where
  "collect_links H base seen [] = []"
| "collect_links H base seen (h # hs) =
     (case h of
        None \<Rightarrow> collect_links H base seen hs
      | Some href \<Rightarrow>
          if href = [] then collect_links H base seen hs
          else (case parse_url H href of
                  Inl _ \<Rightarrow> collect_links H base seen hs
                | Inr u \<Rightarrow>
                    (let r = resolve_ref H base u; finalURL = url_text H r
                     in if finalURL \<in> set seen then collect_links H base seen hs
                        else if skipped_href href finalURL then collect_links H base (finalURL # seen) hs
                        else \<lparr>link_url = finalURL,
                              link_type = (if Host r = Host base then LinkTypeInternal else LinkTypeExternal)\<rparr>
                             # collect_links H base (finalURL # seen) hs)))"

definition ExtractLinks :: "html_env \<Rightarrow> string \<Rightarrow> string \<Rightarrow> link list result" where
  "ExtractLinks H html baseURL =
     (case new_document H html of
        Inl e \<Rightarrow> Inl e
      | Inr doc \<Rightarrow>
          (case parse_url H baseURL of
             Inl e \<Rightarrow> Inl e
           | Inr base \<Rightarrow> Inr (collect_links H base [] (doc_hrefs doc))))"

section \<open>Forms\<close>

definition isLikelyLoginForm :: "string \<Rightarrow> form_element \<Rightarrow> bool" where
  "isLikelyLoginForm method f \<longleftrightarrow> method = ''POST'' \<and> 0 < fe_passwords f"

definition form_method :: "form_element \<Rightarrow> string" where
  "form_method f =
     (let m = to_upper (TrimSpace (case fe_method f of None \<Rightarrow> ''GET'' | Some m \<Rightarrow> m))
      in if m \<noteq> ''POST'' \<and> m \<noteq> ''GET'' then ''GET'' else m)"

definition form_action :: "html_env \<Rightarrow> url \<Rightarrow> form_element \<Rightarrow> string" where
  "form_action H base f =
     (let action = (case fe_action f of None \<Rightarrow> [] | Some a \<Rightarrow> a)
      in if action \<noteq> [] then
           (case parse_url H action of Inl _ \<Rightarrow> action | Inr u \<Rightarrow> url_text H (resolve_ref H base u))
         else action)"

definition name_of :: "string option \<Rightarrow> string" where
  "name_of n = (case n of None \<Rightarrow> [] | Some s \<Rightarrow> s)"

definition field_names :: "form_element \<Rightarrow> string list" where
  "field_names f = first_by (\<lambda>n. n) [] (filter (\<lambda>n. n \<noteq> []) (map name_of (fe_names f)))"

definition to_slice :: "'a list \<Rightarrow> 'a slice" where
  "to_slice xs = (if xs = [] then None else Some xs)"

definition login_forms :: "html_env \<Rightarrow> url \<Rightarrow> form_element list \<Rightarrow> login_form list" where
  "login_forms H base fs =
     map (\<lambda>f. \<lparr>lf_method = form_method f, lf_action = form_action H base f,
              lf_fields = to_slice (field_names f)\<rparr>)
       (filter (\<lambda>f. isLikelyLoginForm (form_method f) f) fs)"

definition no_forms :: form_analysis where
  "no_forms = \<lparr>fa_total_count = 0, fa_login_forms_detected = 0, fa_login_form_details = None\<rparr>"

definition ExtractForms :: "html_env \<Rightarrow> string \<Rightarrow> string \<Rightarrow> form_analysis" where
  "ExtractForms H html baseURL =
     (case new_document H html of
        Inl _ \<Rightarrow> no_forms
      | Inr doc \<Rightarrow>
          (case parse_url H baseURL of
             Inl _ \<Rightarrow> no_forms
           | Inr base \<Rightarrow>
               (let ls = login_forms H base (doc_forms doc)
                in \<lparr>fa_total_count = int (length (doc_forms doc)),
                    fa_login_forms_detected = int (length ls),
                    fa_login_form_details = to_slice ls\<rparr>)))"

section \<open>The analysis\<close>

fun count_links :: "link list \<Rightarrow> link_analysis \<Rightarrow> link_analysis" where
  "count_links [] a = a"
| "count_links (l # ls) a =
     count_links ls
       (case link_type l of
          LinkTypeInternal \<Rightarrow> a\<lparr>la_internal_count := la_internal_count a + 1\<rparr>
        | LinkTypeExternal \<Rightarrow> a\<lparr>la_external_count := la_external_count a + 1,
                              la_external_links := go_append (la_external_links a) l\<rparr>)"

definition no_links :: "int \<Rightarrow> link_analysis" where
  "no_links n = \<lparr>la_internal_count = 0, la_external_count = 0, la_total_count = n,
     la_external_links = Some [], la_inaccessible_links = Some []\<rparr>"

definition analyze_links :: "html_env \<Rightarrow> string \<Rightarrow> string \<Rightarrow> link_analysis" where
  "analyze_links H html url =
     (case ExtractLinks H html url of
        Inl _ \<Rightarrow> no_links 0
      | Inr ls \<Rightarrow> count_links ls (no_links (int (length ls))))"

definition zero_data :: analysis_data where
  "zero_data = \<lparr>ad_html_version = [], ad_title = [], ad_heading_counts = zero_counts,
     ad_links = \<lparr>la_internal_count = 0, la_external_count = 0, la_total_count = 0,
       la_external_links = None, la_inaccessible_links = None\<rparr>,
     ad_forms = no_forms, ad_fetch_time = 0, ad_processing_time = 0\<rparr>"

datatype writer = WriteVersion | WriteTitle | WriteHeadings | WriteLinks | WriteForms

definition write_field :: "html_env \<Rightarrow> string \<Rightarrow> string \<Rightarrow> writer \<Rightarrow> analysis_data \<Rightarrow> analysis_data" where
  "write_field H url html k d =
     (case k of
        WriteVersion \<Rightarrow> d\<lparr>ad_html_version := ExtractHTMLVersion html\<rparr>
      | WriteTitle \<Rightarrow> d\<lparr>ad_title := ExtractTitle H html\<rparr>
      | WriteHeadings \<Rightarrow> d\<lparr>ad_heading_counts := ExtractHeadingCounts H html\<rparr>
      | WriteLinks \<Rightarrow> d\<lparr>ad_links := analyze_links H html url\<rparr>
      | WriteForms \<Rightarrow> d\<lparr>ad_forms := ExtractForms H html url\<rparr>)"

definition writers :: "analysis_options \<Rightarrow> writer list" where
  "writers options =
     [WriteVersion, WriteTitle] @ (if include_headings options then [WriteHeadings] else []) @
     [WriteLinks] @ (if detect_forms options then [WriteForms] else [])"

definition Analyze ::
  "html_env \<Rightarrow> (writer list \<Rightarrow> writer list) \<Rightarrow> string \<Rightarrow> string \<Rightarrow> analysis_options \<Rightarrow> analysis_data result" where
  "Analyze H sched url html options = Inr (fold (write_field H url html) (sched (writers options)) zero_data)"

section \<open>The matcher and its patterns\<close>

text \<open>The texts a pattern stands for.\<close>

inductive in_rx :: "rx list \<Rightarrow> string \<Rightarrow> bool" where
  Nil: "in_rx [] []"
| Lit: "lower_char c = lower_char x \<Longrightarrow> in_rx p s \<Longrightarrow> in_rx (Lit c # p) (x # s)"
| Sp1: "ws \<noteq> [] \<Longrightarrow> list_all is_space ws \<Longrightarrow> in_rx p s \<Longrightarrow> in_rx (Sp1 # p) (ws @ s)"
| Sp0: "list_all is_space ws \<Longrightarrow> in_rx p s \<Longrightarrow> in_rx (Sp0 # p) (ws @ s)"

inductive_simps in_rx_Nil: "in_rx [] s"
  and in_rx_Lit: "in_rx (Lit c # p) s"
  and in_rx_Sp1: "in_rx (Sp1 # p) s"
  and in_rx_Sp0: "in_rx (Sp0 # p) s"

lemma in_rx_Sp1_Cons: "in_rx (Sp1 # p) (x # m) \<longleftrightarrow> is_space x \<and> in_rx (Sp0 # p) m"
proof
  assume "in_rx (Sp1 # p) (x # m)"
  then obtain ws t where "ws \<noteq> []" "list_all is_space ws" "in_rx p t" "x # m = ws @ t"
    by (auto simp: in_rx_Sp1)
  then show "is_space x \<and> in_rx (Sp0 # p) m"
    by (cases ws) (auto simp: in_rx_Sp0)
next
  assume "is_space x \<and> in_rx (Sp0 # p) m"
  then obtain ws t where "is_space x" "list_all is_space ws" "in_rx p t" "m = ws @ t"
    by (auto simp: in_rx_Sp0)
  then show "in_rx (Sp1 # p) (x # m)"
    using in_rx.Sp1 [of "x # ws" p t] by simp
qed

lemma in_rx_Sp0_cases: "in_rx (Sp0 # p) m \<longleftrightarrow> in_rx p m \<or> (\<exists>x t. m = x # t \<and> is_space x \<and> in_rx (Sp0 # p) t)"
proof
  assume "in_rx (Sp0 # p) m"
  then obtain ws t where w: "list_all is_space ws" "in_rx p t" "m = ws @ t" by (auto simp: in_rx_Sp0)
  then show "in_rx p m \<or> (\<exists>x t. m = x # t \<and> is_space x \<and> in_rx (Sp0 # p) t)"
    by (cases ws) (auto intro: in_rx.Sp0)
next
  assume "in_rx p m \<or> (\<exists>x t. m = x # t \<and> is_space x \<and> in_rx (Sp0 # p) t)"
  then show "in_rx (Sp0 # p) m"
  proof
    assume "in_rx p m"
    then show ?thesis using in_rx.Sp0 [of "[]" p m] by simp
  next
    assume "\<exists>x t. m = x # t \<and> is_space x \<and> in_rx (Sp0 # p) t"
    then obtain x ws t where "m = x # ws @ t" "is_space x" "list_all is_space ws" "in_rx p t"
      by (auto simp: in_rx_Sp0)
    then show ?thesis using in_rx.Sp0 [of "x # ws" p t] by simp
  qed
qed

lemma not_in_rx_Nil: "\<not> in_rx (Sp1 # p) []" "\<not> in_rx (Lit c # p) []"
  by (auto simp: in_rx_Sp1 in_rx_Lit)

lemma prefix_Cons:
  "(\<exists>m b. x # s = m @ b \<and> Q m) \<longleftrightarrow> Q [] \<or> (\<exists>t b. s = t @ b \<and> Q (x # t))"
  by (auto simp: Cons_eq_append_conv)

lemma prefix_Nil: "(\<exists>m b. [] = m @ b \<and> Q m) \<longleftrightarrow> Q []"
  by auto

lemma in_rx_Lit_Cons: "in_rx (Lit c # p) (x # t) \<longleftrightarrow> lower_char c = lower_char x \<and> in_rx p t"
  by (auto simp: in_rx_Lit)

lemma in_rx_Sp0_Nil: "in_rx (Sp0 # p) [] \<longleftrightarrow> in_rx p []"
  by (subst in_rx_Sp0_cases) simp

lemma in_rx_Sp0_Cons: "in_rx (Sp0 # p) (x # t) \<longleftrightarrow> in_rx p (x # t) \<or> is_space x \<and> in_rx (Sp0 # p) t"
  by (subst in_rx_Sp0_cases) simp

lemma match_at_iff: "match_at p s \<longleftrightarrow> (\<exists>m b. s = m @ b \<and> in_rx p m)"
proof (induction p s rule: match_at.induct)
  case (1 s)
  then show ?case by (simp add: in_rx_Nil)
next
  case (2 c p)
  show ?case unfolding prefix_Nil by (simp add: not_in_rx_Nil)
next
  case (3 c p x s)
  show ?case unfolding prefix_Cons using 3 by (auto simp: not_in_rx_Nil in_rx_Lit_Cons)
next
  case (4 p)
  show ?case unfolding prefix_Nil by (simp add: not_in_rx_Nil)
next
  case (5 p x s)
  show ?case unfolding prefix_Cons using 5 by (auto simp: not_in_rx_Nil in_rx_Sp1_Cons)
next
  case (6 p)
  then show ?case unfolding prefix_Nil by (simp add: in_rx_Sp0_Nil)
next
  case (7 p x s)
  have "(\<exists>m b. x # s = m @ b \<and> in_rx (Sp0 # p) m) \<longleftrightarrow>
      in_rx p [] \<or> (\<exists>t b. s = t @ b \<and> in_rx p (x # t)) \<or> is_space x \<and> (\<exists>t b. s = t @ b \<and> in_rx (Sp0 # p) t)"
    unfolding prefix_Cons in_rx_Sp0_Nil in_rx_Sp0_Cons by blast
  moreover have "(\<exists>m b. x # s = m @ b \<and> in_rx p m) \<longleftrightarrow> in_rx p [] \<or> (\<exists>t b. s = t @ b \<and> in_rx p (x # t))"
    by (rule prefix_Cons)
  ultimately show ?case using 7 by simp
qed

lemma MatchString_iff: "MatchString p s \<longleftrightarrow> (\<exists>a m b. s = a @ m @ b \<and> in_rx p m)"
proof (induction s)
  case Nil
  then show ?case by (simp add: match_at_iff)
next
  case (Cons x s)
  have "(\<exists>a m b. x # s = a @ m @ b \<and> in_rx p m) \<longleftrightarrow>
      (\<exists>m b. x # s = m @ b \<and> in_rx p m) \<or> (\<exists>a m b. s = a @ m @ b \<and> in_rx p m)"
  proof
    assume "\<exists>a m b. x # s = a @ m @ b \<and> in_rx p m"
    then obtain a m b where "x # s = a @ m @ b" "in_rx p m" by blast
    then show "(\<exists>m b. x # s = m @ b \<and> in_rx p m) \<or> (\<exists>a m b. s = a @ m @ b \<and> in_rx p m)"
      by (cases a) auto
  next
    assume "(\<exists>m b. x # s = m @ b \<and> in_rx p m) \<or> (\<exists>a m b. s = a @ m @ b \<and> in_rx p m)"
    then show "\<exists>a m b. x # s = a @ m @ b \<and> in_rx p m"
      by (metis append_Cons append_Nil)
  qed
  with Cons show ?case by (simp add: match_at_iff)
qed

lemma dropWhile_keeps: "\<not> P x \<Longrightarrow> \<exists>a'. dropWhile P (a @ x # b) = a' @ x # b"
  by (induction a) auto

lemma TrimSpace_keeps:
  assumes "m \<noteq> []" "\<not> trim_char (hd m)" "\<not> trim_char (last m)"
  shows "\<exists>a' b'. TrimSpace (a @ m @ b) = a' @ m @ b'"
proof -
  obtain x t where m: "m = x # t" using assms(1) by (cases m) auto
  obtain a' where a': "dropWhile trim_char (a @ m @ b) = a' @ m @ b"
    using dropWhile_keeps [of trim_char x a "t @ b"] assms(2) m by auto
  obtain y u where u: "rev m = y # u" using assms(1) by (cases "rev m") auto
  then have "y = last m" by (metis last_rev list.sel(1) list.distinct(1) rev_is_Nil_conv rev_rev_ident hd_rev)
  then obtain b' where b': "dropWhile trim_char (rev b @ y # (u @ rev a')) = b' @ y # (u @ rev a')"
    using dropWhile_keeps [of trim_char y "rev b" "u @ rev a'"] assms(3) by auto
  have "rev (a' @ m @ b) = rev b @ y # (u @ rev a')" using u by simp
  then have "TrimSpace (a @ m @ b) = rev (b' @ y # (u @ rev a'))"
    using a' b' by (simp add: TrimSpace_def)
  also have "\<dots> = a' @ m @ rev b'" using u by (metis append_Cons append_assoc rev_append rev_rev_ident)
  finally show ?thesis by blast
qed

section \<open>Properties\<close>

lemma in_rx_hd: "in_rx (Lit c # p) m \<Longrightarrow> m \<noteq> [] \<and> lower_char c = lower_char (hd m)"
  by (auto simp: in_rx_Lit)

lemma in_rx_last: "in_rx q m \<Longrightarrow> q = p @ [Lit c] \<Longrightarrow> m \<noteq> [] \<and> lower_char c = lower_char (last m)"
proof (induction arbitrary: p rule: in_rx.induct)
  case (Lit d x r t)
  then show ?case by (cases p) (auto simp: in_rx_Nil)
next
  case (Sp1 ws r t)
  then show ?case by (cases p) auto
next
  case (Sp0 ws r t)
  then show ?case by (cases p) auto
qed simp

lemma lower_char_bracket:
  "lower_char CHR ''<'' = lower_char x \<longleftrightarrow> x = CHR ''<''" "lower_char CHR ''>'' = lower_char x \<longleftrightarrow> x = CHR ''>''"
  using lower_char_fixed [of "CHR ''<''" x] lower_char_fixed [of "CHR ''>''" x]
  by (auto simp: lower_char_def Let_def)


text \<open>
  Also: a text that contains the HTML 5 document type anywhere, in any case and also inside a comment
  or the body, is reported as HTML5, whatever other document types it contains.
\<close>

theorem html5_anywhere:
  assumes "in_rx html5Regex m"
  shows "ExtractHTMLVersion (a @ m @ b) = HTML5"
proof -
  have p: "html5Regex = Lit CHR ''<'' # pattern ''!DOCTYPE html_>''"
    "html5Regex = pattern ''<!DOCTYPE html_'' @ [Lit CHR ''>'']"
    by (simp_all add: html5Regex_def pattern_def)
  have m: "m \<noteq> []" "hd m = CHR ''<''" "last m = CHR ''>''"
    using in_rx_hd [of "CHR ''<''" "pattern ''!DOCTYPE html_>''" m] in_rx_last [OF assms p(2)] assms p(1)
    by (simp_all add: lower_char_bracket)
  then obtain a' b' where "TrimSpace (a @ m @ b) = a' @ m @ b'"
    using TrimSpace_keeps [of m a b] by (auto simp: trim_char_def is_space_def)
  then have "MatchString html5Regex (TrimSpace (a @ m @ b))"
    using assms by (auto simp: MatchString_iff)
  then show ?thesis by (simp add: ExtractHTMLVersion_def)
qed

theorem html5_anywhere_witness:
  "ExtractHTMLVersion ''<!-- <!DOCTYPE html> --> <html>'' = HTML5"
proof -
  have "in_rx html5Regex ''<!DOCTYPE html>''"
    by (simp add: html5Regex_def pattern_def in_rx_Lit_Cons in_rx_Sp1_Cons in_rx_Sp0_Cons in_rx_Nil
        not_in_rx_Nil is_space_def)
  then show ?thesis using html5_anywhere [of "''<!DOCTYPE html>''" "''<!-- ''" "'' --> <html>''"] by simp
qed

lemma squeeze_only_blanks: "c \<in> set (squeeze b s) \<Longrightarrow> is_space c \<Longrightarrow> c = CHR '' ''"
  by (induction b s rule: squeeze.induct) (auto split: if_splits)

lemma squeeze_hd: "squeeze True s \<noteq> [] \<Longrightarrow> \<not> is_space (hd (squeeze True s))"
proof -
  have "b \<Longrightarrow> squeeze b s \<noteq> [] \<Longrightarrow> \<not> is_space (hd (squeeze b s))" for b
    by (induction b s rule: squeeze.induct) (auto split: if_splits)
  then show "squeeze True s \<noteq> [] \<Longrightarrow> \<not> is_space (hd (squeeze True s))" by simp
qed

lemma squeeze_no_double: "successively (\<lambda>x y. \<not> (is_space x \<and> is_space y)) (squeeze b s)"
  by (induction b s rule: squeeze.induct) (use squeeze_hd in \<open>auto simp: successively_Cons\<close>)

lemma squeeze_last: "s \<noteq> [] \<Longrightarrow> \<not> is_space (last s) \<Longrightarrow> squeeze b s \<noteq> [] \<and> last (squeeze b s) = last s"
  by (induction b s rule: squeeze.induct) (auto split: if_splits)

lemma TrimSpace_ends:
  assumes "TrimSpace s \<noteq> []"
  shows "\<not> is_space (hd (TrimSpace s))" "\<not> is_space (last (TrimSpace s))"
proof -
  let ?d = "dropWhile trim_char s"
  have t: "TrimSpace s = rev (dropWhile trim_char (rev ?d))" by (simp add: TrimSpace_def)
  then have ne: "dropWhile trim_char (rev ?d) \<noteq> []" using assms by auto
  have "\<not> trim_char (last (TrimSpace s))"
    using hd_dropWhile [OF ne] ne by (simp add: t last_rev)
  then show "\<not> is_space (last (TrimSpace s))" by (simp add: trim_char_def)
  have "?d \<noteq> []"
  proof
    assume "?d = []"
    with ne show False by (simp only: rev.simps dropWhile.simps)
  qed
  then have hd: "\<not> trim_char (hd ?d)" by (rule hd_dropWhile)
  obtain u where "rev ?d = u @ dropWhile trim_char (rev ?d)"
    by (metis takeWhile_dropWhile_id)
  then have "?d = TrimSpace s @ rev u" by (metis t rev_append rev_rev_ident)
  then have "hd ?d = hd (TrimSpace s)" using assms by (metis hd_append2)
  with hd show "\<not> is_space (hd (TrimSpace s))" by (simp add: trim_char_def)
qed

text \<open>
  Also: a title has no spaces at its ends, no two spaces in a row and no space but the blank.
\<close>

theorem title_normalised:
  "let t = ExtractTitle H html in
   (\<forall>c \<in> set t. is_space c \<longrightarrow> c = CHR '' '') \<and> successively (\<lambda>x y. \<not> (is_space x \<and> is_space y)) t \<and>
   (t = [] \<or> \<not> is_space (hd t) \<and> \<not> is_space (last t))"
proof -
  have "t = [] \<or> \<not> is_space (hd t) \<and> \<not> is_space (last t)" if t: "t = squeeze False (TrimSpace s)" for s t
  proof (cases "TrimSpace s")
    case (Cons c cs)
    note e = TrimSpace_ends [of s]
    have "\<not> is_space (last t)" using squeeze_last [of "TrimSpace s" False] e Cons by (simp add: t)
    moreover have "\<not> is_space (hd t)" using e Cons by (simp add: t)
    ultimately show ?thesis by simp
  qed (simp add: t)
  then show ?thesis
    by (auto simp: ExtractTitle_def Let_def squeeze_no_double [simplified] dest: squeeze_only_blanks split: sum.splits)
qed

theorem title_normalised_witness:
  "CHR 0x0A \<notin> set (ExtractTitle \<lparr>new_document = (\<lambda>s. Inr \<lparr>doc_titles = [s], doc_count = (\<lambda>t. 0), doc_hrefs = [], doc_forms = []\<rparr>),
       parse_url = (\<lambda>s. Inl ErrNoRows), url_text = (\<lambda>u. []), resolve_ref = (\<lambda>a b. b)\<rparr> ''  a   b '')"
  using title_normalised [of "\<lparr>new_document = (\<lambda>s. Inr \<lparr>doc_titles = [s], doc_count = (\<lambda>t. 0), doc_hrefs = [], doc_forms = []\<rparr>),
       parse_url = (\<lambda>s. Inl ErrNoRows), url_text = (\<lambda>u. []), resolve_ref = (\<lambda>a b. b)\<rparr>" "''  a   b ''"]
  by (auto simp: Let_def is_space_def)

text \<open>A link that the loop has collected from the attributes \<open>hs\<close>.\<close>

definition link_from :: "html_env \<Rightarrow> url \<Rightarrow> string option list \<Rightarrow> link \<Rightarrow> bool" where
  "link_from H base hs l \<longleftrightarrow> link_url l \<noteq> [] \<and>
     (\<exists>href u. Some href \<in> set hs \<and> \<not> skipped_href href (link_url l) \<and> parse_url H href = Inr u \<and>
        link_url l = url_text H (resolve_ref H base u) \<and>
        (link_type l = LinkTypeInternal \<longleftrightarrow> Host (resolve_ref H base u) = Host base))"

lemma link_from_Cons: "link_from H base hs l \<Longrightarrow> link_from H base (h # hs) l"
  by (auto simp: link_from_def)

lemma collect_links_urls:
  "distinct (map link_url (collect_links H base seen hs)) \<and>
   (\<forall>l \<in> set (collect_links H base seen hs). link_url l \<notin> set seen \<and> link_from H base hs l)"
proof (induction hs arbitrary: seen)
  case (Cons h hs)
  let ?r = "\<lambda>u. resolve_ref H base u"
  consider (skip) "collect_links H base seen (h # hs) = collect_links H base seen hs"
    | (drop) u where "collect_links H base seen (h # hs) = collect_links H base (url_text H (?r u) # seen) hs"
    | (add) href u where "h = Some href" "parse_url H href = Inr u" "url_text H (?r u) \<notin> set seen"
        "\<not> skipped_href href (url_text H (?r u))"
        "collect_links H base seen (h # hs) =
          \<lparr>link_url = url_text H (?r u),
           link_type = (if Host (?r u) = Host base then LinkTypeInternal else LinkTypeExternal)\<rparr>
          # collect_links H base (url_text H (?r u) # seen) hs"
  proof (cases h)
    case None
    then show thesis using skip by simp
  next
    case h: (Some href)
    show thesis
    proof (cases "href = [] \<or> (\<exists>e. parse_url H href = Inl e)")
      case True
      then show thesis using skip h by auto
    next
      case False
      then obtain u where u: "href \<noteq> []" "parse_url H href = Inr u" by (cases "parse_url H href") auto
      show thesis
      proof (cases "url_text H (?r u) \<in> set seen")
        case True
        then show thesis using skip h u by (simp add: Let_def)
      next
        case f: False
        show thesis
        proof (cases "skipped_href href (url_text H (?r u))")
          case True
          then show thesis using drop [of u] h u f by (simp add: Let_def)
        next
          case False
          then show thesis using add [of href u] h u f by (simp add: Let_def)
        qed
      qed
    qed
  qed
  then show ?case
  proof cases
    case skip
    show ?thesis unfolding skip using Cons [of seen] link_from_Cons by blast
  next
    case drop
    show ?thesis unfolding drop using Cons [of "url_text H (?r u) # seen"] link_from_Cons by auto
  next
    case add
    have "link_from H base (h # hs) \<lparr>link_url = url_text H (?r u),
        link_type = (if Host (?r u) = Host base then LinkTypeInternal else LinkTypeExternal)\<rparr>"
      using add(1,2,4) by (auto simp: link_from_def skipped_href_def)
    then show ?thesis
      unfolding add(5) using Cons [of "url_text H (?r u) # seen"] add(3) link_from_Cons by auto
  qed
qed simp

lemma count_links_spec:
  "la_internal_count (count_links ls a) = la_internal_count a + int (length (filter (\<lambda>l. link_type l = LinkTypeInternal) ls)) \<and>
   la_external_count (count_links ls a) = la_external_count a + int (length (filter (\<lambda>l. link_type l = LinkTypeExternal) ls)) \<and>
   la_total_count (count_links ls a) = la_total_count a \<and>
   elems (la_external_links (count_links ls a)) =
     elems (la_external_links a) @ filter (\<lambda>l. link_type l = LinkTypeExternal) ls"
  by (induction ls arbitrary: a) (auto split: link_type.splits)

lemma two_kinds: "length (filter (\<lambda>l. link_type l = LinkTypeInternal) ls) + length (filter (\<lambda>l. link_type l = LinkTypeExternal) ls) = length ls"
proof (induction ls)
  case (Cons l ls)
  then show ?case by (cases "link_type l") auto
qed simp

text \<open>
  Also: the links of an analysis: the total is the sum of internal and external links, the external
  links are counted and listed, no URL occurs twice, and each listed URL is what some link of the
  page resolves to, has another host than the page, and comes from no anchor, \<open>javascript:\<close>, \<open>mailto:\<close>
  or \<open>tel:\<close> link.
\<close>

theorem links_analysed:
  "let a = analyze_links H html url; ls = elems (la_external_links a) in
   la_total_count a = la_internal_count a + la_external_count a \<and>
   la_external_count a = int (length ls) \<and> distinct (map link_url ls) \<and>
   (\<forall>l \<in> set ls. link_type l = LinkTypeExternal \<and> link_url l \<noteq> [] \<and>
      (\<exists>base href u. parse_url H url = Inr base \<and> parse_url H href = Inr u \<and> \<not> skipped_href href (link_url l) \<and>
         link_url l = url_text H (resolve_ref H base u) \<and> Host (resolve_ref H base u) \<noteq> Host base))"
proof (cases "ExtractLinks H html url")
  case (Inl e)
  then show ?thesis by (simp add: analyze_links_def no_links_def Let_def)
next
  case (Inr ls)
  then obtain doc base where d: "new_document H html = Inr doc" "parse_url H url = Inr base"
      "ls = collect_links H base [] (doc_hrefs doc)"
    by (auto simp: ExtractLinks_def split: sum.splits)
  let ?a = "count_links ls (no_links (int (length ls)))"
  let ?e = "filter (\<lambda>l. link_type l = LinkTypeExternal) ls"
  have a: "analyze_links H html url = ?a" using Inr by (simp add: analyze_links_def)
  note spec = count_links_spec [of ls "no_links (int (length ls))"]
  note urls = collect_links_urls [of H base "[]" "doc_hrefs doc", folded d(3)]
  have el: "elems (la_external_links ?a) = ?e" using spec by (simp add: no_links_def)
  have "la_total_count ?a = la_internal_count ?a + la_external_count ?a"
    using spec two_kinds [of ls] by (simp add: no_links_def)
  moreover have "la_external_count ?a = int (length ?e)" using spec by (simp add: no_links_def)
  moreover have "distinct (map link_url ?e)" using urls by (simp add: distinct_map_filter)
  moreover have "link_type l = LinkTypeExternal \<and> link_url l \<noteq> [] \<and>
      (\<exists>base href u. parse_url H url = Inr base \<and> parse_url H href = Inr u \<and> \<not> skipped_href href (link_url l) \<and>
         link_url l = url_text H (resolve_ref H base u) \<and> Host (resolve_ref H base u) \<noteq> Host base)"
    if l: "l \<in> set ?e" for l
  proof -
    have "link_from H base (doc_hrefs doc) l" using urls l by auto
    then obtain href u where "\<not> skipped_href href (link_url l)" "parse_url H href = Inr u"
      "link_url l = url_text H (resolve_ref H base u)"
      "link_type l = LinkTypeInternal \<longleftrightarrow> Host (resolve_ref H base u) = Host base" "link_url l \<noteq> []"
      unfolding link_from_def by blast
    with l d(2) show ?thesis by auto
  qed
  ultimately show ?thesis by (simp only: a el Let_def) blast
qed

definition sample_html :: html_env where
  "sample_html = \<lparr>new_document = (\<lambda>s. Inr \<lparr>doc_titles = [s], doc_count = (\<lambda>t. 0),
       doc_hrefs = [Some ''http://c.d/x'', Some ''#top'', Some ''http://c.d/x'', Some ''http://a.b/y''],
       doc_forms = [\<lparr>fe_method = Some ''post'', fe_action = Some ''http://a.b/login'',
         fe_names = [Some ''user'', None, Some ''user'', Some ''pass''], fe_passwords = 1\<rparr>]\<rparr>),
     parse_url = sample_Parse, url_text = sample_String, resolve_ref = (\<lambda>a b. b)\<rparr>"

theorem links_analysed_witness:
  "distinct (map link_url (elems (la_external_links (analyze_links sample_html [] ''http://a.b/''))))"
  using links_analysed [of sample_html "[]" "''http://a.b/''"] by (simp add: Let_def)

text \<open>
  Also: the forms of an analysis: as many login forms are listed as are counted, no more than there
  are forms; each has method POST and names each of its fields once, none of them empty; and the
  list is null, not empty, when there is none.
\<close>

theorem forms_analysed:
  "let a = ExtractForms H html url; ls = elems (fa_login_form_details a) in
   fa_login_forms_detected a = int (length ls) \<and> fa_login_forms_detected a \<le> fa_total_count a \<and>
   (\<forall>l \<in> set ls. lf_method l = ''POST'' \<and> distinct (elems (lf_fields l)) \<and> [] \<notin> set (elems (lf_fields l))) \<and>
   (fa_login_form_details a = None \<longleftrightarrow> fa_login_forms_detected a = 0)"
proof -
  have s: "elems (to_slice xs) = xs" "to_slice xs = None \<longleftrightarrow> xs = []" for xs :: "'x list"
    by (simp_all add: to_slice_def)
  have f: "distinct (field_names f)" "[] \<notin> set (field_names f)" for f
    using distinct_first_by [of "\<lambda>n. n" "[]" "filter (\<lambda>n. n \<noteq> []) (map name_of (fe_names f))"]
      set_first_by_subset [of "\<lambda>n. n" "[]" "filter (\<lambda>n. n \<noteq> []) (map name_of (fe_names f))"]
    by (auto simp: field_names_def)
  have l: "length (login_forms H base fs) \<le> length fs" for base fs
    by (simp add: login_forms_def length_filter_le)
  have m: "lf_method l = ''POST'' \<and> distinct (elems (lf_fields l)) \<and> [] \<notin> set (elems (lf_fields l))"
    if "l \<in> set (login_forms H base fs)" for base fs l
    using that f by (auto simp: login_forms_def isLikelyLoginForm_def s)
  show ?thesis
    by (auto simp: ExtractForms_def no_forms_def Let_def s l m split: sum.splits)
qed

theorem forms_analysed_witness:
  "fa_login_forms_detected (ExtractForms sample_html [] ''http://a.b/'') \<le> fa_total_count (ExtractForms sample_html [] ''http://a.b/'')"
  using forms_analysed [of sample_html "[]" "''http://a.b/''"] by (simp add: Let_def)

lemma write_field_commute:
  "write_field H url html j \<circ> write_field H url html k = write_field H url html k \<circ> write_field H url html j"
  by (cases j; cases k) (simp_all add: fun_eq_iff write_field_def)

text \<open>
  Also: the goroutines of an analysis may run in any order: the result is the same. It has what the
  options ask for and zero values for what they do not, and there is never an error.
\<close>

theorem analysis_order_irrelevant:
  assumes "mset (sched (writers options)) = mset (writers options)"
  shows "Analyze H sched url html options =
    Inr (zero_data\<lparr>ad_html_version := ExtractHTMLVersion html, ad_title := ExtractTitle H html,
      ad_heading_counts := (if include_headings options then ExtractHeadingCounts H html else zero_counts),
      ad_links := analyze_links H html url,
      ad_forms := (if detect_forms options then ExtractForms H html url else no_forms)\<rparr>)"
proof -
  have "fold (write_field H url html) (sched (writers options)) = fold (write_field H url html) (writers options)"
    by (rule fold_multiset_equiv) (use assms write_field_commute in auto)
  then show ?thesis
    by (simp add: Analyze_def writers_def write_field_def zero_data_def)
qed

theorem analysis_order_irrelevant_witness:
  "\<exists>d. Analyze sample_html rev ''http://a.b/'' ''<!DOCTYPE html>'' \<lparr>include_headings = True, check_links = True, detect_forms = False, opt_timeout = 0\<rparr> = Inr d \<and>
     ad_title d = ExtractTitle sample_html ''<!DOCTYPE html>''"
  using analysis_order_irrelevant [of rev _ sample_html "''http://a.b/''" "''<!DOCTYPE html>''"] by simp

end
