(* ===== verification/Link_Checker.thy ===== *)
theory Link_Checker
  imports Web_Fetcher "HOL-Library.Multiset"
begin

text \<open>
  \<open>internal/adapters/link_checker.go\<close>. The HTTP client and the circuit breaker are those of the
  fetcher's theory. The goroutines of a check run one after the other, in the order that \<open>sched\<close>
  chooses; the theory \<open>Link_Workers\<close> has them with their semaphore and their mutex.
\<close>

record checker_config =
  MaxLinksToCheck :: nat
  check_timeout :: duration

definition checker_ReadyToTrip :: "nat \<Rightarrow> nat \<Rightarrow> bool" where
  "checker_ReadyToTrip requests failures \<longleftrightarrow> 5 \<le> requests \<and> 4 * requests \<le> 5 * failures"

fun filterExternalLinks :: "env \<Rightarrow> string list \<Rightarrow> link list \<Rightarrow> link list" where
  "filterExternalLinks env seen [] = []"
| "filterExternalLinks env seen (l # ls) =
     (if link_type l = LinkTypeInternal then filterExternalLinks env seen ls
      else if link_url l \<in> set seen then filterExternalLinks env seen ls
      else (case url_Parse env (link_url l) of
              Inl _ \<Rightarrow> filterExternalLinks env (link_url l # seen) ls
            | Inr _ \<Rightarrow> l # filterExternalLinks env (link_url l # seen) ls))"

text \<open>The result of a check: the status and, from 400 on, its text.\<close>

definition performLinkCheck ::
  "http_port \<Rightarrow> checker_config \<Rightarrow> string \<Rightarrow> world \<Rightarrow> (int \<times> string) result \<times> world" where
  "performLinkCheck H cfg url w =
     (let (r, w1) =
        (case http_head H (tick w) (check_timeout cfg) url of
           Inr resp \<Rightarrow> (Inr resp, w\<lparr>tick := Suc (tick w)\<rparr>)
         | Inl _ \<Rightarrow> (http_get H (Suc (tick w)) (check_timeout cfg) url, w\<lparr>tick := Suc (Suc (tick w))\<rparr>))
      in case r of
           Inl e \<Rightarrow> (Inl e, w1)
         | Inr resp \<Rightarrow> (Inr (hr_status resp, if 400 \<le> hr_status resp then hr_status_text resp else []), w1))"

definition checkSingleLink ::
  "http_port \<Rightarrow> checker_config \<Rightarrow> link \<Rightarrow> world \<Rightarrow> inaccessible_link option \<times> world" where
  "checkSingleLink H cfg l w =
     (case breaker_execute H (performLinkCheck H cfg (link_url l)) w of
        (Inl e, w1) \<Rightarrow>
          (Some (if errors_Is e ErrOpenState
                 then \<lparr>il_url = link_url l, il_status_code = 503,
                       il_error = ''Service temporarily unavailable (circuit breaker open)''\<rparr>
                 else \<lparr>il_url = link_url l, il_status_code = 0, il_error = Error e\<rparr>),
           record_metric (LinkMetric False (link_type l)) w1)
      | (Inr (status, text), w1) \<Rightarrow>
          if 400 \<le> status then
            (Some \<lparr>il_url = link_url l, il_status_code = status, il_error = text\<rparr>,
             record_metric (LinkMetric False (link_type l)) w1)
          else (None, record_metric (LinkMetric True (link_type l)) w1))"

fun checkLinks ::
  "http_port \<Rightarrow> checker_config \<Rightarrow> link list \<Rightarrow> inaccessible_link slice \<Rightarrow> world \<Rightarrow>
     inaccessible_link slice \<times> world" where
  "checkLinks H cfg [] acc w = (acc, w)"
| "checkLinks H cfg (l # ls) acc w =
     (case checkSingleLink H cfg l w of
        (None, w1) \<Rightarrow> checkLinks H cfg ls acc w1
      | (Some bad, w1) \<Rightarrow> checkLinks H cfg ls (go_append acc bad) w1)"

definition links_to_check :: "env \<Rightarrow> checker_config \<Rightarrow> link list \<Rightarrow> link list" where
  "links_to_check env cfg links = take (MaxLinksToCheck cfg) (filterExternalLinks env [] links)"

definition CheckAccessibility ::
  "(link list \<Rightarrow> link list) \<Rightarrow> http_port \<Rightarrow> checker_config \<Rightarrow> env \<Rightarrow> link list \<Rightarrow> world \<Rightarrow>
     inaccessible_link slice \<times> world" where
  "CheckAccessibility sched H cfg env links w =
     (if links = [] then (Some [], w)
      else checkLinks H cfg (sched (links_to_check env cfg links)) None w)"

section \<open>Properties\<close>

lemma filterExternal_spec:
  "distinct (map link_url (filterExternalLinks env seen ls)) \<and>
   set (filterExternalLinks env seen ls) \<subseteq> set ls \<and>
   (\<forall>l \<in> set (filterExternalLinks env seen ls).
      link_type l = LinkTypeExternal \<and> link_url l \<notin> set seen \<and> (\<exists>u. url_Parse env (link_url l) = Inr u))"
proof (induction ls arbitrary: seen)
  case (Cons l ls)
  show ?case
    using Cons [of seen] Cons [of "link_url l # seen"]
    by (cases "link_type l"; cases "link_url l \<in> set seen"; cases "url_Parse env (link_url l)") auto
qed simp

lemma performLinkCheck_tables:
  "performLinkCheck H cfg u w = (r, w') \<Longrightarrow>
   analysis_tab w' = analysis_tab w \<and> outbox_tab w' = outbox_tab w \<and> metrics w' = metrics w \<and>
   (\<forall>s t. r = Inr (s, t) \<longrightarrow> (400 \<le> s \<or> t = []))"
  by (auto simp: performLinkCheck_def Let_def split: sum.splits if_splits)

definition bad_link :: "link \<Rightarrow> inaccessible_link \<Rightarrow> bool" where
  "bad_link l b \<longleftrightarrow> il_url b = link_url l \<and> (il_status_code b = 0 \<or> 400 \<le> il_status_code b)"

lemma checkSingleLink_spec:
  assumes "checkSingleLink H cfg l w = (r, w')"
  shows "analysis_tab w' = analysis_tab w \<and> outbox_tab w' = outbox_tab w \<and>
    metrics w' = metrics w @ [LinkMetric (r = None) (link_type l)] \<and> (\<forall>b. r = Some b \<longrightarrow> bad_link l b)"
proof -
  obtain q w1 where e: "breaker_execute H (performLinkCheck H cfg (link_url l)) w = (q, w1)" by force
  then have w1: "analysis_tab w1 = analysis_tab w" "outbox_tab w1 = outbox_tab w" "metrics w1 = metrics w"
    using performLinkCheck_tables by (auto simp: breaker_execute_def split: option.splits)
  show ?thesis
  proof (cases q)
    case (Inl err)
    with assms e w1 show ?thesis
      by (auto simp: checkSingleLink_def bad_link_def record_metric_def)
  next
    case (Inr st)
    with assms e w1 show ?thesis
      by (cases st) (auto simp: checkSingleLink_def bad_link_def record_metric_def split: if_splits)
  qed
qed

lemma checkLinks_spec:
  assumes "checkLinks H cfg ls acc w = (r, w')"
  shows "analysis_tab w' = analysis_tab w \<and> outbox_tab w' = outbox_tab w \<and>
    (\<exists>bs. elems r = elems acc @ bs \<and> subseq (map il_url bs) (map link_url ls) \<and>
       (\<forall>b \<in> set bs. \<exists>l \<in> set ls. bad_link l b) \<and> (\<exists>ms. metrics w' = metrics w @ ms \<and> length ms = length ls \<and>
       length (filter (\<lambda>m. \<exists>t. m = LinkMetric False t) ms) = length bs))"
  using assms
proof (induction ls arbitrary: acc w)
  case (Cons l ls)
  obtain q w1 where s: "checkSingleLink H cfg l w = (q, w1)" by force
  note sp = checkSingleLink_spec [OF s]
  show ?case
  proof (cases q)
    case None
    then have "checkLinks H cfg ls acc w1 = (r, w')" using Cons.prems s by simp
    from Cons.IH [OF this] obtain bs ms where
      i: "analysis_tab w' = analysis_tab w1" "outbox_tab w' = outbox_tab w1" "elems r = elems acc @ bs"
        "subseq (map il_url bs) (map link_url ls)" "\<forall>b \<in> set bs. \<exists>l \<in> set ls. bad_link l b"
        "metrics w' = metrics w1 @ ms" "length ms = length ls"
        "length (filter (\<lambda>m. \<exists>t. m = LinkMetric False t) ms) = length bs" by blast
    show ?thesis
      by (intro conjI exI [of _ bs] exI [of _ "LinkMetric True (link_type l) # ms"]) (use i sp None in auto)
  next
    case (Some b)
    then have "checkLinks H cfg ls (go_append acc b) w1 = (r, w')" using Cons.prems s by simp
    from Cons.IH [OF this] obtain bs ms where
      i: "analysis_tab w' = analysis_tab w1" "outbox_tab w' = outbox_tab w1" "elems r = elems (go_append acc b) @ bs"
        "subseq (map il_url bs) (map link_url ls)" "\<forall>b \<in> set bs. \<exists>l \<in> set ls. bad_link l b"
        "metrics w' = metrics w1 @ ms" "length ms = length ls"
        "length (filter (\<lambda>m. \<exists>t. m = LinkMetric False t) ms) = length bs" by blast
    have "bad_link l b" using sp Some by simp
    then show ?thesis
      by (intro conjI exI [of _ "b # bs"] exI [of _ "LinkMetric False (link_type l) # ms"])
         (use i sp Some in \<open>auto simp: bad_link_def\<close>)
  qed
qed auto

lemma subseq_distinct: "subseq xs ys \<Longrightarrow> distinct ys \<Longrightarrow> distinct xs"
  by (induction rule: list_emb.induct) (auto dest: list_emb_set)

lemma CheckAccessibility_frame:
  "CheckAccessibility sched H cfg env ls w = (r, w') \<Longrightarrow> analysis_tab w' = analysis_tab w \<and> outbox_tab w' = outbox_tab w"
  using checkLinks_spec [of H cfg _ None w r w'] by (auto simp: CheckAccessibility_def split: if_splits)


definition sample_links :: "link list" where
  "sample_links = [\<lparr>link_url = ''http://c.d/x'', link_type = LinkTypeExternal\<rparr>,
     \<lparr>link_url = ''http://a.b/y'', link_type = LinkTypeInternal\<rparr>,
     \<lparr>link_url = ''http://c.d/x'', link_type = LinkTypeExternal\<rparr>]"

definition sample_checker :: checker_config where
  "sample_checker = \<lparr>MaxLinksToCheck = 100, check_timeout = 10 * Second\<rparr>"


end
