(* ===== verification/Queue.thy ===== *)
theory Queue
  imports Publisher
begin

text \<open>
  \<open>pkg/queue\<close>: the client of the message broker. The connection and its channel wrapper
  (\<open>queue.go\<close>, \<open>channel.go\<close>), messages and what a consumer tells the broker of them
  (\<open>message.go\<close>), and the loops that deliver messages to a handler. What the broker does is the
  environment: each request to it is a call that can fail. The connection can be lost at any time.
\<close>

section \<open>The channel wrapper\<close>

record channel_queue =
  cq_name :: string
  cq_durable :: bool
  cq_exclusive :: bool

record channel_exchange =
  ce_name :: string
  ce_kind :: string
  ce_durable :: bool

record channel_binding =
  cb_queue :: string
  cb_key :: string
  cb_exchange :: string

record channel_wrapper =
  ch_canceled :: bool
  ch_closed :: bool
  autoDeletedQueues :: "channel_queue list"
  autoDeletedQueueBindings :: "channel_binding list"
  autoDeletedExchanges :: "channel_exchange list"

definition new_channel :: channel_wrapper where
  "new_channel = \<lparr>ch_canceled = False, ch_closed = False, autoDeletedQueues = [],
     autoDeletedQueueBindings = [], autoDeletedExchanges = []\<rparr>"

definition amqp_ErrClosed :: error where
  "amqp_ErrClosed = ErrText ''channel/connection is not open''"

text \<open>A request to the broker whose effect the model does not look at.\<close>

definition amqp_call :: "env \<Rightarrow> world \<Rightarrow> unit result \<times> world" where
  "amqp_call env w = statement env (\<lambda>w. Inr ((), w)) w"

definition channel_Close :: "env \<Rightarrow> channel_wrapper \<Rightarrow> world \<Rightarrow> unit result \<times> channel_wrapper \<times> world" where
  "channel_Close env ch w =
     (if ch_closed ch then (Inl amqp_ErrClosed, ch, w)
      else (case amqp_call env w of (r, w1) \<Rightarrow> (r, ch\<lparr>ch_closed := True\<rparr>, w1)))"

definition channel_cancel :: "env \<Rightarrow> channel_wrapper \<Rightarrow> world \<Rightarrow> unit result \<times> channel_wrapper \<times> world" where
  "channel_cancel env ch w =
     (case amqp_call env w of
        (Inl e, w1) \<Rightarrow> (Inl e, ch, w1)
      | (Inr _, w1) \<Rightarrow> (Inr (), ch\<lparr>ch_canceled := True\<rparr>, w1))"

definition exchangeDeclare ::
  "env \<Rightarrow> string \<Rightarrow> string \<Rightarrow> bool \<Rightarrow> bool \<Rightarrow> channel_wrapper \<Rightarrow> world \<Rightarrow> unit result \<times> channel_wrapper \<times> world" where
  "exchangeDeclare env nm kind durable autoDelete ch w =
     (let ch = (if autoDelete
                then ch\<lparr>autoDeletedExchanges := autoDeletedExchanges ch @
                         [\<lparr>ce_name = nm, ce_kind = kind, ce_durable = durable\<rparr>]\<rparr>
                else ch)
      in case amqp_call env w of (r, w1) \<Rightarrow> (r, ch, w1))"

definition queueDeclare ::
  "env \<Rightarrow> string \<Rightarrow> bool \<Rightarrow> bool \<Rightarrow> bool \<Rightarrow> channel_wrapper \<Rightarrow> world \<Rightarrow> unit result \<times> channel_wrapper \<times> world" where
  "queueDeclare env nm durable autoDelete exclusive ch w =
     (let ch = (if autoDelete
                then ch\<lparr>autoDeletedQueues := autoDeletedQueues ch @
                         [\<lparr>cq_name = nm, cq_durable = durable, cq_exclusive = exclusive\<rparr>]\<rparr>
                else ch)
      in case amqp_call env w of (r, w1) \<Rightarrow> (r, ch, w1))"

definition queueBind ::
  "env \<Rightarrow> string \<Rightarrow> string \<Rightarrow> string \<Rightarrow> channel_wrapper \<Rightarrow> world \<Rightarrow> unit result \<times> channel_wrapper \<times> world" where
  "queueBind env nm key exchange ch w =
     (let b = \<lparr>cb_queue = nm, cb_key = key, cb_exchange = exchange\<rparr>;
          bound = (if \<exists>q\<in>set (autoDeletedQueues ch). nm = cq_name q
                   then ch\<lparr>autoDeletedQueueBindings := autoDeletedQueueBindings ch @ [b]\<rparr>
                   else if \<exists>e\<in>set (autoDeletedExchanges ch). ce_name e = exchange
                   then ch\<lparr>autoDeletedQueueBindings := autoDeletedQueueBindings ch @ [b]\<rparr>
                   else ch)
      in case amqp_call env w of (r, w1) \<Rightarrow> (r, bound, w1))"

definition channel_publish ::
  "env \<Rightarrow> string \<Rightarrow> string \<Rightarrow> (string \<times> header) list \<Rightarrow> json \<Rightarrow> world \<Rightarrow> unit result \<times> world" where
  "channel_publish env exchange key hs body w =
     statement env (\<lambda>w. Inr ((), w\<lparr>bus := bus w @
       [\<lparr>msg_exchange = exchange, msg_routing_key = key, msg_headers = hs, msg_body = body\<rparr>]\<rparr>)) w"

text \<open>
  The goroutine of \<open>consume\<close>. Each round asks the broker for a channel of deliveries: the request
  fails, or the deliveries come until the broker ends them; the flags are read after a session, and
  only then. The loop need not end: its value is \<open>None\<close> when it does not, else what was forwarded.
\<close>

datatype 'd session =
    ConsumeFails
  | Session "'d list" bool bool  \<comment> \<open>deliveries, \<open>isClosed\<close> and \<open>isCanceled\<close> after them\<close>

partial_function (option) consume :: "(nat \<Rightarrow> 'd session) \<Rightarrow> nat \<Rightarrow> 'd list option" where
  "consume sessions n =
     (case sessions n of
        ConsumeFails \<Rightarrow> consume sessions (Suc n)
      | Session ds cl ca \<Rightarrow>
          if cl \<or> ca then Some ds
          else Option.bind (consume sessions (Suc n)) (\<lambda>more. Some (ds @ more)))"

section \<open>The connection\<close>

record rabbit =
  q_conn :: "bool option"  \<comment> \<open>\<open>conn\<close>: nil, or whether it is closed\<close>
  q_channel :: "channel_wrapper option"
  q_closed :: bool

definition NewRabbitMQQueue :: rabbit where
  "NewRabbitMQQueue = \<lparr>q_conn = None, q_channel = None, q_closed = False\<rparr>"

definition IsConnected :: "rabbit \<Rightarrow> bool" where
  "IsConnected q = (q_conn q = Some False)"

definition not_connected :: error where
  "not_connected = ErrText ''not connected to RabbitMQ''"

definition Connect :: "env \<Rightarrow> rabbit \<Rightarrow> world \<Rightarrow> unit result \<times> rabbit \<times> world" where
  "Connect env q w =
     (if q_conn q = Some False then (Inr (), q, w)
      else (case amqp_call env w of
              (Inl e, w1) \<Rightarrow> (Inl (ErrWrap ''failed to connect to RabbitMQ'' e), q\<lparr>q_conn := None\<rparr>, w1)
            | (Inr _, w1) \<Rightarrow>
                (case amqp_call env w1 of
                   (Inl e, w2) \<Rightarrow>
                     (Inl (ErrWrap ''failed to open channel'' e), q\<lparr>q_conn := Some True\<rparr>, snd (amqp_call env w2))
                 | (Inr _, w2) \<Rightarrow> (Inr (), q\<lparr>q_conn := Some False, q_channel := Some new_channel\<rparr>, w2))))"

definition queue_Close :: "env \<Rightarrow> rabbit \<Rightarrow> world \<Rightarrow> unit result \<times> rabbit \<times> world" where
  "queue_Close env q w =
     (let (ch, w1) = (case q_channel q of
                        None \<Rightarrow> (None, w)
                      | Some c \<Rightarrow> (case channel_Close env c w of (_, c', w1) \<Rightarrow> (Some c', w1)));
          q1 = q\<lparr>q_closed := True, q_channel := ch\<rparr>
      in if q_conn q = Some False
         then (case amqp_call env w1 of (r, w2) \<Rightarrow> (r, q1\<lparr>q_conn := Some True\<rparr>, w2))
         else (Inr (), q1, w1))"

text \<open>
  The operations on the channel: refused without a connection; the channel is then there, or the
  program stops on a nil pointer, which the value \<open>None\<close> stands for.
\<close>

definition on_channel ::
  "rabbit \<Rightarrow> (channel_wrapper \<Rightarrow> world \<Rightarrow> unit result \<times> channel_wrapper \<times> world) \<Rightarrow> world \<Rightarrow>
     (unit result \<times> rabbit \<times> world) option" where
  "on_channel q f w =
     (if \<not> IsConnected q then Some (Inl not_connected, q, w)
      else map_option (\<lambda>ch. case f ch w of (r, ch', w1) \<Rightarrow> (r, q\<lparr>q_channel := Some ch'\<rparr>, w1)) (q_channel q))"

definition DeclareExchange :: "env \<Rightarrow> string \<Rightarrow> string \<Rightarrow> bool \<Rightarrow> bool \<Rightarrow> rabbit \<Rightarrow> world \<Rightarrow> (unit result \<times> rabbit \<times> world) option" where
  "DeclareExchange env nm kind durable autoDelete q = on_channel q (exchangeDeclare env nm kind durable autoDelete)"

definition DeclareQueue :: "env \<Rightarrow> string \<Rightarrow> bool \<Rightarrow> bool \<Rightarrow> rabbit \<Rightarrow> world \<Rightarrow> (unit result \<times> rabbit \<times> world) option" where
  "DeclareQueue env nm durable autoDelete q = on_channel q (queueDeclare env nm durable autoDelete False)"

definition BindQueue :: "env \<Rightarrow> string \<Rightarrow> string \<Rightarrow> string \<Rightarrow> rabbit \<Rightarrow> world \<Rightarrow> (unit result \<times> rabbit \<times> world) option" where
  "BindQueue env nm key exchange q = on_channel q (queueBind env nm key exchange)"

definition PublishWithOptions ::
  "env \<Rightarrow> string \<Rightarrow> string \<Rightarrow> json \<Rightarrow> rabbit \<Rightarrow> world \<Rightarrow> (unit result \<times> rabbit \<times> world) option" where
  "PublishWithOptions env exchange key payload q =
     on_channel q (\<lambda>ch w. case channel_publish env exchange key [] (Message_marshal payload) w of
       (r, w1) \<Rightarrow> (r, ch, w1))"

section \<open>Messages\<close>

text \<open>
  A number that passes through a value of type \<open>any\<close> is a \<open>float64\<close> on its way: exact up to
  \<open>2 ^ 53\<close>, beyond that rounded to 53 bits and written with the fewest digits that read back as the
  same \<open>float64\<close>.
\<close>

fun bit_len :: "nat \<Rightarrow> nat" where
  "bit_len n = (if n = 0 then 0 else Suc (bit_len (n div 2)))"

declare bit_len.simps [simp del]

definition round_to :: "nat \<Rightarrow> nat \<Rightarrow> nat" where
  "round_to m n =
     (let q = n div m; r = n mod m
      in if 2 * r < m \<or> 2 * r = m \<and> even q then q * m else (q + 1) * m)"

definition float64_of_nat :: "nat \<Rightarrow> nat" where
  "float64_of_nat n = round_to (2 ^ (bit_len n - 53)) n"

definition shortest_digits :: "nat \<Rightarrow> nat" where
  "shortest_digits f =
     (let cands = concat (map (\<lambda>k. [round_to (10 ^ k) f, f div 10 ^ k * 10 ^ k, (f div 10 ^ k + 1) * 10 ^ k])
                           (rev [0..<25]))
      in case List.find (\<lambda>c. float64_of_nat c = f) cands of None \<Rightarrow> f | Some c \<Rightarrow> c)"

definition via_float64 :: "int \<Rightarrow> int" where
  "via_float64 n =
     (if \<bar>n\<bar> \<le> 2 ^ 53 then n else sgn n * int (shortest_digits (float64_of_nat (nat \<bar>n\<bar>))))"

fun as_any :: "json \<Rightarrow> json" where
  "as_any (JNum n) = JNum (via_float64 n)"
| "as_any (JArr js) = JArr (map as_any js)"
| "as_any (JObj ob) = JObj (map (\<lambda>(k, v). (k, as_any v)) ob)"
| "as_any JNull = JNull"
| "as_any (JBool b) = JBool b"
| "as_any (JStr s) = JStr s"
| "as_any (JTime t) = JTime t"

record delivery =
  dl_tag :: nat
  dl_headers :: "(string \<times> header) list"
  dl_body :: "json result"  \<comment> \<open>the body read as JSON text, or the error of that\<close>

record msg =
  m_body :: json
  m_delivery :: delivery

text \<open>\<open>json.Unmarshal(delivery.Body, &msgData)\<close> of \<open>StartConsumer\<close>.\<close>

definition decode_delivery :: "delivery \<Rightarrow> msg result" where
  "decode_delivery d =
     bind_result (dl_body d) (\<lambda>j.
     bind_result (json_struct (\<lambda>ob. json_field ''body'' (\<lambda>v. Inr (as_any v)) JNull ob) JNull j) (\<lambda>b.
       Inr \<lparr>m_body = b, m_delivery = d\<rparr>))"

definition Unmarshal :: "(json \<Rightarrow> 'a result) \<Rightarrow> msg \<Rightarrow> 'a result" where
  "Unmarshal dec m =
     (case dec (m_body m) of
        Inl e \<Rightarrow> Inl (ErrWrap ''could not unmarshal into target'' e)
      | Inr x \<Rightarrow> Inr x)"

definition retryCountHeader :: string where "retryCountHeader = ''x-retry-count''"
definition defaultMaxRetryCount :: int where "defaultMaxRetryCount = 10"

definition ErrRetryCountExceeded :: error where
  "ErrRetryCountExceeded = ErrText ''retries count exceeded''"

definition RetryCount :: "msg \<Rightarrow> int result" where
  "RetryCount m =
     (case map_of (dl_headers (m_delivery m)) retryCountHeader of
        None \<Rightarrow> Inr 0
      | Some HeaderOther \<Rightarrow> Inl (ErrText ''custom header x-retry-count does not contain a string'')
      | Some (HeaderString s) \<Rightarrow>
          (case atoi s of
             None \<Rightarrow> Inl (ErrText ''could not convert value to integer'')
           | Some n \<Rightarrow> Inr n))"

definition settle :: "env \<Rightarrow> settlement \<Rightarrow> delivery \<Rightarrow> world \<Rightarrow> unit result \<times> world" where
  "settle env s d w = statement env (\<lambda>w. Inr ((), w\<lparr>settled := settled w @ [(dl_tag d, s)]\<rparr>)) w"

definition ctrl_Ack :: "env \<Rightarrow> msg \<Rightarrow> world \<Rightarrow> unit result \<times> world" where
  "ctrl_Ack env m = settle env Acked (m_delivery m)"

definition ctrl_Nack :: "env \<Rightarrow> msg \<Rightarrow> world \<Rightarrow> unit result \<times> world" where
  "ctrl_Nack env m = settle env Nacked (m_delivery m)"

definition ctrl_Reject :: "env \<Rightarrow> msg \<Rightarrow> world \<Rightarrow> unit result \<times> world" where
  "ctrl_Reject env m = settle env Rejected (m_delivery m)"

definition Requeue :: "env \<Rightarrow> string \<Rightarrow> msg \<Rightarrow> world \<Rightarrow> unit result \<times> world" where
  "Requeue env topicName m w =
     (case RetryCount m of
        Inl e \<Rightarrow> (Inl (ErrWrap ''failed to get retry count'' e), w)
      | Inr n \<Rightarrow>
          if defaultMaxRetryCount < n then (Inl ErrRetryCountExceeded, w)
          else (case channel_publish env topicName topicName [(retryCountHeader, HeaderString (itoa (n + 1)))]
                       (Message_marshal (m_body m)) w of
                  (Inl e, w1) \<Rightarrow> (Inl (ErrWrap ''failed to re-publish message'' e), w1)
                | (Inr _, w1) \<Rightarrow>
                    (case settle env Acked (m_delivery m) w1 of
                       (Inl e, w2) \<Rightarrow> (Inl (ErrWrap ''failed to ack the message'' e), w2)
                     | (Inr _, w2) \<Rightarrow> (Inr (), w2))))"

section \<open>The consumer\<close>

text \<open>
  One delivery: nacked when it is no message, else given to the handler, whose error is only logged.
  The loop takes what the select statement chooses: a delivery, the end of the context, the end of
  the deliveries; it is still waiting (\<open>None\<close>) when nothing more happens.
\<close>

definition handle_delivery ::
  "env \<Rightarrow> (msg \<Rightarrow> world \<Rightarrow> unit result \<times> world) \<Rightarrow> delivery \<Rightarrow> world \<Rightarrow> world" where
  "handle_delivery env handler d w =
     (case decode_delivery d of
        Inl _ \<Rightarrow> snd (settle env Nacked d w)
      | Inr m \<Rightarrow> snd (handler m w))"

datatype consumer_event = Delivery delivery | DeliveriesClosed | ContextDone error

fun consumer_loop ::
  "env \<Rightarrow> (msg \<Rightarrow> world \<Rightarrow> unit result \<times> world) \<Rightarrow> consumer_event list \<Rightarrow> world \<Rightarrow> error option \<times> world" where
  "consumer_loop env handler [] w = (None, w)"
| "consumer_loop env handler (ContextDone e # _) w = (Some e, w)"
| "consumer_loop env handler (DeliveriesClosed # _) w = (Some (ErrText ''delivery channel closed''), w)"
| "consumer_loop env handler (Delivery d # es) w = consumer_loop env handler es (handle_delivery env handler d w)"

definition StartConsumer ::
  "env \<Rightarrow> rabbit \<Rightarrow> (msg \<Rightarrow> world \<Rightarrow> unit result \<times> world) \<Rightarrow> consumer_event list \<Rightarrow> world \<Rightarrow>
     (error option) result \<times> world" where
  "StartConsumer env q handler es w =
     (if \<not> IsConnected q then (Inl not_connected, w)
      else (case consumer_loop env handler es w of (r, w1) \<Rightarrow> (Inr r, w1)))"

section \<open>The connection is never used where there is none\<close>

datatype queue_op =
    OpConnect
  | OpClose
  | OpConnectionLost
  | OpDeclareExchange string string bool bool
  | OpDeclareQueue string bool bool
  | OpBindQueue string string string
  | OpPublish string string json

fun queue_exec :: "env \<Rightarrow> queue_op \<Rightarrow> rabbit \<Rightarrow> world \<Rightarrow> (unit result \<times> rabbit \<times> world) option" where
  "queue_exec env OpConnect q w = Some (Connect env q w)"
| "queue_exec env OpClose q w = Some (queue_Close env q w)"
| "queue_exec env OpConnectionLost q w = Some (Inr (), q\<lparr>q_conn := map_option (\<lambda>_. True) (q_conn q)\<rparr>, w)"
| "queue_exec env (OpDeclareExchange n k d a) q w = DeclareExchange env n k d a q w"
| "queue_exec env (OpDeclareQueue n d a) q w = DeclareQueue env n d a q w"
| "queue_exec env (OpBindQueue n k e) q w = BindQueue env n k e q w"
| "queue_exec env (OpPublish e k p) q w = PublishWithOptions env e k p q w"

inductive queue_reach :: "env \<Rightarrow> rabbit \<times> world \<Rightarrow> bool" for env where
  fresh: "queue_reach env (NewRabbitMQQueue, w)"
| step: "queue_reach env (q, w) \<Longrightarrow> queue_exec env op q w = Some (r, q', w') \<Longrightarrow> queue_reach env (q', w')"

definition connection_ok :: "rabbit \<Rightarrow> bool" where
  "connection_ok q \<longleftrightarrow> (IsConnected q \<longrightarrow> (\<exists>ch. q_channel q = Some ch \<and> \<not> ch_closed ch))"

lemma Connect_ok: "connection_ok q \<Longrightarrow> Connect env q w = (r, q', w') \<Longrightarrow> connection_ok q'"
  by (auto simp: Connect_def connection_ok_def IsConnected_def new_channel_def
      split: if_splits prod.splits sum.splits)

lemma queue_Close_down: "queue_Close env q w = (r, q', w') \<Longrightarrow> \<not> IsConnected q'"
  by (auto simp: queue_Close_def IsConnected_def Let_def split: if_splits prod.splits option.splits)

lemma on_channel_ok:
  assumes "on_channel q f w = Some (r, q', w')" "connection_ok q"
    and same: "\<And>ch w r ch' w'. f ch w = (r, ch', w') \<Longrightarrow> ch_closed ch' = ch_closed ch"
  shows "connection_ok q'"
proof (cases "IsConnected q")
  case True
  with assms(2) obtain ch where ch: "q_channel q = Some ch" "\<not> ch_closed ch"
    by (auto simp: connection_ok_def)
  obtain r1 ch1 w1 where f: "f ch w = (r1, ch1, w1)" by (metis prod_cases3)
  from assms(1) True ch f have "q' = q\<lparr>q_channel := Some ch1\<rparr>" by (simp add: on_channel_def)
  with same [OF f] ch show ?thesis by (simp add: connection_ok_def)
next
  case False
  with assms(1,2) show ?thesis by (simp add: on_channel_def)
qed

lemma on_channel_defined: "connection_ok q \<Longrightarrow> on_channel q f w \<noteq> None"
  by (cases "IsConnected q") (auto simp: on_channel_def connection_ok_def)

lemma on_channel_refused: "\<not> IsConnected q \<Longrightarrow> on_channel q f w = Some (Inl not_connected, q, w)"
  by (simp add: on_channel_def)

lemmas channel_op_defs = DeclareExchange_def DeclareQueue_def BindQueue_def PublishWithOptions_def

lemma channel_ops_keep_open:
  "exchangeDeclare env n k d a ch w = (r, ch', w') \<Longrightarrow> ch_closed ch' = ch_closed ch"
  "queueDeclare env n d a x ch w = (r, ch', w') \<Longrightarrow> ch_closed ch' = ch_closed ch"
  "queueBind env n k e ch w = (r, ch', w') \<Longrightarrow> ch_closed ch' = ch_closed ch"
  by (auto simp: exchangeDeclare_def queueDeclare_def queueBind_def Let_def split: prod.splits if_splits)

lemma queue_exec_ok:
  assumes "connection_ok q" "queue_exec env op q w = Some (r, q', w')"
  shows "connection_ok q'"
proof (cases op)
  case OpConnect
  with assms show ?thesis by (simp add: Connect_ok)
next
  case OpClose
  with assms have "\<not> IsConnected q'" by (auto dest: queue_Close_down)
  then show ?thesis by (simp add: connection_ok_def)
next
  case OpConnectionLost
  with assms show ?thesis by (cases "q_conn q") (auto simp: connection_ok_def IsConnected_def)
next
  case (OpDeclareExchange n k d a)
  with assms show ?thesis
    using on_channel_ok [OF _ assms(1) channel_ops_keep_open(1)] by (simp add: DeclareExchange_def)
next
  case (OpDeclareQueue n d a)
  with assms show ?thesis
    using on_channel_ok [OF _ assms(1) channel_ops_keep_open(2)] by (simp add: DeclareQueue_def)
next
  case (OpBindQueue n k e)
  with assms show ?thesis
    using on_channel_ok [OF _ assms(1) channel_ops_keep_open(3)] by (simp add: BindQueue_def)
next
  case (OpPublish e k p)
  with assms show ?thesis
    by (auto simp: PublishWithOptions_def split: prod.splits elim!: on_channel_ok)
qed

lemma queue_reach_ok: "queue_reach env s \<Longrightarrow> connection_ok (fst s)"
proof (induction rule: queue_reach.induct)
  case (fresh w)
  show ?case by (simp add: connection_ok_def IsConnected_def NewRabbitMQQueue_def)
next
  case (step q w op r q' w')
  then show ?case using queue_exec_ok by auto
qed

lemma queue_exec_defined: "connection_ok q \<Longrightarrow> queue_exec env op q w \<noteq> None"
  by (cases op) (simp_all only: queue_exec.simps channel_op_defs on_channel_defined option.distinct not_False_eq_True)

lemma down_stays_down:
  assumes "\<not> IsConnected q" "op \<noteq> OpConnect" "queue_exec env op q w = Some (r, q', w')"
  shows "\<not> IsConnected q' \<and> bus w' = bus w"
proof (cases op)
  case OpClose
  with assms(3) have "queue_Close env q w = (r, q', w')" by simp
  moreover from this have "bus w' = bus w"
    using assms(1)
    by (auto simp: queue_Close_def IsConnected_def channel_Close_def amqp_call_def statement_def call_def Let_def
        split: option.splits prod.splits if_splits outcome.splits)
  ultimately show ?thesis by (auto dest: queue_Close_down)
qed (use assms in \<open>auto simp: channel_op_defs on_channel_refused IsConnected_def\<close>)

text \<open>Also: In every state of the client that calls of its operations, connections lost in between,
  can lead to, an operation either is refused or finds a channel that the client has not closed: no
  nil channel is ever dereferenced.\<close>

theorem queue_never_without_channel:
  assumes "queue_reach env (q, w)"
  shows "queue_exec env op q w \<noteq> None \<and>
    (IsConnected q \<longrightarrow> (\<exists>ch. q_channel q = Some ch \<and> \<not> ch_closed ch))"
  using queue_reach_ok [OF assms] queue_exec_defined by (auto simp: connection_ok_def)

theorem queue_never_without_channel_witness:
  "\<exists>q w ch. queue_exec sample_env (OpPublish ''x'' ''k'' JNull) q w \<noteq> None \<and> IsConnected q \<and>
     q_channel q = Some ch \<and> \<not> ch_closed ch"
proof -
  have f: "queue_reach sample_env (NewRabbitMQQueue, empty_world)" by (rule queue_reach.fresh)
  obtain r q w where c: "Connect sample_env NewRabbitMQQueue empty_world = (r, q, w)" by (metis prod_cases3)
  have con: "IsConnected q"
    using c by (auto simp: Connect_def NewRabbitMQQueue_def amqp_call_def statement_def call_def IsConnected_def)
  have "queue_reach sample_env (q, w)"
    by (rule queue_reach.step [OF f, of OpConnect]) (simp add: c)
  from queue_never_without_channel [OF this] con show ?thesis by blast
qed

section \<open>A lost connection\<close>

fun queue_run :: "env \<Rightarrow> queue_op list \<Rightarrow> rabbit \<Rightarrow> world \<Rightarrow> (rabbit \<times> world) option" where
  "queue_run env [] q w = Some (q, w)"
| "queue_run env (op # ops) q w =
     (case queue_exec env op q w of None \<Rightarrow> None | Some (_, q', w') \<Rightarrow> queue_run env ops q' w')"

text \<open>Also: Nothing reconnects. Once the connection is lost, whatever operations other than
  \<open>Connect\<close> follow, the client stays disconnected, no message reaches the broker and every publish is
  refused; the documentation of the package promises an automatic reconnection, and the program calls
  \<open>Connect\<close> only at start-up.\<close>

theorem lost_connection_stays_lost:
  assumes "\<not> IsConnected q" "OpConnect \<notin> set ops" "queue_run env ops q w = Some (q', w')"
  shows "\<not> IsConnected q' \<and> bus w' = bus w \<and>
    PublishWithOptions env exchange key payload q' w' = Some (Inl not_connected, q', w')"
proof -
  have "\<not> IsConnected q' \<and> bus w' = bus w"
    using assms
  proof (induction ops arbitrary: q w)
    case (Cons op ops)
    then obtain r q1 w1 where e: "queue_exec env op q w = Some (r, q1, w1)" "queue_run env ops q1 w1 = Some (q', w')"
      by (auto split: option.splits)
    have "op \<noteq> OpConnect" using Cons.prems(2) by auto
    from down_stays_down [OF Cons.prems(1) this e(1)] Cons.IH [OF _ _ e(2)] Cons.prems(2) show ?case by simp
  qed simp
  then show ?thesis by (simp add: PublishWithOptions_def on_channel_refused)
qed

theorem lost_connection_stays_lost_witness:
  "\<not> IsConnected (NewRabbitMQQueue\<lparr>q_conn := Some True\<rparr>) \<and>
   PublishWithOptions sample_env ''x'' ''k'' JNull (NewRabbitMQQueue\<lparr>q_conn := Some True\<rparr>) empty_world =
     Some (Inl not_connected, NewRabbitMQQueue\<lparr>q_conn := Some True\<rparr>, empty_world)"
  using lost_connection_stays_lost [of "NewRabbitMQQueue\<lparr>q_conn := Some True\<rparr>" "[OpPublish ''x'' ''k'' JNull]"
      sample_env empty_world _ _ "''x''" "''k''" JNull]
  by (simp add: IsConnected_def PublishWithOptions_def on_channel_refused)

section \<open>The consuming loop\<close>

fun session_deliveries :: "'d session \<Rightarrow> 'd list" where
  "session_deliveries ConsumeFails = []"
| "session_deliveries (Session ds _ _) = ds"

fun stops :: "'d session \<Rightarrow> bool" where
  "stops ConsumeFails = False"
| "stops (Session _ cl ca) = (cl \<or> ca)"

lemma consume_stop: "stops (sessions n) \<Longrightarrow> consume sessions n = Some (session_deliveries (sessions n))"
  by (subst consume.simps) (auto split: session.splits)

lemma consume_go: "\<not> stops (sessions n) \<Longrightarrow>
  consume sessions n = map_option ((@) (session_deliveries (sessions n))) (consume sessions (Suc n))"
  by (subst consume.simps) (auto split: session.splits simp: map_option_case option.map_ident
      bind_eq_Some_conv cong: option.case_cong split: option.splits)

lemma consume_until:
  assumes "\<And>i. m \<le> i \<Longrightarrow> i < m + k \<Longrightarrow> \<not> stops (sessions i)" "stops (sessions (m + k))"
  shows "consume sessions m = Some (concat (map (session_deliveries \<circ> sessions) [m..<Suc (m + k)]))"
  using assms
proof (induction k arbitrary: m)
  case 0
  then show ?case by (simp add: consume_stop)
next
  case (Suc k)
  have "consume sessions (Suc m) = Some (concat (map (session_deliveries \<circ> sessions) [Suc m..<Suc (Suc m + k)]))"
    by (rule Suc.IH) (use Suc.prems in auto)
  moreover have "\<not> stops (sessions m)" using Suc.prems(1) [of m] by simp
  moreover have "[m..<Suc (m + Suc k)] = m # [Suc m..<Suc (Suc m + k)]" by (simp add: upt_conv_Cons del: upt_Suc)
  ultimately show ?case by (simp add: consume_go comp_def del: upt_Suc)
qed

lemma consume_raw:
  assumes "\<And>s n y. rec s n = Some y \<Longrightarrow> \<exists>i\<ge>n. stops (s i)"
    and "(case sessions n of
        ConsumeFails \<Rightarrow> rec sessions (Suc n)
      | Session ds cl ca \<Rightarrow>
          if cl \<or> ca then Some ds
          else Option.bind (rec sessions (Suc n)) (\<lambda>more. Some (ds @ more))) = Some ds"
  shows "\<exists>i\<ge>n. stops (sessions i)"
proof (cases "stops (sessions n)")
  case False
  with assms(2) obtain more where "rec sessions (Suc n) = Some more"
    by (cases "sessions n") (auto simp: bind_eq_Some_conv)
  from assms(1) [OF this] show ?thesis by (meson Suc_leD)
qed blast

lemma consume_Some: "consume sessions m = Some ds \<Longrightarrow> \<exists>n\<ge>m. stops (sessions n)"
  by (rule consume.raw_induct [where P = "\<lambda>sessions m ds. \<exists>n\<ge>m. stops (sessions n)"]) (erule consume_raw, assumption+)

text \<open>C39: What the consuming goroutine forwards, and when it ends. It ends exactly when some session of
  deliveries ends after the channel was closed or cancelled, and has then forwarded every delivery up to
  that point, in order. A request for deliveries that fails is only retried: the flags are not read, so
  a wrapper whose requests fail after it was closed is asked forever.\<close>

theorem consume_outcome:
  "case consume sessions m of
     None \<Rightarrow> (\<nexists>n. m \<le> n \<and> stops (sessions n))
   | Some ds \<Rightarrow> (\<exists>n. m \<le> n \<and> stops (sessions n) \<and> (\<nexists>i. m \<le> i \<and> i < n \<and> stops (sessions i)) \<and>
       ds = concat (map (session_deliveries \<circ> sessions) [m..<Suc n]))"
proof (cases "\<exists>n. m \<le> n \<and> stops (sessions n)")
  case True
  define n where "n = (LEAST n. m \<le> n \<and> stops (sessions n))"
  have n: "m \<le> n" "stops (sessions n)" using LeastI_ex [OF True] by (simp_all add: n_def)
  have l: "\<not> stops (sessions i)" if "m \<le> i" "i < n" for i
    using not_less_Least [of i "\<lambda>n. m \<le> n \<and> stops (sessions n)"] that by (auto simp: n_def)
  have "consume sessions m = Some (concat (map (session_deliveries \<circ> sessions) [m..<Suc (m + (n - m))]))"
    by (rule consume_until) (use n l in auto)
  then have "consume sessions m = Some (concat (map (session_deliveries \<circ> sessions) [m..<Suc n]))"
    using n(1) by (simp del: upt_Suc)
  then show ?thesis using n l by (auto simp del: upt_Suc)
next
  case False
  with consume_Some [of sessions m] have "consume sessions m = None"
    by (cases "consume sessions m") auto
  with False show ?thesis by simp
qed

section \<open>Requeueing\<close>

lemma atoi_count: "0 \<le> n \<Longrightarrow> n \<le> 11 \<Longrightarrow> atoi (itoa n) = Some n"
  by (rule atoi_itoa) (simp add: in_int64_def)

text \<open>The delivery the broker makes of the message that \<open>Requeue\<close> published, as its \<open>k\<close>-th redelivery.\<close>

definition redelivered :: "nat \<Rightarrow> msg \<Rightarrow> int \<Rightarrow> msg" where
  "redelivered tag m k = \<lparr>m_body = m_body m, m_delivery = \<lparr>dl_tag = tag,
     dl_headers = [(retryCountHeader, HeaderString (itoa k))], dl_body = Inr (Message_marshal (m_body m))\<rparr>\<rparr>"

lemma RetryCount_redelivered: "0 \<le> k \<Longrightarrow> k \<le> 11 \<Longrightarrow> RetryCount (redelivered tag m k) = Inr k"
  by (simp add: RetryCount_def redelivered_def atoi_count)

text \<open>Also: How often a message can be requeued. The constant says ten and the error that a message has
  reached the maximum; the comparison is strict, so a message is published again eleven times, the last
  time with the count 11. The twelfth call fails and neither publishes nor settles the delivery: it stays
  with the consumer. What a requeue publishes goes to the exchange named like the queue.\<close>

theorem requeue_eleven_times:
  assumes "no_faults env" "0 \<le> k" "k \<le> 11"
  shows "Requeue env q (redelivered tag m k) w =
    (if k \<le> 10
     then (Inr (), w\<lparr>bus := bus w @ [\<lparr>msg_exchange = q, msg_routing_key = q,
               msg_headers = [(retryCountHeader, HeaderString (itoa (k + 1)))],
               msg_body = Message_marshal (m_body m)\<rparr>],
             settled := settled w @ [(tag, Acked)], tick := tick w + 2\<rparr>)
     else (Inl ErrRetryCountExceeded, w))"
  using RetryCount_redelivered [OF assms(2,3)] assms(1)
  by (simp add: Requeue_def defaultMaxRetryCount_def channel_publish_def settle_def statement_ok)
    (simp add: redelivered_def)

theorem requeue_eleven_times_witness:
  "fst (Requeue sample_env ''q'' (redelivered 1 \<lparr>m_body = JNull, m_delivery = \<lparr>dl_tag = 1, dl_headers = [], dl_body = Inr JNull\<rparr>\<rparr> 10) empty_world) = Inr () \<and>
   Requeue sample_env ''q'' (redelivered 2 \<lparr>m_body = JNull, m_delivery = \<lparr>dl_tag = 1, dl_headers = [], dl_body = Inr JNull\<rparr>\<rparr> 11) empty_world =
     (Inl ErrRetryCountExceeded, empty_world)"
  by (simp add: requeue_eleven_times)

section \<open>From the publisher to the worker\<close>

lemma as_any_payload:
  "\<bar>opt_timeout (rp_options p)\<bar> \<le> 2 ^ 53 \<Longrightarrow> as_any (enc_payload p) = enc_payload p"
  by (simp add: enc_payload_def enc_options_def via_float64_def)

lemma payload_delivered:
  assumes "oe_payload e = AnalysisRequestPayload p" "\<bar>opt_timeout (rp_options p)\<bar> \<le> 2 ^ 53"
    and "dl_body d = Inr (msg_body (message_of exchange e))"
  shows "\<exists>m. decode_delivery d = Inr m \<and> m_delivery m = d \<and> Unmarshal dec_payload m = Inr p"
proof -
  have "in_int64 (opt_timeout (rp_options p))" using assms(2) by (simp add: in_int64_def abs_le_iff)
  then have "dec_payload (as_any (enc_payload p)) = Inr p"
    using assms(2) by (simp add: as_any_payload dec_enc_payload)
  with assms show ?thesis
    by (simp add: decode_delivery_def message_of_def Message_marshal_def enc_event_payload_def
        json_struct_def json_field_def Unmarshal_def enc_payload_def)
qed

text \<open>C18: What the publisher sends is what the worker reads: when the broker delivers a message that
  \<open>PublishEvent\<close> published for the payload \<open>p\<close>, with whatever tag and headers, decoding the delivery and
  unmarshalling its body give \<open>p\<close> back. The timeout travels as a \<open>float64\<close>, hence the bound of
  \<open>2 ^ 53\<close> nanoseconds, over a hundred days.\<close>

theorem published_payload_received:
  assumes "oe_payload e = AnalysisRequestPayload p" "\<bar>opt_timeout (rp_options p)\<bar> \<le> 2 ^ 53"
    and "dl_body d = Inr (msg_body (message_of exchange e))"
  shows "\<exists>m. decode_delivery d = Inr m \<and> m_delivery m = d \<and> Unmarshal dec_payload m = Inr p"
  by (rule payload_delivered [OF assms])

definition sample_request :: request_payload where
  "sample_request = \<lparr>rp_analysis_id = UUID ''a'', rp_url = ''http://a.b/'',
     rp_options = \<lparr>include_headings = True, check_links = True, detect_forms = True, opt_timeout = 10 * Second\<rparr>,
     rp_priority = PriorityNormal, rp_created_at = 0\<rparr>"

definition sample_delivery :: "nat \<Rightarrow> delivery" where
  "sample_delivery tag = \<lparr>dl_tag = tag, dl_headers = [], dl_body = Inr (Message_marshal (enc_payload sample_request))\<rparr>"

theorem published_payload_received_witness:
  "\<exists>m. decode_delivery (sample_delivery 1) = Inr m \<and> Unmarshal dec_payload m = Inr sample_request"
proof -
  let ?e = "\<lparr>oe_id = UUID ''e'', oe_aggregate_id = UUID ''a'', oe_aggregate_type = ''analysis'',
    oe_event_type = OutboxEventAnalysisRequested, oe_priority = PriorityNormal, oe_retry_count = 0, oe_max_retries = 3,
    oe_status = OutboxStatusProcessing, oe_payload = AnalysisRequestPayload sample_request,
    oe_error_details = None, oe_created_at = 0, oe_started_at = None, oe_published_at = None,
    oe_processed_at = None, oe_completed_at = None, oe_next_retry_at = None\<rparr>"
  show ?thesis
    using published_payload_received [of ?e sample_request "sample_delivery 1" "''x''"]
    by (auto simp: sample_request_def sample_delivery_def message_of_def enc_event_payload_def Second_def)
qed

end
