(* ===== verification/Worker.thy ===== *)
theory Worker
  imports Subscriber Web_Fetcher Html_Analyzer Link_Checker Queue
begin

text \<open>
  \<open>internal/adapters/queue/analysis_worker.go\<close> and the program of the subscriber: the deliveries of
  the queue, each unmarshalled, processed by the service and settled. The service runs on the
  fetcher, the analyzer and the link checker of the other theories, for which the contract of the
  service is proved here.
\<close>

section \<open>Wiring\<close>

text \<open>The service with the adapters that \<open>runtime/dependency_options.go\<close> gives it.\<close>

definition service_ports ::
  "http_port \<Rightarrow> html_env \<Rightarrow> (writer list \<Rightarrow> writer list) \<Rightarrow> (link list \<Rightarrow> link list) \<Rightarrow> int \<Rightarrow>
     checker_config \<Rightarrow> duration option \<Rightarrow> ports" where
  "service_ports H D wsched lsched max_size cfg cache =
     \<lparr>port_fetch = Fetch H max_size, port_analyze = Analyze D wsched,
      port_check = Some (CheckAccessibility lsched H cfg), port_cache = cache\<rparr>"

interpretation adapters: service_contract "service_ports H D wsched lsched max_size cfg cache"
  for H D wsched lsched max_size cfg cache
  by unfold_locales (auto simp: service_ports_def dest: Fetch_frame CheckAccessibility_frame)

section \<open>The worker\<close>

text \<open>
  \<open>commands/process_analysis_message.go\<close>: the handler returns the result of the service and its
  error, which is always nil.
\<close>

definition processAnalysisMessage_Handle ::
  "env \<Rightarrow> ports \<Rightarrow> request_payload \<Rightarrow> world \<Rightarrow> process_result result \<times> world" where
  "processAnalysisMessage_Handle env P p w = (case ProcessAnalysisRequest env P p w of (r, w1) \<Rightarrow> (Inr r, w1))"

definition ProcessMessage :: "env \<Rightarrow> ports \<Rightarrow> string \<Rightarrow> msg \<Rightarrow> world \<Rightarrow> unit result \<times> world" where
  "ProcessMessage env P topicName m w =
     (case Unmarshal dec_payload m of
        Inl _ \<Rightarrow> ctrl_Reject env m w
      | Inr payload \<Rightarrow>
          (case processAnalysisMessage_Handle env P payload w of
             (Inl _, w1) \<Rightarrow> Requeue env topicName m w1
           | (Inr result, w1) \<Rightarrow>
               if \<not> pr_success result then ctrl_Ack env m w1 else ctrl_Ack env m w1))"

text \<open>\<open>SubscriberCtx.start\<close>: the consumer of the configured queue with this handler.\<close>

definition subscriber_start ::
  "env \<Rightarrow> rabbit \<Rightarrow> ports \<Rightarrow> string \<Rightarrow> consumer_event list \<Rightarrow> world \<Rightarrow> error option result \<times> world" where
  "subscriber_start env q P queueName es w = StartConsumer env q (ProcessMessage env P queueName) es w"

section \<open>What is left alone\<close>

lemma statement_settled:
  assumes "\<And>w x w'. f w = Inr (x, w') \<Longrightarrow> settled w' = settled w"
  shows "settled (snd (statement env f w)) = settled w"
  using assms [of "w\<lparr>tick := Suc (tick w)\<rparr>"] by (auto simp: statement_def call_def split: outcome.splits sum.splits)

lemma find_settled: "settled (snd (findByCriteria env c b s w)) = settled w"
proof -
  obtain r w1 where st: "statement env (\<lambda>w. case find_row c b (analysis_tab w) of
      None \<Rightarrow> Inl ErrNoRows | Some r \<Rightarrow> Inr (r, w)) w = (r, w1)" by force
  then have "settled w1 = settled w" by (cases rule: statement_cases) (auto split: option.splits)
  with st show ?thesis by (cases r) (simp_all add: findByCriteria_def)
qed

lemma update_analysis_settled: "update_analysis i f w = Inr (x, w') \<Longrightarrow> settled w' = settled w"
  by (auto simp: update_analysis_def split: if_splits)

lemma locked_settled:
  "settled (snd (updateByCriteria env (\<lambda>w. if b then Inl e else locked_update env i f w) c w)) = settled w"
  by (auto simp: updateByCriteria_def locked_update_def intro!: statement_settled
      split: if_splits dest: update_analysis_settled)

lemma analysis_ops_settled [frame_simps]:
  "settled (snd (an_Find env i w)) = settled w"
  "settled (snd (an_Update env i h sz d w)) = settled w"
  "settled (snd (an_UpdateStatus env i s w)) = settled w"
  "settled (snd (an_UpdateCompletionDuration env i n w)) = settled w"
  "settled (snd (an_MarkFailed env i c t k w)) = settled w"
  using locked_settled [where b = False]
  by (simp_all add: an_Find_def find_settled an_Update_def an_UpdateStatus_def
      an_UpdateCompletionDuration_def an_MarkFailed_def locked_settled)

lemma find_hash_settled [frame_simps]: "settled (snd (an_FindByContentHash env h w)) = settled w"
  using find_settled [of env "hash_match h" True "Error ErrNoRows" w]
  by (auto simp: an_FindByContentHash_def split: prod.splits sum.splits)

lemma mark_event_settled: "settled (snd (mark_event env what i ov f t w)) = settled w"
proof -
  obtain r w1 where st: "statement env (mark_rows i ov (f t)) w = (r, w1)" by force
  then have "settled w1 = settled w"
    by (cases rule: statement_cases) (auto simp: mark_rows_def split: if_splits)
  with st show ?thesis by (cases r) (simp_all add: mark_event_def)
qed

lemma outbox_ops_settled [frame_simps]:
  "settled (snd (ob_MarkProcessed env i w)) = settled w"
  "settled (snd (ob_MarkCompleted env i w)) = settled w"
  by (simp_all add: ob_MarkProcessed_def ob_MarkCompleted_def mark_event_settled)

lemma ob_Get_settled [frame_simps]: "settled (snd (ob_GetByAggregateID env i w)) = settled w"
  by (auto simp: ob_GetByAggregateID_def statement_def call_def
      split: outcome.splits prod.splits sum.splits option.splits)

lemma cache_ops_settled [frame_simps]:
  "settled (snd (cache_Delete env i w)) = settled w"
  "settled (snd (cache_Set env d a w)) = settled w"
  by (auto simp: cache_Delete_def keydb_Delete_def cache_Set_def keydb_Set_def statement_def call_def
      split: outcome.splits)

lemma cache_side_settled [frame_simps]:
  "settled (cache_invalidate env P i w) = settled w"
  "settled (cache_refresh env P i w) = settled w"
proof -
  show "settled (cache_invalidate env P i w) = settled w"
    by (auto simp: cache_invalidate_def frame_simps split: option.splits)
  obtain r w1 where f: "an_Find env i w = (r, w1)" by force
  with analysis_ops_settled(1) [of env i w] show "settled (cache_refresh env P i w) = settled w"
    by (cases r) (auto simp: cache_refresh_def frame_simps split: option.splits)
qed

lemma process_begin_settled: "settled (snd (process_begin env P i w)) = settled w"
proof -
  obtain r1 w1 where s1: "ob_GetByAggregateID env i w = (r1, w1)" by force
  have w1: "settled w1 = settled w" using ob_Get_settled [of env i w] s1 by simp
  show ?thesis
  proof (cases r1)
    case (Inr ev)
    obtain r2 w2 where s2: "ob_MarkProcessed env (oe_id ev) w1 = (r2, w2)" by force
    have w2: "settled w2 = settled w" using outbox_ops_settled(1) [of env "oe_id ev" w1] s2 w1 by simp
    obtain r3 w3 where s3: "an_UpdateStatus env i StatusInProgress w2 = (r3, w3)" by force
    have w3: "settled w3 = settled w" using analysis_ops_settled(3) [of env i StatusInProgress w2] s3 w2 by simp
    show ?thesis
      using s1 Inr s2 s3 w2 w3 by (cases r2; cases r3) (simp_all add: process_begin_def frame_simps)
  qed (use s1 w1 in \<open>simp add: process_begin_def\<close>)
qed

section \<open>What the worker needs of the service\<close>

text \<open>Beyond the contract of the service: its adapters do not settle deliveries.\<close>

locale worker_contract = service_contract +
  assumes fetch_settled: "settled (snd (port_fetch P env u t w)) = settled w"
    and check_settled: "port_check P = Some check \<Longrightarrow> settled (snd (check env ls w)) = settled w"
begin

lemma process_fetch_settled: "settled (snd (process_fetch env P p w)) = settled w"
proof -
  obtain r1 w1 where s1: "port_fetch P env (rp_url p) (opt_timeout (rp_options p)) w = (r1, w1)" by force
  have w1: "settled w1 = settled w"
    using fetch_settled [of env "rp_url p" "opt_timeout (rp_options p)" w] s1 by simp
  show ?thesis
  proof (cases r1)
    case (Inl e)
    obtain r2 w2 where s2: "an_MarkFailed env (rp_analysis_id p) ''FETCH_ERROR'' (Error e) 0 w1 = (r2, w2)" by force
    have "settled w2 = settled w"
      using analysis_ops_settled(5) [of env "rp_analysis_id p" "''FETCH_ERROR''" "Error e" 0 w1] s2 w1 by simp
    with s1 Inl s2 show ?thesis by (cases r2) (simp_all add: process_fetch_def frame_simps)
  qed (use s1 w1 in \<open>simp add: process_fetch_def\<close>)
qed

lemma store_settled: "settled (snd (store_results env P i h c d res w)) = settled w"
proof -
  let ?w = "record_metric (ProcessingMetric d) (record_metric (FetchMetric (wp_fetch_duration c)) w)"
  let ?res = "Some (with_timing (wp_fetch_duration c) d res)"
  obtain r w1 where s: "an_Update env i h (int (length (wp_html c))) ?res ?w = (r, w1)" by force
  have "settled w1 = settled w"
    using analysis_ops_settled(2) [of env i h "int (length (wp_html c))" ?res ?w] s by simp
  with s show ?thesis by (cases r) (simp_all add: store_results_def frame_simps)
qed

lemma check_external_settled: "settled (snd (check_external_links env P o' res w)) = settled w"
proof (cases "port_check P")
  case (Some check)
  let ?ls = "elems (la_external_links (ad_links res))"
  obtain b w1 where s: "check env ?ls w = (b, w1)" by force
  with check_settled [OF Some, of env ?ls w] Some show ?thesis by (simp add: check_external_links_def)
qed (simp add: check_external_links_def)

lemma full_settled: "settled (snd (performFullAnalysis env P i h c o' w)) = settled w"
proof (cases "port_analyze P (wp_url c) (wp_html c) o'")
  case (Inr res)
  obtain res1 w1 where s: "check_external_links env P o' res w = (res1, w1)" by force
  have "settled w1 = settled w" using check_external_settled [of env o' res w] s by simp
  with Inr s store_settled show ?thesis by (simp add: performFullAnalysis_def)
qed (simp add: performFullAnalysis_def)

lemma copy_settled: "settled (snd (copyAnalysisResults env P i h src w)) = settled w"
proof -
  obtain r w1 where s: "an_Update env i h (an_content_size src) (an_results src) w = (r, w1)" by force
  with analysis_ops_settled(2) [of env i h "an_content_size src" "an_results src" w]
  show ?thesis by (cases r) (simp_all add: copyAnalysisResults_def frame_simps)
qed

lemma process_content_settled: "settled (snd (process_content env P p h c w)) = settled w"
proof -
  obtain r1 w1 where s1: "checkDuplicateContent env h w = (r1, w1)" by force
  have w1: "settled w1 = settled w"
    using find_hash_settled [of env h w] s1
    by (auto simp: checkDuplicateContent_def split: prod.splits sum.splits if_splits)
  show ?thesis
  proof (cases r1)
    case (Inr src)
    show ?thesis
    proof (cases src)
      case None
      obtain r2 w2 where s2: "performFullAnalysis env P (rp_analysis_id p) h c (rp_options p) w1 = (r2, w2)" by force
      with full_settled [of env "rp_analysis_id p" h c "rp_options p" w1] s1 Inr None w1 show ?thesis
        by (cases r2) (simp_all add: process_content_def)
    next
      case (Some a)
      obtain r2 w2 where s2: "copyAnalysisResults env P (rp_analysis_id p) h a w1 = (r2, w2)" by force
      with copy_settled [of env "rp_analysis_id p" h a w1] s1 Inr Some w1 show ?thesis
        by (cases r2) (simp_all add: process_content_def)
    qed
  qed (use s1 w1 in \<open>simp add: process_content_def\<close>)
qed

lemma process_finish_settled: "settled (snd (process_finish env P i ev h w)) = settled w"
proof -
  let ?d = "Milliseconds (time_Sub (now env w) (oe_created_at ev))"
  obtain r1 w1 where s1: "an_UpdateCompletionDuration env i ?d w = (r1, w1)" by force
  have w1: "settled w1 = settled w" using analysis_ops_settled(4) [of env i ?d w] s1 by simp
  obtain r2 w2 where s2: "ob_MarkCompleted env (oe_id ev) w1 = (r2, w2)" by force
  have w2: "settled w2 = settled w" using outbox_ops_settled(2) [of env "oe_id ev" w1] s2 w1 by simp
  from s1 s2 w1 w2 show ?thesis
    by (cases r1; cases r2) (simp_all add: process_finish_def Let_def frame_simps)
qed

lemma process_settled: "settled (snd (ProcessAnalysisRequest env P p w)) = settled w"
proof -
  obtain r1 w1 where s1: "process_begin env P (rp_analysis_id p) w = (r1, w1)" by force
  note w1 = process_begin_settled [of env P "rp_analysis_id p" w, unfolded s1, simplified]
  show ?thesis
  proof (cases r1)
    case ev: (Inr ev)
    obtain r2 w2 where s2: "process_fetch env P p w1 = (r2, w2)" by force
    note w2 = process_fetch_settled [of env p w1, unfolded s2, simplified]
    show ?thesis
    proof (cases r2)
      case c: (Inr c)
      let ?h = "NewContentHash (sha256_Sum env) (wp_html c)"
      obtain r3 w3 where s3: "process_content env P p ?h c w2 = (r3, w3)" by force
      note w3 = process_content_settled [of env p ?h c w2, unfolded s3, simplified]
      show ?thesis
        using s1 ev s2 c s3 w1 w2 w3 process_finish_settled [of env "rp_analysis_id p" ev ?h w3]
        by (cases r3) (simp_all add: ProcessAnalysisRequest_def Let_def)
    qed (use s1 ev s2 w1 w2 in \<open>simp add: ProcessAnalysisRequest_def\<close>)
  qed (use s1 w1 in \<open>simp add: ProcessAnalysisRequest_def\<close>)
qed

end

lemma Fetch_settled: "settled (snd (Fetch H mx env u t w)) = settled w"
proof -
  have f: "settled (snd (fetchWithRetry env H mx u v)) = settled v" for v
    by (auto simp: fetchWithRetry_def Let_def split: sum.splits)
  have b: "settled (snd (breaker_execute H (fetchWithRetry env H mx u) v)) = settled v" for v
    by (auto simp: breaker_execute_def f split: option.splits)
  let ?w = "if 0 < t then w\<lparr>client_timeout := t\<rparr> else w"
  obtain r w2 where s: "breaker_execute H (fetchWithRetry env H mx u) ?w = (r, w2)" by force
  with b [of ?w] show ?thesis by (auto simp: Fetch_def Let_def split: sum.splits)
qed

lemma checkSingleLink_settled: "settled (snd (checkSingleLink H cfg l w)) = settled w"
proof -
  have f: "settled (snd (performLinkCheck H cfg u v)) = settled v" for u v
    by (auto simp: performLinkCheck_def Let_def split: sum.splits)
  obtain r w1 where s: "breaker_execute H (performLinkCheck H cfg (link_url l)) w = (r, w1)" by force
  have "settled w1 = settled w"
    using s f [of "link_url l" w] by (auto simp: breaker_execute_def split: option.splits)
  with s show ?thesis by (cases r) (auto simp: checkSingleLink_def split: prod.splits)
qed

lemma checkLinks_settled: "settled (snd (checkLinks H cfg ls acc w)) = settled w"
proof (induction ls arbitrary: acc w)
  case (Cons l ls)
  obtain q w1 where s: "checkSingleLink H cfg l w = (q, w1)" by force
  with checkSingleLink_settled [of H cfg l w] Cons.IH show ?case by (cases q) simp_all
qed simp

interpretation worker: worker_contract "service_ports H D wsched lsched max_size cfg cache"
  for H D wsched lsched max_size cfg cache
  by unfold_locales (auto simp: service_ports_def Fetch_settled CheckAccessibility_def checkLinks_settled)

section \<open>What the broker is told\<close>

text \<open>What becomes of a delivery: it is nacked if it is no message, rejected if its body is no payload,
  and acknowledged otherwise.\<close>

definition verdict :: "delivery \<Rightarrow> settlement" where
  "verdict d =
     (case decode_delivery d of
        Inl _ \<Rightarrow> Nacked
      | Inr m \<Rightarrow> (case Unmarshal dec_payload m of Inl _ \<Rightarrow> Rejected | Inr _ \<Rightarrow> Acked))"

lemma settle_ok: "no_faults env \<Longrightarrow> settled (snd (settle env s d w)) = settled w @ [(dl_tag d, s)]"
  by (simp add: settle_def statement_ok)

lemma decode_delivery_of: "decode_delivery d = Inr m \<Longrightarrow> m_delivery m = d"
  by (auto simp: decode_delivery_def bind_result_def split: sum.splits)

lemma handled_settled:
  assumes "no_faults env"
  shows "settled (snd (ProcessMessage env (service_ports H D ws ls mx cfg c) q m w)) =
    settled w @ [(dl_tag (m_delivery m), case Unmarshal dec_payload m of Inl _ \<Rightarrow> Rejected | Inr _ \<Rightarrow> Acked)]"
proof (cases "Unmarshal dec_payload m")
  case (Inr p)
  obtain r w1 where s: "ProcessAnalysisRequest env (service_ports H D ws ls mx cfg c) p w = (r, w1)" by force
  have "settled w1 = settled w" using worker.process_settled s by (metis snd_conv)
  with s Inr assms show ?thesis
    by (simp add: ProcessMessage_def processAnalysisMessage_Handle_def ctrl_Ack_def settle_ok)
qed (use assms in \<open>simp add: ProcessMessage_def ctrl_Reject_def settle_ok\<close>)

lemma delivery_settled:
  "no_faults env \<Longrightarrow>
   settled (handle_delivery env (ProcessMessage env (service_ports H D ws ls mx cfg c) q) d w) =
     settled w @ [(dl_tag d, verdict d)]"
  by (cases "decode_delivery d")
    (auto simp: handle_delivery_def verdict_def settle_ok handled_settled dest: decode_delivery_of)


text \<open>A service that fetches an empty page and finds no document in it.\<close>

definition empty_page :: http_port where
  "empty_page = \<lparr>http_get = (\<lambda>n d u. Inr \<lparr>hr_url = u, hr_status = 200, hr_status_text = [],
       hr_body = [], hr_headers = []\<rparr>),
     http_head = (\<lambda>n d u. Inl (ErrText [])), breaker = (\<lambda>n. None)\<rparr>"

definition sample_ports :: ports where
  "sample_ports = service_ports empty_page (sample_html\<lparr>new_document := (\<lambda>s. Inl (ErrText []))\<rparr>)
     id id 1000 sample_checker None"


section \<open>What a result means\<close>

text \<open>C8: When the service reports success for an analysis whose row exists, that row, after it, is
  completed: it has the content hash that was reported, results, a duration and a completion time,
  whatever calls failed on the way; and no row is added or lost.\<close>

theorem success_completes_row:
  assumes "ProcessAnalysisRequest env (service_ports H D ws ls mx cfg c) p w = (res, w')" "pr_success res"
    and "rp_analysis_id p \<in> ar_id ` set (analysis_tab w)"
  shows "map ar_id (analysis_tab w') = map ar_id (analysis_tab w) \<and>
    (\<exists>r. List.find (\<lambda>r. ar_id r = rp_analysis_id p) (analysis_tab w') = Some r \<and>
       ar_status r = StatusCompleted \<and> ar_content_hash r = Some (pr_content_hash res) \<and>
       ar_results r \<noteq> None \<and> ar_duration r \<noteq> None \<and> ar_completed_at r \<noteq> None)"
proof -
  note ids = adapters.process_success_ids [OF assms(1,2)]
  with assms(3) have "rp_analysis_id p \<in> ar_id ` set (analysis_tab w')" by (metis list.set_map)
  then obtain r where r: "List.find (\<lambda>r. ar_id r = rp_analysis_id p) (analysis_tab w') = Some r"
    by (cases "List.find (\<lambda>r. ar_id r = rp_analysis_id p) (analysis_tab w')") (auto simp: find_None_iff)
  with adapters.process_success [OF assms(1,2)] find_SomeD [OF r] ids show ?thesis by blast
qed

definition sample_world :: world where
  "sample_world = sample_outbox\<lparr>analysis_tab := [sample_row ''a'']\<rparr>"

lemma sample_run:
  "pr_success (fst (ProcessAnalysisRequest sample_env sample_ports sample_request sample_world))"
  by code_simp

theorem success_completes_row_witness:
  "\<exists>r. List.find (\<lambda>r. ar_id r = UUID ''a'')
     (analysis_tab (snd (ProcessAnalysisRequest sample_env sample_ports sample_request sample_world))) = Some r \<and>
     ar_status r = StatusCompleted"
  using success_completes_row [OF prod.collapse [symmetric] sample_run [unfolded sample_ports_def]]
  by (auto simp: sample_ports_def sample_world_def sample_request_def sample_row_def new_row_def)

text \<open>C13: Whatever deliveries come and whatever calls fail, the subscriber keeps the constraints of both
  tables.\<close>

theorem subscriber_keeps_tables:
  assumes "analysis_table_ok w" "outbox_table_ok w"
  shows "analysis_table_ok (snd (consumer_loop env (ProcessMessage env (service_ports H D ws ls mx cfg c) q) es w)) \<and>
    outbox_table_ok (snd (consumer_loop env (ProcessMessage env (service_ports H D ws ls mx cfg c) q) es w))"
proof -
  let ?P = "service_ports H D ws ls mx cfg c"
  let ?ok = "\<lambda>w. analysis_table_ok w \<and> outbox_table_ok w"
  have settle: "?ok (snd (settle env s d w))" if "?ok w" for s d w
    using that by (auto simp: settle_def statement_def call_def analysis_table_ok_def outbox_table_ok_def
        split: outcome.splits)
  have step: "?ok (handle_delivery env (ProcessMessage env ?P q) d w)" if "?ok w" for d w
  proof (cases "decode_delivery d")
    case (Inr m)
    show ?thesis
    proof (cases "Unmarshal dec_payload m")
      case p: (Inr p)
      obtain r w1 where s: "ProcessAnalysisRequest env ?P p w = (r, w1)" by force
      then have "?ok w1" using adapters.process_keeps_tables [OF s] that by blast
      with s Inr p settle show ?thesis
        by (simp add: handle_delivery_def ProcessMessage_def processAnalysisMessage_Handle_def ctrl_Ack_def)
    qed (use Inr that settle in \<open>simp add: handle_delivery_def ProcessMessage_def ctrl_Reject_def\<close>)
  qed (use that settle in \<open>simp add: handle_delivery_def\<close>)
  have "?ok w \<Longrightarrow> ?ok (snd (consumer_loop env (ProcessMessage env ?P q) es w))"
  proof (induction es arbitrary: w)
    case (Cons x es)
    then show ?case using step by (cases x) simp_all
  qed simp
  with assms show ?thesis by blast
qed

theorem subscriber_keeps_tables_witness:
  "outbox_table_ok (snd (consumer_loop sample_env (ProcessMessage sample_env sample_ports ''q'')
     [Delivery (sample_delivery 1), DeliveriesClosed] sample_outbox))"
proof -
  have "analysis_table_ok sample_outbox" by (simp add: analysis_table_ok_def sample_outbox_def empty_world_def)
  from subscriber_keeps_tables [OF this sample_outbox_ok] show ?thesis unfolding sample_ports_def by blast
qed

text \<open>C21: The service reports every failure in its result and never as an error, so the worker
  acknowledges the message and \<open>Requeue\<close> is never reached. A single failed call to the database at the
  start of the processing loses the request for good: nothing changes but the delivery, which is
  acknowledged, and the clock.\<close>

theorem transient_failure_loses_request:
  assumes "decode_delivery d = Inr m" "Unmarshal dec_payload m = Inr p"
    and "fault env (tick w) = Lost e" "fault env (Suc (tick w)) = Ok"
  shows "handle_delivery env (ProcessMessage env P q) d w =
    w\<lparr>tick := tick w + 2, settled := settled w @ [(dl_tag d, Acked)]\<rparr>"
proof -
  have "ob_GetByAggregateID env (rp_analysis_id p) w = (Inl e', w\<lparr>tick := Suc (tick w)\<rparr>)"
    if "e' = (case fst (ob_GetByAggregateID env (rp_analysis_id p) w) of Inl e \<Rightarrow> e)" for e'
    using assms(3) that by (simp add: ob_GetByAggregateID_def statement_def call_def)
  then obtain e' where g: "ob_GetByAggregateID env (rp_analysis_id p) w = (Inl e', w\<lparr>tick := Suc (tick w)\<rparr>)" by blast
  show ?thesis
    using assms(1,2,4) decode_delivery_of [OF assms(1)]
    by (simp add: handle_delivery_def ProcessMessage_def processAnalysisMessage_Handle_def
        ProcessAnalysisRequest_def process_begin_def g failed_result_def ctrl_Ack_def settle_def
        statement_def call_def)
qed

definition flaky_env :: env where
  "flaky_env = sample_env\<lparr>fault := (\<lambda>n. if n = 0 then Lost (ErrText ''connection reset'') else Ok)\<rparr>"

theorem transient_failure_loses_request_witness:
  "handle_delivery flaky_env (ProcessMessage flaky_env sample_ports ''q'') (sample_delivery 7) sample_world =
     sample_world\<lparr>tick := 2, settled := [(7, Acked)]\<rparr>"
proof -
  have "case decode_delivery (sample_delivery 7) of Inl _ \<Rightarrow> False
      | Inr m \<Rightarrow> (case Unmarshal dec_payload m of Inl _ \<Rightarrow> False | Inr p \<Rightarrow> p = sample_request)"
    by code_simp
  then obtain m where m: "decode_delivery (sample_delivery 7) = Inr m" "Unmarshal dec_payload m = Inr sample_request"
    by (auto split: sum.splits)
  from transient_failure_loses_request [OF m, of flaky_env sample_world _ sample_ports "''q''"] show ?thesis
    by (simp add: flaky_env_def sample_world_def sample_outbox_def empty_world_def sample_delivery_def numeral_2_eq_2)
qed

end
