(* ===== verification/Health.thy ===== *)
theory Health
  imports World
begin

text \<open>
  The health probes: \<open>internal/domain/status.go\<close> and \<open>types.go\<close>, \<open>internal/adapters/health_checker.go\<close>,
  the three reports of \<open>application_service.go\<close> and \<open>internal/adapters/http/mappers/status_mapper.go\<close>.
  A check waits for a timer or for the end of the request's context, whichever comes first: the
  environment says which, as it does for a call that leaves the process. A response time is a number
  of milliseconds, an uptime a duration; what \<open>float32\<close> loses of them is not modelled.
\<close>

section \<open>Statuses and results\<close>

datatype dependency_check_status =
    DependencyHealthy | DependencyDegraded | DependencyUnhealthy | DependencyOther string

datatype liveness_status = Alive | LivenessDegraded | Dead | LivenessOther string
datatype readiness_status = Ready | ReadinessDegraded | NotReady | ReadinessOther string
datatype health_status = Healthy | HealthDegraded | Unhealthy | HealthOther string

record dependency_status =
  ds_status :: dependency_check_status
  ds_response_time :: int
  ds_last_checked :: time
  ds_error :: string

record 's probe_result =
  OverallStatus :: 's
  Storage :: dependency_status
  Cache :: dependency_status
  Queue :: dependency_status

record health_result = "health_status probe_result" +
  Uptime :: duration

type_synonym liveness_result = "liveness_status probe_result"
type_synonym readiness_result = "readiness_status probe_result"

section \<open>The checks\<close>

definition Milliseconds :: "duration \<Rightarrow> int" where
  "Milliseconds d = sgn d * (\<bar>d\<bar> div Millisecond)"

definition check_select :: "env \<Rightarrow> world \<Rightarrow> dependency_status \<times> world" where
  "check_select env w =
     (let start = now env w; (r, w1) = call env w; ms = Milliseconds (time_Sub (now env w1) start)
      in case r of
           Ok \<Rightarrow> (\<lparr>ds_status = DependencyHealthy, ds_response_time = ms, ds_last_checked = now env w1,
                  ds_error = []\<rparr>, w1)
         | _ \<Rightarrow> (\<lparr>ds_status = DependencyUnhealthy, ds_response_time = ms, ds_last_checked = now env w1,
                  ds_error = ''Health check timeout''\<rparr>, w1))"

definition checkStorageHealth :: "env \<Rightarrow> world \<Rightarrow> dependency_status \<times> world" where
  "checkStorageHealth = check_select"  \<comment> \<open>the timer runs for 10 ms\<close>

definition checkCacheHealth :: "env \<Rightarrow> world \<Rightarrow> dependency_status \<times> world" where
  "checkCacheHealth = check_select"  \<comment> \<open>5 ms\<close>

definition checkQueueHealth :: "env \<Rightarrow> world \<Rightarrow> dependency_status \<times> world" where
  "checkQueueHealth = check_select"  \<comment> \<open>1 ms\<close>

definition check_all :: "env \<Rightarrow> world \<Rightarrow> (dependency_status \<times> dependency_status \<times> dependency_status) \<times> world" where
  "check_all env w =
     (let (s, w1) = checkStorageHealth env w; (c, w2) = checkCacheHealth env w1;
          (q, w3) = checkQueueHealth env w2
      in ((s, c, q), w3))"

definition CheckReadiness :: "env \<Rightarrow> world \<Rightarrow> readiness_result \<times> world" where
  "CheckReadiness env w =
     (let ((s, c, q), w1) = check_all env w
      in (\<lparr>OverallStatus = (if ds_status s = DependencyUnhealthy then NotReady else Ready),
           Storage = s, Cache = c, Queue = q\<rparr>, w1))"

definition CheckLiveness :: "env \<Rightarrow> world \<Rightarrow> liveness_result \<times> world" where
  "CheckLiveness env w =
     (let ((s, c, q), w1) = check_all env w
      in (\<lparr>OverallStatus = (if ds_status s = DependencyUnhealthy then Dead else Alive),
           Storage = s, Cache = c, Queue = q\<rparr>, w1))"

definition calculateOverallHealthStatus ::
  "dependency_status \<Rightarrow> dependency_status \<Rightarrow> dependency_status \<Rightarrow> health_status" where
  "calculateOverallHealthStatus storage cache queue =
     (if ds_status storage = DependencyUnhealthy then Unhealthy
      else let n = (if ds_status cache = DependencyUnhealthy then 1 else 0) +
                   (if ds_status queue = DependencyUnhealthy then 1 else (0::int))
           in if n \<ge> 2 then HealthDegraded else Healthy)"

text \<open>\<open>startTime\<close> is when the checker was made.\<close>

definition CheckHealth :: "env \<Rightarrow> time \<Rightarrow> world \<Rightarrow> health_result \<times> world" where
  "CheckHealth env startTime w =
     (let ((s, c, q), w1) = check_all env w
      in (\<lparr>OverallStatus = calculateOverallHealthStatus s c q, Storage = s, Cache = c, Queue = q,
           Uptime = time_Sub (now env w1) startTime\<rparr>, w1))"

text \<open>The reports of the application service never are an error.\<close>

definition FetchReadinessReport :: "env \<Rightarrow> world \<Rightarrow> readiness_result result \<times> world" where
  "FetchReadinessReport env w = (let (r, w1) = CheckReadiness env w in (Inr r, w1))"

definition FetchLivenessReport :: "env \<Rightarrow> world \<Rightarrow> liveness_result result \<times> world" where
  "FetchLivenessReport env w = (let (r, w1) = CheckLiveness env w in (Inr r, w1))"

definition FetchHealthReport :: "env \<Rightarrow> time \<Rightarrow> world \<Rightarrow> health_result result \<times> world" where
  "FetchHealthReport env startTime w = (let (r, w1) = CheckHealth env startTime w in (Inr r, w1))"

section \<open>What the API calls them\<close>

definition DomainDependencyStatusToHandler :: "dependency_check_status \<Rightarrow> string" where
  "DomainDependencyStatusToHandler s =
     (case s of DependencyHealthy \<Rightarrow> ''healthy'' | DependencyDegraded \<Rightarrow> ''degraded''
      | DependencyUnhealthy \<Rightarrow> ''unhealthy'' | DependencyOther _ \<Rightarrow> ''unknown'')"

definition DomainLivenessStatusToHandler :: "liveness_status \<Rightarrow> string" where
  "DomainLivenessStatusToHandler s =
     (case s of Alive \<Rightarrow> ''OK'' | LivenessDegraded \<Rightarrow> ''DEGRADED'' | Dead \<Rightarrow> ''DOWN'' | LivenessOther _ \<Rightarrow> ''DOWN'')"

definition DomainReadinessStatusToHandler :: "readiness_status \<Rightarrow> string" where
  "DomainReadinessStatusToHandler s =
     (case s of Ready \<Rightarrow> ''OK'' | ReadinessDegraded \<Rightarrow> ''DEGRADED'' | NotReady \<Rightarrow> ''DOWN'' | ReadinessOther _ \<Rightarrow> ''DOWN'')"

definition DomainHealthStatusToHandler :: "health_status \<Rightarrow> string" where
  "DomainHealthStatusToHandler s =
     (case s of Healthy \<Rightarrow> ''OK'' | HealthDegraded \<Rightarrow> ''DEGRADED'' | Unhealthy \<Rightarrow> ''DOWN'' | HealthOther _ \<Rightarrow> ''DOWN'')"

text \<open>The body of the health probe (\<open>handlers.HealthResponse\<close>), its numbers as they are before \<open>float32\<close>.\<close>

record health_check_json =
  hc_status :: string
  hc_response_time :: "int option"
  hc_last_checked :: "time option"
  hc_error :: "string option"

record health_response =
  hr_status :: string
  hr_timestamp :: time
  hr_version :: "string option"
  hr_uptime :: "duration option"
  hr_storage :: "health_check_json option"
  hr_cache :: "health_check_json option"
  hr_queue :: "health_check_json option"

section \<open>What the probes look at\<close>

lemma check_select_eq:
  "check_select env w =
     (\<lparr>ds_status = (if fault env (tick w) = Ok then DependencyHealthy else DependencyUnhealthy),
       ds_response_time = Milliseconds (time_Sub (clock env (Suc (tick w))) (clock env (tick w))),
       ds_last_checked = clock env (Suc (tick w)),
       ds_error = (if fault env (tick w) = Ok then [] else ''Health check timeout'')\<rparr>,
      w\<lparr>tick := Suc (tick w)\<rparr>)"
  by (simp add: check_select_def call_def now_def Let_def split: outcome.splits)

lemma snd_check_all: "snd (check_all env w) = w\<lparr>tick := tick w + 3\<rparr>"
  by (simp add: check_all_def checkStorageHealth_def checkCacheHealth_def checkQueueHealth_def
      check_select_eq numeral_3_eq_3)

lemma check_all_status:
  assumes "check_all env w = ((s, c, q), w1)"
  shows "ds_status s = DependencyUnhealthy \<longleftrightarrow> fault env (tick w) \<noteq> Ok"
    "ds_status c = DependencyUnhealthy \<longleftrightarrow> fault env (Suc (tick w)) \<noteq> Ok"
    "ds_status q = DependencyUnhealthy \<longleftrightarrow> fault env (Suc (Suc (tick w))) \<noteq> Ok"
    "w1 = w\<lparr>tick := tick w + 3\<rparr>"
  using assms snd_check_all [of env w]
  by (auto simp: check_all_def checkStorageHealth_def checkCacheHealth_def checkQueueHealth_def check_select_eq)

lemma check_all_blind:
  "tick w = tick v \<Longrightarrow> fst (check_all env w) = fst (check_all env v)"
  by (simp add: check_all_def checkStorageHealth_def checkCacheHealth_def checkQueueHealth_def check_select_eq)

lemma probe_verdicts:
  "OverallStatus (fst (CheckReadiness env w)) = (if fault env (tick w) = Ok then Ready else NotReady)"
  "OverallStatus (fst (CheckLiveness env w)) = (if fault env (tick w) = Ok then Alive else Dead)"
  "OverallStatus (fst (CheckHealth env t0 w)) =
     (if fault env (tick w) \<noteq> Ok then Unhealthy
      else if fault env (tick w + 1) \<noteq> Ok \<and> fault env (tick w + 2) \<noteq> Ok then HealthDegraded
      else Healthy)"
proof -
  obtain s c q w1 where a: "check_all env w = ((s, c, q), w1)" by (metis surj_pair)
  note st = check_all_status [OF a]
  show "OverallStatus (fst (CheckReadiness env w)) = (if fault env (tick w) = Ok then Ready else NotReady)"
    "OverallStatus (fst (CheckLiveness env w)) = (if fault env (tick w) = Ok then Alive else Dead)"
    "OverallStatus (fst (CheckHealth env t0 w)) =
     (if fault env (tick w) \<noteq> Ok then Unhealthy
      else if fault env (tick w + 1) \<noteq> Ok \<and> fault env (tick w + 2) \<noteq> Ok then HealthDegraded
      else Healthy)"
    using st by (simp_all add: CheckReadiness_def CheckLiveness_def CheckHealth_def a calculateOverallHealthStatus_def)
qed

lemma probe_worlds:
  "snd (CheckReadiness env w) = w\<lparr>tick := tick w + 3\<rparr>"
  "snd (CheckLiveness env w) = w\<lparr>tick := tick w + 3\<rparr>"
  "snd (CheckHealth env t0 w) = w\<lparr>tick := tick w + 3\<rparr>"
  using snd_check_all [of env w]
  by (auto simp: CheckReadiness_def CheckLiveness_def CheckHealth_def split: prod.splits)

text \<open>Also: The three probes agree on what is fatal. The service is unhealthy, dead and not ready if and
  only if the check of the storage did not end in time; it is degraded if the storage's check did and
  those of the cache and of the queue both did not, and one of these two alone does not count.\<close>

theorem probes_agree:
  "(OverallStatus (fst (CheckHealth env t0 w)) = Unhealthy \<longleftrightarrow> ds_status (Storage (fst (CheckHealth env t0 w))) = DependencyUnhealthy) \<and>
   (OverallStatus (fst (CheckReadiness env w)) = NotReady \<longleftrightarrow> OverallStatus (fst (CheckHealth env t0 w)) = Unhealthy) \<and>
   (OverallStatus (fst (CheckLiveness env w)) = Dead \<longleftrightarrow> OverallStatus (fst (CheckHealth env t0 w)) = Unhealthy) \<and>
   (OverallStatus (fst (CheckHealth env t0 w)) = HealthDegraded \<longleftrightarrow>
      ds_status (Storage (fst (CheckHealth env t0 w))) \<noteq> DependencyUnhealthy \<and>
      ds_status (Cache (fst (CheckHealth env t0 w))) = DependencyUnhealthy \<and>
      ds_status (Queue (fst (CheckHealth env t0 w))) = DependencyUnhealthy)"
proof -
  obtain s c q w1 where a: "check_all env w = ((s, c, q), w1)" by (metis surj_pair)
  show ?thesis
    by (simp add: CheckReadiness_def CheckLiveness_def CheckHealth_def a calculateOverallHealthStatus_def)
qed

text \<open>Also: The probes look at none of their dependencies. Whatever the tables, the cache and the broker
  hold, the three reports depend only on the timers and on the end of the request's context, and a
  request that is not cut off is told that storage, cache and queue are healthy.\<close>

theorem probes_blind:
  "tick w = tick v \<Longrightarrow>
   fst (FetchHealthReport env t0 w) = fst (FetchHealthReport env t0 v) \<and>
   fst (FetchReadinessReport env w) = fst (FetchReadinessReport env v) \<and>
   fst (FetchLivenessReport env w) = fst (FetchLivenessReport env v) \<and>
   (no_faults env \<longrightarrow> map_sum id OverallStatus (fst (FetchHealthReport env t0 w)) = Inr Healthy)"
proof -
  assume t: "tick w = tick v"
  obtain s c q w1 v1 where a: "check_all env w = ((s, c, q), w1)" "check_all env v = ((s, c, q), v1)"
    using check_all_blind [OF t, of env] by (metis surj_pair fst_conv)
  have w1: "w1 = w\<lparr>tick := tick w + 3\<rparr>" and v1: "v1 = v\<lparr>tick := tick v + 3\<rparr>"
    using check_all_status(4) [OF a(1)] check_all_status(4) [OF a(2)] by simp_all
  have n: "now env w1 = now env v1" by (simp add: now_def w1 v1 t)
  have "OverallStatus (fst (CheckHealth env t0 w)) = Healthy" if "no_faults env"
    using that by (simp add: probe_verdicts no_faults_def)
  then have "no_faults env \<longrightarrow> map_sum id OverallStatus (fst (FetchHealthReport env t0 w)) = Inr Healthy"
    by (simp add: FetchHealthReport_def case_prod_beta)
  then show ?thesis using n
    by (simp add: FetchHealthReport_def FetchReadinessReport_def FetchLivenessReport_def CheckHealth_def
        CheckReadiness_def CheckLiveness_def a)
qed

theorem probes_blind_witness:
  "fst (FetchHealthReport sample_env 0 empty_world) =
     fst (FetchHealthReport sample_env 0 (empty_world\<lparr>bus := [\<lparr>msg_exchange = ''e'', msg_routing_key = ''k'',
       msg_headers = [], msg_body = JNull\<rparr>]\<rparr>)) \<and>
   map_sum id OverallStatus (fst (FetchHealthReport sample_env 0 empty_world)) = Inr Healthy"
  using probes_blind [of empty_world "empty_world\<lparr>bus := [\<lparr>msg_exchange = ''e'', msg_routing_key = ''k'',
       msg_headers = [], msg_body = JNull\<rparr>]\<rparr>" sample_env 0] by (auto simp: no_faults_def)

end
