(* ===== verification/Telemetry.thy ===== *)
theory Telemetry
  imports World
begin

text \<open>
  What the service reports about itself: the instruments of \<open>internal/infrastructure/metrics.go\<close>, the
  adapter \<open>internal/adapters/metrics_adapter.go\<close>, and the decorators of \<open>internal/shared/decorator\<close>
  that every command and every query goes through, for logging, tracing and counting. A handler is a
  function of its state; the value \<open>None\<close> of its result is a panic, whose deferred functions still run.
\<close>

section \<open>Instruments\<close>

datatype sample_value =
    Count int
  | Seconds duration  \<comment> \<open>a number of seconds, before it becomes a float\<close>
  | Bytes int

record sample =
  sa_instrument :: string
  sa_value :: sample_value
  sa_attributes :: "(string \<times> string) list"

definition Add :: "string \<Rightarrow> int \<Rightarrow> (string \<times> string) list \<Rightarrow> sample" where
  "Add i n as = \<lparr>sa_instrument = i, sa_value = Count n, sa_attributes = as\<rparr>"

definition Record :: "string \<Rightarrow> duration \<Rightarrow> (string \<times> string) list \<Rightarrow> sample" where
  "Record i d as = \<lparr>sa_instrument = i, sa_value = Seconds d, sa_attributes = as\<rparr>"

definition RecordBytes :: "string \<Rightarrow> int \<Rightarrow> (string \<times> string) list \<Rightarrow> sample" where
  "RecordBytes i n as = \<lparr>sa_instrument = i, sa_value = Bytes n, sa_attributes = as\<rparr>"

definition HTTPMethodAttr :: "string \<Rightarrow> string \<times> string" where "HTTPMethodAttr s = (''http.method'', s)"
definition HTTPPathAttr :: "string \<Rightarrow> string \<times> string" where "HTTPPathAttr s = (''http.path'', s)"
definition HTTPStatusCodeAttr :: "int \<Rightarrow> string \<times> string" where "HTTPStatusCodeAttr c = (''http.status_code'', itoa c)"
definition StatusAttr :: "string \<Rightarrow> string \<times> string" where "StatusAttr s = (''status'', s)"
definition ErrorTypeAttr :: "string \<Rightarrow> string \<times> string" where "ErrorTypeAttr s = (''error.type'', s)"
definition PriorityAttr :: "string \<Rightarrow> string \<times> string" where "PriorityAttr s = (''priority'', s)"
definition LinkTypeAttr :: "string \<Rightarrow> string \<times> string" where "LinkTypeAttr s = (''link.type'', s)"

text \<open>
  \<open>initializeMetrics\<close> makes the instruments in this order and stops at the first that cannot be made;
  the fields that are set by then stay set.
\<close>

datatype instrument_kind = Int64Counter | Float64Histogram | Int64Histogram

definition instruments :: "(string \<times> instrument_kind) list" where
  "instruments =
     [(''http_requests_total'', Int64Counter), (''http_request_duration_seconds'', Float64Histogram),
      (''http_request_size_bytes'', Int64Histogram), (''http_response_size_bytes'', Int64Histogram),
      (''analysis_requests_total'', Int64Counter), (''analysis_duration_seconds'', Float64Histogram),
      (''analysis_errors_total'', Int64Counter), (''outbox_processed_total'', Int64Counter),
      (''outbox_errors_total'', Int64Counter), (''link_checks_total'', Int64Counter),
      (''link_check_errors_total'', Int64Counter), (''fetch_time_seconds'', Float64Histogram),
      (''processing_time_seconds'', Float64Histogram)]"

definition kind_name :: "instrument_kind \<Rightarrow> string" where
  "kind_name k = (if k = Int64Counter then ''counter'' else ''histogram'')"

fun create_instruments ::
  "(string \<Rightarrow> instrument_kind \<Rightarrow> unit result) \<Rightarrow> (string \<times> instrument_kind) list \<Rightarrow> string list \<Rightarrow> unit result \<times> string list" where
  "create_instruments create [] made = (Inr (), made)"
| "create_instruments create ((n, k) # is) made =
     (case create n k of
        Inl e \<Rightarrow> (Inl (ErrWrap (''failed to create '' @ n @ '' '' @ kind_name k) e), made)
      | Inr _ \<Rightarrow> create_instruments create is (made @ [n]))"

definition initializeMetrics :: "(string \<Rightarrow> instrument_kind \<Rightarrow> unit result) \<Rightarrow> unit result \<times> string list" where
  "initializeMetrics create = create_instruments create instruments []"

text \<open>Each returns the samples it adds, in their order.\<close>

definition RecordHTTPRequest :: "string \<Rightarrow> string \<Rightarrow> int \<Rightarrow> duration \<Rightarrow> int \<Rightarrow> int \<Rightarrow> sample list" where
  "RecordHTTPRequest method path statusCode d requestSize responseSize =
     (let as = [HTTPMethodAttr method, HTTPPathAttr path, HTTPStatusCodeAttr statusCode]
      in [Add ''http_requests_total'' 1 as,
          Record ''http_request_duration_seconds'' d as,
          RecordBytes ''http_request_size_bytes'' requestSize [HTTPMethodAttr method, HTTPPathAttr path],
          RecordBytes ''http_response_size_bytes'' responseSize as])"

definition RecordAnalysisRequest :: "duration \<Rightarrow> bool \<Rightarrow> string \<Rightarrow> sample list" where
  "RecordAnalysisRequest d success errorType =
     (let status = (if success then ''success'' else ''error'')
      in [Add ''analysis_requests_total'' 1 [StatusAttr status],
          Record ''analysis_duration_seconds'' d [StatusAttr status]] @
         (if \<not> success \<and> errorType \<noteq> [] then [Add ''analysis_errors_total'' 1 [ErrorTypeAttr errorType]] else []))"

definition RecordOutboxEvent :: "bool \<Rightarrow> string \<Rightarrow> sample list" where
  "RecordOutboxEvent success priority =
     (if success then [Add ''outbox_processed_total'' 1 [PriorityAttr priority]]
      else [Add ''outbox_errors_total'' 1 [PriorityAttr priority]])"

definition RecordLinkCheck :: "bool \<Rightarrow> string \<Rightarrow> sample list" where
  "RecordLinkCheck success linkType =
     Add ''link_checks_total'' 1 [LinkTypeAttr linkType] #
     (if success then [] else [Add ''link_check_errors_total'' 1 [LinkTypeAttr linkType]])"

definition RecordFetchTime :: "duration \<Rightarrow> sample list" where
  "RecordFetchTime d = [Record ''fetch_time_seconds'' d []]"

definition RecordProcessingTime :: "duration \<Rightarrow> sample list" where
  "RecordProcessingTime d = [Record ''processing_time_seconds'' d []]"

text \<open>The calls that the adapters and services make (\<open>metrics\<close> of the world), as samples.\<close>

definition link_type_string :: "link_type \<Rightarrow> string" where
  "link_type_string t = (case t of LinkTypeInternal \<Rightarrow> ''internal'' | LinkTypeExternal \<Rightarrow> ''external'')"

fun metric_samples :: "metric \<Rightarrow> sample list" where
  "metric_samples (OutboxMetric s p) = RecordOutboxEvent s (priority_string p)"
| "metric_samples (LinkMetric s t) = RecordLinkCheck s (link_type_string t)"
| "metric_samples (FetchMetric d) = RecordFetchTime d"
| "metric_samples (ProcessingMetric d) = RecordProcessingTime d"

section \<open>Instruments and samples agree\<close>

text \<open>A sample of an instrument that exists, with the type of number that the instrument takes.\<close>

definition fits_instrument :: "string list \<Rightarrow> sample \<Rightarrow> bool" where
  "fits_instrument made s \<longleftrightarrow> sa_instrument s \<in> set made \<and>
     map_of instruments (sa_instrument s) =
       Some (case sa_value s of Count _ \<Rightarrow> Int64Counter | Seconds _ \<Rightarrow> Float64Histogram | Bytes _ \<Rightarrow> Int64Histogram)"

lemma create_instruments_ok:
  "create_instruments create is made = (Inr u, all_made) \<Longrightarrow> all_made = made @ map fst is"
  by (induction create "is" made rule: create_instruments.induct) (auto split: sum.splits)

lemma create_instruments_fails:
  assumes "create_instruments create is made = (Inl e, some_made)"
  shows "\<exists>ok n k rest e'. is = ok @ (n, k) # rest \<and> (\<forall>(m, j)\<in>set ok. \<exists>u. create m j = Inr u) \<and>
    create n k = Inl e' \<and> e = ErrWrap (''failed to create '' @ n @ '' '' @ kind_name k) e' \<and> some_made = made @ map fst ok"
  using assms
proof (induction create "is" made rule: create_instruments.induct)
  case (2 create n k xs made)
  show ?case
  proof (cases "create n k")
    case (Inl e')
    with "2.prems" show ?thesis
      by (intro exI [of _ "[]"] exI [of _ n] exI [of _ k] exI [of _ xs] exI [of _ e']) auto
  next
    case (Inr u)
    with 2 obtain ok m j rest e' where "xs = ok @ (m, j) # rest" "\<forall>(m, j)\<in>set ok. \<exists>u. create m j = Inr u"
      "create m j = Inl e'" "e = ErrWrap (''failed to create '' @ m @ '' '' @ kind_name j) e'"
      "some_made = (made @ [n]) @ map fst ok"
      by fastforce
    with Inr show ?thesis
      by (intro exI [of _ "(n, k) # ok"] exI [of _ m] exI [of _ j] exI [of _ rest] exI [of _ e']) auto
  qed
qed simp

lemma fits_instrument_mono: "map_of instruments i = Some k \<Longrightarrow> i \<in> set (map fst instruments)"
  by (auto dest: map_of_SomeD intro: image_eqI [where x = "(i, k)"])

lemmas record_defs = RecordHTTPRequest_def RecordAnalysisRequest_def RecordOutboxEvent_def RecordLinkCheck_def
  RecordFetchTime_def RecordProcessingTime_def Add_def Record_def RecordBytes_def

text \<open>Also: When the instruments have been made, every sample that the service records is a sample of one of
  them, of its type of number: a counter is added to, a histogram of seconds or of bytes records.
  When one cannot be made, the error names it and those before it have been made.\<close>

theorem instruments_cover_samples:
  assumes "initializeMetrics create = (r, made)"
  shows "(\<forall>u. r = Inr u \<longrightarrow>
      (\<forall>s \<in> set (RecordHTTPRequest mt p c d q rs) \<union> set (RecordAnalysisRequest d ok et) \<union> set (RecordOutboxEvent ok pr) \<union>
             set (RecordLinkCheck ok lt) \<union> set (RecordFetchTime d) \<union> set (RecordProcessingTime d). fits_instrument made s)) \<and>
    (\<forall>e. r = Inl e \<longrightarrow> (\<exists>n k e'. (n, k) \<in> set instruments \<and> create n k = Inl e' \<and>
       e = ErrWrap (''failed to create '' @ n @ '' '' @ kind_name k) e' \<and>
       made = takeWhile (\<lambda>m. m \<noteq> n) (map fst instruments)))"
proof (intro conjI allI impI)
  fix u assume "r = Inr u"
  then have made: "made = map fst instruments"
    using assms create_instruments_ok [of create instruments "[]"] by (simp add: initializeMetrics_def)
  show "\<forall>s \<in> set (RecordHTTPRequest mt p c d q rs) \<union> set (RecordAnalysisRequest d ok et) \<union> set (RecordOutboxEvent ok pr) \<union>
             set (RecordLinkCheck ok lt) \<union> set (RecordFetchTime d) \<union> set (RecordProcessingTime d). fits_instrument made s"
    unfolding made record_defs fits_instrument_def by (auto simp: instruments_def Let_def)
next
  fix e assume r: "r = Inl e"
  from create_instruments_fails [OF assms [unfolded initializeMetrics_def r]]
  obtain before n k rest e' where split: "instruments = before @ (n, k) # rest" and f: "create n k = Inl e'"
    "e = ErrWrap (''failed to create '' @ n @ '' '' @ kind_name k) e'" and made: "made = map fst before"
    by auto
  have "distinct (map fst instruments)" by (simp add: instruments_def)
  then have "n \<notin> set (map fst before)" by (simp add: split)
  then have "takeWhile (\<lambda>m. m \<noteq> n) (map fst instruments) = map fst before"
    unfolding split by (subst map_append) (subst takeWhile_append2; force)
  moreover have "(n, k) \<in> set instruments" unfolding split by simp
  ultimately show "\<exists>n k e'. (n, k) \<in> set instruments \<and> create n k = Inl e' \<and>
       e = ErrWrap (''failed to create '' @ n @ '' '' @ kind_name k) e' \<and>
       made = takeWhile (\<lambda>m. m \<noteq> n) (map fst instruments)"
    using f made by metis
qed

theorem instruments_cover_samples_witness:
  "initializeMetrics (\<lambda>n k. Inr ()) = (Inr (), map fst instruments) \<and>
   (\<forall>s \<in> set (RecordLinkCheck False ''external''). fits_instrument (map fst instruments) s)"
proof -
  have "initializeMetrics (\<lambda>n k. Inr ()) = (Inr (), map fst instruments)"
    by (simp add: initializeMetrics_def instruments_def)
  from instruments_cover_samples [OF this] this show ?thesis by blast
qed

section \<open>The decorators\<close>

datatype log_line = TraceLine string | ErrorLine error string

datatype span_status = SpanOk string | SpanError string

record span =
  sp_tracer :: string
  sp_name :: string
  sp_duration :: duration
  sp_status :: span_status
  sp_events :: "string list"
  sp_errors :: "error list"

record telemetry =
  tm_samples :: "sample list"
  tm_log :: "log_line list"
  tm_spans :: "span list"

definition no_telemetry :: telemetry where
  "no_telemetry = \<lparr>tm_samples = [], tm_log = [], tm_spans = []\<rparr>"

text \<open>\<open>MetricsAdapter.Inc\<close>: whatever the key, a successful analysis request of so many seconds.\<close>

definition Inc :: "string \<Rightarrow> int \<Rightarrow> telemetry \<Rightarrow> telemetry" where
  "Inc key v t = t\<lparr>tm_samples := tm_samples t @ RecordAnalysisRequest (int64 (v * Second)) True []\<rparr>"

text \<open>\<open>generateActionName\<close>, of the name of a type with its package.\<close>

definition generateActionName :: "string \<Rightarrow> string" where
  "generateActionName type_name = split_on CHR ''.'' type_name ! 1"

text \<open>
  A state \<open>'s\<close> with a clock, the result of the handler (an error, a value or a panic), and the
  telemetry. The named result \<open>err\<close> of a decorator is still \<open>nil\<close> when the handler panics.
\<close>

type_synonym ('s, 'r) action = "'s \<times> telemetry \<Rightarrow> 'r result option \<times> 's \<times> telemetry"

definition err_of :: "'r result option \<Rightarrow> error option" where
  "err_of r = (case r of Some (Inl e) \<Rightarrow> Some e | _ \<Rightarrow> None)"

text \<open>\<open>int(end.Seconds())\<close>, exact below \<open>2 ^ 23\<close> seconds.\<close>

definition whole_seconds :: "duration \<Rightarrow> int" where
  "whole_seconds d = sgn d * (\<bar>d\<bar> div Second)"

definition metrics_decorator :: "('s \<Rightarrow> time) \<Rightarrow> string \<Rightarrow> string \<Rightarrow> ('s, 'r) action \<Rightarrow> ('s, 'r) action" where
  "metrics_decorator clk kind type_name base st =
     (let start = clk (fst st); (r, s, t) = base st; d = time_Sub (clk s) start;
          name = to_lower (generateActionName type_name);
          t = Inc (kind @ ''.'' @ name @ ''.duration'') (whole_seconds d) t
      in (r, s, case err_of r of
                  None \<Rightarrow> Inc (kind @ ''.'' @ name @ ''.success'') 1 t
                | Some _ \<Rightarrow> Inc (kind @ ''.'' @ name @ ''.failure'') 1 t))"

definition span_of :: "string \<Rightarrow> duration \<Rightarrow> error option \<Rightarrow> span" where
  "span_of action d err =
     (case err of
        None \<Rightarrow> \<lparr>sp_tracer = action, sp_name = ''Handle'', sp_duration = d, sp_status = SpanOk action,
                 sp_events = [action @ ''.success''], sp_errors = []\<rparr>
      | Some e \<Rightarrow> \<lparr>sp_tracer = action, sp_name = ''Handle'', sp_duration = d,
                 sp_status = SpanError (action @ ''.failure''),
                 sp_events = [action @ ''.failure''], sp_errors = [e]\<rparr>)"

definition tracing_decorator :: "('s \<Rightarrow> time) \<Rightarrow> string \<Rightarrow> string \<Rightarrow> ('s, 'r) action \<Rightarrow> ('s, 'r) action" where
  "tracing_decorator clk kind type_name base st =
     (let start = clk (fst st); (r, s, t) = base st; d = time_Sub (clk s) start;
          action = kind @ ''.'' @ to_lower (generateActionName type_name)
      in (r, s, t\<lparr>tm_spans := tm_spans t @ [span_of action d (err_of r)]\<rparr>))"

text \<open>The trace that starts before the handler is never sent: its event has no message.\<close>

definition line_of :: "string \<Rightarrow> error option \<Rightarrow> log_line" where
  "line_of what err =
     (case err of None \<Rightarrow> TraceLine (what @ '' executed successfully'')
      | Some e \<Rightarrow> ErrorLine e (''failed to execute '' @ what))"

definition logging_decorator :: "string \<Rightarrow> ('s, 'r) action \<Rightarrow> ('s, 'r) action" where
  "logging_decorator what base st =
     (let (r, s, t) = base st in (r, s, t\<lparr>tm_log := tm_log t @ [line_of what (err_of r)]\<rparr>))"

definition ApplyCommandDecorators :: "('s \<Rightarrow> time) \<Rightarrow> string \<Rightarrow> ('s, 'r) action \<Rightarrow> ('s, 'r) action" where
  "ApplyCommandDecorators clk type_name base =
     logging_decorator ''command''
       (tracing_decorator clk ''commands'' type_name (metrics_decorator clk ''commands'' type_name base))"

definition ApplyQueryDecorators :: "('s \<Rightarrow> time) \<Rightarrow> string \<Rightarrow> ('s, 'r) action \<Rightarrow> ('s, 'r) action" where
  "ApplyQueryDecorators clk type_name base =
     logging_decorator ''query''
       (tracing_decorator clk ''queries'' type_name (metrics_decorator clk ''querys'' type_name base))"

text \<open>A handler that does not touch the telemetry, as those of \<open>internal/usecases\<close>.\<close>

definition action_of :: "('s \<Rightarrow> 'r result option \<times> 's) \<Rightarrow> ('s, 'r) action" where
  "action_of f st = (let (r, s) = f (fst st) in (r, s, snd st))"

section \<open>What they change\<close>

lemma decorated_result [simp]:
  "fst (ApplyCommandDecorators clk n base st) = fst (base st)"
  "fst (snd (ApplyCommandDecorators clk n base st)) = fst (snd (base st))"
  "fst (ApplyQueryDecorators clk n base st) = fst (base st)"
  "fst (snd (ApplyQueryDecorators clk n base st)) = fst (snd (base st))"
  by (simp_all add: ApplyCommandDecorators_def ApplyQueryDecorators_def metrics_decorator_def
      tracing_decorator_def logging_decorator_def Let_def split_beta)

text \<open>The samples of an action: a duration and a request, both of them successful analysis requests.\<close>

lemma RecordAnalysisRequest_ok:
  "RecordAnalysisRequest d True e =
     [Add ''analysis_requests_total'' 1 [StatusAttr ''success''],
      Record ''analysis_duration_seconds'' d [StatusAttr ''success'']]"
  by (simp add: RecordAnalysisRequest_def Let_def)

lemma apply_samples:
  assumes "dec = ApplyCommandDecorators clk n \<or> dec = ApplyQueryDecorators clk n"
  shows "tm_samples (snd (snd (dec base st))) = tm_samples (snd (snd (base st))) @
     RecordAnalysisRequest (int64 (whole_seconds (time_Sub (clk (fst (snd (base st)))) (clk (fst st))) * Second)) True [] @
     RecordAnalysisRequest Second True []"
proof -
  have "int64 Second = Second" by (intro int64_id) (simp add: in_int64_def Second_def)
  then show ?thesis
    using assms
    by (elim disjE; simp add: ApplyCommandDecorators_def ApplyQueryDecorators_def metrics_decorator_def
        tracing_decorator_def logging_decorator_def Inc_def Let_def split_beta split: option.splits)
qed

text \<open>Also: The decorators do not interfere. A decorated command or query gives the result of the handler,
  an error and a panic included, and leaves the state as the handler leaves it; it adds one line to
  the log and one span, whose status is an error exactly if the handler returned one.\<close>

theorem decorated_is_handler:
  "\<exists>line sp. ApplyQueryDecorators clk n (action_of f) (s, t) =
     (fst (f s), snd (f s),
      \<lparr>tm_samples = tm_samples (snd (snd (ApplyQueryDecorators clk n (action_of f) (s, t)))),
       tm_log = tm_log t @ [line], tm_spans = tm_spans t @ [sp]\<rparr>) \<and>
     ((\<exists>m. sp_status sp = SpanError m) \<longleftrightarrow> (\<exists>e. fst (f s) = Some (Inl e))) \<and>
     ((\<exists>e m. line = ErrorLine e m) \<longleftrightarrow> (\<exists>e. fst (f s) = Some (Inl e)))"
proof -
  obtain r s' where f: "f s = (r, s')" by (metis surj_pair)
  let ?sp = "span_of (''queries.'' @ to_lower (generateActionName n)) (time_Sub (clk s') (clk s)) (err_of r)"
  have "ApplyQueryDecorators clk n (action_of f) (s, t) = (r, s',
      \<lparr>tm_samples = tm_samples (snd (snd (ApplyQueryDecorators clk n (action_of f) (s, t)))),
       tm_log = tm_log t @ [line_of ''query'' (err_of r)], tm_spans = tm_spans t @ [?sp]\<rparr>)"
    by (simp add: ApplyQueryDecorators_def metrics_decorator_def tracing_decorator_def logging_decorator_def
        action_of_def f Inc_def Let_def split: option.split)
  moreover have "(\<exists>m. sp_status ?sp = SpanError m) \<longleftrightarrow> (\<exists>e. r = Some (Inl e))"
    "(\<exists>e m. line_of ''query'' (err_of r) = ErrorLine e m) \<longleftrightarrow> (\<exists>e. r = Some (Inl e))"
    by (auto simp: span_of_def line_of_def err_of_def split: option.splits sum.splits)
  ultimately show ?thesis unfolding f by auto
qed

text \<open>Also: The request counter cannot show a failure. Each command or query, of whatever kind, adds two
  successful analysis requests, one with its duration in whole seconds and one of a second, also when
  it returns an error or panics: the keys of \<open>Inc\<close> are lost in the adapter.\<close>

theorem failures_counted_as_successes:
  "tm_samples (snd (snd (ApplyCommandDecorators clk n (action_of f) (s, t)))) = tm_samples t @
     [Add ''analysis_requests_total'' 1 [StatusAttr ''success''],
      Record ''analysis_duration_seconds'' (int64 (whole_seconds (time_Sub (clk (snd (f s))) (clk s)) * Second))
        [StatusAttr ''success''],
      Add ''analysis_requests_total'' 1 [StatusAttr ''success''],
      Record ''analysis_duration_seconds'' Second [StatusAttr ''success'']]"
  by (simp add: apply_samples [of "ApplyCommandDecorators clk n" clk n "action_of f" "(s, t)"]
      RecordAnalysisRequest_ok action_of_def Let_def split_beta)

end
