(* ===== verification/Http.thy ===== *)
theory Http
  imports Health Telemetry "HOL-Library.AList"
begin

text \<open>
  Requests and responses as \<open>net/http\<close> has them, and the state of the web server that its handlers
  and middlewares share. A handler is a function of the request, the response written so far and the
  server; the value \<open>None\<close> is a panic. The response writer keeps what the handlers see of it: headers
  can be set until the status is written, the first status that is written is the one that is sent,
  a body written before any status sends 200.
\<close>

section \<open>Requests\<close>

record paseto_token_claims =
  cl_iss :: string
  cl_sub :: string
  cl_aud :: string
  cl_exp :: int
  cl_iat :: int
  cl_nbf :: int
  cl_jti :: string
  cl_scopes :: "string list"

record http_request =
  rq_method :: string
  rq_path :: string
  rq_headers :: "(string \<times> string list) list"
  rq_query :: "(string \<times> string list) list"
  rq_raw_query :: string
  rq_remote_addr :: string
  rq_proto :: string
  rq_host :: string
  rq_body :: "json result"  \<comment> \<open>the body read as JSON text, or the error of that\<close>
  rq_claims :: "paseto_token_claims option"  \<comment> \<open>the context value \<open>paseto_claims\<close>\<close>
  rq_skip_log :: bool  \<comment> \<open>the context value \<open>skip_access_log\<close>\<close>

section \<open>The response\<close>

text \<open>What is written: a JSON value, the body of a health probe, text, a JSON value in a \<open>data:\<close> line of
  an event stream.\<close>

datatype chunk = JsonChunk json | HealthChunk health_response | TextChunk string | DataChunk json

record response =
  rs_header :: "(string \<times> string) list"
  rs_sent :: "(int \<times> (string \<times> string) list) option"  \<comment> \<open>status and headers on the wire\<close>
  rs_body :: "chunk list"
  rs_wraps :: "int list"  \<comment> \<open>the status codes of the wrappers around the writer, innermost first\<close>

definition fresh_response :: response where
  "fresh_response = \<lparr>rs_header = [], rs_sent = None, rs_body = [], rs_wraps = []\<rparr>"

definition header_set :: "string \<Rightarrow> string \<Rightarrow> response \<Rightarrow> response" where
  "header_set k v r = r\<lparr>rs_header := AList.update k v (rs_header r)\<rparr>"

text \<open>
  \<open>response_writer.go\<close>: a \<open>FlushableResponseWriter\<close> notes every status that is written through it, also
  one that comes too late to be sent.
\<close>

definition send_status :: "int \<Rightarrow> response \<Rightarrow> response" where
  "send_status code r =
     (case rs_sent r of None \<Rightarrow> r\<lparr>rs_sent := Some (code, rs_header r)\<rparr> | Some _ \<Rightarrow> r)"

definition WriteHeader :: "int \<Rightarrow> response \<Rightarrow> response" where
  "WriteHeader code r = send_status code (r\<lparr>rs_wraps := map (\<lambda>_. code) (rs_wraps r)\<rparr>)"

definition write_body :: "chunk \<Rightarrow> response \<Rightarrow> response" where
  "write_body c r = (let r = send_status 200 r in r\<lparr>rs_body := rs_body r @ [c]\<rparr>)"

definition NewFlushableResponseWriter :: "response \<Rightarrow> response" where
  "NewFlushableResponseWriter r = r\<lparr>rs_wraps := 200 # rs_wraps r\<rparr>"

definition StatusCode :: "response \<Rightarrow> int" where
  "StatusCode r = hd (rs_wraps r)"

definition unwrap :: "response \<Rightarrow> response" where
  "unwrap r = r\<lparr>rs_wraps := tl (rs_wraps r)\<rparr>"

text \<open>What the client gets when the handler has returned.\<close>

definition sent_status :: "response \<Rightarrow> int" where
  "sent_status r = (case rs_sent r of None \<Rightarrow> 200 | Some (c, _) \<Rightarrow> c)"

definition sent_header :: "response \<Rightarrow> string \<Rightarrow> string option" where
  "sent_header r k = map_of (case rs_sent r of None \<Rightarrow> rs_header r | Some (_, hs) \<Rightarrow> hs) k"

section \<open>The server\<close>

datatype log_level = InfoLevel | WarnLevel | ErrorLevel

record log_entry =
  le_level :: log_level
  le_method :: string
  le_path :: string
  le_status :: int
  le_query :: string
  le_remote_addr :: string
  le_user_agent :: string
  le_proto :: string
  le_host :: string
  le_duration :: duration
  le_request_id :: "string option"
  le_trace_id :: "string option"
  le_referer :: "string option"

record http_metric =
  hm_method :: string
  hm_path :: string
  hm_status :: int
  hm_duration :: duration

text \<open>The state of the key service: the key it has cached and until when (\<open>paseto_key_service.go\<close>).\<close>

datatype paseto_key = V4AsymmetricPublicKey string

record key_service =
  cachedKey :: "paseto_key option"
  cachedKeyExpiry :: time

record server =
  sv_world :: world
  sv_log :: "log_entry list"
  sv_metrics :: "http_metric list"
  sv_keys :: key_service
  sv_telemetry :: telemetry

type_synonym handler = "http_request \<Rightarrow> response \<times> server \<Rightarrow> (response \<times> server) option"
type_synonym middleware = "handler \<Rightarrow> handler"

lemma header_set_simps [simp]:
  "rs_sent (header_set k v r) = rs_sent r" "rs_body (header_set k v r) = rs_body r"
  "rs_wraps (header_set k v r) = rs_wraps r"
  "map_of (rs_header (header_set k v r)) = (map_of (rs_header r))(k \<mapsto> v)"
  by (simp_all add: header_set_def update_conv')

lemma WriteHeader_simps [simp]:
  "rs_wraps (WriteHeader c r) = map (\<lambda>_. c) (rs_wraps r)" "rs_body (WriteHeader c r) = rs_body r"
  "rs_header (WriteHeader c r) = rs_header r"
  "rs_sent (WriteHeader c r) = (case rs_sent r of None \<Rightarrow> Some (c, rs_header r) | Some s \<Rightarrow> Some s)"
  by (simp_all add: WriteHeader_def send_status_def split: option.splits)

lemma write_body_simps [simp]:
  "rs_body (write_body c r) = rs_body r @ [c]" "rs_wraps (write_body c r) = rs_wraps r"
  "rs_header (write_body c r) = rs_header r"
  "rs_sent (write_body c r) = (case rs_sent r of None \<Rightarrow> Some (200, rs_header r) | Some s \<Rightarrow> Some s)"
  by (simp_all add: write_body_def send_status_def Let_def split: option.splits)

end
