(* ===== verification/Key_Service.thy ===== *)
theory Key_Service
  imports Http
begin

text \<open>
  \<open>internal/infrastructure/paseto_key_service.go\<close>: the public key that tokens are verified with, from
  the secret storage, kept for a while, with a key of the configuration to fall back on. Keys are what
  the token library makes of a hexadecimal text; the storage is asked for a secret, whose data is a
  JSON object or absent.
\<close>

record auth_config =
  auth_Enabled :: bool
  ValidIssuers :: "string list"
  SkipPaths :: "string list"
  PasetoKeyPath :: string
  UseVaultKeys :: bool
  KeyCacheTTL :: duration
  FallbackKeyHex :: string

text \<open>\<open>GetSecrets\<close>, by the number of the call, and \<open>NewV4AsymmetricPublicKeyFromHex\<close>.\<close>

record key_source =
  GetSecrets :: "nat \<Rightarrow> string \<Rightarrow> (string \<times> json) list option result"
  KeyFromHex :: "string \<Rightarrow> paseto_key result"

definition NewPasetoKeyService :: "key_service" where
  "NewPasetoKeyService = \<lparr>cachedKey = None, cachedKeyExpiry = 0\<rparr>"

text \<open>A fallback key that is no key ends the process (\<open>Fatal\<close>), which is the value \<open>None\<close>.\<close>

definition loadFallbackKey :: "auth_config \<Rightarrow> key_source \<Rightarrow> paseto_key option" where
  "loadFallbackKey cfg src = (case KeyFromHex src (FallbackKeyHex cfg) of Inl _ \<Rightarrow> None | Inr k \<Rightarrow> Some k)"

definition cached :: "key_service \<Rightarrow> time \<Rightarrow> paseto_key option" where
  "cached s t = (case cachedKey s of None \<Rightarrow> None | Some k \<Rightarrow> if t < cachedKeyExpiry s then Some k else None)"

text \<open>The key that a secret holds, in its nested \<open>data\<close> under \<open>public_key\<close>.\<close>

definition key_of_secret :: "key_source \<Rightarrow> (string \<times> json) list option result \<Rightarrow> paseto_key option" where
  "key_of_secret src secret =
     (case secret of
        Inl _ \<Rightarrow> None
      | Inr None \<Rightarrow> None
      | Inr (Some ob) \<Rightarrow>
          (case map_of ob ''data'' of
             Some (JObj data) \<Rightarrow>
               (case map_of data ''public_key'' of
                  Some (JStr hex) \<Rightarrow>
                    if hex = [] then None
                    else (case KeyFromHex src hex of Inl _ \<Rightarrow> None | Inr k \<Rightarrow> Some k)
                | _ \<Rightarrow> None)
           | _ \<Rightarrow> None))"

definition loadKeyFromVault ::
  "env \<Rightarrow> auth_config \<Rightarrow> key_source \<Rightarrow> key_service \<Rightarrow> world \<Rightarrow> (paseto_key \<times> key_service \<times> world) option" where
  "loadKeyFromVault env cfg src s w =
     (case cached s (now env w) of
        Some k \<Rightarrow> Some (k, s, w)
      | None \<Rightarrow>
          (let w1 = w\<lparr>tick := Suc (tick w)\<rparr>
           in case key_of_secret src (GetSecrets src (tick w) (PasetoKeyPath cfg)) of
                None \<Rightarrow> map_option (\<lambda>k. (k, s, w1)) (loadFallbackKey cfg src)
              | Some k \<Rightarrow>
                  Some (k, \<lparr>cachedKey = Some k, cachedKeyExpiry = now env w1 + KeyCacheTTL cfg\<rparr>, w1)))"

definition GetPublicKey ::
  "env \<Rightarrow> auth_config \<Rightarrow> key_source \<Rightarrow> key_service \<Rightarrow> world \<Rightarrow> (paseto_key \<times> key_service \<times> world) option" where
  "GetPublicKey env cfg src s w =
     (if \<not> UseVaultKeys cfg then map_option (\<lambda>k. (k, s, w)) (loadFallbackKey cfg src)
      else (case cached s (now env w) of
              Some k \<Rightarrow> Some (k, s, w)
            | None \<Rightarrow> loadKeyFromVault env cfg src s w))"

definition RefreshKey ::
  "env \<Rightarrow> auth_config \<Rightarrow> key_source \<Rightarrow> key_service \<Rightarrow> world \<Rightarrow> (key_service \<times> world) option" where
  "RefreshKey env cfg src s w = map_option snd (loadKeyFromVault env cfg src s w)"

section \<open>Properties\<close>

text \<open>Where a cached key can come from: the storage, or the start.\<close>

definition from_storage :: "auth_config \<Rightarrow> key_source \<Rightarrow> paseto_key \<Rightarrow> bool" where
  "from_storage cfg src k \<longleftrightarrow> (\<exists>n. key_of_secret src (GetSecrets src n (PasetoKeyPath cfg)) = Some k)"

definition keys_ok :: "auth_config \<Rightarrow> key_source \<Rightarrow> key_service \<Rightarrow> bool" where
  "keys_ok cfg src s \<longleftrightarrow> (case cachedKey s of None \<Rightarrow> True | Some k \<Rightarrow> from_storage cfg src k)"

lemma load_keys_ok:
  "loadKeyFromVault env cfg src s w = Some (k, s', w') \<Longrightarrow> keys_ok cfg src s \<Longrightarrow>
   keys_ok cfg src s' \<and> (from_storage cfg src k \<or> loadFallbackKey cfg src = Some k)"
  by (auto simp: loadKeyFromVault_def keys_ok_def from_storage_def cached_def Let_def
      split: option.splits if_splits)

inductive key_reach :: "env \<Rightarrow> auth_config \<Rightarrow> key_source \<Rightarrow> key_service \<Rightarrow> bool" for env cfg src where
  fresh: "key_reach env cfg src NewPasetoKeyService"
| get: "key_reach env cfg src s \<Longrightarrow> GetPublicKey env cfg src s w = Some (k, s', w') \<Longrightarrow> key_reach env cfg src s'"
| refresh: "key_reach env cfg src s \<Longrightarrow> RefreshKey env cfg src s w = Some (s', w') \<Longrightarrow> key_reach env cfg src s'"

lemma get_keys_ok:
  "GetPublicKey env cfg src s w = Some (k, s', w') \<Longrightarrow> keys_ok cfg src s \<Longrightarrow>
   keys_ok cfg src s' \<and> (from_storage cfg src k \<or> loadFallbackKey cfg src = Some k)"
  by (auto simp: GetPublicKey_def keys_ok_def cached_def split: if_splits option.splits
      dest!: load_keys_ok [unfolded keys_ok_def])

lemma key_reach_ok: "key_reach env cfg src s \<Longrightarrow> keys_ok cfg src s"
proof (induction rule: key_reach.induct)
  case fresh
  show ?case by (simp add: keys_ok_def NewPasetoKeyService_def)
next
  case (get s w k s' w')
  from get_keys_ok [OF get.hyps(2) get.IH] show ?case by simp
next
  case (refresh s w s' w')
  then obtain k where "loadKeyFromVault env cfg src s w = Some (k, s', w')" by (auto simp: RefreshKey_def)
  from load_keys_ok [OF this refresh.IH] show ?case by simp
qed

text \<open>Also: However the service was used before and whatever the storage answers, asking for the key gives
  one, as long as the fallback key of the configuration is a key; and it is a key that the storage has
  handed out under the configured path or the fallback key, never another one.\<close>

theorem key_always_known:
  assumes "key_reach env cfg src s" "KeyFromHex src (FallbackKeyHex cfg) = Inr k0"
  shows "\<exists>k s' w'. GetPublicKey env cfg src s w = Some (k, s', w') \<and> (from_storage cfg src k \<or> k = k0)"
proof -
  have f: "loadFallbackKey cfg src = Some k0" using assms(2) by (simp add: loadFallbackKey_def)
  then have "GetPublicKey env cfg src s w \<noteq> None"
    by (auto simp: GetPublicKey_def loadKeyFromVault_def Let_def split: option.splits)
  then obtain k s' w' where g: "GetPublicKey env cfg src s w = Some (k, s', w')" by (metis not_None_eq prod_cases3)
  from get_keys_ok [OF g key_reach_ok [OF assms(1)]] f g show ?thesis by auto
qed

definition sample_auth :: auth_config where
  "sample_auth = \<lparr>auth_Enabled = True, ValidIssuers = [''auth-service''], SkipPaths = [''/v1/health''],
     PasetoKeyPath = ''secret/key'', UseVaultKeys = True, KeyCacheTTL = 100, FallbackKeyHex = ''f''\<rparr>"

definition sample_keys :: "key_source" where
  "sample_keys = \<lparr>GetSecrets = (\<lambda>n p. if n = 0 then Inl (ErrText ''sealed'')
       else Inr (Some [(''data'', JObj [(''public_key'', JStr ''aa'')])])),
     KeyFromHex = (\<lambda>h. Inr (V4AsymmetricPublicKey h))\<rparr>"

theorem key_always_known_witness:
  "\<exists>k s' w'. GetPublicKey sample_env sample_auth sample_keys NewPasetoKeyService empty_world = Some (k, s', w')"
  using key_always_known [OF key_reach.fresh, of sample_keys sample_auth "V4AsymmetricPublicKey ''f''" sample_env empty_world]
  by (auto simp: sample_keys_def sample_auth_def)

text \<open>Also: \<open>RefreshKey\<close>, documented to force a refresh from the storage, does nothing as long as the cached
  key has not expired: the storage is not asked, so a key that was replaced or revoked stays in use until
  the expiry.\<close>

theorem refresh_keeps_cached_key:
  assumes "cached s (now env w) = Some k"
  shows "RefreshKey env cfg src s w = Some (s, w)"
  using assms by (simp add: RefreshKey_def loadKeyFromVault_def)

theorem refresh_keeps_cached_key_witness:
  "RefreshKey sample_env sample_auth sample_keys \<lparr>cachedKey = Some (V4AsymmetricPublicKey ''old''), cachedKeyExpiry = 50\<rparr> empty_world =
     Some (\<lparr>cachedKey = Some (V4AsymmetricPublicKey ''old''), cachedKeyExpiry = 50\<rparr>, empty_world)"
  by (rule refresh_keeps_cached_key [of _ _ _ "V4AsymmetricPublicKey ''old''"]) (simp add: cached_def now_def empty_world_def)

end
