(* ===== verification/Auth.thy ===== *)
theory Auth
  imports Key_Service Queue
begin

text \<open>
  \<open>internal/adapters/middleware/auth.go\<close>: finding the token of a request, verifying it and checking its
  claims, as a middleware and as the authentication function of the request validator. The token
  library verifies a token under a key and gives its claims as a JSON value; reading a JSON text and an
  RFC 3339 time are functions too. In claims, texts are \<open>JStr\<close>, those of times included.
\<close>

section \<open>Base64\<close>

text \<open>\<open>base64.RawURLEncoding.DecodeString\<close>: line breaks are skipped, no padding.\<close>

definition b64_val :: "char \<Rightarrow> nat option" where
  "b64_val c =
     (let n = of_char c :: nat
      in if 65 \<le> n \<and> n \<le> 90 then Some (n - 65)
         else if 97 \<le> n \<and> n \<le> 122 then Some (n - 71)
         else if 48 \<le> n \<and> n \<le> 57 then Some (n + 4)
         else if c = CHR ''-'' then Some 62
         else if c = CHR ''_'' then Some 63 else None)"

definition b64_char :: "nat \<Rightarrow> char" where
  "b64_char n =
     (if n < 26 then char_of (n + 65) else if n < 52 then char_of (n + 71)
      else if n < 62 then char_of (n - 4) else if n = 62 then CHR ''-'' else CHR ''_'')"

fun b64_bytes :: "nat list \<Rightarrow> nat list option" where
  "b64_bytes [] = Some []"
| "b64_bytes [a] = None"
| "b64_bytes [a, b] = Some [a * 4 + b div 16]"
| "b64_bytes [a, b, c] = Some [a * 4 + b div 16, (b mod 16) * 16 + c div 4]"
| "b64_bytes (a # b # c # d # r) =
     map_option (\<lambda>bs. [a * 4 + b div 16, (b mod 16) * 16 + c div 4, (c mod 4) * 64 + d] @ bs) (b64_bytes r)"

definition b64_decode :: "string \<Rightarrow> string option" where
  "b64_decode s =
     Option.bind (all_some (map b64_val (filter (\<lambda>c. c \<noteq> CHR 0x0A \<and> c \<noteq> CHR 0x0D) s)))
       (\<lambda>vs. map_option (map char_of) (b64_bytes vs))"

fun b64_groups :: "nat list \<Rightarrow> nat list" where
  "b64_groups [] = []"
| "b64_groups [x] = [x div 4, (x mod 4) * 16]"
| "b64_groups [x, y] = [x div 4, (x mod 4) * 16 + y div 16, (y mod 16) * 4]"
| "b64_groups (x # y # z # r) =
     [x div 4, (x mod 4) * 16 + y div 16, (y mod 16) * 4 + z div 64, z mod 64] @ b64_groups r"

definition b64_encode :: "string \<Rightarrow> string" where
  "b64_encode s = map b64_char (b64_groups (map of_char s))"

lemma b64_val_char [simp]: "n < 64 \<Longrightarrow> b64_val (b64_char n) = Some n"
  by (auto simp: b64_val_def b64_char_def Let_def)

lemma b64_char_plain: "n < 64 \<Longrightarrow> b64_char n \<noteq> CHR 0x0A \<and> b64_char n \<noteq> CHR 0x0D"
proof -
  assume "n < 64"
  then have "b64_val (b64_char n) \<noteq> None" by simp
  moreover have "b64_val (CHR 0x0A) = None" "b64_val (CHR 0x0D) = None" by (simp_all add: b64_val_def)
  ultimately show ?thesis by metis
qed

lemma b64_groups_small: "list_all (\<lambda>x. x < 256) xs \<Longrightarrow> list_all (\<lambda>x. x < 64) (b64_groups xs)"
  by (induction xs rule: b64_groups.induct) auto

lemma b64_bytes_groups: "list_all (\<lambda>x. x < 256) xs \<Longrightarrow> b64_bytes (b64_groups xs) = Some xs"
proof (induction xs rule: b64_groups.induct)
  case (2 x)
  then show ?case by simp
next
  case (3 x y)
  then have "((x mod 4) * 16 + y div 16) div 16 = x mod 4" "((x mod 4) * 16 + y div 16) mod 16 = y div 16"
    by auto
  then show ?case by simp
next
  case (4 x y z r)
  have "((x mod 4) * 16 + y div 16) div 16 = x mod 4" "((x mod 4) * 16 + y div 16) mod 16 = y div 16"
    "((y mod 16) * 4 + z div 64) div 4 = y mod 16" "((y mod 16) * 4 + z div 64) mod 4 = z div 64"
    using 4(2) by auto
  with 4 show ?case by simp
qed simp

lemma all_some_map: "(\<And>x. x \<in> set xs \<Longrightarrow> f x = Some (g x)) \<Longrightarrow> all_some (map f xs) = Some (map g xs)"
  by (induction xs) auto

lemma b64_roundtrip: "b64_decode (b64_encode s) = Some s"
proof -
  let ?g = "b64_groups (map of_char s :: nat list)"
  have b: "list_all (\<lambda>x. x < 256) (map of_char s :: nat list)" by (simp add: list_all_iff)
  from b64_groups_small [OF b] have g: "\<forall>x \<in> set ?g. x < 64" by (simp add: list_all_iff)
  then have "filter (\<lambda>c. c \<noteq> CHR 0x0A \<and> c \<noteq> CHR 0x0D) (b64_encode s) = b64_encode s"
    by (simp add: b64_encode_def filter_id_conv b64_char_plain)
  moreover have "all_some (map b64_val (b64_encode s)) = Some ?g"
    using all_some_map [of ?g "b64_val \<circ> b64_char" "\<lambda>x. x"] g by (simp add: b64_encode_def)
  ultimately show ?thesis by (simp add: b64_decode_def b64_bytes_groups [OF b] comp_def)
qed

section \<open>The token of a request\<close>

record token_lib =
  ParseV4Public :: "paseto_key \<Rightarrow> string \<Rightarrow> json result"
  read_json :: "string \<Rightarrow> json result"
  parse_RFC3339 :: "string \<Rightarrow> time result"

definition shouldSkipAuth :: "auth_config \<Rightarrow> string \<Rightarrow> bool" where
  "shouldSkipAuth cfg path = list_ex (has_prefix path) (SkipPaths cfg)"

definition bearer :: "string \<Rightarrow> string option" where
  "bearer authHeader =
     (case split2 CHR '' '' authHeader of
        [scheme, token] \<Rightarrow> if to_lower scheme = ''bearer'' then Some token else None
      | _ \<Rightarrow> None)"

definition extractToken :: "http_request \<Rightarrow> string result" where
  "extractToken r =
     (case (if header_get (rq_headers r) ''Authorization'' \<noteq> [] then bearer (header_get (rq_headers r) ''Authorization'') else None) of
        Some t \<Rightarrow> Inr t
      | None \<Rightarrow>
          if header_get (rq_headers r) ''X-Paseto-Token'' \<noteq> [] then Inr (header_get (rq_headers r) ''X-Paseto-Token'')
          else if contains (rq_path r) ''/events'' \<and> header_get (rq_query r) ''token'' \<noteq> [] then
            Inr (header_get (rq_query r) ''token'')
          else if contains (rq_path r) ''/events'' \<and> header_get (rq_query r) ''access_token'' \<noteq> [] then
            Inr (header_get (rq_query r) ''access_token'')
          else Inl (ErrText ''authentication token not found''))"

section \<open>Claims\<close>

text \<open>Reading claims of their types, as \<open>json.Unmarshal\<close> does for \<open>PasetoTokenClaims\<close>.\<close>

definition zero_claims :: paseto_token_claims where
  "zero_claims = \<lparr>cl_iss = [], cl_sub = [], cl_aud = [], cl_exp = 0, cl_iat = 0, cl_nbf = 0, cl_jti = [], cl_scopes = []\<rparr>"

definition dec_claims :: "json \<Rightarrow> paseto_token_claims result" where
  "dec_claims = json_struct (\<lambda>ob.
     bind_result (json_field ''iss'' dec_string [] ob) (\<lambda>iss.
     bind_result (json_field ''sub'' dec_string [] ob) (\<lambda>sub.
     bind_result (json_field ''aud'' dec_string [] ob) (\<lambda>aud.
     bind_result (json_field ''exp'' dec_int 0 ob) (\<lambda>exp.
     bind_result (json_field ''iat'' dec_int 0 ob) (\<lambda>iat.
     bind_result (json_field ''nbf'' dec_int 0 ob) (\<lambda>nbf.
     bind_result (json_field ''jti'' dec_string [] ob) (\<lambda>jti.
     bind_result (json_field ''scopes'' (dec_slice dec_string) None ob) (\<lambda>scopes.
       Inr \<lparr>cl_iss = iss, cl_sub = sub, cl_aud = aud, cl_exp = exp, cl_iat = iat, cl_nbf = nbf,
            cl_jti = jti, cl_scopes = elems scopes\<rparr>)))))))))
     zero_claims"

text \<open>
  A JSON number is a \<open>float64\<close> in a value of type \<open>any\<close>; converted to \<open>int64\<close> it is exact up to
  \<open>2 ^ 53\<close>, and the least \<open>int64\<close> when it does not fit (what amd64 gives).
\<close>

definition float_to_int64 :: "int \<Rightarrow> int" where
  "float_to_int64 n =
     (if \<bar>n\<bar> \<le> 2 ^ 53 then n
      else let v = sgn n * int (float64_of_nat (nat \<bar>n\<bar>)) in if in_int64 v then v else - (2 ^ 63))"

definition parseTimeField :: "token_lib \<Rightarrow> json \<Rightarrow> int result" where
  "parseTimeField lib v =
     (case v of
        JStr s \<Rightarrow> bind_result (parse_RFC3339 lib s) (\<lambda>t. Inr (t div Second))
      | JNum n \<Rightarrow> Inr (float_to_int64 n)
      | _ \<Rightarrow> Inl (ErrText ''unsupported time format''))"

definition time_claim :: "token_lib \<Rightarrow> string \<Rightarrow> string \<Rightarrow> (string \<times> json) list \<Rightarrow> int result" where
  "time_claim lib k what ob =
     (case map_of ob k of
        None \<Rightarrow> Inr 0
      | Some v \<Rightarrow> (case parseTimeField lib v of Inl e \<Rightarrow> Inl (ErrWrap what e) | Inr t \<Rightarrow> Inr t))"

definition scope_claims :: "(string \<times> json) list \<Rightarrow> string list" where
  "scope_claims ob =
     (case map_of ob ''scopes'' of
        Some (JArr js) \<Rightarrow> List.map_filter (\<lambda>j. case j of JStr s \<Rightarrow> Some s | _ \<Rightarrow> None) js
      | _ \<Rightarrow> [])"

text \<open>\<open>rawClaims[k].(string)\<close> panics when the claim is missing or no string.\<close>

definition string_claim :: "string \<Rightarrow> (string \<times> json) list \<Rightarrow> string option" where
  "string_claim k ob = (case map_of ob k of Some (JStr s) \<Rightarrow> Some s | _ \<Rightarrow> None)"

definition claims_of :: "token_lib \<Rightarrow> (string \<times> json) list \<Rightarrow> paseto_token_claims result option" where
  "claims_of lib ob =
     (case (string_claim ''iss'' ob, string_claim ''sub'' ob, string_claim ''aud'' ob, string_claim ''jti'' ob) of
        (Some iss, Some sub, Some aud, Some jti) \<Rightarrow> Some (
          bind_result (time_claim lib ''exp'' ''failed to parse expiration time'' ob) (\<lambda>exp.
          bind_result (time_claim lib ''iat'' ''failed to parse issued at time'' ob) (\<lambda>iat.
          bind_result (time_claim lib ''nbf'' ''failed to parse not before time'' ob) (\<lambda>nbf.
            Inr \<lparr>cl_iss = iss, cl_sub = sub, cl_aud = aud, cl_exp = exp, cl_iat = iat, cl_nbf = nbf,
                 cl_jti = jti, cl_scopes = scope_claims ob\<rparr>))))
      | _ \<Rightarrow> None)"

definition isValidIssuer :: "auth_config \<Rightarrow> string \<Rightarrow> bool" where
  "isValidIssuer cfg issuer = list_ex (\<lambda>i. issuer = i) (ValidIssuers cfg)"

definition check_claims :: "auth_config \<Rightarrow> int \<Rightarrow> paseto_token_claims \<Rightarrow> paseto_token_claims result" where
  "check_claims cfg now_unix c =
     (if \<not> isValidIssuer cfg (cl_iss c) then Inl (ErrText (''invalid token issuer: '' @ cl_iss c))
      else if 0 < cl_exp c \<and> cl_exp c < now_unix then Inl (ErrText ''token has expired'')
      else if now_unix < cl_nbf c then Inl (ErrText ''token not yet valid'')
      else Inr c)"

definition v4_public :: string where "v4_public = ''v4.public.''"

text \<open>What happens to a token whose signature is bad: its claims are read all the same.\<close>

definition demo_claims :: "token_lib \<Rightarrow> string \<Rightarrow> paseto_token_claims option" where
  "demo_claims lib token =
     (let payload = drop (length v4_public) token
      in if 88 < length payload then
           (case b64_decode (take (length payload - 88) payload) of
              None \<Rightarrow> None
            | Some text \<Rightarrow>
                (case bind_result (read_json lib text) dec_claims of Inl _ \<Rightarrow> None | Inr c \<Rightarrow> Some c))
         else None)"

definition token_claims ::
  "auth_config \<Rightarrow> token_lib \<Rightarrow> int \<Rightarrow> paseto_key \<Rightarrow> string \<Rightarrow> paseto_token_claims result option" where
  "token_claims cfg lib now_unix key token =
     (case ParseV4Public lib key token of
        Inl e \<Rightarrow> Some
          (case (if contains (Error e) ''bad signature'' \<and> has_prefix token v4_public
                 then demo_claims lib token else None) of
             Some c \<Rightarrow> Inr c
           | None \<Rightarrow> Inl (ErrWrap ''failed to parse PASETO token'' e))
      | Inr (JObj ob) \<Rightarrow> map_option (\<lambda>r. bind_result r (check_claims cfg now_unix)) (claims_of lib ob)
      | Inr JNull \<Rightarrow> None
      | Inr _ \<Rightarrow> Some (Inl (ErrWrap ''failed to unmarshal token claims'' json_type_error)))"

text \<open>The value \<open>None\<close> is a panic (a claim of another type) or the end of the process (no key).\<close>

definition validateToken ::
  "env \<Rightarrow> auth_config \<Rightarrow> key_source \<Rightarrow> token_lib \<Rightarrow> string \<Rightarrow> key_service \<Rightarrow> world \<Rightarrow>
     (paseto_token_claims result \<times> key_service \<times> world) option" where
  "validateToken env cfg src lib token ks w =
     (if \<not> has_prefix token v4_public then
        Some (Inl (ErrText ''invalid token format: expected v4.public token''), ks, w)
      else (case GetPublicKey env cfg src ks w of
              None \<Rightarrow> None
            | Some (key, ks1, w1) \<Rightarrow>
                map_option (\<lambda>r. (r, ks1, w1)) (token_claims cfg lib (now env w1 div Second) key token)))"

text \<open>The body of a refused request.\<close>

definition writeUnauthorizedResponse :: "time \<Rightarrow> string \<Rightarrow> string \<Rightarrow> response \<Rightarrow> response" where
  "writeUnauthorizedResponse t code message r =
     write_body (JsonChunk (JObj [(''status_code'', JNum 401), (''error'', JStr code), (''message'', JStr message),
         (''timestamp'', JTime t)]))
       (WriteHeader 401 (header_set ''Content-Type'' ''application/json'' r))"

definition with_keys :: "key_service \<Rightarrow> world \<Rightarrow> server \<Rightarrow> server" where
  "with_keys ks w sv = sv\<lparr>sv_keys := ks, sv_world := w\<rparr>"

definition auth_Middleware :: "env \<Rightarrow> auth_config \<Rightarrow> key_source \<Rightarrow> token_lib \<Rightarrow> middleware" where
  "auth_Middleware env cfg src lib next r rw =
     (if shouldSkipAuth cfg (rq_path r) then next r rw
      else (case extractToken r of
              Inl _ \<Rightarrow>
                Some (writeUnauthorizedResponse (now env (sv_world (snd rw))) ''MISSING_TOKEN''
                        ''Authentication token is required'' (fst rw), snd rw)
            | Inr token \<Rightarrow>
                (case validateToken env cfg src lib token (sv_keys (snd rw)) (sv_world (snd rw)) of
                   None \<Rightarrow> None
                 | Some (Inl e, ks1, w1) \<Rightarrow>
                     Some (writeUnauthorizedResponse (now env w1) ''INVALID_TOKEN'' (Error e) (fst rw),
                           with_keys ks1 w1 (snd rw))
                 | Some (Inr c, ks1, w1) \<Rightarrow>
                     next (r\<lparr>rq_claims := Some c\<rparr>) (fst rw, with_keys ks1 w1 (snd rw)))))"

text \<open>
  \<open>NewPasetoAuthenticationFunc\<close>, what the request validator calls: an error, or the request with the
  claims in its context.
\<close>

definition AuthenticationFunc ::
  "env \<Rightarrow> auth_config \<Rightarrow> key_source \<Rightarrow> token_lib \<Rightarrow> http_request \<Rightarrow> server \<Rightarrow> (http_request result \<times> server) option" where
  "AuthenticationFunc env cfg src lib r sv =
     (if \<not> auth_Enabled cfg then Some (Inr r, sv)
      else if shouldSkipAuth cfg (rq_path r) then Some (Inr r, sv)
      else (case extractToken r of
              Inl _ \<Rightarrow> Some (Inl (ErrText ''authentication token not found''), sv)
            | Inr token \<Rightarrow>
                (case validateToken env cfg src lib token (sv_keys sv) (sv_world sv) of
                   None \<Rightarrow> None
                 | Some (Inl e, ks1, w1) \<Rightarrow> Some (Inl (ErrWrap ''invalid token'' e), with_keys ks1 w1 sv)
                 | Some (Inr c, ks1, w1) \<Rightarrow> Some (Inr (r\<lparr>rq_claims := Some c\<rparr>), with_keys ks1 w1 sv))))"

section \<open>What is accepted\<close>

lemma check_claims_ok:
  "check_claims cfg n c = Inr c' \<longleftrightarrow>
     c' = c \<and> cl_iss c \<in> set (ValidIssuers cfg) \<and> (cl_exp c \<le> 0 \<or> n \<le> cl_exp c) \<and> cl_nbf c \<le> n"
  by (auto simp: check_claims_def isValidIssuer_def list_ex_iff)

lemma token_claims_cases:
  assumes "token_claims cfg lib n key token = Some (Inr c)"
  obtains (verified) ob where "ParseV4Public lib key token = Inr (JObj ob)"
      "claims_of lib ob = Some (Inr c)" "check_claims cfg n c = Inr c"
    | (unverified) e where "ParseV4Public lib key token = Inl e" "contains (Error e) ''bad signature''"
      "demo_claims lib token = Some c"
proof (cases "ParseV4Public lib key token")
  case (Inl e)
  with assms show thesis by (intro unverified [OF Inl]) (auto simp: token_claims_def split: if_splits option.splits)
next
  case (Inr j)
  then obtain ob r where j: "j = JObj ob" "claims_of lib ob = Some r" "bind_result r (check_claims cfg n) = Inr c"
    using assms by (auto simp: token_claims_def split: json.splits)
  then obtain c0 where "r = Inr c0" "check_claims cfg n c0 = Inr c" by (cases r) auto
  with j Inr show thesis by (intro verified [of ob]) (auto simp: check_claims_ok)
qed

text \<open>C10: What an accepted token has been checked for. Its format is that of a public v4 token and, under
  the key in use, either its signature is good, its issuer is one of the configured ones, it has not
  expired and its time has come, or its signature is bad and its claims have just been read out of it.\<close>

theorem accepted_token_checked:
  assumes "validateToken env cfg src lib token ks w = Some (Inr c, ks', w')"
  shows "has_prefix token v4_public \<and> (\<exists>key. GetPublicKey env cfg src ks w = Some (key, ks', w') \<and>
    ((\<exists>ob. ParseV4Public lib key token = Inr (JObj ob) \<and> claims_of lib ob = Some (Inr c) \<and>
        cl_iss c \<in> set (ValidIssuers cfg) \<and> (cl_exp c \<le> 0 \<or> now env w' div Second \<le> cl_exp c) \<and>
        cl_nbf c \<le> now env w' div Second) \<or>
     (\<exists>e. ParseV4Public lib key token = Inl e \<and> contains (Error e) ''bad signature'' \<and>
        demo_claims lib token = Some c)))"
proof -
  have p: "has_prefix token v4_public" using assms by (auto simp: validateToken_def split: if_splits)
  then obtain key where k: "GetPublicKey env cfg src ks w = Some (key, ks', w')"
    and t: "token_claims cfg lib (now env w' div Second) key token = Some (Inr c)"
    using assms by (auto simp: validateToken_def split: option.splits prod.splits)
  from t show ?thesis
  proof (cases rule: token_claims_cases)
    case (verified ob)
    with p k show ?thesis by (auto simp: check_claims_ok)
  next
    case (unverified e)
    with p k show ?thesis by blast
  qed
qed

definition sample_lib :: token_lib where
  "sample_lib = \<lparr>ParseV4Public = (\<lambda>k t. if t = ''v4.public.good'' then
         Inr (JObj [(''iss'', JStr ''auth-service''), (''sub'', JStr ''u''), (''aud'', JStr ''a''), (''jti'', JStr ''1'')])
       else Inl (ErrText ''bad signature'')),
     read_json = (\<lambda>s. Inr (JObj [(''iss'', JStr ''mallory''), (''sub'', JStr s)])),
     parse_RFC3339 = (\<lambda>s. Inl (ErrText ''no time''))\<rparr>"

lemma sample_key: "GetPublicKey sample_env sample_auth sample_keys NewPasetoKeyService empty_world =
    Some (V4AsymmetricPublicKey ''f'', NewPasetoKeyService, empty_world\<lparr>tick := 1\<rparr>)"
  by (simp add: GetPublicKey_def sample_auth_def loadKeyFromVault_def cached_def NewPasetoKeyService_def
      sample_keys_def key_of_secret_def loadFallbackKey_def empty_world_def)

theorem accepted_token_checked_witness:
  "\<exists>c. fst (the (validateToken sample_env sample_auth sample_keys sample_lib ''v4.public.good'' NewPasetoKeyService empty_world)) = Inr c \<and>
     cl_iss c = ''auth-service''"
proof -
  let ?v = "validateToken sample_env sample_auth sample_keys sample_lib ''v4.public.good'' NewPasetoKeyService empty_world"
  have iss: "ValidIssuers sample_auth = [''auth-service'']" by (simp add: sample_auth_def)
  obtain c ks w where v: "?v = Some (Inr c, ks, w)"
    by (simp add: validateToken_def sample_key v4_public_def has_prefix_def token_claims_def sample_lib_def claims_of_def
        string_claim_def time_claim_def check_claims_def isValidIssuer_def iss now_def Second_def)
  from accepted_token_checked [OF v] have "cl_iss c = ''auth-service''"
    by (auto simp: sample_lib_def sample_auth_def)
  with v show ?thesis by simp
qed

text \<open>C20: Anyone can make a token that is accepted. Take the text of any claims, any issuer, no matter
  when it expires, encode it and append 88 arbitrary characters: the library reports a bad signature,
  and the claims are accepted as they stand.\<close>

theorem forged_token_accepted:
  assumes "GetPublicKey env cfg src ks w = Some (key, ks', w')"
    and "ParseV4Public lib key (v4_public @ b64_encode body @ tail) = Inl e" "contains (Error e) ''bad signature''"
    and "bind_result (read_json lib body) dec_claims = Inr c" "length tail = 88" "body \<noteq> []"
  shows "validateToken env cfg src lib (v4_public @ b64_encode body @ tail) ks w = Some (Inr c, ks', w')"
proof -
  have "b64_encode body \<noteq> []"
    using assms(6) b64_roundtrip [of body] by (auto simp: b64_decode_def)
  with assms(4,5) have "demo_claims lib (v4_public @ b64_encode body @ tail) = Some c"
    by (simp add: demo_claims_def b64_roundtrip)
  with assms(1-3) show ?thesis
    by (simp add: validateToken_def token_claims_def)
qed

theorem forged_token_accepted_witness:
  "\<exists>c. validateToken sample_env sample_auth sample_keys sample_lib
      (v4_public @ b64_encode ''admin'' @ replicate 88 CHR ''x'') NewPasetoKeyService empty_world =
        Some (Inr c, NewPasetoKeyService, empty_world\<lparr>tick := 1\<rparr>) \<and>
     cl_iss c = ''mallory'' \<and> cl_sub c = ''admin'' \<and> cl_iss c \<notin> set (ValidIssuers sample_auth)"
proof -
  let ?c = "zero_claims\<lparr>cl_iss := ''mallory'', cl_sub := ''admin''\<rparr>"
  have "length (v4_public @ b64_encode ''admin'' @ replicate 88 CHR ''x'') \<noteq> length ''v4.public.good''"
    by (simp add: v4_public_def)
  then have "v4_public @ b64_encode ''admin'' @ replicate 88 CHR ''x'' \<noteq> ''v4.public.good''" by metis
  then have p: "ParseV4Public sample_lib (V4AsymmetricPublicKey ''f'') (v4_public @ b64_encode ''admin'' @ replicate 88 CHR ''x'') =
      Inl (ErrText ''bad signature'')" by (simp add: sample_lib_def)
  have "bind_result (read_json sample_lib ''admin'') dec_claims = Inr ?c"
    by (simp add: sample_lib_def dec_claims_def json_struct_def json_field_def zero_claims_def)
  moreover have "contains (Error (ErrText ''bad signature'')) ''bad signature''" by (simp add: has_prefix_def)
  ultimately have "validateToken sample_env sample_auth sample_keys sample_lib
      (v4_public @ b64_encode ''admin'' @ replicate 88 CHR ''x'') NewPasetoKeyService empty_world =
        Some (Inr ?c, NewPasetoKeyService, empty_world\<lparr>tick := 1\<rparr>)"
    by (intro forged_token_accepted [OF sample_key p]) simp_all
  moreover have "''mallory'' \<notin> set (ValidIssuers sample_auth)" by (simp add: sample_auth_def)
  ultimately show ?thesis by (intro exI [of _ ?c]) (simp add: zero_claims_def)
qed

text \<open>
  Also: A verified token makes the middleware panic exactly when its claims are \<open>null\<close> or one of the four claims
  that are read as strings without a check is missing or is no string; the signature is good, so whoever may
  issue tokens can do it.
\<close>

theorem verified_token_panics:
  "token_claims cfg lib now_unix key token = None \<longleftrightarrow>
     ParseV4Public lib key token = Inr JNull \<or>
     (\<exists>ob. ParseV4Public lib key token = Inr (JObj ob) \<and>
        list_ex (\<lambda>k. string_claim k ob = None) [''iss'', ''sub'', ''aud'', ''jti''])"
proof (cases "ParseV4Public lib key token")
  case (Inr j)
  then show ?thesis by (cases j) (auto simp: token_claims_def claims_of_def split: option.splits)
qed (simp add: token_claims_def)

end
