(* ===== verification/Handler.thy ===== *)
theory Handler
  imports Http Application
begin

text \<open>
  \<open>internal/adapters/http/request_handler.go\<close>: the six operations of the API, on the application
  service of \<open>Application\<close> and the reports of \<open>Health\<close>, through the decorated handlers of
  \<open>internal/usecases\<close>. Writing to the client never fails here.
\<close>

section \<open>The application\<close>

text \<open>What the application is made with: its environment, the retries and the expiry of the
  configuration, and when the health checker was made.\<close>

record web_app =
  wa_env :: env
  wa_retries :: max_retries_by_priority
  wa_expiry :: duration
  wa_start :: time

text \<open>A use case on the world of the server, decorated; it never panics.\<close>

definition server_clock :: "web_app \<Rightarrow> world \<Rightarrow> time" where
  "server_clock app w = now (wa_env app) w"

definition use_case ::
  "((world, 'r) action \<Rightarrow> (world, 'r) action) \<Rightarrow> (world \<Rightarrow> 'r result \<times> world) \<Rightarrow> server \<Rightarrow> 'r result \<times> server" where
  "use_case decorate f sv =
     (let (r, w, t) = decorate (action_of (\<lambda>w. let (r, w) = f w in (Some r, w))) (sv_world sv, sv_telemetry sv)
      in (the r, sv\<lparr>sv_world := w, sv_telemetry := t\<rparr>))"

definition AnalyzeCommandHandler ::
  "web_app \<Rightarrow> string \<Rightarrow> analysis_options \<Rightarrow> server \<Rightarrow> analysis result \<times> server" where
  "AnalyzeCommandHandler app url options =
     use_case (ApplyCommandDecorators (server_clock app) ''commands.AnalyzeCommand'')
       (StartAnalysis (wa_env app) (wa_retries app) (wa_expiry app) url options)"

definition FetchAnalysisQueryHandler :: "web_app \<Rightarrow> uuid \<Rightarrow> server \<Rightarrow> analysis result \<times> server" where
  "FetchAnalysisQueryHandler app i =
     use_case (ApplyQueryDecorators (server_clock app) ''queries.FetchAnalysisQuery'')
       (FetchAnalysis (wa_env app) (wa_expiry app) i)"

text \<open>Making the channel of events starts the goroutine and cannot fail.\<close>

definition FetchAnalysisEventsQueryHandler :: "web_app \<Rightarrow> server \<Rightarrow> unit result \<times> server" where
  "FetchAnalysisEventsQueryHandler app =
     use_case (ApplyQueryDecorators (server_clock app) ''queries.FetchAnalysisEventsQuery'') (\<lambda>w. (Inr (), w))"

definition FetchReadinessReportQueryHandler :: "web_app \<Rightarrow> server \<Rightarrow> readiness_result result \<times> server" where
  "FetchReadinessReportQueryHandler app =
     use_case (ApplyQueryDecorators (server_clock app) ''queries.FetchReadinessReportQuery'')
       (FetchReadinessReport (wa_env app))"

definition FetchLivenessReportQueryHandler :: "web_app \<Rightarrow> server \<Rightarrow> liveness_result result \<times> server" where
  "FetchLivenessReportQueryHandler app =
     use_case (ApplyQueryDecorators (server_clock app) ''queries.FetchLivenessReportQuery'')
       (FetchLivenessReport (wa_env app))"

definition FetchHealthReportQueryHandler :: "web_app \<Rightarrow> server \<Rightarrow> health_result result \<times> server" where
  "FetchHealthReportQueryHandler app =
     use_case (ApplyQueryDecorators (server_clock app) ''queries.FetchHealthReportQuery'')
       (FetchHealthReport (wa_env app) (wa_start app))"

lemma fst_use_case [simp]:
  "fst (use_case (ApplyCommandDecorators clk n) f sv) = fst (f (sv_world sv))"
  "fst (use_case (ApplyQueryDecorators clk n) f sv) = fst (f (sv_world sv))"
  by (simp_all add: use_case_def action_of_def Let_def split_beta)

lemma world_use_case [simp]:
  "sv_world (snd (use_case (ApplyCommandDecorators clk n) f sv)) = snd (f (sv_world sv))"
  "sv_world (snd (use_case (ApplyQueryDecorators clk n) f sv)) = snd (f (sv_world sv))"
  by (simp_all add: use_case_def action_of_def Let_def split_beta)

section \<open>Responses\<close>

definition server_now :: "web_app \<Rightarrow> server \<Rightarrow> time" where
  "server_now app sv = now (wa_env app) (sv_world sv)"

definition writeErrorResponse :: "time \<Rightarrow> int \<Rightarrow> string \<Rightarrow> string \<Rightarrow> string \<Rightarrow> response \<Rightarrow> response" where
  "writeErrorResponse t statusCode errorType msg details r =
     write_body (JsonChunk (JObj [(''details'', JStr details), (''error'', JStr errorType), (''message'', JStr msg),
         (''status_code'', JNum statusCode), (''timestamp'', JTime t)]))
       (WriteHeader statusCode (header_set ''Content-Type'' ''application/json'' r))"

definition write_json :: "int \<Rightarrow> chunk \<Rightarrow> response \<Rightarrow> response" where
  "write_json statusCode c r =
     write_body c (WriteHeader statusCode (header_set ''Content-Type'' ''application/json'' r))"

section \<open>Starting an analysis\<close>

record request_options =
  ro_check_links :: "bool option"
  ro_detect_forms :: "bool option"
  ro_include_headings :: "bool option"
  ro_timeout :: "int option"

record analyze_body =
  ab_options :: "request_options option"
  ab_url :: string

definition dec_request_options :: "json \<Rightarrow> request_options result" where
  "dec_request_options = json_struct (\<lambda>ob.
     bind_result (json_field ''check_links'' (dec_pointer dec_bool) None ob) (\<lambda>a.
     bind_result (json_field ''detect_forms'' (dec_pointer dec_bool) None ob) (\<lambda>b.
     bind_result (json_field ''include_headings'' (dec_pointer dec_bool) None ob) (\<lambda>c.
     bind_result (json_field ''timeout'' (dec_pointer dec_int) None ob) (\<lambda>d.
       Inr \<lparr>ro_check_links = a, ro_detect_forms = b, ro_include_headings = c, ro_timeout = d\<rparr>)))))
     \<lparr>ro_check_links = None, ro_detect_forms = None, ro_include_headings = None, ro_timeout = None\<rparr>"

definition dec_analyze_body :: "json \<Rightarrow> analyze_body result" where
  "dec_analyze_body = json_struct (\<lambda>ob.
     bind_result (json_field ''options'' (dec_pointer dec_request_options) None ob) (\<lambda>a.
     bind_result (json_field ''url'' dec_string [] ob) (\<lambda>b.
       Inr \<lparr>ab_options = a, ab_url = b\<rparr>)))
     \<lparr>ab_options = None, ab_url = []\<rparr>"

text \<open>The timeout in seconds becomes a duration, whose product wraps around.\<close>

definition mapRequestOptionsToDomainOptions :: "request_options option \<Rightarrow> analysis_options" where
  "mapRequestOptionsToDomainOptions reqOptions =
     (let options = \<lparr>include_headings = True, check_links = True, detect_forms = True, opt_timeout = 30 * Second\<rparr>
      in case reqOptions of
           None \<Rightarrow> options
         | Some ro \<Rightarrow>
             (let options = (case ro_include_headings ro of None \<Rightarrow> options | Some b \<Rightarrow> options\<lparr>include_headings := b\<rparr>);
                  options = (case ro_check_links ro of None \<Rightarrow> options | Some b \<Rightarrow> options\<lparr>check_links := b\<rparr>);
                  options = (case ro_detect_forms ro of None \<Rightarrow> options | Some b \<Rightarrow> options\<lparr>detect_forms := b\<rparr>)
              in case ro_timeout ro of None \<Rightarrow> options | Some n \<Rightarrow> options\<lparr>opt_timeout := int64 (n * Second)\<rparr>))"

definition AnalyzeURL :: "web_app \<Rightarrow> handler" where
  "AnalyzeURL app r rw =
     (let (rs, sv) = rw
      in case bind_result (rq_body r) dec_analyze_body of
           Inl e \<Rightarrow> Some (writeErrorResponse (server_now app sv) 400 ''bad_request'' ''invalid request body'' (Error e) rs, sv)
         | Inr req \<Rightarrow>
             if ab_url req = [] then
               Some (writeErrorResponse (server_now app sv) 400 ''bad_request'' ''URL is required'' ''url field cannot be empty'' rs, sv)
             else
               (case AnalyzeCommandHandler app (ab_url req) (mapRequestOptionsToDomainOptions (ab_options req)) sv of
                  (Inl e, sv1) \<Rightarrow>
                    Some (writeErrorResponse (server_now app sv1) 500 ''internal_server_error'' ''failed to start analysis'' (Error e) rs, sv1)
                | (Inr a, sv1) \<Rightarrow> Some (write_json 202 (JsonChunk (enc_analysis a)) rs, sv1)))"

section \<open>Fetching an analysis\<close>

text \<open>The result of the query is a pointer; without an error it never is \<open>nil\<close>.\<close>

definition GetAnalysis :: "web_app \<Rightarrow> uuid \<Rightarrow> handler" where
  "GetAnalysis app analysisId r rw =
     (let (rs, sv) = rw
      in case map_prod (map_sum id Some) id (FetchAnalysisQueryHandler app analysisId sv) of
           (Inl e, sv1) \<Rightarrow>
             Some (writeErrorResponse (server_now app sv1) 404 ''not_found'' ''analysis not found'' (Error e) rs, sv1)
         | (Inr (Some a), sv1) \<Rightarrow> Some (write_json 200 (JsonChunk (enc_analysis a)) rs, sv1)
         | (Inr None, sv1) \<Rightarrow>
             Some (write_json 202 (JsonChunk (JObj [(''status'', JStr ''processing'')])) rs, sv1))"

section \<open>The stream of events\<close>

definition newline :: char where "newline = CHR 0x0A"

definition event_type :: "analysis_event \<Rightarrow> string" where
  "event_type ev = (case ev of Heartbeat \<Rightarrow> ''heartbeat'' | AnalysisEvent t _ _ \<Rightarrow> t)"

definition event_payload :: "analysis_event \<Rightarrow> json" where
  "event_payload ev = (case ev of Heartbeat \<Rightarrow> JObj [] | AnalysisEvent _ a _ \<Rightarrow> enc_analysis a)"

definition write_event :: "analysis_event \<Rightarrow> response \<Rightarrow> response" where
  "write_event ev r = write_body (DataChunk (event_payload ev)) (write_body (TextChunk (''event: '' @ event_type ev @ [newline])) r)"

text \<open>The events that the channel delivers until it is closed, each with whether the request's context
  was done when it was received.\<close>

fun write_events :: "(analysis_event \<times> bool) list \<Rightarrow> response \<Rightarrow> response" where
  "write_events [] r = r"
| "write_events ((ev, gone) # evs) r = (if gone then r else write_events evs (write_event ev r))"

definition sse_headers :: "response \<Rightarrow> response" where
  "sse_headers r =
     header_set ''Access-Control-Allow-Headers'' ''Content-Type, Authorization, X-PASETO-Token, API-Version''
       (header_set ''Access-Control-Allow-Origin'' ''*''
         (header_set ''Connection'' ''keep-alive''
           (header_set ''Cache-Control'' ''no-cache''
             (header_set ''Content-Type'' ''text/event-stream;charset=UTF-8'' r))))"

definition GetAnalysisEvents :: "web_app \<Rightarrow> bool \<Rightarrow> (analysis_event \<times> bool) list \<Rightarrow> handler" where
  "GetAnalysisEvents app can_flush received r rw =
     (let (rs, sv) = rw
      in if \<not> can_flush then
           Some (writeErrorResponse (server_now app sv) 500 ''internal_server_error'' ''Streaming not supported''
                   ''response writer does not support flushing'' rs, sv)
         else
           (let rs1 = WriteHeader 200 (sse_headers rs)
            in case FetchAnalysisEventsQueryHandler app sv of
                 (Inl _, sv1) \<Rightarrow>
                   Some (write_body (DataChunk (JObj [(''error'', JStr ''failed to fetch events'')]))
                          (write_body (TextChunk (''event: error'' @ [newline])) rs1), sv1)
               | (Inr _, sv1) \<Rightarrow> Some (write_events received rs1, sv1)))"

section \<open>The probes\<close>

definition LivenessCheck :: "web_app \<Rightarrow> handler" where
  "LivenessCheck app r rw =
     (let (rs, sv) = rw
      in case FetchLivenessReportQueryHandler app sv of
           (Inl e, sv1) \<Rightarrow>
             Some (writeErrorResponse (server_now app sv1) 500 ''internal_server_error'' ''Failed to check liveness'' (Error e) rs, sv1)
         | (Inr res, sv1) \<Rightarrow>
             Some (write_json (if OverallStatus res = Dead then 503 else 200)
               (JsonChunk (JObj [(''status'', JStr (DomainLivenessStatusToHandler (OverallStatus res))),
                 (''timestamp'', JTime (server_now app sv1)), (''version'', JStr ''1.0.0'')])) rs, sv1))"

definition readiness_check :: "dependency_status \<Rightarrow> json" where
  "readiness_check d = JObj [(''status'', JStr (DomainDependencyStatusToHandler (ds_status d)))]"

text \<open>The checks are written from a map, whose keys come out sorted.\<close>

definition ReadinessCheck :: "web_app \<Rightarrow> handler" where
  "ReadinessCheck app r rw =
     (let (rs, sv) = rw; t = server_now app sv
      in case FetchReadinessReportQueryHandler app sv of
           (Inl e, sv1) \<Rightarrow>
             Some (writeErrorResponse (server_now app sv1) 500 ''internal_server_error'' ''Failed to check readiness'' (Error e) rs, sv1)
         | (Inr res, sv1) \<Rightarrow>
             Some (write_json (if OverallStatus res = NotReady then 503 else 200)
               (JsonChunk (JObj [(''checks'', JObj [(''cache'', readiness_check (Cache res)),
                   (''queue'', readiness_check (Queue res)), (''storage'', readiness_check (Storage res))]),
                 (''status'', JStr (DomainReadinessStatusToHandler (OverallStatus res))),
                 (''timestamp'', JTime t), (''version'', JStr ''1.0.0'')])) rs, sv1))"

definition health_check :: "dependency_status \<Rightarrow> health_check_json" where
  "health_check d =
     \<lparr>hc_status = DomainDependencyStatusToHandler (ds_status d), hc_response_time = Some (ds_response_time d),
      hc_last_checked = Some (ds_last_checked d),
      hc_error = (if ds_error d \<noteq> [] then Some (ds_error d) else None)\<rparr>"

definition HealthCheck :: "web_app \<Rightarrow> handler" where
  "HealthCheck app r rw =
     (let (rs, sv) = rw; t = server_now app sv
      in case FetchHealthReportQueryHandler app sv of
           (Inl e, sv1) \<Rightarrow>
             Some (writeErrorResponse (server_now app sv1) 500 ''internal_server_error'' ''Failed to check health'' (Error e) rs, sv1)
         | (Inr res, sv1) \<Rightarrow>
             Some (write_json (if OverallStatus res = Unhealthy then 503 else 200)
               (HealthChunk \<lparr>hr_status = DomainHealthStatusToHandler (OverallStatus res), hr_timestamp = t,
                  hr_version = Some ''1.0.0'', hr_uptime = Some (Uptime res), hr_storage = Some (health_check (Storage res)),
                  hr_cache = Some (health_check (Cache res)), hr_queue = Some (health_check (Queue res))\<rparr>) rs, sv1))"

section \<open>What the client is told\<close>

lemma sent_write_json [simp]:
  "rs_sent rs = None \<Longrightarrow> sent_status (write_json c b rs) = c" "rs_body (write_json c b rs) = rs_body rs @ [b]"
  "rs_sent rs = None \<Longrightarrow> sent_header (write_json c b rs) = (map_of (rs_header rs))(''Content-Type'' \<mapsto> ''application/json'')"
  by (simp_all add: write_json_def sent_status_def sent_header_def fun_eq_iff)

lemma sent_error [simp]:
  "rs_sent rs = None \<Longrightarrow> sent_status (writeErrorResponse t c e m d rs) = c"
  by (simp add: writeErrorResponse_def sent_status_def)

definition tables_of :: "server \<Rightarrow> analysis_row list \<times> outbox_row list" where
  "tables_of sv = (analysis_tab (sv_world sv), outbox_tab (sv_world sv))"

definition stored_request :: "string \<Rightarrow> analysis_options \<Rightarrow> uuid \<Rightarrow> server \<Rightarrow> server \<Rightarrow> bool" where
  "stored_request url options i sv sv' \<longleftrightarrow>
     (\<exists>row ev t. tables_of sv' = (fst (tables_of sv) @ [row], snd (tables_of sv) @ [ev]) \<and>
        ar_id row = i \<and> ar_url row = url \<and> ar_status row = StatusRequested \<and>
        or_aggregate_id ev = i \<and> or_status ev = OutboxStatusPending \<and>
        or_event_type ev = OutboxEventAnalysisRequested \<and>
        or_payload ev = enc_payload \<lparr>rp_analysis_id = i, rp_url = url, rp_options = options,
          rp_priority = PriorityNormal, rp_created_at = t\<rparr>)"

lemma AnalyzeCommand_cases:
  assumes "AnalyzeCommandHandler app url options sv = (q, sv')"
  obtains (stored) a where "q = Inr a" "stored_request url options (an_id a) sv sv'"
    | (refused) e where "q = Inl e" "tables_of sv' = tables_of sv"
    | (unsure) e i where "q = Inl e" "stored_request url options i sv sv'"
proof -
  have s: "StartAnalysis (wa_env app) (wa_retries app) (wa_expiry app) url options (sv_world sv) = (q, sv_world sv')"
    using arg_cong [OF assms, of fst] arg_cong [OF assms, of "\<lambda>x. sv_world (snd x)"]
    by (simp add: AnalyzeCommandHandler_def prod_eq_iff)
  from StartAnalysis_effect [OF s] show thesis
  proof (elim disjE exE conjE)
    fix e assume "q = Inl e" "analysis_tab (sv_world sv') = analysis_tab (sv_world sv)"
      "outbox_tab (sv_world sv') = outbox_tab (sv_world sv)"
    then show thesis by (intro refused) (simp_all add: tables_of_def)
  next
    fix row ev t
    assume *: "analysis_tab (sv_world sv') = analysis_tab (sv_world sv) @ [row]"
      "outbox_tab (sv_world sv') = outbox_tab (sv_world sv) @ [ev]" "ar_url row = url"
      "ar_status row = StatusRequested" "or_aggregate_id ev = ar_id row" "or_status ev = OutboxStatusPending"
      "or_event_type ev = OutboxEventAnalysisRequested"
      "or_payload ev = enc_payload \<lparr>rp_analysis_id = ar_id row, rp_url = url, rp_options = options,
         rp_priority = PriorityNormal, rp_created_at = t\<rparr>" "\<forall>a. q = Inr a \<longrightarrow> an_id a = ar_id row"
    then have st: "stored_request url options (ar_id row) sv sv'"
      unfolding stored_request_def tables_of_def by (intro exI [of _ row] exI [of _ ev] exI [of _ t]) simp
    show thesis using unsure [OF _ st] stored [of _] st *(9) by (cases q) auto
  qed
qed


definition sample_app :: web_app where
  "sample_app = \<lparr>wa_env = sample_env, wa_retries = default_max_retries, wa_expiry = 10, wa_start = 0\<rparr>"

definition sample_server :: server where
  "sample_server = \<lparr>sv_world = empty_world, sv_log = [], sv_metrics = [],
     sv_keys = \<lparr>cachedKey = None, cachedKeyExpiry = 0\<rparr>, sv_telemetry = no_telemetry\<rparr>"

definition sample_http_request :: http_request where
  "sample_http_request = \<lparr>rq_method = ''POST'', rq_path = ''/v1/analyze'', rq_headers = [], rq_query = [],
     rq_raw_query = [], rq_remote_addr = ''10.0.0.1:1'', rq_proto = ''HTTP/1.1'', rq_host = ''a.b'',
     rq_body = Inr (JObj [(''url'', JStr ''http://a.b/'')]), rq_claims = None, rq_skip_log = False\<rparr>"

lemma sample_body: "bind_result (rq_body sample_http_request) dec_analyze_body = Inr \<lparr>ab_options = None, ab_url = ''http://a.b/''\<rparr>"
  by (simp add: sample_http_request_def dec_analyze_body_def json_struct_def json_field_def)

lemma fresh_not_sent [simp]: "rs_sent fresh_response = None" "rs_body fresh_response = []" "rs_wraps fresh_response = []"
    "rs_header fresh_response = []"
  by (simp_all add: fresh_response_def)




text \<open>Also: The probes answer 503 if and only if the check of the storage did not end in time, and 200
  otherwise; they change nothing but the time.\<close>

theorem probe_responses:
  assumes "rs_sent rs = None"
  shows "\<exists>sv'. \<exists>rs1 rs2 rs3 h1 h2 h3. (let code = (if fault (wa_env app) (tick (sv_world sv)) = Ok then 200 else 503)
    in HealthCheck app r (rs, sv) = Some (rs1, h1) \<and> ReadinessCheck app r (rs, sv) = Some (rs2, h2) \<and>
       LivenessCheck app r (rs, sv) = Some (rs3, h3) \<and>
       sent_status rs1 = code \<and> sent_status rs2 = code \<and> sent_status rs3 = code \<and>
       sv_world h1 = sv' \<and> sv_world h2 = sv' \<and> sv_world h3 = sv' \<and>
       sv' = (sv_world sv)\<lparr>tick := tick (sv_world sv) + 3\<rparr>)"
proof -
  obtain h1 where h: "FetchHealthReportQueryHandler app sv = (Inr (fst (CheckHealth (wa_env app) (wa_start app) (sv_world sv))), h1)"
      "sv_world h1 = (sv_world sv)\<lparr>tick := tick (sv_world sv) + 3\<rparr>"
    using probe_worlds by (simp add: FetchHealthReportQueryHandler_def prod_eq_iff FetchHealthReport_def split_beta)
  obtain h2 where g: "FetchReadinessReportQueryHandler app sv = (Inr (fst (CheckReadiness (wa_env app) (sv_world sv))), h2)"
      "sv_world h2 = (sv_world sv)\<lparr>tick := tick (sv_world sv) + 3\<rparr>"
    using probe_worlds by (simp add: FetchReadinessReportQueryHandler_def prod_eq_iff FetchReadinessReport_def split_beta)
  obtain h3 where l: "FetchLivenessReportQueryHandler app sv = (Inr (fst (CheckLiveness (wa_env app) (sv_world sv))), h3)"
      "sv_world h3 = (sv_world sv)\<lparr>tick := tick (sv_world sv) + 3\<rparr>"
    using probe_worlds by (simp add: FetchLivenessReportQueryHandler_def prod_eq_iff FetchLivenessReport_def split_beta)
  show ?thesis
    using assms by (simp add: HealthCheck_def ReadinessCheck_def LivenessCheck_def h g l probe_verdicts Let_def)
qed

theorem probe_responses_witness:
  "\<exists>rs1 h1. HealthCheck sample_app sample_http_request (fresh_response, sample_server) = Some (rs1, h1) \<and> sent_status rs1 = 200"
proof -
  have "fault (wa_env sample_app) n = Ok" for n by (simp add: sample_app_def)
  with probe_responses [of fresh_response sample_app sample_server sample_http_request] show ?thesis
    by (auto simp: Let_def)
qed

text \<open>The body of an event stream.\<close>

definition event_chunks :: "analysis_event \<Rightarrow> chunk list" where
  "event_chunks ev = [TextChunk (''event: '' @ event_type ev @ [newline]), DataChunk (event_payload ev)]"

lemma write_events_simps [simp]:
  "rs_body (write_events evs r) = rs_body r @ concat (map event_chunks (map fst (takeWhile (Not \<circ> snd) evs)))"
  "rs_sent r \<noteq> None \<Longrightarrow> rs_sent (write_events evs r) = rs_sent r"
  by (induction evs r rule: write_events.induct) (auto simp: write_event_def event_chunks_def split: option.splits)

lemma stream_handler: "\<exists>sv1. FetchAnalysisEventsQueryHandler app sv = (Inr (), sv1)"
  by (rule exI [of _ "snd (FetchAnalysisEventsQueryHandler app sv)"])
     (simp add: FetchAnalysisEventsQueryHandler_def prod_eq_iff)

text \<open>C15: What the client of a stream reads, the goroutine and the handler together. The answer is 200 with
  the type of an event stream; its body is a prefix of heartbeats, followed by at most one event, of an
  analysis that is completed or failed, after which there is nothing more.\<close>

theorem event_stream_body:
  assumes "sse_reach fetch w0 (s, w)" "map fst received = s_out s" "rs_sent rs = None"
    and "GetAnalysisEvents app True received r (rs, sv) = Some (rs', sv')"
  shows "sent_status rs' = 200 \<and> sent_header rs' ''Content-Type'' = Some ''text/event-stream;charset=UTF-8'' \<and>
    (\<exists>n tail. rs_body rs' = rs_body rs @ concat (replicate n (event_chunks Heartbeat)) @ concat (map event_chunks tail) \<and>
       (tail = [] \<or> (\<exists>ev. tail = [ev] \<and> terminal_event ev)))"
proof -
  let ?evs = "map fst (takeWhile (Not \<circ> snd) received)"
  have rs': "rs' = write_events received (WriteHeader 200 (sse_headers rs))"
    using assms(4) stream_handler [of app sv] by (auto simp: GetAnalysisEvents_def Let_def)
  have pre: "\<exists>rest. s_out s = ?evs @ rest"
    by (metis assms(2) map_append takeWhile_dropWhile_id)
  have "\<exists>n tail. ?evs = replicate n Heartbeat @ tail \<and> (tail = [] \<or> (\<exists>ev. tail = [ev] \<and> terminal_event ev))"
  proof (cases "set ?evs \<subseteq> {Heartbeat}")
    case True
    then have "?evs = replicate (length ?evs) Heartbeat"
      by (intro replicate_eqI refl) blast
    then show ?thesis by (metis append_Nil2)
  next
    case False
    with pre obtain rest where rest: "s_out s = ?evs @ rest" by blast
    with False sse_reach_ok [OF assms(1)] obtain h e
      where h: "s_out s @ s_buf s = h @ [e]" "set h \<subseteq> {Heartbeat}" "terminal_event e" by (auto simp: sse_ok_def)
    have "?evs = h @ [e]"
    proof (cases "rest @ s_buf s" rule: rev_cases)
      case Nil
      then show ?thesis using h(1) rest by simp
    next
      case (snoc ys y)
      then have "?evs @ ys = h" using h(1) rest by (metis append.assoc append1_eq_conv)
      with h(2) have "set ?evs \<subseteq> {Heartbeat}" by (metis set_append le_sup_iff)
      with False show ?thesis by simp
    qed
    moreover have "h = replicate (length h) Heartbeat"
      using h(2) by (intro replicate_eqI refl) blast
    ultimately show ?thesis using h(3) by (metis)
  qed
  then obtain n tail where evs: "?evs = replicate n Heartbeat @ tail" "tail = [] \<or> (\<exists>ev. tail = [ev] \<and> terminal_event ev)"
    by blast
  have "rs_body rs' = rs_body rs @ concat (map event_chunks ?evs)"
    by (simp add: rs' sse_headers_def)
  then have "rs_body rs' = rs_body rs @ concat (replicate n (event_chunks Heartbeat)) @ concat (map event_chunks tail)"
    by (simp add: evs(1) map_replicate_const)
  moreover have "sent_status rs' = 200" "sent_header rs' ''Content-Type'' = Some ''text/event-stream;charset=UTF-8''"
    using assms(3) by (simp_all add: rs' sent_status_def sent_header_def sse_headers_def)
  ultimately show ?thesis using evs(2) by blast
qed

theorem event_stream_body_witness:
  "\<exists>rs' sv'. GetAnalysisEvents sample_app True [] sample_http_request (fresh_response, sample_server) = Some (rs', sv') \<and>
     sent_status rs' = 200 \<and> sent_header rs' ''Content-Type'' = Some ''text/event-stream;charset=UTF-8''"
proof -
  obtain rs' sv' where a: "GetAnalysisEvents sample_app True [] sample_http_request (fresh_response, sample_server) = Some (rs', sv')"
    using stream_handler [of sample_app sample_server] by (auto simp: GetAnalysisEvents_def)
  have "sse_reach (FetchAnalysis sample_env 10 (UUID ''a'')) empty_world (sse_start, empty_world)" by simp
  from event_stream_body [OF this _ _ a] show ?thesis using a by (simp add: sse_start_def)
qed

end
