(* ===== verification/Middleware.thy ===== *)
theory Middleware
  imports Handler Auth
begin

text \<open>
  What a request passes before it reaches its operation: \<open>internal/adapters/middleware\<close>, their order in
  \<open>initMiddlewares\<close> (\<open>internal/runtime/deps.go\<close>), and the generated wrappers and routes of
  \<open>internal/adapters/http/handlers/http_server_gen.go\<close>. The middlewares of chi, the tracer, the rate
  limiter, the router and the validator of the API description are parameters.
\<close>

section \<open>What other packages provide\<close>

datatype validation =
    Valid
  | RequestError string
  | SecurityRequirementsError error
  | OtherError error

type_synonym auth_func = "http_request \<Rightarrow> server \<Rightarrow> (http_request result \<times> server) option"

record http_lib =
  RequestID :: middleware
  RealIP :: middleware
  Recoverer :: middleware
  chi_Timeout :: "duration \<Rightarrow> middleware"
  Tracer :: middleware
  RateLimit :: middleware
  NotRouted :: handler
  FindRoute :: "http_request \<Rightarrow> string result"
  ValidateRequest :: "string \<Rightarrow> auth_func \<Rightarrow> http_request \<Rightarrow> server \<Rightarrow> (validation \<times> http_request \<times> server) option"
  bind_uuid :: "string \<Rightarrow> uuid result"
  bind_version :: "string \<Rightarrow> string result"
  bind_token :: "string list \<Rightarrow> string result"

section \<open>The middlewares\<close>

text \<open>\<open>api_version.go\<close>, \<open>security.go\<close>\<close>

definition APIVersion_Middleware :: "string \<Rightarrow> middleware" where
  "APIVersion_Middleware version next r rw = next r (header_set ''API-Version'' version (fst rw), snd rw)"

definition addCORSHeaders :: "response \<Rightarrow> response" where
  "addCORSHeaders rs =
     header_set ''Access-Control-Allow-Headers'' ''Content-Type, Authorization, X-PASETO-Token, API-Version''
       (header_set ''Access-Control-Allow-Methods'' ''GET, POST, OPTIONS''
         (header_set ''Access-Control-Allow-Origin'' ''*'' rs))"

definition quoted :: "string \<Rightarrow> string" where "quoted s = CHR 0x27 # s @ [CHR 0x27]"

definition addSecurityHeaders :: "response \<Rightarrow> response" where
  "addSecurityHeaders rs =
     header_set ''Permissions-Policy'' ''camera=(), microphone=(), geolocation=()''
       (header_set ''Referrer-Policy'' ''strict-origin-when-cross-origin''
         (header_set ''Content-Security-Policy'' (''default-src '' @ quoted ''self'' @ ''; connect-src '' @ quoted ''self'')
           (header_set ''Strict-Transport-Security'' ''max-age=31536000; includeSubDomains''
             (header_set ''X-XSS-Protection'' ''1; mode=block''
               (header_set ''X-Frame-Options'' ''DENY''
                 (header_set ''X-Content-Type-Options'' ''nosniff'' rs))))))"

definition SecurityHeaders_Middleware :: middleware where
  "SecurityHeaders_Middleware next r rw =
     (let rs = addSecurityHeaders (addCORSHeaders (fst rw))
      in if rq_method r = ''OPTIONS'' then Some (WriteHeader 200 rs, snd rw) else next r (rs, snd rw))"

text \<open>\<open>health_filter.go\<close>\<close>

definition healthEndpoints :: "string list" where
  "healthEndpoints = [''/v1/health'', ''/v1/ready'', ''/v1/live'', ''/v1/readiness'', ''/health'', ''/ready'',
     ''/live'', ''/healthz'', ''/readyz'', ''/livez'']"

definition HealthFilter_Middleware :: "bool \<Rightarrow> middleware" where
  "HealthFilter_Middleware logHealthChecks next r rw =
     (if logHealthChecks then next r rw
      else if list_ex (has_suffix (rq_path r)) healthEndpoints then next (r\<lparr>rq_skip_log := True\<rparr>) rw
      else next r rw)"

text \<open>
  \<open>access_logger.go\<close>: an entry is made at level info, and made anew at a higher level for an error, then
  without the referer. Headers that are missing are left out. The number of bytes is that of
  \<open>Response_Writer\<close>; it is not part of an entry here.
\<close>

definition access_level :: "int \<Rightarrow> log_level" where
  "access_level status = (if status \<ge> 500 then ErrorLevel else if status \<ge> 400 then WarnLevel else InfoLevel)"

definition header_field :: "http_request \<Rightarrow> string \<Rightarrow> string option" where
  "header_field r k = (if header_get (rq_headers r) k \<noteq> [] then Some (header_get (rq_headers r) k) else None)"

definition access_entry :: "http_request \<Rightarrow> int \<Rightarrow> duration \<Rightarrow> log_entry" where
  "access_entry r status d =
     \<lparr>le_level = access_level status, le_method = rq_method r, le_path = rq_path r, le_status = status,
      le_query = rq_raw_query r, le_remote_addr = rq_remote_addr r,
      le_user_agent = header_get (rq_headers r) ''User-Agent'', le_proto = rq_proto r, le_host = rq_host r,
      le_duration = d, le_request_id = header_field r ''X-Request-Id'', le_trace_id = header_field r ''X-Trace-Id'',
      le_referer = (if access_level status = InfoLevel then header_field r ''Referer'' else None)\<rparr>"

definition AccessLogger_Middleware :: "env \<Rightarrow> middleware" where
  "AccessLogger_Middleware env next r rw =
     (if rq_skip_log r then next r rw
      else (let startTime = now env (sv_world (snd rw))
            in case next r (NewFlushableResponseWriter (fst rw), snd rw) of
                 None \<Rightarrow> None
               | Some (rs, sv) \<Rightarrow>
                   Some (unwrap rs, sv\<lparr>sv_log := sv_log sv @
                     [access_entry r (StatusCode rs) (time_Sub (now env (sv_world sv)) startTime)]\<rparr>)))"

text \<open>\<open>metrics.go\<close>; the sizes of the request and of the response are not modelled.\<close>

definition Metrics_Middleware :: "env \<Rightarrow> middleware" where
  "Metrics_Middleware env next r rw =
     (let startTime = now env (sv_world (snd rw))
      in case next r (NewFlushableResponseWriter (fst rw), snd rw) of
           None \<Rightarrow> None
         | Some (rs, sv) \<Rightarrow>
             Some (unwrap rs, sv\<lparr>sv_metrics := sv_metrics sv @
               [\<lparr>hm_method = rq_method r, hm_path = rq_path r, hm_status = StatusCode rs,
                 hm_duration = time_Sub (now env (sv_world sv)) startTime\<rparr>]\<rparr>))"

text \<open>\<open>throttled_rate_limiting.go\<close>\<close>

definition shouldSkipRateLimit :: "string list \<Rightarrow> string \<Rightarrow> bool" where
  "shouldSkipRateLimit skipPaths path = list_ex (has_prefix path) skipPaths"

definition RateLimiting_Middleware :: "http_lib \<Rightarrow> string list \<Rightarrow> middleware" where
  "RateLimiting_Middleware lib skipPaths next r rw =
     (if shouldSkipRateLimit skipPaths (rq_path r) then next r rw else RateLimit lib next r rw)"

text \<open>\<open>request_validator.go\<close>\<close>

definition StatusText :: "int \<Rightarrow> string" where
  "StatusText code = (if code = 400 then ''Bad Request'' else if code = 401 then ''Unauthorized'' else ''Internal Server Error'')"

definition validateRequest ::
  "http_lib \<Rightarrow> auth_func \<Rightarrow> http_request \<Rightarrow> server \<Rightarrow> ((int \<times> string option) \<times> http_request \<times> server) option" where
  "validateRequest lib auth r sv =
     (case FindRoute lib r of
        Inl e \<Rightarrow> Some ((400, Some (Error e)), r, sv)
      | Inr route \<Rightarrow>
          (case ValidateRequest lib route auth r sv of
             None \<Rightarrow> None
           | Some (v, r1, sv1) \<Rightarrow>
               Some ((case v of
                        Valid \<Rightarrow> (200, None)
                      | RequestError text \<Rightarrow> (400, Some (hd (split_on newline text)))
                      | SecurityRequirementsError e \<Rightarrow> (401, Some (Error e))
                      | OtherError e \<Rightarrow> (500, Some (Error e))), r1, sv1)))"

text \<open>The status is written before anything else: no content type is set.\<close>

definition RequestValidationErrHandler :: "time \<Rightarrow> string \<Rightarrow> int \<Rightarrow> response \<Rightarrow> response" where
  "RequestValidationErrHandler t details statusCode rs =
     write_body (JsonChunk (JObj [(''details'', JStr details), (''message'', JStr (StatusText statusCode)),
         (''status_code'', JNum statusCode), (''timestamp'', JTime t)]))
       (WriteHeader statusCode rs)"

definition OapiRequestValidator :: "env \<Rightarrow> http_lib \<Rightarrow> auth_func \<Rightarrow> middleware" where
  "OapiRequestValidator env lib auth next r rw =
     (if rq_method r = ''OPTIONS'' then next r rw
      else (case validateRequest lib auth r (snd rw) of
              None \<Rightarrow> None
            | Some ((code, Some msg), r1, sv1) \<Rightarrow>
                Some (RequestValidationErrHandler (now env (sv_world sv1)) msg code (fst rw), sv1)
            | Some ((_, None), r1, sv1) \<Rightarrow> next r1 (fst rw, sv1)))"

section \<open>Their order\<close>

record http_config =
  WriteTimeout :: duration
  APIVersion :: string
  metrics_Enabled :: bool
  accesslog_Enabled :: bool
  LogHealthChecks :: bool
  ratelimit_Enabled :: bool
  ratelimit_SkipPaths :: "string list"
  Auth :: auth_config

definition initMiddlewares :: "env \<Rightarrow> http_config \<Rightarrow> key_source \<Rightarrow> token_lib \<Rightarrow> http_lib \<Rightarrow> middleware list" where
  "initMiddlewares env cfg src tok lib =
     [RequestID lib, RealIP lib, Recoverer lib, chi_Timeout lib (WriteTimeout cfg),
      APIVersion_Middleware (APIVersion cfg),
      OapiRequestValidator env lib (AuthenticationFunc env (Auth cfg) src tok),
      SecurityHeaders_Middleware, Tracer lib] @
     (if metrics_Enabled cfg then [Metrics_Middleware env] else []) @
     (if accesslog_Enabled cfg then [HealthFilter_Middleware (LogHealthChecks cfg), AccessLogger_Middleware env] else []) @
     (if ratelimit_Enabled cfg then [RateLimiting_Middleware lib (ratelimit_SkipPaths cfg)] else [])"

text \<open>The loop of the generated wrappers: each middleware wraps those before it.\<close>

definition wrap_all :: "middleware list \<Rightarrow> handler \<Rightarrow> handler" where
  "wrap_all ms h = fold (\<lambda>mw h. mw h) ms h"

section \<open>The generated wrappers\<close>

definition http_Error :: "string \<Rightarrow> int \<Rightarrow> response \<Rightarrow> response" where
  "http_Error msg code rs =
     write_body (TextChunk (msg @ [newline]))
       (WriteHeader code (header_set ''X-Content-Type-Options'' ''nosniff''
         (header_set ''Content-Type'' ''text/plain; charset=utf-8'' rs)))"

definition InvalidParamFormat :: "string \<Rightarrow> error \<Rightarrow> string" where
  "InvalidParamFormat name e = ''Invalid format for parameter '' @ name @ '': '' @ Error e"

definition TooManyValues :: "string \<Rightarrow> nat \<Rightarrow> string" where
  "TooManyValues name n = ''Expected one value for '' @ name @ '', got '' @ itoa (int n)"

definition RequiredParam :: "string \<Rightarrow> string" where
  "RequiredParam name = ''Query argument '' @ name @ '' is required, but not found''"

text \<open>The error that ends a wrapper early, if any: the header of the API version, the query parameter.\<close>

definition version_error :: "http_lib \<Rightarrow> http_request \<Rightarrow> string option" where
  "version_error lib r =
     (case map_of (rq_headers r) ''Api-Version'' of
        None \<Rightarrow> None
      | Some [v] \<Rightarrow> (case bind_version lib v of Inl e \<Rightarrow> Some (InvalidParamFormat ''API-Version'' e) | Inr _ \<Rightarrow> None)
      | Some vs \<Rightarrow> Some (TooManyValues ''API-Version'' (length vs)))"

definition token_error :: "http_lib \<Rightarrow> http_request \<Rightarrow> string option" where
  "token_error lib r =
     (if header_get (rq_query r) ''token'' \<noteq> [] then
        (case bind_token lib (the (map_of (rq_query r) ''token'')) of
           Inl e \<Rightarrow> Some (InvalidParamFormat ''token'' e)
         | Inr _ \<Rightarrow> None)
      else Some (RequiredParam ''token''))"

definition or_error :: "string option \<Rightarrow> handler \<Rightarrow> handler" where
  "or_error err h r rw = (case err of Some msg \<Rightarrow> Some (http_Error msg 400 (fst rw), snd rw) | None \<Rightarrow> h r rw)"

definition siw_GetAnalysis :: "http_lib \<Rightarrow> middleware list \<Rightarrow> (uuid \<Rightarrow> handler) \<Rightarrow> string \<Rightarrow> handler" where
  "siw_GetAnalysis lib ms op param r rw =
     (case bind_uuid lib param of
        Inl e \<Rightarrow> Some (http_Error (InvalidParamFormat ''analysisId'' e) 400 (fst rw), snd rw)
      | Inr i \<Rightarrow> or_error (version_error lib r) (wrap_all ms (op i)) r rw)"

definition siw_GetAnalysisEvents :: "http_lib \<Rightarrow> middleware list \<Rightarrow> (uuid \<Rightarrow> handler) \<Rightarrow> string \<Rightarrow> handler" where
  "siw_GetAnalysisEvents lib ms op param r rw =
     (case bind_uuid lib param of
        Inl e \<Rightarrow> Some (http_Error (InvalidParamFormat ''analysisId'' e) 400 (fst rw), snd rw)
      | Inr i \<Rightarrow> or_error (token_error lib r) (or_error (version_error lib r) (wrap_all ms (op i))) r rw)"

definition siw_AnalyzeURL :: "http_lib \<Rightarrow> middleware list \<Rightarrow> handler \<Rightarrow> handler" where
  "siw_AnalyzeURL lib ms op r rw = or_error (version_error lib r) (wrap_all ms op) r rw"

definition siw_plain :: "middleware list \<Rightarrow> handler \<Rightarrow> handler" where
  "siw_plain ms op = wrap_all ms op"

section \<open>The routes\<close>

text \<open>An endpoint with its path parameter, as the router of chi finds it.\<close>

datatype endpoint =
    EGetAnalysis string | EGetAnalysisEvents string | EAnalyzeURL | EHealthCheck | ELivenessCheck | EReadinessCheck

text \<open>The operations behind the routes, \<open>ServerInterface\<close>.\<close>

record server_interface =
  op_GetAnalysis :: "uuid \<Rightarrow> handler"
  op_GetAnalysisEvents :: "uuid \<Rightarrow> handler"
  op_AnalyzeURL :: handler
  op_HealthCheck :: handler
  op_LivenessCheck :: handler
  op_ReadinessCheck :: handler

definition HandlerWithOptions :: "http_lib \<Rightarrow> middleware list \<Rightarrow> server_interface \<Rightarrow> endpoint \<Rightarrow> handler" where
  "HandlerWithOptions lib ms si e =
     (case e of
        EGetAnalysis p \<Rightarrow> siw_GetAnalysis lib ms (op_GetAnalysis si) p
      | EGetAnalysisEvents p \<Rightarrow> siw_GetAnalysisEvents lib ms (op_GetAnalysisEvents si) p
      | EAnalyzeURL \<Rightarrow> siw_AnalyzeURL lib ms (op_AnalyzeURL si)
      | EHealthCheck \<Rightarrow> siw_plain ms (op_HealthCheck si)
      | ELivenessCheck \<Rightarrow> siw_plain ms (op_LivenessCheck si)
      | EReadinessCheck \<Rightarrow> siw_plain ms (op_ReadinessCheck si))"

text \<open>The request handler as the server interface; \<open>streams\<close> is what each stream of events delivers.\<close>

definition NewRequestHandler :: "web_app \<Rightarrow> (uuid \<Rightarrow> (analysis_event \<times> bool) list) \<Rightarrow> server_interface" where
  "NewRequestHandler app streams =
     \<lparr>op_GetAnalysis = GetAnalysis app, op_GetAnalysisEvents = (\<lambda>i. GetAnalysisEvents app True (streams i)),
      op_AnalyzeURL = AnalyzeURL app, op_HealthCheck = HealthCheck app, op_LivenessCheck = LivenessCheck app,
      op_ReadinessCheck = ReadinessCheck app\<rparr>"

text \<open>The server: the router uses the security headers before it looks for a route; \<open>None\<close> is no route.\<close>

definition initHTTPServer ::
  "env \<Rightarrow> http_config \<Rightarrow> key_source \<Rightarrow> token_lib \<Rightarrow> http_lib \<Rightarrow> server_interface \<Rightarrow> endpoint option \<Rightarrow> handler" where
  "initHTTPServer env cfg src tok lib si e =
     SecurityHeaders_Middleware
       (case e of
          None \<Rightarrow> NotRouted lib
        | Some e \<Rightarrow> HandlerWithOptions lib (initMiddlewares env cfg src tok lib) si e)"

section \<open>What reaches an operation\<close>

text \<open>The chain, from the outside in.\<close>

lemma wrap_all_append: "wrap_all (ms @ ms') h = wrap_all ms' (wrap_all ms h)"
  by (simp add: wrap_all_def)

definition inner_chain :: "env \<Rightarrow> http_config \<Rightarrow> key_source \<Rightarrow> token_lib \<Rightarrow> http_lib \<Rightarrow> handler \<Rightarrow> handler" where
  "inner_chain env cfg src tok lib h =
     APIVersion_Middleware (APIVersion cfg) (chi_Timeout lib (WriteTimeout cfg) (Recoverer lib (RealIP lib (RequestID lib h))))"

definition outer_chain :: "env \<Rightarrow> http_config \<Rightarrow> http_lib \<Rightarrow> handler \<Rightarrow> handler" where
  "outer_chain env cfg lib h =
     (if ratelimit_Enabled cfg then RateLimiting_Middleware lib (ratelimit_SkipPaths cfg) else id)
       ((if accesslog_Enabled cfg then AccessLogger_Middleware env \<circ> HealthFilter_Middleware (LogHealthChecks cfg) else id)
         ((if metrics_Enabled cfg then Metrics_Middleware env else id) (Tracer lib (SecurityHeaders_Middleware h))))"

lemma wrap_init:
  "wrap_all (initMiddlewares env cfg src tok lib) h =
     outer_chain env cfg lib
       (OapiRequestValidator env lib (AuthenticationFunc env (Auth cfg) src tok) (inner_chain env cfg src tok lib h))"
  by (simp add: initMiddlewares_def wrap_all_def outer_chain_def inner_chain_def)

text \<open>
  What is assumed of other packages. A gate hands on the request it was given, or answers itself: what
  it does depends on the next handler only through what that does with the same request. The tracer
  and the rate limiter are gates. For an operation with a security requirement the validator asks the
  function it was given, and reports its error.
\<close>

definition gate :: "middleware \<Rightarrow> bool" where
  "gate mw \<longleftrightarrow> (\<forall>h1 h2 r. (\<forall>rw. h1 r rw = h2 r rw) \<longrightarrow> (\<forall>rw. mw h1 r rw = mw h2 r rw))"

definition secured :: "http_lib \<Rightarrow> http_request \<Rightarrow> bool" where
  "secured lib r \<longleftrightarrow> (\<exists>route. \<forall>b. FindRoute lib (r\<lparr>rq_skip_log := b\<rparr>) = Inr route \<and>
     (\<forall>auth sv. case auth (r\<lparr>rq_skip_log := b\<rparr>) sv of
        None \<Rightarrow> ValidateRequest lib route auth (r\<lparr>rq_skip_log := b\<rparr>) sv = None
      | Some (Inl e, sv') \<Rightarrow>
          ValidateRequest lib route auth (r\<lparr>rq_skip_log := b\<rparr>) sv =
            Some (SecurityRequirementsError e, r\<lparr>rq_skip_log := b\<rparr>, sv')
      | Some (Inr _, _) \<Rightarrow> True))"

text \<open>No state of the server makes the token of the request acceptable, if it has one.\<close>

definition token_refused :: "env \<Rightarrow> auth_config \<Rightarrow> key_source \<Rightarrow> token_lib \<Rightarrow> http_request \<Rightarrow> bool" where
  "token_refused env cfg src tok r \<longleftrightarrow> auth_Enabled cfg \<and> \<not> shouldSkipAuth cfg (rq_path r) \<and>
     (\<forall>t ks w c ks' w'. extractToken r = Inr t \<longrightarrow> validateToken env cfg src tok t ks w \<noteq> Some (Inr c, ks', w'))"

lemma token_refused_auth:
  assumes "token_refused env cfg src tok r"
  shows "case AuthenticationFunc env cfg src tok (r\<lparr>rq_skip_log := b\<rparr>) sv of Some (Inr _, _) \<Rightarrow> False | _ \<Rightarrow> True"
proof -
  have "extractToken (r\<lparr>rq_skip_log := b\<rparr>) = extractToken r" by (simp add: extractToken_def cong: option.case_cong)
  with assms show ?thesis
    by (cases "extractToken r")
       (auto simp: token_refused_def AuthenticationFunc_def split: sum.split option.split)
qed

text \<open>A validator that refuses never runs what comes after it.\<close>

lemma validator_cut:
  assumes "secured lib r" "rq_method r \<noteq> ''OPTIONS''"
    and "\<And>b sv. case auth (r\<lparr>rq_skip_log := b\<rparr>) sv of Some (Inr _, _) \<Rightarrow> False | _ \<Rightarrow> True"
  shows "OapiRequestValidator env lib auth h1 (r\<lparr>rq_skip_log := b\<rparr>) rw = OapiRequestValidator env lib auth h2 (r\<lparr>rq_skip_log := b\<rparr>) rw"
proof -
  from assms(1) obtain route where f: "FindRoute lib (r\<lparr>rq_skip_log := b\<rparr>) = Inr route"
    and v: "\<And>sv. case auth (r\<lparr>rq_skip_log := b\<rparr>) sv of
        None \<Rightarrow> ValidateRequest lib route auth (r\<lparr>rq_skip_log := b\<rparr>) sv = None
      | Some (Inl e, sv') \<Rightarrow>
          ValidateRequest lib route auth (r\<lparr>rq_skip_log := b\<rparr>) sv =
            Some (SecurityRequirementsError e, r\<lparr>rq_skip_log := b\<rparr>, sv')
      | Some (Inr _, _) \<Rightarrow> True"
    unfolding secured_def by blast
  show ?thesis
  proof (cases "auth (r\<lparr>rq_skip_log := b\<rparr>) (snd rw)")
    case None
    then show ?thesis using v [of "snd rw"] f assms(2) by (simp add: OapiRequestValidator_def validateRequest_def)
  next
    case (Some x)
    then obtain e sv' where "auth (r\<lparr>rq_skip_log := b\<rparr>) (snd rw) = Some (Inl e, sv')"
      using assms(3) [of b "snd rw"] by (cases x; cases "fst x") auto
    then show ?thesis using v [of "snd rw"] f assms(2) by (simp add: OapiRequestValidator_def validateRequest_def)
  qed
qed

text \<open>What is cut inside is cut outside.\<close>

lemma gateD: "gate mw \<Longrightarrow> (\<And>rw. h1 r rw = h2 r rw) \<Longrightarrow> mw h1 r rw = mw h2 r rw"
  unfolding gate_def by blast

lemma outer_chain_cut:
  assumes g: "gate (Tracer lib)" "gate (RateLimit lib)"
    and cut: "\<And>b rw. h1 (r\<lparr>rq_skip_log := b\<rparr>) rw = h2 (r\<lparr>rq_skip_log := b\<rparr>) rw"
  shows "outer_chain env cfg lib h1 r rw = outer_chain env cfg lib h2 r rw"
proof -
  define t1 where "t1 = (if metrics_Enabled cfg then Metrics_Middleware env else id) (Tracer lib (SecurityHeaders_Middleware h1))"
  define t2 where "t2 = (if metrics_Enabled cfg then Metrics_Middleware env else id) (Tracer lib (SecurityHeaders_Middleware h2))"
  define a1 where "a1 = (if accesslog_Enabled cfg then AccessLogger_Middleware env \<circ> HealthFilter_Middleware (LogHealthChecks cfg) else id) t1"
  define a2 where "a2 = (if accesslog_Enabled cfg then AccessLogger_Middleware env \<circ> HealthFilter_Middleware (LogHealthChecks cfg) else id) t2"
  have "Tracer lib (SecurityHeaders_Middleware h1) (r\<lparr>rq_skip_log := b\<rparr>) rw =
      Tracer lib (SecurityHeaders_Middleware h2) (r\<lparr>rq_skip_log := b\<rparr>) rw" for b rw
    by (rule gateD [OF g(1)]) (simp add: SecurityHeaders_Middleware_def cut Let_def)
  then have t: "t1 (r\<lparr>rq_skip_log := b\<rparr>) rw = t2 (r\<lparr>rq_skip_log := b\<rparr>) rw" for b rw
    by (simp add: t1_def t2_def Metrics_Middleware_def)
  have r: "r\<lparr>rq_skip_log := rq_skip_log r\<rparr> = r" by simp
  have "a1 r rw = a2 r rw" for rw
    using t [of "rq_skip_log r"] t [of True] r
    by (simp add: a1_def a2_def AccessLogger_Middleware_def HealthFilter_Middleware_def)
  then show ?thesis
    using gateD [OF g(2), of a1 r a2]
    by (simp add: outer_chain_def RateLimiting_Middleware_def flip: t1_def t2_def a1_def a2_def)
qed

text \<open>C6: No operation runs for a request without an acceptable token. With authentication on, for a path
  that is not exempt and an operation whose description requires a token, the answer and everything
  the server has afterwards are the same whatever the operations would have done, on every endpoint
  and whatever the other middlewares of chi do.\<close>

theorem no_operation_without_token:
  assumes "gate (Tracer lib)" "gate (RateLimit lib)" "secured lib r" "token_refused env (Auth cfg) src tok r"
  shows "initHTTPServer env cfg src tok lib si e r rw = initHTTPServer env cfg src tok lib si' e r rw"
proof (cases "rq_method r = ''OPTIONS''")
  case True
  then show ?thesis by (simp add: initHTTPServer_def SecurityHeaders_Middleware_def)
next
  case False
  note refused = token_refused_auth [OF assms(4)]
  have "wrap_all (initMiddlewares env cfg src tok lib) h1 r rw' = wrap_all (initMiddlewares env cfg src tok lib) h2 r rw'" for h1 h2 rw'
    unfolding wrap_init
    by (rule outer_chain_cut [OF assms(1,2)], rule validator_cut [OF assms(3) False]) (rule refused)
  then show ?thesis
    by (simp add: initHTTPServer_def SecurityHeaders_Middleware_def Let_def HandlerWithOptions_def siw_GetAnalysis_def
        siw_GetAnalysisEvents_def siw_AnalyzeURL_def siw_plain_def or_error_def
        split: option.split endpoint.split sum.split)
qed

text \<open>A handler that never panics; the middlewares of the service keep that.\<close>

definition answers :: "handler \<Rightarrow> bool" where
  "answers h \<longleftrightarrow> (\<forall>r rw. h r rw \<noteq> None)"

lemma answers_middlewares:
  assumes "answers h"
  shows "answers (SecurityHeaders_Middleware h)" "answers (Metrics_Middleware env h)"
    "answers (AccessLogger_Middleware env h)" "answers (HealthFilter_Middleware b h)" "answers (APIVersion_Middleware v h)"
  using assms
  by (auto simp: answers_def SecurityHeaders_Middleware_def Metrics_Middleware_def AccessLogger_Middleware_def
      HealthFilter_Middleware_def APIVersion_Middleware_def Let_def split: option.split)

lemma answers_outer_chain:
  "answers h \<Longrightarrow> \<not> ratelimit_Enabled cfg \<Longrightarrow> Tracer lib = id \<Longrightarrow> answers (outer_chain env cfg lib h)"
  by (simp add: outer_chain_def answers_middlewares)

definition sample_validate :: "string \<Rightarrow> auth_func \<Rightarrow> http_request \<Rightarrow> server \<Rightarrow> (validation \<times> http_request \<times> server) option" where
  "sample_validate route auth r sv =
     (case auth r sv of
        None \<Rightarrow> None
      | Some (Inl e, sv') \<Rightarrow> Some (SecurityRequirementsError e, r, sv')
      | Some (Inr r', sv') \<Rightarrow> Some (Valid, r', sv'))"

definition sample_http :: http_lib where
  "sample_http = \<lparr>RequestID = id, RealIP = id, Recoverer = id, chi_Timeout = (\<lambda>_. id), Tracer = id, RateLimit = id,
     NotRouted = (\<lambda>r rw. Some (http_Error ''404 page not found'' 404 (fst rw), snd rw)),
     FindRoute = (\<lambda>_. Inr ''route''), ValidateRequest = sample_validate,
     bind_uuid = (\<lambda>s. if s = [] then Inl (ErrText ''invalid UUID'') else Inr (UUID s)), bind_version = Inr,
     bind_token = (\<lambda>vs. case vs of [v] \<Rightarrow> Inr v | _ \<Rightarrow> Inl (ErrText ''multiple values''))\<rparr>"

definition sample_http_config :: http_config where
  "sample_http_config = \<lparr>WriteTimeout = 30 * Second, APIVersion = ''v1'', metrics_Enabled = True, accesslog_Enabled = True,
     LogHealthChecks = False, ratelimit_Enabled = False, ratelimit_SkipPaths = [], Auth = sample_auth\<rparr>"

lemma sample_simps [simp]:
  "Tracer sample_http = id" "FindRoute sample_http r = Inr ''route''" "ValidateRequest sample_http = sample_validate"
  "chi_Timeout sample_http d = id" "Recoverer sample_http = id" "RealIP sample_http = id" "RequestID sample_http = id"
  "metrics_Enabled sample_http_config" "accesslog_Enabled sample_http_config" "\<not> ratelimit_Enabled sample_http_config"
  "LogHealthChecks sample_http_config = False" "Auth sample_http_config = sample_auth"
  by (simp_all add: sample_http_def sample_http_config_def)

lemma sample_secured: "secured sample_http r"
  unfolding secured_def
  by (intro exI [of _ "''route''"] allI)
     (auto simp: sample_http_def sample_validate_def split: option.split sum.split)

lemma sample_gates: "gate (Tracer sample_http)" "gate (RateLimit sample_http)"
  by (simp_all add: gate_def sample_http_def)

theorem no_operation_without_token_witness:
  "initHTTPServer sample_env sample_http_config sample_keys sample_lib sample_http
       (NewRequestHandler sample_app (\<lambda>_. [])) (Some EAnalyzeURL) sample_http_request (fresh_response, sample_server) =
   initHTTPServer sample_env sample_http_config sample_keys sample_lib sample_http
       \<lparr>op_GetAnalysis = (\<lambda>_ _ _. None), op_GetAnalysisEvents = (\<lambda>_ _ _. None), op_AnalyzeURL = (\<lambda>_ _. None),
        op_HealthCheck = (\<lambda>_ _. None), op_LivenessCheck = (\<lambda>_ _. None), op_ReadinessCheck = (\<lambda>_ _. None)\<rparr>
       (Some EAnalyzeURL) sample_http_request (fresh_response, sample_server)"
proof (rule no_operation_without_token [OF sample_gates sample_secured])
  have "extractToken sample_http_request = Inl (ErrText ''authentication token not found'')"
    by (simp add: extractToken_def sample_http_request_def header_get_def)
  moreover have "auth_Enabled sample_auth" "\<not> shouldSkipAuth sample_auth (rq_path sample_http_request)"
    by (simp_all add: sample_auth_def shouldSkipAuth_def sample_http_request_def has_prefix_def)
  ultimately show "token_refused sample_env (Auth sample_http_config) sample_keys sample_lib sample_http_request"
    by (simp add: token_refused_def sample_http_config_def)
qed

text \<open>With the libraries of the example and without authentication a chain answers if its operation does.\<close>

lemma sample_chain_answers:
  assumes "answers h"
  shows "answers (wrap_all (initMiddlewares sample_env (sample_http_config\<lparr>Auth := sample_auth\<lparr>auth_Enabled := False\<rparr>\<rparr>)
    sample_keys sample_lib sample_http) h)"
proof -
  let ?cfg = "sample_http_config\<lparr>Auth := sample_auth\<lparr>auth_Enabled := False\<rparr>\<rparr>"
  have "answers (inner_chain sample_env ?cfg sample_keys sample_lib sample_http h)"
    using assms by (simp add: inner_chain_def answers_middlewares)
  moreover have "AuthenticationFunc sample_env (Auth ?cfg) sample_keys sample_lib r sv = Some (Inr r, sv)" for r sv
    by (simp add: AuthenticationFunc_def)
  ultimately have "answers (OapiRequestValidator sample_env sample_http (AuthenticationFunc sample_env (Auth ?cfg) sample_keys sample_lib)
      (inner_chain sample_env ?cfg sample_keys sample_lib sample_http h))"
    by (simp add: answers_def OapiRequestValidator_def validateRequest_def sample_validate_def)
  then show ?thesis by (simp add: wrap_init answers_middlewares answers_outer_chain)
qed

text \<open>Also: The health checks are always in the access log. The filter that should keep them out of it runs
  inside the logger and marks a request that the logger has already looked at: with the access log
  enabled, a health check adds an entry however the filter is configured.\<close>

theorem health_checks_logged:
  assumes "initHTTPServer env cfg src tok lib si (Some EHealthCheck) r rw = Some (rs', sv')"
    and "accesslog_Enabled cfg" "\<not> ratelimit_Enabled cfg" "rq_method r \<noteq> ''OPTIONS''" "\<not> rq_skip_log r"
  shows "\<exists>before entry. sv_log sv' = before @ [entry] \<and> le_path entry = rq_path r \<and> le_method entry = rq_method r"
  using assms
  by (auto simp: initHTTPServer_def SecurityHeaders_Middleware_def HandlerWithOptions_def siw_plain_def wrap_init
      outer_chain_def AccessLogger_Middleware_def access_entry_def Let_def split: option.splits)

theorem health_checks_logged_witness:
  "\<exists>rs' sv' before entry. initHTTPServer sample_env (sample_http_config\<lparr>Auth := sample_auth\<lparr>auth_Enabled := False\<rparr>\<rparr>)
       sample_keys sample_lib sample_http (NewRequestHandler sample_app (\<lambda>_. [])) (Some EHealthCheck)
       (sample_http_request\<lparr>rq_method := ''GET'', rq_path := ''/v1/health''\<rparr>) (fresh_response, sample_server) = Some (rs', sv') \<and>
     sv_log sv' = before @ [entry] \<and> le_path entry = ''/v1/health''"
proof -
  let ?cfg = "sample_http_config\<lparr>Auth := sample_auth\<lparr>auth_Enabled := False\<rparr>\<rparr>"
  let ?r = "sample_http_request\<lparr>rq_method := ''GET'', rq_path := ''/v1/health''\<rparr>"
  have "answers (HealthCheck sample_app)"
    by (auto simp: answers_def HealthCheck_def Let_def split: prod.split sum.split)
  from sample_chain_answers [OF this] obtain rs' sv' where
    s: "initHTTPServer sample_env ?cfg sample_keys sample_lib sample_http (NewRequestHandler sample_app (\<lambda>_. []))
      (Some EHealthCheck) ?r (fresh_response, sample_server) = Some (rs', sv')"
    by (fastforce simp: initHTTPServer_def answers_def HandlerWithOptions_def siw_plain_def NewRequestHandler_def
        SecurityHeaders_Middleware_def Let_def)
  from health_checks_logged [OF s] show ?thesis
    using s by (auto simp: sample_http_config_def sample_http_request_def)
qed

text \<open>Also: The query of a request is always in the access log. A client of an event stream must give its token in the
  query, and the entry of a request for a stream whose parameters can be read has the query as it came, whatever the setting for query
  parameters says, which nothing reads; and the referer is in the entries of successes only.\<close>

theorem stream_query_logged:
  assumes "initHTTPServer env cfg src tok lib si (Some (EGetAnalysisEvents p)) r rw = Some (rs', sv')"
    and "accesslog_Enabled cfg" "\<not> ratelimit_Enabled cfg" "rq_method r \<noteq> ''OPTIONS''" "\<not> rq_skip_log r"
    and "bind_uuid lib p = Inr i" "token_error lib r = None" "version_error lib r = None"
  shows "header_get (rq_query r) ''token'' \<noteq> [] \<and>
    (\<exists>before entry. sv_log sv' = before @ [entry] \<and> le_query entry = rq_raw_query r \<and>
       (le_level entry \<noteq> InfoLevel \<longrightarrow> le_referer entry = None))"
  using assms
  by (auto simp: initHTTPServer_def SecurityHeaders_Middleware_def HandlerWithOptions_def siw_GetAnalysisEvents_def
      or_error_def wrap_init outer_chain_def AccessLogger_Middleware_def access_entry_def Let_def token_error_def
      split: option.splits if_splits)

theorem stream_query_logged_witness:
  "\<exists>rs' sv' before entry. initHTTPServer sample_env (sample_http_config\<lparr>Auth := sample_auth\<lparr>auth_Enabled := False\<rparr>\<rparr>)
       sample_keys sample_lib sample_http (NewRequestHandler sample_app (\<lambda>_. [])) (Some (EGetAnalysisEvents ''a''))
       (sample_http_request\<lparr>rq_method := ''GET'', rq_path := ''/v1/analysis/a/events'', rq_query := [(''token'', [''t''])],
          rq_raw_query := ''token=t''\<rparr>) (fresh_response, sample_server) = Some (rs', sv') \<and>
     sv_log sv' = before @ [entry] \<and> le_query entry = ''token=t''"
proof -
  let ?cfg = "sample_http_config\<lparr>Auth := sample_auth\<lparr>auth_Enabled := False\<rparr>\<rparr>"
  let ?r = "sample_http_request\<lparr>rq_method := ''GET'', rq_path := ''/v1/analysis/a/events'', rq_query := [(''token'', [''t''])],
          rq_raw_query := ''token=t''\<rparr>"
  have ok: "bind_uuid sample_http ''a'' = Inr (UUID ''a'')" "token_error sample_http ?r = None" "version_error sample_http ?r = None"
    by (simp_all add: sample_http_def token_error_def version_error_def header_get_def sample_http_request_def)
  have "answers (GetAnalysisEvents sample_app True [])"
    by (auto simp: answers_def GetAnalysisEvents_def Let_def split: prod.split sum.split)
  from sample_chain_answers [OF this] ok obtain rs' sv' where
    s: "initHTTPServer sample_env ?cfg sample_keys sample_lib sample_http (NewRequestHandler sample_app (\<lambda>_. []))
      (Some (EGetAnalysisEvents ''a'')) ?r (fresh_response, sample_server) = Some (rs', sv')"
    by (fastforce simp: initHTTPServer_def answers_def HandlerWithOptions_def siw_GetAnalysisEvents_def or_error_def
        NewRequestHandler_def SecurityHeaders_Middleware_def Let_def sample_http_request_def)
  from stream_query_logged [OF s _ _ _ _ ok] show ?thesis
    using s by (auto simp: sample_http_config_def sample_http_request_def)
qed

lemma validator_panics:
  assumes "secured lib r" "rq_method r \<noteq> ''OPTIONS''" "\<And>b sv. auth (r\<lparr>rq_skip_log := b\<rparr>) sv = None"
  shows "OapiRequestValidator env (lib\<lparr>Recoverer := rec\<rparr>) auth h (r\<lparr>rq_skip_log := b\<rparr>) rw = None"
proof -
  from assms(1) obtain route where f: "FindRoute lib (r\<lparr>rq_skip_log := b\<rparr>) = Inr route"
    and v: "case auth (r\<lparr>rq_skip_log := b\<rparr>) (snd rw) of
        None \<Rightarrow> ValidateRequest lib route auth (r\<lparr>rq_skip_log := b\<rparr>) (snd rw) = None
      | Some (Inl e, sv') \<Rightarrow>
          ValidateRequest lib route auth (r\<lparr>rq_skip_log := b\<rparr>) (snd rw) =
            Some (SecurityRequirementsError e, r\<lparr>rq_skip_log := b\<rparr>, sv')
      | Some (Inr _, _) \<Rightarrow> True"
    unfolding secured_def by blast
  from v have "ValidateRequest lib route auth (r\<lparr>rq_skip_log := b\<rparr>) (snd rw) = None" by (simp add: assms(3))
  then show ?thesis using assms(2) f by (simp add: OapiRequestValidator_def validateRequest_def)
qed

text \<open>Also: A panic during authentication is not recovered. The recoverer is wrapped around the operation
  only: if the check of the token panics, so does the whole request, whatever the recoverer does.\<close>

theorem panic_in_auth_not_recovered:
  assumes "secured lib r" "rq_method r \<noteq> ''OPTIONS''" "\<not> ratelimit_Enabled cfg"
    and "\<And>b sv. AuthenticationFunc env (Auth cfg) src tok (r\<lparr>rq_skip_log := b\<rparr>) sv = None"
    and "\<And>h r rw. (\<And>rw. h r rw = None) \<Longrightarrow> Tracer lib h r rw = None"
  shows "initHTTPServer env cfg src tok (lib\<lparr>Recoverer := rec\<rparr>) si (Some EHealthCheck) r rw = None"
proof -
  let ?lib = "lib\<lparr>Recoverer := rec\<rparr>"
  let ?v = "OapiRequestValidator env ?lib (AuthenticationFunc env (Auth cfg) src tok) (inner_chain env cfg src tok ?lib (op_HealthCheck si))"
  have v: "?v (r\<lparr>rq_skip_log := b\<rparr>) rw = None" for b rw
    by (rule validator_panics [OF assms(1,2)]) (rule assms(4))
  have t: "Tracer lib (SecurityHeaders_Middleware ?v) (r\<lparr>rq_skip_log := b\<rparr>) rw = None" for b rw
    by (rule assms(5)) (simp add: SecurityHeaders_Middleware_def v assms(2) Let_def)
  have r: "r\<lparr>rq_skip_log := rq_skip_log r\<rparr> = r" by simp
  show ?thesis
    using t [of True] t [of "rq_skip_log r"] assms(2,3)
    by (simp add: initHTTPServer_def SecurityHeaders_Middleware_def [of _ r] HandlerWithOptions_def siw_plain_def wrap_init
        outer_chain_def AccessLogger_Middleware_def HealthFilter_Middleware_def Metrics_Middleware_def Let_def)
qed

theorem panic_in_auth_not_recovered_witness:
  "initHTTPServer sample_env sample_http_config sample_keys (sample_lib\<lparr>ParseV4Public := (\<lambda>_ _. Inr (JObj []))\<rparr>)
     (sample_http\<lparr>Recoverer := (\<lambda>h r rw. case h r rw of None \<Rightarrow> Some (WriteHeader 500 (fst rw), snd rw) | Some x \<Rightarrow> Some x)\<rparr>)
     (NewRequestHandler sample_app (\<lambda>_. [])) (Some EHealthCheck)
     (sample_http_request\<lparr>rq_headers := [(''X-Paseto-Token'', [''v4.public.x''])]\<rparr>) (fresh_response, sample_server) = None"
proof (rule panic_in_auth_not_recovered [OF sample_secured])
  let ?r = "sample_http_request\<lparr>rq_headers := [(''X-Paseto-Token'', [''v4.public.x''])]\<rparr>"
  let ?tok = "sample_lib\<lparr>ParseV4Public := (\<lambda>_ _. Inr (JObj []))\<rparr>"
  show "AuthenticationFunc sample_env (Auth sample_http_config) sample_keys ?tok (?r\<lparr>rq_skip_log := b\<rparr>) sv = None" for b sv
  proof -
    have "extractToken (?r\<lparr>rq_skip_log := b\<rparr>) = Inr ''v4.public.x''"
      by (simp add: extractToken_def sample_http_request_def header_get_def)
    moreover have "validateToken sample_env sample_auth sample_keys ?tok ''v4.public.x'' ks w = None" for ks w
      by (simp add: validateToken_def v4_public_def has_prefix_def token_claims_def claims_of_def string_claim_def split: option.split)
    moreover have "auth_Enabled sample_auth" "\<not> shouldSkipAuth sample_auth (rq_path (?r\<lparr>rq_skip_log := b\<rparr>))"
      by (simp_all add: sample_auth_def shouldSkipAuth_def sample_http_request_def has_prefix_def)
    ultimately show ?thesis by (simp add: AuthenticationFunc_def sample_http_config_def)
  qed
qed (simp_all add: sample_http_request_def sample_http_config_def sample_http_def)

text \<open>Also: A request with a malformed parameter is answered before anything else: an identifier that is
  none, or a stream without its token parameter, gets 400, without authentication, without a rate
  limit and without a trace of it in the log, the metrics or any other state of the server.\<close>

theorem bad_parameter_first:
  assumes "rq_method r \<noteq> ''OPTIONS''" "rs_sent rs = None"
    and "(\<exists>p err. e \<in> {EGetAnalysis p, EGetAnalysisEvents p} \<and> bind_uuid lib p = Inl err) \<or>
         (\<exists>p. e = EGetAnalysisEvents p \<and> header_get (rq_query r) ''token'' = [])"
  shows "\<exists>rs'. initHTTPServer env cfg src tok lib si (Some e) r (rs, sv) = Some (rs', sv) \<and> sent_status rs' = 400 \<and>
     sent_header rs' ''X-Frame-Options'' = Some ''DENY''"
  using assms
  by (auto simp: initHTTPServer_def SecurityHeaders_Middleware_def HandlerWithOptions_def siw_GetAnalysis_def
      siw_GetAnalysisEvents_def or_error_def token_error_def http_Error_def sent_status_def sent_header_def Let_def
      addSecurityHeaders_def addCORSHeaders_def split: sum.split)

theorem bad_parameter_first_witness:
  "\<exists>rs'. initHTTPServer sample_env sample_http_config sample_keys sample_lib sample_http
     (NewRequestHandler sample_app (\<lambda>_. [])) (Some (EGetAnalysisEvents ''a''))
     (sample_http_request\<lparr>rq_method := ''GET''\<rparr>) (fresh_response, sample_server) = Some (rs', sample_server) \<and> sent_status rs' = 400"
  using bad_parameter_first [of "sample_http_request\<lparr>rq_method := ''GET''\<rparr>" fresh_response "EGetAnalysisEvents ''a''" sample_http
      sample_env sample_http_config sample_keys sample_lib "NewRequestHandler sample_app (\<lambda>_. [])" sample_server]
  by (auto simp: sample_http_request_def header_get_def)

text \<open>Also: A preflight request is answered at once, on every path and for every endpoint: status 200, the
  headers that browsers ask for, and no change of the server's state.\<close>

theorem preflight_answered:
  assumes "rq_method r = ''OPTIONS''" "rs_sent rs = None"
  shows "\<exists>rs'. initHTTPServer env cfg src tok lib si e r (rs, sv) = Some (rs', sv) \<and> sent_status rs' = 200 \<and>
     sent_header rs' ''Access-Control-Allow-Origin'' = Some ''*'' \<and>
     sent_header rs' ''Access-Control-Allow-Methods'' = Some ''GET, POST, OPTIONS''"
  using assms
  by (auto simp: initHTTPServer_def SecurityHeaders_Middleware_def sent_status_def sent_header_def Let_def
      addSecurityHeaders_def addCORSHeaders_def)

theorem preflight_answered_witness:
  "\<exists>rs'. initHTTPServer sample_env sample_http_config sample_keys sample_lib sample_http
     (NewRequestHandler sample_app (\<lambda>_. [])) (Some EAnalyzeURL)
     (sample_http_request\<lparr>rq_method := ''OPTIONS''\<rparr>) (fresh_response, sample_server) = Some (rs', sample_server) \<and> sent_status rs' = 200"
  using preflight_answered [of "sample_http_request\<lparr>rq_method := ''OPTIONS''\<rparr>" fresh_response sample_env sample_http_config
      sample_keys sample_lib sample_http "NewRequestHandler sample_app (\<lambda>_. [])" "Some EAnalyzeURL" sample_server]
  by auto

end
