(* ===== verification/Config_Loader.thy ===== *)
theory Config_Loader
  imports World
begin

text \<open>
  \<open>internal/config/loader.go\<close> and \<open>internal/adapters/repos/vault_repository.go\<close>: the configuration from
  the secret storage, its reload when the version of the secrets changes, and the goroutine that waits
  for signals and for the poll timer. The client of the storage is a parameter: what it answers to the
  \<open>n\<close>-th call. Only the settings that secrets can change are modelled; the order in which Go goes
  through a map is the order of the list.
\<close>

section \<open>Secrets\<close>

text \<open>What the client decodes a secret to; a float is one that is a natural number.\<close>

datatype secret_value =
    SStr string
  | SFloat nat
  | SUint nat
  | SNumber string  \<comment> \<open>\<open>json.Number\<close>\<close>
  | SMap "(string \<times> secret_value) list"
  | SOther

type_synonym secret_data = "(string \<times> secret_value) list"

record vault =
  vault_read :: "nat \<Rightarrow> string \<Rightarrow> secret_data option option result"  \<comment> \<open>no secret, or its data, if any\<close>
  vault_login :: "nat \<Rightarrow> string \<Rightarrow> string \<Rightarrow> string option option result"  \<comment> \<open>no response, or its token, if any\<close>

record secret_storage_config =
  Enabled :: bool
  Token :: string
  RoleID :: string
  SecretID :: string
  AuthMethod :: string
  MountPath :: string
  MaxRetries :: int
  PollInterval :: duration

record service_config =
  SecretStorage :: secret_storage_config
  storage_Username :: string
  storage_Password :: string
  storage_Host :: string
  storage_Database :: string
  cache_Password :: string
  cache_Addr :: string
  queue_Username :: string
  queue_Password :: string
  queue_Host :: string
  auth_SecretKey :: string

text \<open>The loader with all it can change: the configuration, the environment variables, the token of the
  client, the channel of reload results, and how long it has slept.\<close>

record loader =
  cfg :: service_config
  environ :: "string \<rightharpoonup> string"
  client_token :: string
  lastVersion :: int
  reloadErrors :: "error option list"
  ld_tick :: nat
  slept :: duration

definition NewLoader :: "service_config \<Rightarrow> (string \<rightharpoonup> string) \<Rightarrow> int \<Rightarrow> loader" where
  "NewLoader c env_vars initialVersion =
     \<lparr>cfg = c, environ = env_vars, client_token = [], lastVersion = initialVersion, reloadErrors = [],
      ld_tick = 0, slept = 0\<rparr>"

section \<open>Reading\<close>

definition ld_call :: "loader \<Rightarrow> loader" where
  "ld_call l = l\<lparr>ld_tick := Suc (ld_tick l)\<rparr>"

text \<open>The attempts that are left, the number of the next, and the result of the last.\<close>

primrec read_loop ::
  "vault \<Rightarrow> string \<Rightarrow> nat \<Rightarrow> int \<Rightarrow> secret_data option option result \<Rightarrow> loader \<Rightarrow>
     secret_data option option result \<times> loader" where
  "read_loop v path 0 attempt prev l = (prev, l)"
| "read_loop v path (Suc n) attempt prev l =
     (let r = vault_read v (ld_tick l) path; l = ld_call l
      in case r of
           Inr s \<Rightarrow> (Inr s, l)
         | Inl e \<Rightarrow>
             read_loop v path n (attempt + 1) (Inl e)
               (if attempt < MaxRetries (SecretStorage (cfg l))
                then l\<lparr>slept := slept l + int64 (int64 (attempt + 1) * Second)\<rparr> else l))"

definition getSecretsWithRetry :: "vault \<Rightarrow> string \<Rightarrow> string \<Rightarrow> loader \<Rightarrow> secret_data option option result \<times> loader" where
  "getSecretsWithRetry v pathType mountPath l =
     (let path = ''apps/'' @ pathType @ ''/'' @ mountPath; maxr = MaxRetries (SecretStorage (cfg l));
          (r, l) = read_loop v path (nat (maxr + 1)) 0 (Inr None) l
      in (case r of
            Inl e \<Rightarrow> Inl (ErrWrap (''failed to read from path '' @ path @ '' after '' @ itoa maxr @ '' retries'') e)
          | Inr s \<Rightarrow> Inr s, l))"

text \<open>A path type is looked for in the data of one and the same path.\<close>

definition loadSecretsFromPath :: "vault \<Rightarrow> string \<Rightarrow> loader \<Rightarrow> secret_data option result \<times> loader" where
  "loadSecretsFromPath v pathType l =
     (case getSecretsWithRetry v ''data'' (MountPath (SecretStorage (cfg l))) l of
        (Inl e, l) \<Rightarrow> (Inl e, l)
      | (Inr (Some (Some data)), l) \<Rightarrow>
          (case map_of data pathType of
             Some (SMap m) \<Rightarrow> (Inr (Some m), l)
           | _ \<Rightarrow> (Inl (ErrText (''invalid secret format at path apps/data/'' @ MountPath (SecretStorage (cfg l)) @
                      '', missing '' @ [CHR 0x27] @ pathType @ [CHR 0x27] @ '' key'')), l))
      | (Inr _, l) \<Rightarrow> (Inr None, l))"

definition uint :: "int \<Rightarrow> int" where "uint i = i mod 2 ^ 64"

definition getSecretVersion :: "secret_data option \<Rightarrow> int result" where
  "getSecretVersion metadata =
     (case metadata of
        None \<Rightarrow> Inr 0
      | Some m \<Rightarrow>
          (case map_of m ''current_version'' of
             None \<Rightarrow> Inr 0
           | Some (SFloat n) \<Rightarrow> Inr (uint (int n))
           | Some (SUint n) \<Rightarrow> Inr (uint (int n))
           | Some (SNumber s) \<Rightarrow>
               (case atoi s of
                  None \<Rightarrow> Inl (ErrWrap ''failed to parse version'' (ErrText ''invalid syntax''))
                | Some i \<Rightarrow> Inr (uint i))
           | Some _ \<Rightarrow> Inl (ErrText ''unexpected version type'')))"

section \<open>Applying\<close>

text \<open>\<open>os.Setenv\<close> refuses an empty name, one with an equals sign, and zero bytes.\<close>

definition Setenv :: "string \<Rightarrow> string \<Rightarrow> loader \<Rightarrow> unit result \<times> loader" where
  "Setenv key v l =
     (if key = [] \<or> CHR ''='' \<in> set key \<or> CHR 0x00 \<in> set key \<or> CHR 0x00 \<in> set v
      then (Inl (ErrText ''setenv: invalid argument''), l)
      else (Inr (), l\<lparr>environ := (environ l)(key \<mapsto> v)\<rparr>))"

definition set_key :: "string \<Rightarrow> string \<Rightarrow> service_config \<Rightarrow> service_config" where
  "set_key key v c =
     (if key = ''POSTGRES_USERNAME'' then c\<lparr>storage_Username := v\<rparr>
      else if key = ''POSTGRES_PASSWORD'' then c\<lparr>storage_Password := v\<rparr>
      else if key = ''POSTGRES_HOST'' then c\<lparr>storage_Host := v\<rparr>
      else if key = ''POSTGRES_DATABASE'' then c\<lparr>storage_Database := v\<rparr>
      else if key = ''KEYDB_PASSWORD'' then c\<lparr>cache_Password := v\<rparr>
      else if key = ''KEYDB_ADDR'' then c\<lparr>cache_Addr := v\<rparr>
      else if key = ''RABBITMQ_USERNAME'' then c\<lparr>queue_Username := v\<rparr>
      else if key = ''RABBITMQ_PASSWORD'' then c\<lparr>queue_Password := v\<rparr>
      else if key = ''RABBITMQ_HOST'' then c\<lparr>queue_Host := v\<rparr>
      else if key = ''AUTH_SECRET_KEY'' then c\<lparr>auth_SecretKey := v\<rparr>
      else c)"

definition applySecretToConfig :: "string \<Rightarrow> string \<Rightarrow> loader \<Rightarrow> unit result \<times> loader" where
  "applySecretToConfig key v l =
     (case Setenv key v l of
        (Inl e, l) \<Rightarrow> (Inl (ErrWrap (''failed to set environment variable '' @ key) e), l)
      | (Inr _, l) \<Rightarrow> (Inr (), l\<lparr>cfg := set_key key v (cfg l)\<rparr>))"

fun applySecretsToConfig :: "secret_data \<Rightarrow> loader \<Rightarrow> unit result \<times> loader" where
  "applySecretsToConfig [] l = (Inr (), l)"
| "applySecretsToConfig ((key, SStr v) # kvs) l =
     (if v \<noteq> [] then
        (case applySecretToConfig key v l of
           (Inl e, l) \<Rightarrow> (Inl (ErrWrap ''failed to apply secrets to config'' e), l)
         | (Inr _, l) \<Rightarrow> applySecretsToConfig kvs l)
      else applySecretsToConfig kvs l)"
| "applySecretsToConfig (_ # kvs) l = applySecretsToConfig kvs l"

section \<open>Loading\<close>

text \<open>A login without a response dereferences a nil pointer, which is the value \<open>None\<close>.\<close>

definition authenticateVault :: "vault \<Rightarrow> loader \<Rightarrow> (unit result \<times> loader) option" where
  "authenticateVault v l =
     (let c = SecretStorage (cfg l)
      in if to_lower (AuthMethod c) = ''token'' then
           Some (if Token c = [] then (Inl (ErrText ''token is required for token auth method''), l)
                 else (Inr (), l\<lparr>client_token := Token c\<rparr>))
         else if to_lower (AuthMethod c) = ''approle'' then
           (if RoleID c = [] \<or> SecretID c = [] then
              Some (Inl (ErrText ''role_id and secret_id are required for approle auth method''), l)
            else (case vault_login v (ld_tick l) (RoleID c) (SecretID c) of
                    Inl e \<Rightarrow> Some (Inl (ErrWrap ''failed to authenticate via approle'' e), ld_call l)
                  | Inr None \<Rightarrow> None
                  | Inr (Some None) \<Rightarrow> Some (Inl (ErrText ''no auth info returned from Vault''), ld_call l)
                  | Inr (Some (Some t)) \<Rightarrow> Some (Inr (), (ld_call l)\<lparr>client_token := t\<rparr>)))
         else Some (Inl (ErrText (''unsupported auth method: '' @ AuthMethod c)), l))"

definition load_version :: "vault \<Rightarrow> loader \<Rightarrow> int result \<times> loader" where
  "load_version v l =
     (case loadSecretsFromPath v ''metadata'' l of
        (Inl e, l) \<Rightarrow> (Inl (ErrWrap ''failed to load secret metadata'' e), l)
      | (Inr m, l) \<Rightarrow>
          (case getSecretVersion m of
             Inl e \<Rightarrow> (Inl (ErrWrap ''failed to get secret version'' e), l)
           | Inr n \<Rightarrow> (Inr n, l)))"

definition Load :: "vault \<Rightarrow> loader \<Rightarrow> (int result \<times> loader) option" where
  "Load v l =
     (if \<not> Enabled (SecretStorage (cfg l)) then Some (Inl (ErrText ''secret storage is not enabled''), l)
      else (case authenticateVault v l of
              None \<Rightarrow> None
            | Some (Inl e, l) \<Rightarrow> Some (Inl (ErrWrap ''failed to authenticate with Vault'' e), l)
            | Some (Inr _, l) \<Rightarrow>
                (case loadSecretsFromPath v ''data'' l of
                   (Inl e, l) \<Rightarrow> Some (Inl (ErrWrap ''failed to load secrets from Vault'' e), l)
                 | (Inr data, l) \<Rightarrow>
                     (case applySecretsToConfig (case data of None \<Rightarrow> [] | Some m \<Rightarrow> m) l of
                        (Inl e, l) \<Rightarrow> Some (Inl (ErrWrap ''failed to apply secrets to config'' e), l)
                      | (Inr _, l) \<Rightarrow> Some (load_version v l)))))"

text \<open>The channel has room for one result; another is dropped.\<close>

definition reportReloadStatus :: "error option \<Rightarrow> loader \<Rightarrow> loader" where
  "reportReloadStatus e l = (if length (reloadErrors l) < 1 then l\<lparr>reloadErrors := reloadErrors l @ [e]\<rparr> else l)"

definition handleConfigReload :: "vault \<Rightarrow> loader \<Rightarrow> loader option" where
  "handleConfigReload v l =
     (case load_version v l of
        (Inl e, l) \<Rightarrow> Some (reportReloadStatus (Some e) l)
      | (Inr currentVersion, l) \<Rightarrow>
          if currentVersion = lastVersion l then Some l
          else (case Load v l of
                  None \<Rightarrow> None
                | Some (Inl e, l) \<Rightarrow> Some (reportReloadStatus (Some e) l)
                | Some (Inr n, l) \<Rightarrow> Some (reportReloadStatus None (l\<lparr>lastVersion := n\<rparr>))))"

section \<open>Waiting for signals\<close>

text \<open>
  The goroutine of \<open>WatchConfigSignals\<close>: in the select, at its send to its own channel (capacity 1),
  at its deferred calls, returned. A panic ends the process.
\<close>

datatype sig = SIGHUP | SIGUSR1

datatype watch_pc = WSelect | WSend | WCloseErrors | WCloseChan | WStopSignals | WReturned

record watcher =
  w_pc :: watch_pc
  w_chan :: "sig list"
  w_open :: bool  \<comment> \<open>\<open>configSignalChan\<close> is not closed\<close>
  w_notify :: bool  \<comment> \<open>signals are delivered to it\<close>
  w_errors_open :: bool
  w_cancelled :: bool
  w_panicked :: bool
  w_loader :: loader

definition watch_start :: "loader \<Rightarrow> watcher" where
  "watch_start l =
     \<lparr>w_pc = WSelect, w_chan = [], w_open = True, w_notify = True, w_errors_open = True, w_cancelled = False,
      w_panicked = False, w_loader = l\<rparr>"

definition polls :: "loader \<Rightarrow> bool" where
  "polls l \<longleftrightarrow> Enabled (SecretStorage (cfg l)) \<and> 0 < PollInterval (SecretStorage (cfg l))"

inductive watch_step :: "vault \<Rightarrow> bool \<Rightarrow> watcher \<Rightarrow> watcher \<Rightarrow> bool" for v ticker where
  Signal: "\<not> w_panicked s \<Longrightarrow> w_notify s \<Longrightarrow> w_open s \<Longrightarrow>
           watch_step v ticker s (s\<lparr>w_chan := (if length (w_chan s) < 1 then w_chan s @ [sg] else w_chan s)\<rparr>)"
| SignalClosed: "\<not> w_panicked s \<Longrightarrow> w_notify s \<Longrightarrow> \<not> w_open s \<Longrightarrow> watch_step v ticker s (s\<lparr>w_panicked := True\<rparr>)"
| Cancel: "\<not> w_panicked s \<Longrightarrow> watch_step v ticker s (s\<lparr>w_cancelled := True\<rparr>)"
| Done: "\<not> w_panicked s \<Longrightarrow> w_pc s = WSelect \<Longrightarrow> w_cancelled s \<Longrightarrow> watch_step v ticker s (s\<lparr>w_pc := WCloseErrors\<rparr>)"
| Tick: "\<not> w_panicked s \<Longrightarrow> w_pc s = WSelect \<Longrightarrow> ticker \<Longrightarrow> watch_step v ticker s (s\<lparr>w_pc := WSend\<rparr>)"
| Send: "\<not> w_panicked s \<Longrightarrow> w_pc s = WSend \<Longrightarrow> length (w_chan s) < 1 \<Longrightarrow>
         watch_step v ticker s (s\<lparr>w_pc := WSelect, w_chan := w_chan s @ [SIGHUP]\<rparr>)"
| Reload: "\<not> w_panicked s \<Longrightarrow> w_pc s = WSelect \<Longrightarrow> w_chan s = SIGHUP # c \<Longrightarrow> handleConfigReload v (w_loader s) = Some l \<Longrightarrow>
           watch_step v ticker s (s\<lparr>w_chan := c, w_loader := l\<rparr>)"
| ReloadPanics: "\<not> w_panicked s \<Longrightarrow> w_pc s = WSelect \<Longrightarrow> w_chan s = SIGHUP # c \<Longrightarrow> handleConfigReload v (w_loader s) = None \<Longrightarrow>
           watch_step v ticker s (s\<lparr>w_panicked := True\<rparr>)"
| Dump: "\<not> w_panicked s \<Longrightarrow> w_pc s = WSelect \<Longrightarrow> w_chan s = SIGUSR1 # c \<Longrightarrow> watch_step v ticker s (s\<lparr>w_chan := c\<rparr>)"
| Drain: "\<not> w_panicked s \<Longrightarrow> reloadErrors (w_loader s) = r # rs \<Longrightarrow>
          watch_step v ticker s (s\<lparr>w_loader := (w_loader s)\<lparr>reloadErrors := rs\<rparr>\<rparr>)"
| CloseErrors: "\<not> w_panicked s \<Longrightarrow> w_pc s = WCloseErrors \<Longrightarrow>
          watch_step v ticker s (s\<lparr>w_pc := WCloseChan, w_errors_open := False\<rparr>)"
| CloseChan: "\<not> w_panicked s \<Longrightarrow> w_pc s = WCloseChan \<Longrightarrow> watch_step v ticker s (s\<lparr>w_pc := WStopSignals, w_open := False\<rparr>)"
| StopSignals: "\<not> w_panicked s \<Longrightarrow> w_pc s = WStopSignals \<Longrightarrow>
          watch_step v ticker s (s\<lparr>w_pc := WReturned, w_notify := False\<rparr>)"

inductive_cases watch_stepE: "watch_step v ticker s s'"

section \<open>Retries\<close>

definition all_fail :: "vault \<Rightarrow> string \<Rightarrow> nat \<Rightarrow> nat \<Rightarrow> bool" where
  "all_fail v path t k \<longleftrightarrow> (\<forall>i<k. \<exists>e. vault_read v (t + i) path = Inl e)"

lemma all_fail_Suc: "all_fail v path t (Suc k) \<longleftrightarrow> (\<exists>e. vault_read v t path = Inl e) \<and> all_fail v path (Suc t) k"
  by (auto simp: all_fail_def less_Suc_eq_0_disj)

text \<open>The seconds slept after the attempts from \<open>a\<close> on, when there are \<open>k\<close> of them.\<close>

definition naps :: "nat \<Rightarrow> nat \<Rightarrow> int" where
  "naps a k = (\<Sum>i<k. int (a + i + 1)) * Second"

lemma naps_simps: "naps a 0 = 0" "naps a (Suc k) = int (a + 1) * Second + naps (Suc a) k"
  by (simp_all add: naps_def sum.lessThan_Suc_shift distrib_right del: sum.lessThan_Suc)

lemma naps_closed: "naps 0 k = int (k * (k + 1) div 2) * Second"
proof -
  have "(\<Sum>i<k. int (i + 1)) = int (k * (k + 1) div 2)" by (induction k) auto
  then show ?thesis by (simp add: naps_def)
qed

lemma nap_in_range: "int a < 9223372036 \<Longrightarrow> int64 (int64 (int a + 1) * Second) = (int a + 1) * Second"
  by (simp add: in_int64_def Second_def)

lemma read_loop_spec:
  assumes "read_loop v path n (int a) prev l = (r, l')" "MaxRetries (SecretStorage (cfg l)) = int (a + n) - 1"
    "int (a + n) \<le> 9223372036"
  shows "(n = 0 \<and> r = prev \<and> l' = l) \<or>
    (\<exists>k e. n = Suc k \<and> all_fail v path (ld_tick l) n \<and> r = Inl e \<and>
       l' = l\<lparr>ld_tick := ld_tick l + n, slept := slept l + naps a k\<rparr>) \<or>
    (\<exists>k s. k < n \<and> all_fail v path (ld_tick l) k \<and> vault_read v (ld_tick l + k) path = Inr s \<and> r = Inr s \<and>
       l' = l\<lparr>ld_tick := ld_tick l + k + 1, slept := slept l + naps a k\<rparr>)"
  using assms
proof (induction n arbitrary: a prev l)
  case 0
  then show ?case by simp
next
  case (Suc n)
  show ?case
  proof (cases "vault_read v (ld_tick l) path")
    case (Inr s)
    then show ?thesis using Suc.prems
      by (intro disjI2 exI [of _ 0] exI [of _ s]) (auto simp: all_fail_def naps_simps ld_call_def Let_def)
  next
    case (Inl e)
    show ?thesis
    proof (cases n)
      case 0
      with Suc.prems Inl have "r = Inl e" "l' = l\<lparr>ld_tick := Suc (ld_tick l)\<rparr>" by (simp_all add: ld_call_def Let_def)
      then show ?thesis using Inl 0
        by (intro disjI2 disjI1 exI [of _ 0] exI [of _ e]) (simp add: all_fail_def naps_simps)
    next
      case (Suc n')
      let ?l = "(ld_call l)\<lparr>slept := slept l + int (a + 1) * Second\<rparr>"
      have step: "read_loop v path n (int (Suc a)) (Inl e) ?l = (r, l')"
      proof -
        have lt: "int a < MaxRetries (SecretStorage (cfg (ld_call l)))"
          using Suc.prems(2) Suc by (simp add: ld_call_def)
        have nap: "int64 (int64 (int a + 1) * Second) = int (a + 1) * Second"
          using nap_in_range [of a] Suc.prems(3) by (simp add: algebra_simps)
        have sl: "slept (ld_call l) = slept l" by (simp add: ld_call_def)
        have "read_loop v path (Suc n) (int a) prev l = read_loop v path n (int a + 1) (Inl e) ?l"
          by (simp only: read_loop.simps Let_def Inl sum.case lt if_True sl nap)
        then show ?thesis using Suc.prems(1) by (simp add: add.commute)
      qed
      from Suc.IH [OF step] Suc.prems(2,3) consider
          (zero) "n = 0"
        | (fail) k e' where "n = Suc k" "all_fail v path (Suc (ld_tick l)) n" "r = Inl e'"
            "l' = ?l\<lparr>ld_tick := Suc (ld_tick l) + n, slept := slept ?l + naps (Suc a) k\<rparr>"
        | (got) k s where "k < n" "all_fail v path (Suc (ld_tick l)) k" "vault_read v (Suc (ld_tick l) + k) path = Inr s"
            "r = Inr s" "l' = ?l\<lparr>ld_tick := Suc (ld_tick l) + k + 1, slept := slept ?l + naps (Suc a) k\<rparr>"
        by (auto simp: ld_call_def)
      then show ?thesis
      proof cases
        case zero
        then show ?thesis using Suc by simp
      next
        case fail
        then show ?thesis using Inl
          by (intro disjI2 disjI1 exI [of _ n] exI [of _ e'])
             (auto simp: all_fail_Suc naps_simps ld_call_def)
      next
        case got
        then show ?thesis using Inl
          by (intro disjI2 exI [of _ "Suc k"] exI [of _ s]) (auto simp: all_fail_Suc naps_simps ld_call_def)
      qed
    qed
  qed
qed

text \<open>Also: Reading a secret is tried a bounded number of times, with pauses of one second, two seconds and
  so on. It fails exactly if the storage refuses all of the \<open>MaxRetries + 1\<close> attempts, and else gives
  the first answer; the pauses are the sum of as many seconds as there were attempts before, whatever
  the timeout of the storage is.\<close>

theorem secret_retries:
  assumes "getSecretsWithRetry v pathType mount l = (r, l')" "MaxRetries (SecretStorage (cfg l)) = int m" "int m < 9223372036"
  shows "let path = ''apps/'' @ pathType @ ''/'' @ mount; t = ld_tick l in
    (\<exists>e. r = Inl e \<and> (\<forall>i\<le>m. \<exists>e. vault_read v (t + i) path = Inl e) \<and>
       l' = l\<lparr>ld_tick := t + m + 1, slept := slept l + int (m * (m + 1) div 2) * Second\<rparr>) \<or>
    (\<exists>k s. k \<le> m \<and> r = Inr s \<and> vault_read v (t + k) path = Inr s \<and> (\<forall>i<k. \<exists>e. vault_read v (t + i) path = Inl e) \<and>
       l' = l\<lparr>ld_tick := t + k + 1, slept := slept l + int (k * (k + 1) div 2) * Second\<rparr>)"
proof -
  let ?path = "''apps/'' @ pathType @ ''/'' @ mount"
  let ?wrap = "ErrWrap (''failed to read from path '' @ ?path @ '' after '' @ itoa (int m) @ '' retries'')"
  obtain q l'' where rl: "read_loop v ?path (Suc m) 0 (Inr None) l = (q, l'')" by force
  have m: "nat (int m + 1) = Suc m" by simp
  have "getSecretsWithRetry v pathType mount l = (case q of Inl e \<Rightarrow> Inl (?wrap e) | Inr s \<Rightarrow> Inr s, l'')"
    unfolding getSecretsWithRetry_def Let_def assms(2) m rl by simp
  with assms(1) have r: "r = (case q of Inl e \<Rightarrow> Inl (?wrap e) | Inr s \<Rightarrow> Inr s)" and "l'' = l'" by simp_all
  with rl have q: "read_loop v ?path (Suc m) (int 0) (Inr None) l = (q, l')" by simp
  from read_loop_spec [OF q] assms(2,3) consider
      (fail) e where "all_fail v ?path (ld_tick l) (Suc m)" "q = Inl e"
        "l' = l\<lparr>ld_tick := ld_tick l + Suc m, slept := slept l + naps 0 m\<rparr>"
    | (got) k s where "k < Suc m" "all_fail v ?path (ld_tick l) k" "vault_read v (ld_tick l + k) ?path = Inr s"
        "q = Inr s" "l' = l\<lparr>ld_tick := ld_tick l + k + 1, slept := slept l + naps 0 k\<rparr>"
    by auto
  then show ?thesis
  proof cases
    case fail
    then show ?thesis by (auto simp: r Let_def naps_closed all_fail_def less_Suc_eq_le)
  next
    case got
    then show ?thesis unfolding Let_def
      by (intro disjI2 exI [of _ k] exI [of _ s]) (auto simp: r naps_closed all_fail_def)
  qed
qed

section \<open>What is applied\<close>

definition setting :: "service_config \<Rightarrow> string \<Rightarrow> string option" where
  "setting c key =
     map_of [(''POSTGRES_USERNAME'', storage_Username c), (''POSTGRES_PASSWORD'', storage_Password c),
       (''POSTGRES_HOST'', storage_Host c), (''POSTGRES_DATABASE'', storage_Database c),
       (''KEYDB_PASSWORD'', cache_Password c), (''KEYDB_ADDR'', cache_Addr c),
       (''RABBITMQ_USERNAME'', queue_Username c), (''RABBITMQ_PASSWORD'', queue_Password c),
       (''RABBITMQ_HOST'', queue_Host c), (''AUTH_SECRET_KEY'', auth_SecretKey c)] key"

definition setting_names :: "string list" where
  "setting_names = [''POSTGRES_USERNAME'', ''POSTGRES_PASSWORD'', ''POSTGRES_HOST'', ''POSTGRES_DATABASE'',
     ''KEYDB_PASSWORD'', ''KEYDB_ADDR'', ''RABBITMQ_USERNAME'', ''RABBITMQ_PASSWORD'', ''RABBITMQ_HOST'', ''AUTH_SECRET_KEY'']"

lemma setting_set_key:
  "setting (set_key key v c) k = (if k = key \<and> setting c k \<noteq> None then Some v else setting c k)"
proof (cases "key \<in> set setting_names")
  case True
  then show ?thesis unfolding setting_names_def list.set
    by (elim insertE emptyE) (simp_all add: setting_def set_key_def)
next
  case False
  then have "set_key key v c = c" unfolding setting_names_def list.set by (simp add: set_key_def)
  moreover have "setting c key = None" using False by (simp add: setting_def setting_names_def)
  ultimately show ?thesis by auto
qed

lemma set_key_storage [simp]: "SecretStorage (set_key key v c) = SecretStorage c"
  by (simp add: set_key_def)

lemma config_eqI:
  assumes "setting c = setting d" "SecretStorage c = SecretStorage d"
  shows "c = d"
proof -
  have *: "setting c k = setting d k" for k using assms(1) by simp
  from * [of "''POSTGRES_USERNAME''"] * [of "''POSTGRES_PASSWORD''"] * [of "''POSTGRES_HOST''"] * [of "''POSTGRES_DATABASE''"]
    * [of "''KEYDB_PASSWORD''"] * [of "''KEYDB_ADDR''"] * [of "''RABBITMQ_USERNAME''"] * [of "''RABBITMQ_PASSWORD''"]
    * [of "''RABBITMQ_HOST''"] * [of "''AUTH_SECRET_KEY''"] assms(2)
  show ?thesis by (simp add: setting_def)
qed

text \<open>The entries that count: texts that are not empty. One of them can be refused by the environment.\<close>

definition live :: "secret_data \<Rightarrow> (string \<times> string) list" where
  "live data = List.map_filter (\<lambda>(k, x). case x of SStr v \<Rightarrow> if v \<noteq> [] then Some (k, v) else None | _ \<Rightarrow> None) data"

lemma live_simps [simp]:
  "live [] = []" "live ((k, SStr v) # kvs) = (if v \<noteq> [] then (k, v) # live kvs else live kvs)"
  "live ((k, SFloat n) # kvs) = live kvs" "live ((k, SUint n) # kvs) = live kvs" "live ((k, SNumber t) # kvs) = live kvs"
  "live ((k, SMap m) # kvs) = live kvs" "live ((k, SOther) # kvs) = live kvs"
  by (simp_all add: live_def)

definition settable :: "string \<times> string \<Rightarrow> bool" where
  "settable kv \<longleftrightarrow> fst kv \<noteq> [] \<and> CHR ''='' \<notin> set (fst kv) \<and> CHR 0x00 \<notin> set (fst kv) \<and> CHR 0x00 \<notin> set (snd kv)"

definition apply_live :: "string \<times> string \<Rightarrow> loader \<Rightarrow> loader" where
  "apply_live kv l = l\<lparr>cfg := set_key (fst kv) (snd kv) (cfg l), environ := (environ l)(fst kv \<mapsto> snd kv)\<rparr>"

lemma applySecretToConfig_eq:
  "applySecretToConfig k v l =
     (if settable (k, v) then (Inr (), apply_live (k, v) l)
      else (Inl (ErrWrap (''failed to set environment variable '' @ k) (ErrText ''setenv: invalid argument'')), l))"
  by (auto simp: applySecretToConfig_def Setenv_def settable_def apply_live_def)

lemma applySecrets_ok:
  "(\<exists>u. fst (applySecretsToConfig data l) = Inr u) \<longleftrightarrow> list_all settable (live data)"
  "list_all settable (live data) \<Longrightarrow> snd (applySecretsToConfig data l) = fold apply_live (live data) l"
  by (induction data l rule: applySecretsToConfig.induct) (auto simp: applySecretToConfig_eq)

lemma fold_apply_live:
  "distinct (map fst kvs) \<Longrightarrow>
     setting (cfg (fold apply_live kvs l)) k = (if setting (cfg l) k \<noteq> None \<and> map_of kvs k \<noteq> None then map_of kvs k else setting (cfg l) k) \<and>
     environ (fold apply_live kvs l) k = (if map_of kvs k \<noteq> None then map_of kvs k else environ l k) \<and>
     fold apply_live kvs l = l\<lparr>cfg := cfg (fold apply_live kvs l), environ := environ (fold apply_live kvs l)\<rparr> \<and>
     SecretStorage (cfg (fold apply_live kvs l)) = SecretStorage (cfg l)"
proof (induction kvs arbitrary: l)
  case Nil
  then show ?case by simp
next
  case (Cons kv kvs)
  obtain key v where kv: "kv = (key, v)" by force
  have none: "map_of kvs key = None" using Cons.prems kv by (auto simp: map_of_eq_None_iff)
  from Cons.IH [of "apply_live kv l"] Cons.prems none show ?case
    by (auto simp: kv apply_live_def setting_set_key)
qed

lemma map_of_live:
  "distinct (map fst data) \<Longrightarrow>
     map_of (live data) k = (case map_of data k of Some (SStr v) \<Rightarrow> if v \<noteq> [] then Some v else None | _ \<Rightarrow> None)"
proof (induction data)
  case Nil
  then show ?case by simp
next
  case (Cons kx data)
  obtain key x where kx: "kx = (key, x)" by force
  have "map_of data key = None" using Cons.prems kx by (auto simp: map_of_eq_None_iff)
  with Cons show ?case by (cases x) (auto simp: kx)
qed

lemma fst_live: "fst ` set (live data) \<subseteq> fst ` set data"
  by (force simp: live_def List.map_filter_def split: secret_value.splits if_splits)

lemma distinct_live: "distinct (map fst data) \<Longrightarrow> distinct (map fst (live data))"
proof (induction data)
  case (Cons kx data)
  then show ?case using fst_live [of data] by (cases kx; cases "snd kx") auto
qed simp

lemma set_live: "set (live data) = {(k, v). (k, SStr v) \<in> set data \<and> v \<noteq> []}"
  by (force simp: live_def List.map_filter_def split: secret_value.splits if_splits)

text \<open>Also: What applying the secrets does. Each of the ten settings has the text of its secret afterwards, if
  there is one and it is not empty, and else what it had; so have the environment variables, whose
  names are not limited to the settings; nothing else of the loader changes.\<close>

theorem secrets_applied:
  assumes "applySecretsToConfig data l = (Inr u, l')" "distinct (map fst data)"
  shows "setting (cfg l') k =
      (case setting (cfg l) k of
         None \<Rightarrow> None
       | Some old \<Rightarrow> (case map_of data k of Some (SStr v) \<Rightarrow> Some (if v = [] then old else v) | _ \<Rightarrow> Some old)) \<and>
    environ l' k = (case map_of data k of Some (SStr v) \<Rightarrow> if v = [] then environ l k else Some v | _ \<Rightarrow> environ l k) \<and>
    l' = l\<lparr>cfg := cfg l', environ := environ l'\<rparr> \<and> SecretStorage (cfg l') = SecretStorage (cfg l)"
proof -
  have "list_all settable (live data)" using assms(1) applySecrets_ok(1) [of data l] by auto
  then have l': "l' = fold apply_live (live data) l" using assms(1) applySecrets_ok(2) [of data l] by simp
  from fold_apply_live [OF distinct_live [OF assms(2)], of l k] show ?thesis
    unfolding l' map_of_live [OF assms(2)]
    by (cases "setting (cfg l) k"; cases "map_of data k"; cases "the (map_of data k)") auto
qed

text \<open>Also: The order in which Go goes through the map of secrets does not matter: whether the secrets can be
  applied and what the loader is afterwards is the same for every order.\<close>

theorem secrets_order_irrelevant:
  assumes "applySecretsToConfig data l = (Inr u, l')" "distinct (map fst data)"
    and "distinct (map fst data')" "set data' = set data"
  shows "applySecretsToConfig data' l = (Inr u, l')"
proof -
  have ok: "list_all settable (live data)" using assms(1) applySecrets_ok(1) [of data l] by auto
  then have ok': "list_all settable (live data')" using assms(4) by (simp add: list_all_iff set_live)
  let ?f = "fold apply_live (live data) l" and ?f' = "fold apply_live (live data') l"
  have l': "l' = ?f" using assms(1) applySecrets_ok(2) [OF ok, of l] by simp
  have m: "map_of (live data') = map_of (live data)"
    using distinct_live [OF assms(2)] distinct_live [OF assms(3)] assms(4)
    by (intro map_of_eqI ext) (simp_all add: set_live map_of_eqI)
  note a = fold_apply_live [OF distinct_live [OF assms(2)], of l]
    and b = fold_apply_live [OF distinct_live [OF assms(3)], of l]
  have "setting (cfg ?f') = setting (cfg ?f)" "environ ?f' = environ ?f"
    using a b m by (simp_all add: fun_eq_iff)
  moreover have "SecretStorage (cfg ?f') = SecretStorage (cfg ?f)" using a b by metis
  ultimately have "cfg ?f' = cfg ?f" "environ ?f' = environ ?f" by (auto intro: config_eqI)
  then have "?f' = ?f" using a b by metis
  then have "snd (applySecretsToConfig data' l) = l'" using applySecrets_ok(2) [OF ok'] l' by simp
  moreover obtain u' where "fst (applySecretsToConfig data' l) = Inr u'" using ok' applySecrets_ok(1) by blast
  ultimately show ?thesis by (simp add: prod_eq_iff)
qed

text \<open>Instances.\<close>

definition sample_config :: service_config where
  "sample_config = \<lparr>SecretStorage = \<lparr>Enabled = True, Token = ''t'', RoleID = [], SecretID = [], AuthMethod = ''Token'',
       MountPath = ''m'', MaxRetries = 3, PollInterval = 10\<rparr>,
     storage_Username = ''u'', storage_Password = [], storage_Host = [], storage_Database = [], cache_Password = [],
     cache_Addr = [], queue_Username = [], queue_Password = [], queue_Host = [], auth_SecretKey = []\<rparr>"

definition sample_vault :: vault where
  "sample_vault = \<lparr>vault_read = (\<lambda>n _. if n = 0 then Inl (ErrText ''sealed'') else
       Inr (Some (Some [(''data'', SMap [(''POSTGRES_USERNAME'', SStr ''w'')]), (''metadata'', SMap [(''version'', SNumber ''7'')])]))),
     vault_login = (\<lambda>_ _ _. Inr None)\<rparr>"

theorem secret_retries_witness:
  "\<exists>s. fst (getSecretsWithRetry sample_vault ''data'' ''m'' (NewLoader sample_config Map.empty 0)) = Inr s \<or>
     slept (snd (getSecretsWithRetry sample_vault ''data'' ''m'' (NewLoader sample_config Map.empty 0))) = 6 * Second"
  using secret_retries [OF prod.collapse [symmetric], where v = sample_vault and pathType = "''data''" and mount = "''m''"
      and l = "NewLoader sample_config Map.empty 0" and m = 3]
  by (auto simp: NewLoader_def sample_config_def Let_def)

theorem secrets_applied_witness:
  "storage_Username (cfg (snd (applySecretsToConfig [(''POSTGRES_USERNAME'', SStr ''w'')] (NewLoader sample_config Map.empty 0)))) = ''w''"
proof -
  let ?r = "applySecretsToConfig [(''POSTGRES_USERNAME'', SStr ''w'')] (NewLoader sample_config Map.empty 0)"
  have "?r = (Inr (), snd ?r)" by (simp add: applySecretToConfig_eq settable_def)
  from secrets_applied [OF this, of "''POSTGRES_USERNAME''"] show ?thesis
    by (simp add: setting_def)
qed

theorem secrets_order_irrelevant_witness:
  "applySecretsToConfig [(''KEYDB_ADDR'', SStr ''k''), (''POSTGRES_USERNAME'', SStr ''w'')] (NewLoader sample_config Map.empty 0) =
   applySecretsToConfig [(''POSTGRES_USERNAME'', SStr ''w''), (''KEYDB_ADDR'', SStr ''k'')] (NewLoader sample_config Map.empty 0)"
proof -
  let ?r = "applySecretsToConfig [(''POSTGRES_USERNAME'', SStr ''w''), (''KEYDB_ADDR'', SStr ''k'')] (NewLoader sample_config Map.empty 0)"
  have "?r = (Inr (), snd ?r)" by (simp add: applySecretToConfig_eq settable_def)
  from secrets_order_irrelevant [OF this, of "[(''KEYDB_ADDR'', SStr ''k''), (''POSTGRES_USERNAME'', SStr ''w'')]"] this
  show ?thesis by auto
qed

section \<open>Reloading\<close>

text \<open>
  What the key-value store of the secret storage answers when the data of a secret is read: next to
  the data there is metadata with the number of the version under \<open>version\<close>; the key
  \<open>current_version\<close> is one of the metadata endpoint, which is not read.
\<close>

definition data_endpoint :: "vault \<Rightarrow> bool" where
  "data_endpoint v \<longleftrightarrow> (\<forall>n path data m. vault_read v n path = Inr (Some (Some data)) \<longrightarrow>
     map_of data ''metadata'' = Some (SMap m) \<longrightarrow> map_of m ''current_version'' = None)"

lemma read_loop_frame:
  "cfg (snd (read_loop v path n a prev l)) = cfg l" "environ (snd (read_loop v path n a prev l)) = environ l"
  "lastVersion (snd (read_loop v path n a prev l)) = lastVersion l"
  "reloadErrors (snd (read_loop v path n a prev l)) = reloadErrors l"
  by (induction n arbitrary: a prev l) (auto simp: Let_def ld_call_def split: sum.splits)

lemma read_loop_source:
  "fst (read_loop v path n a prev l) = prev \<or> (\<exists>t. fst (read_loop v path n a prev l) = vault_read v t path)"
proof (induction n arbitrary: a prev l)
  case (Suc n)
  show ?case
  proof (cases "vault_read v (ld_tick l) path")
    case (Inl e)
    let ?l = "if a < MaxRetries (SecretStorage (cfg (ld_call l)))
      then (ld_call l)\<lparr>slept := slept (ld_call l) + int64 (int64 (a + 1) * Second)\<rparr> else ld_call l"
    have "read_loop v path (Suc n) a prev l = read_loop v path n (a + 1) (Inl e) ?l"
      by (simp only: read_loop.simps Let_def Inl sum.case)
    with Suc.IH [of "a + 1" "Inl e" ?l] Inl show ?thesis by metis
  next
    case (Inr s)
    then have "fst (read_loop v path (Suc n) a prev l) = vault_read v (ld_tick l) path" by (simp add: Let_def)
    then show ?thesis by blast
  qed
qed simp

lemma loadSecrets_frame:
  assumes "loadSecretsFromPath v p l = (r, l')"
  shows "cfg l' = cfg l" "environ l' = environ l" "lastVersion l' = lastVersion l" "reloadErrors l' = reloadErrors l"
    "\<forall>m. r = Inr (Some m) \<longrightarrow> (\<exists>n path data. vault_read v n path = Inr (Some (Some data)) \<and> map_of data p = Some (SMap m))"
proof -
  obtain path where path: "path = ''apps/'' @ ''data'' @ ''/'' @ MountPath (SecretStorage (cfg l))" by simp
  obtain n where n: "n = nat (MaxRetries (SecretStorage (cfg l)) + 1)" by simp
  obtain q l1 where rl: "read_loop v path n 0 (Inr None) l = (q, l1)" by force
  have l1: "cfg l1 = cfg l" "environ l1 = environ l" "lastVersion l1 = lastVersion l" "reloadErrors l1 = reloadErrors l"
    using read_loop_frame [of v path n 0 "Inr None" l] by (simp_all add: rl)
  have q: "q = Inr None \<or> (\<exists>t. q = vault_read v t path)"
    using read_loop_source [of v path n 0 "Inr None" l] by (simp add: rl)
  have g: "\<exists>e. getSecretsWithRetry v ''data'' (MountPath (SecretStorage (cfg l))) l = (case q of Inl _ \<Rightarrow> Inl e | Inr s \<Rightarrow> Inr s, l1)"
    unfolding getSecretsWithRetry_def Let_def path [symmetric] n [symmetric] rl by (cases q) auto
  show "cfg l' = cfg l" "environ l' = environ l" "lastVersion l' = lastVersion l" "reloadErrors l' = reloadErrors l"
    "\<forall>m. r = Inr (Some m) \<longrightarrow> (\<exists>n path data. vault_read v n path = Inr (Some (Some data)) \<and> map_of data p = Some (SMap m))"
    using assms g q l1
    by (cases q; force simp: loadSecretsFromPath_def split: option.splits secret_value.splits)+
qed

lemma load_version_frame:
  assumes "load_version v l = (r, l')"
  shows "cfg l' = cfg l" "environ l' = environ l" "lastVersion l' = lastVersion l" "reloadErrors l' = reloadErrors l"
proof -
  obtain q l1 where q: "loadSecretsFromPath v ''metadata'' l = (q, l1)" by force
  have "l' = l1" using assms q by (auto simp: load_version_def split: sum.splits)
  with loadSecrets_frame [OF q] show "cfg l' = cfg l" "environ l' = environ l" "lastVersion l' = lastVersion l"
    "reloadErrors l' = reloadErrors l" by simp_all
qed

lemma load_version_zero:
  assumes "data_endpoint v" "load_version v l = (Inr n, l')"
  shows "n = 0"
proof -
  obtain q l1 where q: "loadSecretsFromPath v ''metadata'' l = (q, l1)" by force
  then obtain m where m: "q = Inr m" "getSecretVersion m = Inr n"
    using assms(2) by (auto simp: load_version_def split: sum.splits)
  show ?thesis
  proof (cases m)
    case None
    with m(2) show ?thesis by (simp add: getSecretVersion_def)
  next
    case (Some m')
    with m loadSecrets_frame(5) [OF q] obtain n' path data
      where "vault_read v n' path = Inr (Some (Some data))" "map_of data ''metadata'' = Some (SMap m')" by blast
    with assms(1) have "map_of m' ''current_version'' = None" unfolding data_endpoint_def by blast
    with m(2) Some show ?thesis by (simp add: getSecretVersion_def)
  qed
qed

lemma handleConfigReload_noop:
  assumes "data_endpoint v" "lastVersion l = 0"
  obtains l' where "handleConfigReload v l = Some l'" "cfg l' = cfg l" "environ l' = environ l" "lastVersion l' = 0"
proof -
  obtain r l1 where r: "load_version v l = (r, l1)" by force
  note fr = load_version_frame [OF r]
  show thesis
  proof (cases r)
    case (Inl e)
    then show thesis using r fr assms(2)
      by (intro that [of "reportReloadStatus (Some e) l1"]) (simp_all add: handleConfigReload_def reportReloadStatus_def)
  next
    case (Inr n)
    with load_version_zero [OF assms(1)] r have "n = 0" by blast
    then show thesis using r fr assms(2) Inr by (intro that [of l1]) (simp_all add: handleConfigReload_def)
  qed
qed

definition watch_reach :: "vault \<Rightarrow> loader \<Rightarrow> watcher \<Rightarrow> bool" where
  "watch_reach v l s \<longleftrightarrow> (watch_step v (polls l))\<^sup>*\<^sup>* (watch_start l) s"

definition watch_ok :: "vault \<Rightarrow> watcher \<Rightarrow> bool" where
  "watch_ok v s \<longleftrightarrow> length (w_chan s) \<le> 1 \<and> w_open s = (w_pc s \<notin> {WStopSignals, WReturned}) \<and>
     w_errors_open s = (w_pc s \<in> {WSelect, WSend, WCloseErrors}) \<and> w_notify s = (w_pc s \<noteq> WReturned) \<and>
     (w_panicked s \<longrightarrow> w_pc s = WStopSignals \<or> handleConfigReload v (w_loader s) = None)"

definition not_reloaded :: "vault \<Rightarrow> loader \<Rightarrow> watcher \<Rightarrow> bool" where
  "not_reloaded v l s \<longleftrightarrow> (data_endpoint v \<and> lastVersion l = 0 \<longrightarrow>
     cfg (w_loader s) = cfg l \<and> environ (w_loader s) = environ l \<and> lastVersion (w_loader s) = 0)"

lemma not_reloaded_step: "watch_step v ticker s s' \<Longrightarrow> not_reloaded v l s \<Longrightarrow> not_reloaded v l s'"
proof (induction rule: watch_step.induct)
  case (Reload s c l')
  show ?case
    unfolding not_reloaded_def
  proof (rule impI)
    assume h: "data_endpoint v \<and> lastVersion l = 0"
    with Reload have w: "cfg (w_loader s) = cfg l" "environ (w_loader s) = environ l" "lastVersion (w_loader s) = 0"
      by (simp_all add: not_reloaded_def)
    with h obtain l1 where "handleConfigReload v (w_loader s) = Some l1" "cfg l1 = cfg l" "environ l1 = environ l" "lastVersion l1 = 0"
      using handleConfigReload_noop by metis
    with Reload(4) show "cfg (w_loader (s\<lparr>w_chan := c, w_loader := l'\<rparr>)) = cfg l \<and>
        environ (w_loader (s\<lparr>w_chan := c, w_loader := l'\<rparr>)) = environ l \<and>
        lastVersion (w_loader (s\<lparr>w_chan := c, w_loader := l'\<rparr>)) = 0" by simp
  qed
qed (simp_all add: not_reloaded_def)

lemma watch_start_ok: "watch_ok v (watch_start l)" "not_reloaded v l (watch_start l)"
  by (simp_all add: watch_start_def watch_ok_def not_reloaded_def)

interpretation reload_run: step_invariant "watch_step v (polls l)" "watch_start l" "not_reloaded v l"
  by unfold_locales (auto intro: watch_start_ok not_reloaded_step)

text \<open>C22: The configuration is never reloaded. With a key-value store that answers as documented, every
  version the loader finds is 0, the version it starts with: whatever changes in the storage and
  however often it is asked, by a signal or by the poll timer, settings and environment stay as they
  were at the start.\<close>

theorem secrets_never_reloaded:
  assumes "watch_reach v l s" "data_endpoint v" "lastVersion l = 0"
  shows "cfg (w_loader s) = cfg l \<and> environ (w_loader s) = environ l"
  using reload_run.reached [OF assms(1) [unfolded watch_reach_def]] assms(2,3) by (simp add: not_reloaded_def)

section \<open>The goroutine\<close>

lemma watch_ok_step: "watch_step v ticker s s' \<Longrightarrow> watch_ok v s \<Longrightarrow> watch_ok v s'"
  by (induction rule: watch_step.induct) (auto simp: watch_ok_def)

interpretation watch_run: step_invariant "watch_step v (polls l)" "watch_start l" "watch_ok v"
  by unfold_locales (auto intro: watch_start_ok watch_ok_step)

lemma watch_ok_reach: "watch_reach v l s \<Longrightarrow> watch_ok v s"
  unfolding watch_reach_def by (rule watch_run.reached)

text \<open>Also: What the goroutine cannot do. It never sends to a channel that it has closed, its channel never
  holds more than one signal, and it panics in two cases only: a login of the secret storage without a
  response, and a signal that arrives after it has closed the channel and before it has told the
  runtime to stop delivering.\<close>

theorem watcher_safe:
  assumes "watch_reach v l s"
  shows "length (w_chan s) \<le> 1 \<and> (w_pc s = WSend \<or> w_pc s = WSelect \<longrightarrow> w_open s \<and> w_errors_open s) \<and>
    (w_panicked s \<longrightarrow> w_pc s = WStopSignals \<or> handleConfigReload v (w_loader s) = None)"
  using watch_ok_reach [OF assms] by (auto simp: watch_ok_def)

lemma watch_stuck_step:
  "watch_step v ticker s s' \<Longrightarrow> w_pc s = WSend \<Longrightarrow> length (w_chan s) = 1 \<Longrightarrow>
   w_pc s' = WSend \<and> length (w_chan s') = 1"
  by (induction rule: watch_step.induct) simp_all

lemma watch_stuck:
  assumes "(watch_step v ticker)\<^sup>*\<^sup>* s s'" "w_pc s = WSend" "length (w_chan s) = 1"
  shows "w_pc s' = WSend \<and> length (w_chan s') = 1"
  using assms
proof (induction rule: rtranclp_induct)
  case (step s' s'')
  with watch_stuck_step [OF step.hyps(2)] show ?case by blast
qed simp

text \<open>Also: The poll timer can block the goroutine for good. When the timer fires while a signal is waiting,
  and the select takes the timer, the goroutine sends to its own full channel, which only it would
  receive from: it never reloads again, and it never returns, also when it is told to stop.\<close>

theorem watcher_self_deadlock:
  assumes "polls l"
  shows "\<exists>s. watch_reach v l s \<and>
    (\<forall>s'. (watch_step v (polls l))\<^sup>*\<^sup>* (s\<lparr>w_cancelled := True\<rparr>) s' \<longrightarrow> w_pc s' = WSend \<and> length (w_chan s') = 1)"
proof -
  let ?s0 = "watch_start l"
  let ?s1 = "?s0\<lparr>w_chan := [SIGUSR1]\<rparr>" and ?s2 = "?s0\<lparr>w_chan := [SIGUSR1], w_pc := WSend\<rparr>"
  have "watch_step v (polls l) ?s0 ?s1"
    using watch_step.Signal [of ?s0 v "polls l" SIGUSR1] by (simp add: watch_start_def)
  moreover have "watch_step v (polls l) ?s1 ?s2"
    using watch_step.Tick [of ?s1 "polls l" v] assms by (simp add: watch_start_def)
  ultimately have "watch_reach v l ?s2" unfolding watch_reach_def by (meson converse_rtranclp_into_rtranclp rtranclp.rtrancl_refl)
  moreover have "w_pc (?s2\<lparr>w_cancelled := True\<rparr>) = WSend" "length (w_chan (?s2\<lparr>w_cancelled := True\<rparr>)) = 1" by simp_all
  ultimately show ?thesis using watch_stuck by blast
qed

text \<open>Also: A signal during the shutdown can end the process. The goroutine closes its channel before it
  stops the delivery of signals to it; a signal in between is sent to a closed channel.\<close>

theorem signal_during_stop_panics:
  "\<exists>s s'. watch_reach v l s \<and> w_cancelled s \<and> w_pc s = WStopSignals \<and> \<not> w_panicked s \<and>
     watch_step v (polls l) s s' \<and> w_panicked s'"
proof -
  let ?s0 = "watch_start l"
  let ?s1 = "?s0\<lparr>w_cancelled := True\<rparr>"
  let ?s2 = "?s1\<lparr>w_pc := WCloseErrors\<rparr>"
  let ?s3 = "?s1\<lparr>w_pc := WCloseChan, w_errors_open := False\<rparr>"
  let ?s4 = "?s1\<lparr>w_pc := WStopSignals, w_errors_open := False, w_open := False\<rparr>"
  have "watch_step v (polls l) ?s0 ?s1"
    using watch_step.Cancel [of ?s0 v "polls l"] by (simp add: watch_start_def)
  moreover have "watch_step v (polls l) ?s1 ?s2"
    using watch_step.Done [of ?s1 v "polls l"] by (simp add: watch_start_def)
  moreover have "watch_step v (polls l) ?s2 ?s3"
    using watch_step.CloseErrors [of ?s2 v "polls l"] by (simp add: watch_start_def)
  moreover have "watch_step v (polls l) ?s3 ?s4"
    using watch_step.CloseChan [of ?s3 v "polls l"] by (simp add: watch_start_def)
  ultimately have "watch_reach v l ?s4"
    unfolding watch_reach_def by (meson converse_rtranclp_into_rtranclp rtranclp.rtrancl_refl)
  moreover have "watch_step v (polls l) ?s4 (?s4\<lparr>w_panicked := True\<rparr>)"
    using watch_step.SignalClosed [of ?s4 v "polls l"] by (simp add: watch_start_def)
  ultimately show ?thesis by (intro exI [of _ ?s4] exI [of _ "?s4\<lparr>w_panicked := True\<rparr>"]) (simp add: watch_start_def)
qed

theorem secrets_never_reloaded_witness:
  "\<exists>s. watch_reach sample_vault (NewLoader sample_config Map.empty 0) s \<and> w_chan s = [SIGHUP] \<and>
     storage_Username (cfg (w_loader s)) = ''u''"
proof -
  let ?l = "NewLoader sample_config Map.empty 0"
  let ?s = "(watch_start ?l)\<lparr>w_chan := [SIGHUP]\<rparr>"
  have "watch_step sample_vault (polls ?l) (watch_start ?l) ?s"
    using watch_step.Signal [of "watch_start ?l" sample_vault "polls ?l" SIGHUP] by (simp add: watch_start_def)
  then have r: "watch_reach sample_vault ?l ?s" unfolding watch_reach_def by blast
  moreover have "data_endpoint sample_vault" by (auto simp: data_endpoint_def sample_vault_def split: if_splits)
  ultimately show ?thesis
    using secrets_never_reloaded [OF r] by (intro exI [of _ ?s]) (simp add: NewLoader_def sample_config_def)
qed

theorem watcher_safe_witness:
  "\<exists>s. watch_reach sample_vault (NewLoader sample_config Map.empty 0) s \<and> w_open s"
proof -
  have r: "watch_reach sample_vault (NewLoader sample_config Map.empty 0) (watch_start (NewLoader sample_config Map.empty 0))"
    by (simp add: watch_reach_def)
  show ?thesis
    using watcher_safe [OF r] r by (intro exI [of _ "watch_start (NewLoader sample_config Map.empty 0)"]) (simp add: watch_start_def)
qed

theorem watcher_self_deadlock_witness:
  "\<exists>s. watch_reach sample_vault (NewLoader sample_config Map.empty 0) s \<and> w_pc s = WSend"
proof -
  have "polls (NewLoader sample_config Map.empty 0)" by (simp add: polls_def NewLoader_def sample_config_def)
  from watcher_self_deadlock [OF this, of sample_vault] obtain s
    where s: "watch_reach sample_vault (NewLoader sample_config Map.empty 0) s"
      "w_pc (s\<lparr>w_cancelled := True\<rparr>) = WSend" by blast
  then show ?thesis by auto
qed

end
