(* ===== verification/Runtime.thy ===== *)
theory Runtime
  imports Publisher
begin

text \<open>
  How the programs run and stop: the loop of the outbox processor (\<open>internal/adapters/outbox/processor.go\<close>)
  and the life of the web service from its first request to its exit (\<open>internal/runtime/dispatcher.go\<close>).
\<close>

section \<open>The loop of the processor\<close>

text \<open>
  What its select takes: the end of the context, or a tick of the timer, on which the pending batch and
  the retryable batch are processed side by side. They run one after the other here, in either order,
  which the flag says; each with the order in which its goroutines run.
\<close>

datatype wake = CtxDone | TickerFired bool

definition processor_tick ::
  "(outbox_event list \<Rightarrow> outbox_event list) \<Rightarrow> env \<Rightarrow> string \<Rightarrow> (nat \<Rightarrow> int \<Rightarrow> duration) \<Rightarrow> bool \<Rightarrow> world \<Rightarrow> world" where
  "processor_tick sched env exchange delay pending_first w =
     (if pending_first
      then snd (processRetryableEvents sched env exchange delay (snd (processPendingEvents sched env exchange delay w)))
      else snd (processPendingEvents sched env exchange delay (snd (processRetryableEvents sched env exchange delay w))))"

text \<open>Its result, once it has one, is the error of the context.\<close>

fun Processor_Start ::
  "(outbox_event list \<Rightarrow> outbox_event list) \<Rightarrow> env \<Rightarrow> string \<Rightarrow> (nat \<Rightarrow> int \<Rightarrow> duration) \<Rightarrow> error \<Rightarrow> wake list \<Rightarrow> world \<Rightarrow>
     error option \<times> world" where
  "Processor_Start sched env exchange delay ctx_err [] w = (None, w)"
| "Processor_Start sched env exchange delay ctx_err (CtxDone # ws) w = (Some ctx_err, w)"
| "Processor_Start sched env exchange delay ctx_err (TickerFired b # ws) w =
     Processor_Start sched env exchange delay ctx_err ws (processor_tick sched env exchange delay b w)"

section \<open>Contexts\<close>

datatype ctx_error = Canceled | DeadlineExceeded

text \<open>The error of a context derived from one whose error is given, before its own deadline and after.\<close>

definition WithTimeout :: "ctx_error option \<Rightarrow> bool \<Rightarrow> ctx_error option" where
  "WithTimeout parent expired =
     (case parent of Some e \<Rightarrow> Some e | None \<Rightarrow> if expired then Some DeadlineExceeded else None)"

section \<open>The web service\<close>

text \<open>
  The main goroutine waits, has received a signal and cancelled the context of the server, has closed
  the cache, has called \<open>Shutdown\<close> on the HTTP server and waits in it, has returned from it. The
  goroutine of the server is in \<open>ListenAndServe\<close> or has got its error, which it reports with
  \<open>Fatal\<close>; a third one waits for the end of the shutdown context. \<open>v_requests\<close> counts the requests
  that are being handled. With an exit status the process is gone.
\<close>

datatype main_pc = MWaiting | MCancelled | MCacheClosed | MShuttingDown | MCleaned

record service =
  v_main :: main_pc
  v_ctx :: "ctx_error option"  \<comment> \<open>of \<open>serverCtx\<close>\<close>
  v_listening :: bool
  v_served :: bool  \<comment> \<open>\<open>ListenAndServe\<close> has returned\<close>
  v_expired :: bool  \<comment> \<open>\<open>ShutdownTimeout\<close> is over\<close>
  v_requests :: nat
  v_drained :: bool  \<comment> \<open>\<open>Shutdown\<close> has returned without an error\<close>
  v_exit :: "nat option"

definition service_start :: service where
  "service_start =
     \<lparr>v_main = MWaiting, v_ctx = None, v_listening = True, v_served = False, v_expired = False, v_requests = 0,
      v_drained = False, v_exit = None\<rparr>"

definition shutdownCtx :: "service \<Rightarrow> ctx_error option" where
  "shutdownCtx s = WithTimeout (v_ctx s) (v_expired s)"

text \<open>
  \<open>ListenAndServe\<close> can fail by itself. \<open>Shutdown\<close> of \<open>net/http\<close> closes the listeners, which ends \<open>ListenAndServe\<close>, and returns when no request
  is being handled, or with the error of its context once that is done.
\<close>

inductive service_step :: "service \<Rightarrow> service \<Rightarrow> bool" where
  Accept: "v_exit s = None \<Longrightarrow> v_listening s \<Longrightarrow> service_step s (s\<lparr>v_requests := Suc (v_requests s)\<rparr>)"
| Answer: "v_exit s = None \<Longrightarrow> 0 < v_requests s \<Longrightarrow> service_step s (s\<lparr>v_requests := v_requests s - 1\<rparr>)"
| Signal: "v_exit s = None \<Longrightarrow> v_main s = MWaiting \<Longrightarrow> service_step s (s\<lparr>v_main := MCancelled, v_ctx := Some Canceled\<rparr>)"
| CloseCache: "v_exit s = None \<Longrightarrow> v_main s = MCancelled \<Longrightarrow> service_step s (s\<lparr>v_main := MCacheClosed\<rparr>)"
| Shutdown: "v_exit s = None \<Longrightarrow> v_main s = MCacheClosed \<Longrightarrow>
             service_step s (s\<lparr>v_main := MShuttingDown, v_listening := False\<rparr>)"
| Drained: "v_exit s = None \<Longrightarrow> v_main s = MShuttingDown \<Longrightarrow> v_requests s = 0 \<Longrightarrow>
            service_step s (s\<lparr>v_main := MCleaned, v_drained := True\<rparr>)"
| CutOff: "v_exit s = None \<Longrightarrow> v_main s = MShuttingDown \<Longrightarrow> shutdownCtx s \<noteq> None \<Longrightarrow>
           service_step s (s\<lparr>v_main := MCleaned\<rparr>)"
| Return: "v_exit s = None \<Longrightarrow> v_main s = MCleaned \<Longrightarrow> service_step s (s\<lparr>v_exit := Some 0\<rparr>)"
| ListenFails: "v_exit s = None \<Longrightarrow> v_listening s \<Longrightarrow> service_step s (s\<lparr>v_listening := False, v_served := True\<rparr>)"
| Served: "v_exit s = None \<Longrightarrow> \<not> v_listening s \<Longrightarrow> service_step s (s\<lparr>v_served := True\<rparr>)"
| Fatal: "v_exit s = None \<Longrightarrow> v_served s \<Longrightarrow> service_step s (s\<lparr>v_exit := Some 1\<rparr>)"
| Expire: "v_exit s = None \<Longrightarrow> service_step s (s\<lparr>v_expired := True\<rparr>)"
| ForceExit: "v_exit s = None \<Longrightarrow> v_main s \<in> {MCancelled, MCacheClosed, MShuttingDown, MCleaned} \<Longrightarrow>
              shutdownCtx s = Some DeadlineExceeded \<Longrightarrow> service_step s (s\<lparr>v_exit := Some 1\<rparr>)"

inductive_cases service_stepE: "service_step s s'"

section \<open>The processor keeps the tables\<close>

lemma PublishEvent_ok:
  assumes "outbox_table_ok w"
  shows "outbox_table_ok (snd (PublishEvent env ex d e w))"
proof -
  obtain r w' where "PublishEvent env ex d e w = (r, w')" by force
  then have steps: "((\<lambda>(pc, w). pub_step env ex d pc w) ^^ 3) (PubClaim e, w) = (PubDone r, w')"
    by (simp add: publish_by_steps)
  have "outbox_table_ok (snd (((\<lambda>(pc, w). pub_step env ex d pc w) ^^ n) (PubClaim e, w)))" for n
  proof (induction n)
    case (Suc n)
    then show ?case
      using pub_step_ok [OF _ prod.collapse [symmetric]] by (simp add: split_beta)
  qed (simp add: assms)
  from this [of 3] show ?thesis using steps \<open>PublishEvent env ex d e w = (r, w')\<close> by simp
qed

lemma publish_all_ok: "outbox_table_ok w \<Longrightarrow> outbox_table_ok (publish_all env ex d evs w)"
  unfolding publish_all_def by (induction evs arbitrary: w) (auto simp: PublishEvent_ok)

lemma ob_FindRetryable_state: "outbox_tab (snd (ob_FindRetryable env n w)) = outbox_tab w"
  by (auto simp: ob_FindRetryable_def ob_findByCriteria_def statement_def call_def
      split: outcome.splits prod.splits sum.splits)

lemma batch_ok:
  assumes "outbox_table_ok w"
  shows "outbox_table_ok (snd (processPendingEvents sched env ex d w))"
    "outbox_table_ok (snd (processRetryableEvents sched env ex d w))"
proof -
  have p: "outbox_table_ok (snd (ob_FindPending env BatchSize w))" and r: "outbox_table_ok (snd (ob_FindRetryable env BatchSize w))"
    using outbox_table_same [OF assms ob_FindPending_state(1)] outbox_table_same [OF assms ob_FindRetryable_state] by simp_all
  show "outbox_table_ok (snd (processPendingEvents sched env ex d w))"
    using p by (cases "ob_FindPending env BatchSize w") (auto simp: processPendingEvents_def publish_all_ok split: sum.split)
  show "outbox_table_ok (snd (processRetryableEvents sched env ex d w))"
    using r by (cases "ob_FindRetryable env BatchSize w") (auto simp: processRetryableEvents_def publish_all_ok split: sum.split)
qed

text \<open>Also: However long the processor runs, whatever fails and in whatever order its goroutines run, the
  outbox table stays consistent, and it ends only with the error of its context.\<close>

theorem processor_keeps_tables:
  assumes "Processor_Start sched env ex d e ws w = (r, w')" "outbox_table_ok w"
  shows "outbox_table_ok w' \<and> (r = Some e \<longleftrightarrow> CtxDone \<in> set ws) \<and> (r = None \<longleftrightarrow> CtxDone \<notin> set ws)"
  using assms
proof (induction ws arbitrary: w)
  case (Cons wk ws)
  show ?case
  proof (cases wk)
    case CtxDone
    with Cons.prems show ?thesis by auto
  next
    case (TickerFired b)
    have "outbox_table_ok (processor_tick sched env ex d b w)"
      using Cons.prems(2) by (simp add: processor_tick_def batch_ok)
    with Cons TickerFired show ?thesis by simp
  qed
qed simp

theorem processor_keeps_tables_witness:
  "outbox_table_ok (snd (Processor_Start id sample_env ''e'' (\<lambda>_ _. 0) (ErrText ''context canceled'')
     [TickerFired True, CtxDone] sample_outbox))"
  using processor_keeps_tables [OF prod.collapse [symmetric] sample_outbox_ok] by blast

section \<open>How the service stops\<close>

abbreviation service_reach :: "service \<Rightarrow> bool" where
  "service_reach \<equiv> service_step\<^sup>*\<^sup>* service_start"

definition service_ok :: "service \<Rightarrow> bool" where
  "service_ok s \<longleftrightarrow> v_ctx s = (if v_main s = MWaiting then None else Some Canceled) \<and>
     (v_main s \<in> {MShuttingDown, MCleaned} \<longrightarrow> \<not> v_listening s) \<and> (v_main s \<noteq> MCleaned \<longrightarrow> \<not> v_drained s) \<and>
     (v_drained s \<longrightarrow> v_requests s = 0) \<and> (v_served s \<longrightarrow> \<not> v_listening s) \<and>
     (v_exit s = Some 0 \<longrightarrow> v_main s = MCleaned) \<and> (v_exit s \<noteq> None \<longrightarrow> \<not> v_listening s)"

lemma service_ok_step: "service_step s s' \<Longrightarrow> service_ok s \<Longrightarrow> service_ok s'"
  by (induction rule: service_step.induct) (auto simp: service_ok_def shutdownCtx_def WithTimeout_def split: if_splits)

lemma service_start_ok: "service_ok service_start"
  by (simp add: service_ok_def service_start_def)

interpretation service_run: step_invariant service_step service_start service_ok
  by unfold_locales (simp_all add: service_start_ok service_ok_step)

lemmas service_reach_ok = service_run.reached

text \<open>C40: The grace period does not exist. The context of the shutdown is derived from one that has been
  cancelled before: from the first signal on its error is \<open>Canceled\<close>, so \<open>Shutdown\<close> may return at
  once with requests still being handled, and the forced exit after the timeout never happens.\<close>

theorem no_grace_period:
  assumes "service_reach s"
  shows "(v_main s \<noteq> MWaiting \<longrightarrow> shutdownCtx s = Some Canceled) \<and>
    (v_main s = MShuttingDown \<and> v_exit s = None \<longrightarrow>
       (\<exists>s'. service_step\<^sup>*\<^sup>* s s' \<and> v_exit s' = Some 0 \<and> v_requests s' = v_requests s \<and> \<not> v_drained s'))"
proof -
  have ok: "service_ok s" by (rule service_reach_ok [OF assms])
  have c: "shutdownCtx s = Some Canceled" if "v_main s \<noteq> MWaiting"
    using ok that by (simp add: service_ok_def shutdownCtx_def WithTimeout_def)
  moreover have "\<exists>s'. service_step\<^sup>*\<^sup>* s s' \<and> v_exit s' = Some 0 \<and> v_requests s' = v_requests s \<and> \<not> v_drained s'"
    if s: "v_main s = MShuttingDown" "v_exit s = None"
  proof -
    have "service_step s (s\<lparr>v_main := MCleaned\<rparr>)" using service_step.CutOff [of s] s c by simp
    moreover have "service_step (s\<lparr>v_main := MCleaned\<rparr>) (s\<lparr>v_main := MCleaned, v_exit := Some 0\<rparr>)"
      using service_step.Return [of "s\<lparr>v_main := MCleaned\<rparr>"] s by simp
    ultimately have "service_step\<^sup>*\<^sup>* s (s\<lparr>v_main := MCleaned, v_exit := Some 0\<rparr>)" by simp
    moreover have "\<not> v_drained s" using ok s by (simp add: service_ok_def)
    ultimately show ?thesis by (intro exI [of _ "s\<lparr>v_main := MCleaned, v_exit := Some 0\<rparr>"]) simp
  qed
  ultimately show ?thesis by blast
qed

text \<open>Also: A clean shutdown can end with status 1. Closing the listeners makes \<open>ListenAndServe\<close> return, and
  what it returns is reported as fatal; so even when no request is being handled, the process can be
  gone with status 1 before the main goroutine has returned.\<close>

theorem clean_shutdown_fatal:
  "\<exists>s s'. service_reach s \<and> v_main s = MShuttingDown \<and> v_requests s = 0 \<and> v_exit s = None \<and>
     service_step\<^sup>*\<^sup>* s s' \<and> v_exit s' = Some 1"
proof -
  let ?s1 = "service_start\<lparr>v_main := MCancelled, v_ctx := Some Canceled\<rparr>"
  let ?s2 = "?s1\<lparr>v_main := MCacheClosed\<rparr>" and ?s3 = "?s1\<lparr>v_main := MShuttingDown, v_listening := False\<rparr>"
  have "service_step service_start ?s1" using service_step.Signal [of service_start] by (simp add: service_start_def)
  moreover have "service_step ?s1 ?s2" using service_step.CloseCache [of ?s1] by (simp add: service_start_def)
  moreover have "service_step ?s2 ?s3" using service_step.Shutdown [of ?s2] by (simp add: service_start_def)
  ultimately have "service_reach ?s3" by (meson converse_rtranclp_into_rtranclp rtranclp.rtrancl_refl)
  moreover have "service_step ?s3 (?s3\<lparr>v_served := True\<rparr>)" using service_step.Served [of ?s3] by (simp add: service_start_def)
  moreover have "service_step (?s3\<lparr>v_served := True\<rparr>) (?s3\<lparr>v_served := True, v_exit := Some 1\<rparr>)"
    using service_step.Fatal [of "?s3\<lparr>v_served := True\<rparr>"] by (simp add: service_start_def)
  ultimately show ?thesis
    by (intro exI [of _ ?s3] exI [of _ "?s3\<lparr>v_served := True, v_exit := Some 1\<rparr>"])
       (auto simp: service_start_def intro: converse_rtranclp_into_rtranclp)
qed

text \<open>Also: The process never exits while it still listens, and when \<open>Shutdown\<close> has returned without an error
  no request is being handled and none will be.\<close>

theorem exit_after_listening:
  assumes "service_reach s"
  shows "(v_exit s \<noteq> None \<longrightarrow> \<not> v_listening s) \<and> (v_drained s \<longrightarrow> v_requests s = 0 \<and> \<not> v_listening s)"
proof -
  have "service_ok s" by (rule service_reach_ok [OF assms])
  then show ?thesis by (cases "v_main s") (auto simp: service_ok_def)
qed

theorem no_grace_period_witness:
  "\<exists>s. service_reach s \<and> v_requests s = 1 \<and> v_main s = MShuttingDown \<and>
     (\<exists>s'. service_step\<^sup>*\<^sup>* s s' \<and> v_exit s' = Some 0 \<and> v_requests s' = 1)"
proof -
  let ?s0 = "service_start\<lparr>v_requests := 1\<rparr>"
  let ?s1 = "?s0\<lparr>v_main := MCancelled, v_ctx := Some Canceled\<rparr>"
  let ?s2 = "?s1\<lparr>v_main := MCacheClosed\<rparr>" and ?s3 = "?s1\<lparr>v_main := MShuttingDown, v_listening := False\<rparr>"
  have "service_step service_start ?s0" using service_step.Accept [of service_start] by (simp add: service_start_def)
  moreover have "service_step ?s0 ?s1" using service_step.Signal [of ?s0] by (simp add: service_start_def)
  moreover have "service_step ?s1 ?s2" using service_step.CloseCache [of ?s1] by (simp add: service_start_def)
  moreover have "service_step ?s2 ?s3" using service_step.Shutdown [of ?s2] by (simp add: service_start_def)
  ultimately have r: "service_reach ?s3" by (meson converse_rtranclp_into_rtranclp rtranclp.rtrancl_refl)
  then show ?thesis
    using no_grace_period [OF r] by (intro exI [of _ ?s3]) (auto simp: service_start_def)
qed

theorem exit_after_listening_witness: "service_reach service_start \<and> v_exit service_start = None"
  using exit_after_listening [of service_start] by (simp add: service_start_def)

end
