(* ===== verification/Wiring.thy ===== *)
theory Wiring
  imports Application Worker Config_Loader Telemetry
begin

text \<open>
  How the three programs are put together: \<open>internal/runtime/deps.go\<close> and \<open>dependency_options.go\<close>, with
  \<open>internal/infrastructure/storage.go\<close>, \<open>metrics.go\<close> and \<open>tracing.go\<close> as far as they make the clients.
  The clients themselves belong to libraries: whether each can be made is a parameter. An option changes
  the dependencies, or fails with an error that ends the start; the value \<open>None\<close> is a panic or a
  \<open>Fatal\<close>. What a missing cache client means for the service and for the subscriber is at the end.
\<close>

section \<open>Libraries and settings\<close>

record libraries =
  lib_ConfigureTLS :: "unit result"
  lib_NewVaultClient :: "string \<Rightarrow> duration \<Rightarrow> unit result"
  lib_sql_Open :: "string \<Rightarrow> unit result"
  lib_db_Ping :: "unit result"
  lib_cache_Ping :: "unit result"
  lib_grpc_NewClient :: "string \<Rightarrow> unit result"
  lib_metric_exporter :: "unit result"
  lib_resource :: "unit result"
  lib_instrument :: "string \<Rightarrow> instrument_kind \<Rightarrow> unit result"
  lib_trace_exporter :: "unit result"
  lib_stdout_exporter :: "unit result"
  lib_Hostname :: "string result"
  lib_GetSwagger :: "unit result"

text \<open>The settings that the options read, beside those that the configuration loader can change.\<close>

record settings =
  st_vault_Address :: string
  st_vault_Timeout :: duration
  st_TLSSkipVerify :: bool
  st_storage_Port :: int
  st_SSLMode :: string
  st_metrics_Enabled :: bool
  st_traces_Enabled :: bool
  st_ExporterType :: string
  st_OtelGRPCHost :: string
  st_OtelGRPCPort :: string
  st_ExchangeName :: string
  st_RoutingKey :: string
  st_QueueName :: string
  st_http_Host :: string
  st_http_Port :: int

definition wrap :: "string \<Rightarrow> 'a result \<Rightarrow> 'a result" where
  "wrap t r = (case r of Inl e \<Rightarrow> Inl (ErrWrap t e) | Inr x \<Rightarrow> Inr x)"

lemma wrap_simps [simp]: "wrap t (Inl e) = Inl (ErrWrap t e)" "wrap t (Inr x) = Inr x"
  by (simp_all add: wrap_def)

section \<open>The clients\<close>

definition storage_dsn :: "settings \<Rightarrow> service_config \<Rightarrow> string" where
  "storage_dsn st c =
     ''host='' @ storage_Host c @ '' port='' @ itoa (st_storage_Port st) @ '' user='' @ storage_Username c @
     '' password='' @ storage_Password c @ '' dbname='' @ storage_Database c @ '' sslmode='' @ st_SSLMode st"

definition NewStorage :: "libraries \<Rightarrow> string \<Rightarrow> string result" where
  "NewStorage lib dsn =
     bind_result (wrap ''failed to open database connection'' (lib_sql_Open lib dsn)) (\<lambda>_.
     bind_result (wrap ''failed to ping database'' (lib_db_Ping lib)) (\<lambda>_. Inr dsn))"

datatype metrics_client = NoOpMetrics | OTELMetrics "string list"  \<comment> \<open>its instruments\<close>

definition NewOTELMetrics :: "libraries \<Rightarrow> settings \<Rightarrow> metrics_client result" where
  "NewOTELMetrics lib st =
     bind_result (wrap ''failed to create gRPC connection to OTEL collector''
       (lib_grpc_NewClient lib (st_OtelGRPCHost st @ '':'' @ st_OtelGRPCPort st))) (\<lambda>_.
     bind_result (wrap ''failed to create OTLP metric exporter'' (lib_metric_exporter lib)) (\<lambda>_.
     bind_result (wrap ''failed to create resource'' (lib_resource lib)) (\<lambda>_.
       (case initializeMetrics (lib_instrument lib) of
          (Inl e, _) \<Rightarrow> Inl (ErrWrap ''failed to initialize metrics'' e)
        | (Inr _, made) \<Rightarrow> Inr (OTELMetrics made)))))"

definition NewMetrics :: "libraries \<Rightarrow> settings \<Rightarrow> metrics_client result" where
  "NewMetrics lib st = (if \<not> st_metrics_Enabled st then Inr NoOpMetrics else NewOTELMetrics lib st)"

text \<open>An IPv6 address goes into brackets.\<close>

definition JoinHostPort :: "string \<Rightarrow> string \<Rightarrow> string" where
  "JoinHostPort host port = (if CHR '':'' \<in> set host then ''['' @ host @ '']:'' @ port else host @ '':'' @ port)"

datatype span_exporter = GRPCExporter | StdOutExporter

definition createGRPCExporter :: "libraries \<Rightarrow> settings \<Rightarrow> span_exporter result" where
  "createGRPCExporter lib st =
     bind_result (wrap ''failed to create a gRPC client connection to collector''
       (lib_grpc_NewClient lib (JoinHostPort (st_OtelGRPCHost st) (st_OtelGRPCPort st)))) (\<lambda>_.
     bind_result (wrap ''failed to create a gRPC trace exporter'' (lib_trace_exporter lib)) (\<lambda>_. Inr GRPCExporter))"

definition createStdOutExporter :: "libraries \<Rightarrow> span_exporter result" where
  "createStdOutExporter lib =
     bind_result (wrap ''failed to create an StdOut trace exporter'' (lib_stdout_exporter lib)) (\<lambda>_. Inr StdOutExporter)"

text \<open>The name of the type is quoted as \<open>%q\<close> does for printable text without quotes and backslashes.\<close>

definition createExporter :: "libraries \<Rightarrow> settings \<Rightarrow> span_exporter result" where
  "createExporter lib st =
     (if to_lower (st_ExporterType st) = ''grpc'' then wrap ''failed to create gRPC exporter'' (createGRPCExporter lib st)
      else if to_lower (st_ExporterType st) = ''stdout'' then
        wrap ''failed to create StdOut exporter'' (createStdOutExporter lib)
      else Inl (ErrText (''unsupported exporer type '' @ [CHR 0x22] @ st_ExporterType st @ [CHR 0x22])))"

definition InitGlobalTracer :: "libraries \<Rightarrow> settings \<Rightarrow> span_exporter result" where
  "InitGlobalTracer lib st =
     bind_result (wrap ''failed to create trace exporter'' (createExporter lib st)) (\<lambda>x.
     bind_result (wrap ''failed to get host name'' (lib_Hostname lib)) (\<lambda>_. Inr x))"

section \<open>Dependencies and options\<close>

text \<open>
  A pointer or interface that may be \<open>nil\<close> is an option or a flag. The cache repository and the
  repository of the secret storage keep the client that they were made with, which may be missing.
  \<open>cfg\<close> is shared with the loader. A server, a processor or a worker keeps what the dependencies held
  when it was made; the queue client is shared by reference.
\<close>

record web_service =
  ws_AnalysisRepo :: bool
  ws_OutboxRepo :: bool
  ws_CacheRepo :: "bool option"
  ws_db :: string
  ws_SecretStorageRepo :: "bool option"
  ws_Metrics :: "metrics_client option"
  ws_Addr :: string

record outbox_processor =
  op_OutboxRepo :: bool
  op_Metrics :: "metrics_client option"

record domain_services =
  ds_Metrics :: "metrics_client option"  \<comment> \<open>of the link checker\<close>

record analysis_worker =
  aw_AnalysisRepo :: bool
  aw_OutboxRepo :: bool
  aw_CacheRepo :: "bool option"
  aw_DomainServices :: "domain_services option"
  aw_Metrics :: "metrics_client option"

record dependencies =
  d_cfg :: service_config
  d_environ :: "string \<rightharpoonup> string"
  d_configLoader :: "loader option"
  d_secretVersion :: int
  d_SecretStorageClient :: bool
  d_SecretStorageRepo :: "bool option"
  d_StorageClient :: "string option"
  d_CacheClient :: bool
  d_AnalysisRepo :: bool
  d_OutboxRepo :: bool
  d_CacheRepo :: "bool option"
  d_Metrics :: "metrics_client option"
  d_tracerShutdown :: bool
  d_DomainServices :: "domain_services option"
  d_HTTPServer :: "web_service option"
  d_QueueClient :: "rabbit option"
  d_OutboxProcessor :: "outbox_processor option"
  d_AnalysisWorker :: "analysis_worker option"

type_synonym dependency_option = "dependencies \<Rightarrow> world \<Rightarrow> (unit result \<times> dependencies \<times> world) option"

definition fail_or :: "'a result \<Rightarrow> ('a \<Rightarrow> dependencies) \<Rightarrow> dependency_option" where
  "fail_or r f d w = Some (case r of Inl e \<Rightarrow> (Inl e, d, w) | Inr x \<Rightarrow> (Inr (), f x, w))"

definition WithSecretStorage :: "libraries \<Rightarrow> settings \<Rightarrow> dependency_option" where
  "WithSecretStorage lib st d =
     fail_or (bind_result (if st_TLSSkipVerify st then wrap ''failed to configure TLS'' (lib_ConfigureTLS lib) else Inr ())
                (\<lambda>_. wrap ''failed to create Vault client'' (lib_NewVaultClient lib (st_vault_Address st) (st_vault_Timeout st))))
       (\<lambda>_. d\<lparr>d_SecretStorageClient := True\<rparr>) d"

definition WithSecretStorageRepo :: dependency_option where
  "WithSecretStorageRepo d w = Some (Inr (), d\<lparr>d_SecretStorageRepo := Some (d_SecretStorageClient d)\<rparr>, w)"

definition WithConfigLoader :: "vault \<Rightarrow> dependency_option" where
  "WithConfigLoader v d w =
     (let l = NewLoader (d_cfg d) (d_environ d) (d_secretVersion d)
      in if \<not> Enabled (SecretStorage (d_cfg d)) then Some (Inr (), d\<lparr>d_configLoader := Some l\<rparr>, w)
         else if d_SecretStorageRepo d \<noteq> Some True then None
         else (case Load v l of
                 None \<Rightarrow> None
               | Some (r, l') \<Rightarrow>
                   (let d' = d\<lparr>d_configLoader := Some l', d_cfg := cfg l', d_environ := environ l'\<rparr>
                    in case r of
                         Inl e \<Rightarrow> Some (Inl (ErrWrap ''unable to load service configuration'' e), d', w)
                       | Inr version \<Rightarrow> Some (Inr (), d'\<lparr>d_secretVersion := version\<rparr>, w))))"

definition WithStorage :: "libraries \<Rightarrow> settings \<Rightarrow> dependency_option" where
  "WithStorage lib st d =
     fail_or (wrap ''failed to initialize storage'' (NewStorage lib (storage_dsn st (d_cfg d))))
       (\<lambda>db. d\<lparr>d_StorageClient := Some db\<rparr>) d"

definition WithCache :: "libraries \<Rightarrow> dependency_option" where
  "WithCache lib d w =
     Some (Inr (), d\<lparr>d_CacheClient := (case lib_cache_Ping lib of Inl _ \<Rightarrow> False | Inr _ \<Rightarrow> True)\<rparr>, w)"

definition WithDataRepos :: dependency_option where
  "WithDataRepos d w =
     map_option (\<lambda>_. (Inr (), d\<lparr>d_AnalysisRepo := True, d_OutboxRepo := True, d_CacheRepo := Some (d_CacheClient d)\<rparr>, w))
       (d_StorageClient d)"

definition WithMetrics :: "libraries \<Rightarrow> settings \<Rightarrow> dependency_option" where
  "WithMetrics lib st d =
     fail_or (wrap ''failed to initialize metrics'' (NewMetrics lib st)) (\<lambda>m. d\<lparr>d_Metrics := Some m\<rparr>) d"

definition WithTracing :: "libraries \<Rightarrow> settings \<Rightarrow> dependency_option" where
  "WithTracing lib st d =
     fail_or (if st_traces_Enabled st then map_sum id (\<lambda>_. ()) (InitGlobalTracer lib st) else Inr ())
       (\<lambda>_. d\<lparr>d_tracerShutdown := True\<rparr>) d"

definition WithDomainServices :: dependency_option where
  "WithDomainServices d w = Some (Inr (), d\<lparr>d_DomainServices := Some \<lparr>ds_Metrics = d_Metrics d\<rparr>\<rparr>, w)"

definition web_service_of :: "settings \<Rightarrow> dependencies \<Rightarrow> string \<Rightarrow> web_service" where
  "web_service_of st d db =
     \<lparr>ws_AnalysisRepo = d_AnalysisRepo d, ws_OutboxRepo = d_OutboxRepo d, ws_CacheRepo = d_CacheRepo d, ws_db = db,
      ws_SecretStorageRepo = d_SecretStorageRepo d, ws_Metrics = d_Metrics d,
      ws_Addr = JoinHostPort (st_http_Host st) (itoa (st_http_Port st))\<rparr>"

definition WithHTTPServer :: "libraries \<Rightarrow> settings \<Rightarrow> dependency_option" where
  "WithHTTPServer lib st d w =
     (case (d_StorageClient d, lib_GetSwagger lib) of
        (Some db, Inr _) \<Rightarrow> Some (Inr (), d\<lparr>d_HTTPServer := Some (web_service_of st d db)\<rparr>, w)
      | _ \<Rightarrow> None)"

definition WithQueue :: "env \<Rightarrow> dependency_option" where
  "WithQueue env d w =
     (case Connect env NewRabbitMQQueue w of
        (Inl e, _, w1) \<Rightarrow> Some (Inl (ErrWrap ''failed to connect to queue'' e), d, w1)
      | (Inr _, q, w1) \<Rightarrow> Some (Inr (), d\<lparr>d_QueueClient := Some q\<rparr>, w1))"

text \<open>A request to the broker on the queue client, with the context of its error.\<close>

definition on_queue ::
  "string \<Rightarrow> (rabbit \<Rightarrow> world \<Rightarrow> (unit result \<times> rabbit \<times> world) option) \<Rightarrow> dependency_option" where
  "on_queue what f d w =
     Option.bind (d_QueueClient d) (\<lambda>q.
       map_option (\<lambda>(r, q', w1). (wrap what r, d\<lparr>d_QueueClient := Some q'\<rparr>, w1)) (f q w))"

definition and_then :: "dependency_option \<Rightarrow> dependency_option \<Rightarrow> dependency_option" where
  "and_then f g d w =
     (case f d w of
        None \<Rightarrow> None
      | Some (Inl e, d1, w1) \<Rightarrow> Some (Inl e, d1, w1)
      | Some (Inr _, d1, w1) \<Rightarrow> g d1 w1)"

definition WithPublisher :: "env \<Rightarrow> settings \<Rightarrow> dependency_option" where
  "WithPublisher env st =
     and_then (WithQueue env)
     (and_then (on_queue ''failed to declare exchange'' (DeclareExchange env (st_ExchangeName st) ''topic'' True False))
     (and_then (on_queue ''failed to declare queue'' (DeclareQueue env (st_QueueName st) True False))
     (and_then (on_queue ''failed to bind queue'' (BindQueue env (st_QueueName st) (st_RoutingKey st) (st_ExchangeName st)))
       (\<lambda>d w. Some (Inr (), d\<lparr>d_OutboxProcessor := Some \<lparr>op_OutboxRepo = d_OutboxRepo d, op_Metrics = d_Metrics d\<rparr>\<rparr>, w)))))"

definition analysis_worker_of :: "dependencies \<Rightarrow> analysis_worker" where
  "analysis_worker_of d =
     \<lparr>aw_AnalysisRepo = d_AnalysisRepo d, aw_OutboxRepo = d_OutboxRepo d, aw_CacheRepo = d_CacheRepo d,
      aw_DomainServices = d_DomainServices d, aw_Metrics = d_Metrics d\<rparr>"

definition WithSubscriber :: "env \<Rightarrow> dependency_option" where
  "WithSubscriber env =
     and_then (WithQueue env) (\<lambda>d w. Some (Inr (), d\<lparr>d_AnalysisWorker := Some (analysis_worker_of d)\<rparr>, w))"

definition defaultOptions :: "libraries \<Rightarrow> vault \<Rightarrow> settings \<Rightarrow> dependency_option list" where
  "defaultOptions lib v st =
     [WithSecretStorage lib st, WithSecretStorageRepo, WithConfigLoader v, WithStorage lib st, WithCache lib,
      WithDataRepos, WithMetrics lib st, WithTracing lib st, WithDomainServices]"

fun apply_options :: "dependency_option list \<Rightarrow> dependency_option" where
  "apply_options [] d w = Some (Inr (), d, w)"
| "apply_options (opt # opts) d w =
     (case opt d w of
        None \<Rightarrow> None
      | Some (Inl e, d1, w1) \<Rightarrow> Some (Inl (ErrWrap ''failed to apply dependency option'' e), d1, w1)
      | Some (Inr _, d1, w1) \<Rightarrow> apply_options opts d1 w1)"

definition no_dependencies :: "service_config \<Rightarrow> (string \<rightharpoonup> string) \<Rightarrow> dependencies" where
  "no_dependencies c env_vars =
     \<lparr>d_cfg = c, d_environ = env_vars, d_configLoader = None, d_secretVersion = 0, d_SecretStorageClient = False,
      d_SecretStorageRepo = None, d_StorageClient = None, d_CacheClient = False, d_AnalysisRepo = False,
      d_OutboxRepo = False, d_CacheRepo = None, d_Metrics = None, d_tracerShutdown = False, d_DomainServices = None,
      d_HTTPServer = None, d_QueueClient = None, d_OutboxProcessor = None, d_AnalysisWorker = None\<rparr>"

text \<open>The configuration that \<open>config.Init\<close> reads from the environment is an argument, as its result.\<close>

definition initializeDependencies ::
  "libraries \<Rightarrow> vault \<Rightarrow> settings \<Rightarrow> service_config result \<Rightarrow> (string \<rightharpoonup> string) \<Rightarrow> dependency_option list \<Rightarrow> world \<Rightarrow>
     (dependencies result \<times> world) option" where
  "initializeDependencies lib v st init env_vars opts w =
     (case init of
        Inl e \<Rightarrow> Some (Inl (ErrWrap ''unable to load service configuration'' e), w)
      | Inr c \<Rightarrow>
          (case apply_options (defaultOptions lib v st @ opts) (no_dependencies c env_vars) w of
             None \<Rightarrow> None
           | Some (Inl e, _, w1) \<Rightarrow> Some (Inl e, w1)
           | Some (Inr _, d, w1) \<Rightarrow> Some (Inr d, w1)))"

section \<open>Services on what was wired\<close>

text \<open>
  A method of the cache repository of the dependencies: it panics when there is no repository, and
  when the repository has no client, whose fields are read through a \<open>nil\<close> pointer. The interface
  that holds such a repository is itself not \<open>nil\<close>. The second component is the state at the panic.
\<close>

definition on_cache :: "bool option \<Rightarrow> (world \<Rightarrow> 'a \<times> world) \<Rightarrow> world \<Rightarrow> 'a option \<times> world" where
  "on_cache repo f w = (if repo = Some True then (case f w of (r, w1) \<Rightarrow> (Some r, w1)) else (None, w))"

definition wired_StartAnalysis ::
  "bool option \<Rightarrow> env \<Rightarrow> max_retries_by_priority \<Rightarrow> duration \<Rightarrow> string \<Rightarrow> analysis_options \<Rightarrow> world \<Rightarrow>
     analysis result option \<times> world" where
  "wired_StartAnalysis repo env mx DefaultExpiry url options w =
     (case in_tx env (start_body env mx url options) w of
        (Inl e, w1) \<Rightarrow> (Some (Inl e), w1)
      | (Inr a, w1) \<Rightarrow>
          (case on_cache repo (cache_Set env DefaultExpiry a) w1 of
             (None, w2) \<Rightarrow> (None, w2)
           | (Some _, w2) \<Rightarrow> (Some (Inr a), w2)))"

definition wired_FetchAnalysis ::
  "bool option \<Rightarrow> env \<Rightarrow> duration \<Rightarrow> uuid \<Rightarrow> world \<Rightarrow> analysis result option \<times> world" where
  "wired_FetchAnalysis repo env DefaultExpiry i w =
     (case on_cache repo (cache_Find env i) w of
        (None, w1) \<Rightarrow> (None, w1)
      | (Some (Inr a), w1) \<Rightarrow> (Some (Inr a), w1)
      | (Some (Inl _), w1) \<Rightarrow>
          (case an_Find env i w1 of
             (Inl e, w2) \<Rightarrow> (Some (Inl (ErrWrap ''failed to find analysis'' e)), w2)
           | (Inr a, w2) \<Rightarrow>
               (case on_cache repo (cache_Set env DefaultExpiry a) w2 of
                  (None, w3) \<Rightarrow> (None, w3)
                | (Some _, w3) \<Rightarrow> (Some (Inr a), w3))))"

text \<open>
  The subscriber tests its repository for \<open>nil\<close>. What it uses the repository for first comes when the
  analysis has been set to in progress; up to there it does what it does without a cache.
\<close>

definition wired_ports :: "bool option \<Rightarrow> duration \<Rightarrow> ports \<Rightarrow> ports" where
  "wired_ports repo DefaultExpiry P = P\<lparr>port_cache := (if repo = Some True then Some DefaultExpiry else None)\<rparr>"

definition wired_ProcessAnalysisRequest ::
  "bool option \<Rightarrow> duration \<Rightarrow> env \<Rightarrow> ports \<Rightarrow> request_payload \<Rightarrow> world \<Rightarrow> process_result option \<times> world" where
  "wired_ProcessAnalysisRequest repo DefaultExpiry env P p w =
     (if repo = Some False
      then (case process_begin env (wired_ports repo DefaultExpiry P) (rp_analysis_id p) w of
              (Inl r, w1) \<Rightarrow> (Some r, w1)
            | (Inr _, w1) \<Rightarrow> (None, w1))
      else (case ProcessAnalysisRequest env (wired_ports repo DefaultExpiry P) p w of (r, w1) \<Rightarrow> (Some r, w1)))"

definition wired_ProcessMessage ::
  "bool option \<Rightarrow> duration \<Rightarrow> env \<Rightarrow> ports \<Rightarrow> msg \<Rightarrow> world \<Rightarrow> unit result option \<times> world" where
  "wired_ProcessMessage repo DefaultExpiry env P m w =
     (case Unmarshal dec_payload m of
        Inl _ \<Rightarrow> (case ctrl_Reject env m w of (r, w1) \<Rightarrow> (Some r, w1))
      | Inr payload \<Rightarrow>
          (case wired_ProcessAnalysisRequest repo DefaultExpiry env P payload w of
             (None, w1) \<Rightarrow> (None, w1)
           | (Some _, w1) \<Rightarrow> (case ctrl_Ack env m w1 of (r, w2) \<Rightarrow> (Some r, w2))))"

section \<open>What a start makes\<close>

definition loaded :: "vault \<Rightarrow> service_config \<Rightarrow> (string \<rightharpoonup> string) \<Rightarrow> (int result \<times> loader) option" where
  "loaded v c env_vars =
     (if Enabled (SecretStorage c) then Load v (NewLoader c env_vars 0) else Some (Inr 0, NewLoader c env_vars 0))"

definition ready :: "libraries \<Rightarrow> settings \<Rightarrow> loader \<Rightarrow> int \<Rightarrow> metrics_client \<Rightarrow> dependencies" where
  "ready lib st l version m =
     (let cache = (\<exists>u. lib_cache_Ping lib = Inr u)
      in \<lparr>d_cfg = cfg l, d_environ = environ l, d_configLoader = Some l, d_secretVersion = version,
          d_SecretStorageClient = True, d_SecretStorageRepo = Some True,
          d_StorageClient = Some (storage_dsn st (cfg l)), d_CacheClient = cache, d_AnalysisRepo = True,
          d_OutboxRepo = True, d_CacheRepo = Some cache, d_Metrics = Some m, d_tracerShutdown = True,
          d_DomainServices = Some \<lparr>ds_Metrics = Some m\<rparr>, d_HTTPServer = None, d_QueueClient = None,
          d_OutboxProcessor = None, d_AnalysisWorker = None\<rparr>)"

lemmas option_defs = WithSecretStorage_def WithSecretStorageRepo_def WithConfigLoader_def WithStorage_def WithCache_def
  WithDataRepos_def WithMetrics_def WithTracing_def WithDomainServices_def

lemma NewStorage_Inr: "NewStorage lib dsn = Inr db \<Longrightarrow> db = dsn"
  by (auto simp: NewStorage_def bind_result_def wrap_def split: sum.splits)

lemma apply_options_Some:
  "apply_options (f # fs) d w = Some (Inr u, d', w') \<longleftrightarrow>
     (\<exists>x d1 w1. f d w = Some (Inr x, d1, w1) \<and> apply_options fs d1 w1 = Some (Inr u, d', w'))"
  by (auto split: option.splits sum.splits)

lemma fail_or_Some: "fail_or r f d w = Some (Inr u, d', w') \<longleftrightarrow> (\<exists>x. r = Inr x \<and> d' = f x \<and> w' = w)"
  by (auto simp: fail_or_def split: sum.splits)

lemma wrap_Inr: "wrap t r = Inr x \<longleftrightarrow> r = Inr x"
  by (cases r) simp_all

lemma WithConfigLoader_ok:
  assumes "WithConfigLoader v d w = Some (Inr u, d', w')" "d_secretVersion d = 0"
  shows "\<exists>ver l. loaded v (d_cfg d) (d_environ d) = Some (Inr ver, l) \<and> w' = w \<and>
    d' = d\<lparr>d_configLoader := Some l, d_cfg := cfg l, d_environ := environ l, d_secretVersion := ver\<rparr>"
  using assms by (auto simp: WithConfigLoader_def loaded_def Let_def NewLoader_def split: if_splits option.splits prod.splits sum.splits)

lemma apply_options_append:
  "apply_options (fs @ gs) d w = Some (Inr u, d', w') \<longleftrightarrow>
     (\<exists>d1 w1. apply_options fs d w = Some (Inr (), d1, w1) \<and> apply_options gs d1 w1 = Some (Inr u, d', w'))"
  by (induction fs arbitrary: d w) (auto split: option.split sum.split prod.split)

lemma option_ok:
  "WithSecretStorage lib st d w = Some (Inr u, d', w') \<Longrightarrow> d' = d\<lparr>d_SecretStorageClient := True\<rparr> \<and> w' = w"
  "WithSecretStorageRepo d w = Some (Inr u, d', w') \<Longrightarrow> d' = d\<lparr>d_SecretStorageRepo := Some (d_SecretStorageClient d)\<rparr> \<and> w' = w"
  "WithStorage lib st d w = Some (Inr u, d', w') \<Longrightarrow> d' = d\<lparr>d_StorageClient := Some (storage_dsn st (d_cfg d))\<rparr> \<and> w' = w"
  "WithCache lib d w = Some (Inr u, d', w') \<Longrightarrow> d' = d\<lparr>d_CacheClient := (\<exists>u. lib_cache_Ping lib = Inr u)\<rparr> \<and> w' = w"
  "WithDataRepos d w = Some (Inr u, d', w') \<Longrightarrow>
     d' = d\<lparr>d_AnalysisRepo := True, d_OutboxRepo := True, d_CacheRepo := Some (d_CacheClient d)\<rparr> \<and> w' = w"
  "WithMetrics lib st d w = Some (Inr u, d', w') \<Longrightarrow> \<exists>m. NewMetrics lib st = Inr m \<and> d' = d\<lparr>d_Metrics := Some m\<rparr> \<and> w' = w"
  "WithTracing lib st d w = Some (Inr u, d', w') \<Longrightarrow> d' = d\<lparr>d_tracerShutdown := True\<rparr> \<and> w' = w"
  "WithDomainServices d w = Some (Inr u, d', w') \<Longrightarrow> d' = d\<lparr>d_DomainServices := Some \<lparr>ds_Metrics = d_Metrics d\<rparr>\<rparr> \<and> w' = w"
  by (auto simp: option_defs fail_or_Some wrap_Inr NewStorage_Inr split: sum.splits)

lemma default_options_run:
  assumes "apply_options (defaultOptions lib v st) (no_dependencies c vars) w = Some (Inr u, d', w')"
  shows "\<exists>l ver m. loaded v c vars = Some (Inr ver, l) \<and> NewMetrics lib st = Inr m \<and> d' = ready lib st l ver m \<and> w' = w"
proof -
  let ?d2 = "(no_dependencies c vars)\<lparr>d_SecretStorageClient := True, d_SecretStorageRepo := Some True\<rparr>"
  from assms obtain d1 d2 d3 d4 d5 d6 d7 d8 w1 w2 w3 w4 w5 w6 w7 w8 where
    o1: "WithSecretStorage lib st (no_dependencies c vars) w = Some (Inr (), d1, w1)" and
    o2: "WithSecretStorageRepo d1 w1 = Some (Inr (), d2, w2)" and
    o3: "WithConfigLoader v d2 w2 = Some (Inr (), d3, w3)" and
    o4: "WithStorage lib st d3 w3 = Some (Inr (), d4, w4)" and o5: "WithCache lib d4 w4 = Some (Inr (), d5, w5)" and
    o6: "WithDataRepos d5 w5 = Some (Inr (), d6, w6)" and o7: "WithMetrics lib st d6 w6 = Some (Inr (), d7, w7)" and
    o8: "WithTracing lib st d7 w7 = Some (Inr (), d8, w8)" and o9: "WithDomainServices d8 w8 = Some (Inr (), d', w')"
    unfolding defaultOptions_def apply_options_Some by auto
  have d2: "d2 = ?d2" "w2 = w" using option_ok(1) [OF o1] option_ok(2) [OF o2] by (simp_all add: no_dependencies_def)
  then have "d_secretVersion d2 = 0" by (simp add: no_dependencies_def)
  from WithConfigLoader_ok [OF o3 this] d2 obtain ver l where l: "loaded v c vars = Some (Inr ver, l)" "w3 = w"
    "d3 = ?d2\<lparr>d_configLoader := Some l, d_cfg := cfg l, d_environ := environ l, d_secretVersion := ver\<rparr>"
    by (auto simp: no_dependencies_def)
  from option_ok(6) [OF o7] obtain m where m: "NewMetrics lib st = Inr m" "d7 = d6\<lparr>d_Metrics := Some m\<rparr>" "w7 = w6" by blast
  have "d' = ready lib st l ver m" "w' = w"
    using option_ok(3) [OF o4] option_ok(4) [OF o5] option_ok(5) [OF o6] m option_ok(7) [OF o8] option_ok(8) [OF o9] l
    by (simp_all add: ready_def Let_def no_dependencies_def)
  with l m show ?thesis by blast
qed

text \<open>The option with which each of the programs is built.\<close>

datatype program = WebService | PublisherProgram | SubscriberProgram

definition program_option :: "env \<Rightarrow> libraries \<Rightarrow> settings \<Rightarrow> program \<Rightarrow> dependency_option" where
  "program_option env lib st p =
     (case p of WebService \<Rightarrow> WithHTTPServer lib st
      | PublisherProgram \<Rightarrow> WithPublisher env st
      | SubscriberProgram \<Rightarrow> WithSubscriber env)"

lemma and_then_Some: "and_then f g d w = Some (Inr u, d', w') \<longleftrightarrow>
    (\<exists>d1 w1. f d w = Some (Inr (), d1, w1) \<and> g d1 w1 = Some (Inr u, d', w'))"
  by (auto simp: and_then_def split: option.splits prod.splits sum.splits)

text \<open>A queue client that is connected, with its channel open.\<close>

definition queue_up :: "rabbit \<Rightarrow> bool" where
  "queue_up q \<longleftrightarrow> IsConnected q \<and> connection_ok q"

lemma Connect_up: "Connect env NewRabbitMQQueue w = (Inr u, q, w') \<Longrightarrow> queue_up q"
  by (auto simp: queue_up_def Connect_def NewRabbitMQQueue_def IsConnected_def connection_ok_def new_channel_def
      split: prod.splits sum.splits)

lemma on_channel_up:
  assumes "queue_up q" "on_channel q f w = Some (r, q', w')" "\<And>ch w r ch' w'. f ch w = (r, ch', w') \<Longrightarrow> ch_closed ch' = ch_closed ch"
  shows "queue_up q'"
proof -
  obtain ch where ch: "q_channel q = Some ch" "\<not> ch_closed ch" using assms(1) by (auto simp: queue_up_def connection_ok_def)
  obtain r1 ch1 w1 where f: "f ch w = (r1, ch1, w1)" by (metis surj_pair)
  then have "q' = q\<lparr>q_channel := Some ch1\<rparr>" using assms(1,2) ch by (auto simp: queue_up_def on_channel_def)
  with assms(1) assms(3) [OF f] ch show ?thesis by (simp add: queue_up_def IsConnected_def connection_ok_def)
qed

lemma declare_up:
  assumes "queue_up q"
  shows "DeclareExchange env n k a b q w = Some (r, q', w') \<Longrightarrow> queue_up q'"
    "DeclareQueue env n a b q w = Some (r, q', w') \<Longrightarrow> queue_up q'"
    "BindQueue env n k e q w = Some (r, q', w') \<Longrightarrow> queue_up q'"
  unfolding DeclareExchange_def DeclareQueue_def BindQueue_def
  by (erule on_channel_up [OF assms];
      auto simp: exchangeDeclare_def queueDeclare_def queueBind_def Let_def split: prod.splits if_splits)+

lemma on_channel_not_None: "queue_up q \<Longrightarrow> on_channel q f w \<noteq> None"
  by (auto simp: queue_up_def on_channel_def connection_ok_def)

lemma WithQueue_ok: "WithQueue env d w = Some (Inr u, d', w') \<Longrightarrow> \<exists>q. queue_up q \<and> d' = d\<lparr>d_QueueClient := Some q\<rparr>"
  by (auto simp: WithQueue_def dest: Connect_up split: prod.splits sum.splits)

lemma on_queue_ok:
  assumes "on_queue what f d w = Some (Inr u, d', w')" "d_QueueClient d = Some q" "queue_up q"
    "\<And>r q' w'. f q w = Some (r, q', w') \<Longrightarrow> queue_up q'"
  shows "\<exists>q'. queue_up q' \<and> d' = d\<lparr>d_QueueClient := Some q'\<rparr>"
  using assms by (fastforce simp: on_queue_def)

lemma program_option_ok:
  assumes "program_option env lib st p d w = Some (Inr u, d', w')"
  shows "(p = WebService \<and> (\<exists>db. d_StorageClient d = Some db \<and> d' = d\<lparr>d_HTTPServer := Some (web_service_of st d db)\<rparr>)) \<or>
    (p = PublisherProgram \<and> (\<exists>q. queue_up q \<and> d' = d\<lparr>d_QueueClient := Some q,
       d_OutboxProcessor := Some \<lparr>op_OutboxRepo = d_OutboxRepo d, op_Metrics = d_Metrics d\<rparr>\<rparr>)) \<or>
    (p = SubscriberProgram \<and> (\<exists>q. queue_up q \<and> d' = d\<lparr>d_QueueClient := Some q,
       d_AnalysisWorker := Some (analysis_worker_of d)\<rparr>))"
proof (cases p)
  case WebService
  with assms show ?thesis by (auto simp: program_option_def WithHTTPServer_def split: option.splits sum.splits)
next
  case SubscriberProgram
  with assms show ?thesis
    by (fastforce simp: program_option_def WithSubscriber_def analysis_worker_of_def and_then_Some dest: WithQueue_ok)
next
  case PublisherProgram
  with assms obtain d1 w1 d2 w2 d3 w3 d4 w4 where
    "WithQueue env d w = Some (Inr (), d1, w1)" and
    s2: "on_queue ''failed to declare exchange'' (DeclareExchange env (st_ExchangeName st) ''topic'' True False) d1 w1 = Some (Inr (), d2, w2)" and
    s3: "on_queue ''failed to declare queue'' (DeclareQueue env (st_QueueName st) True False) d2 w2 = Some (Inr (), d3, w3)" and
    s4: "on_queue ''failed to bind queue'' (BindQueue env (st_QueueName st) (st_RoutingKey st) (st_ExchangeName st)) d3 w3 = Some (Inr (), d4, w4)" and
    d': "d' = d4\<lparr>d_OutboxProcessor := Some \<lparr>op_OutboxRepo = d_OutboxRepo d4, op_Metrics = d_Metrics d4\<rparr>\<rparr>"
    by (auto simp: program_option_def WithPublisher_def and_then_Some)
  from WithQueue_ok [OF this(1)] obtain q1 where q1: "queue_up q1" "d1 = d\<lparr>d_QueueClient := Some q1\<rparr>" by blast
  from on_queue_ok [OF s2 _ q1(1)] q1(2) declare_up(1) [OF q1(1)]
  obtain q2 where q2: "queue_up q2" "d2 = d\<lparr>d_QueueClient := Some q2\<rparr>" by auto
  from on_queue_ok [OF s3 _ q2(1)] q2(2) declare_up(2) [OF q2(1)]
  obtain q3 where q3: "queue_up q3" "d3 = d\<lparr>d_QueueClient := Some q3\<rparr>" by auto
  from on_queue_ok [OF s4 _ q3(1)] q3(2) declare_up(3) [OF q3(1)]
  obtain q4 where "queue_up q4" "d4 = d\<lparr>d_QueueClient := Some q4\<rparr>" by auto
  with d' PublisherProgram show ?thesis by auto
qed

lemma started:
  assumes "initializeDependencies lib v st init vars [program_option env lib st p] w = Some (Inr d, w')"
  obtains c l ver m where "init = Inr c" "loaded v c vars = Some (Inr ver, l)" "NewMetrics lib st = Inr m"
    "program_option env lib st p (ready lib st l ver m) w = Some (Inr (), d, w')"
proof -
  from assms obtain c where c: "init = Inr c"
    and run: "apply_options (defaultOptions lib v st @ [program_option env lib st p]) (no_dependencies c vars) w = Some (Inr (), d, w')"
    by (auto simp: initializeDependencies_def split: sum.splits option.splits prod.splits)
  from run obtain d1 w1 where d1: "apply_options (defaultOptions lib v st) (no_dependencies c vars) w = Some (Inr (), d1, w1)"
    and last_one: "program_option env lib st p d1 w1 = Some (Inr (), d, w')"
    unfolding apply_options_append apply_options_Some by auto
  from default_options_run [OF d1] c last_one show thesis by (auto intro: that)
qed

lemmas ready_simps = ready_def Let_def

text \<open>C28: A program that has started has everything it uses. Repositories, metrics, tracer and domain
  services are there, the data source carries the secrets that the loader has put into the
  configuration, the web service has its server, publisher and subscriber have a queue client that is
  connected, and what server, processor and worker were given is what the dependencies hold at the
  end: the order of the options leaves nothing missing but the client of the cache.\<close>

theorem start_wires_all:
  assumes "initializeDependencies lib v st init vars [program_option env lib st p] w = Some (Inr d, w')"
  shows "d_AnalysisRepo d \<and> d_OutboxRepo d \<and> d_CacheRepo d = Some (d_CacheClient d) \<and> d_Metrics d \<noteq> None \<and>
    d_tracerShutdown d \<and> d_DomainServices d = Some \<lparr>ds_Metrics = d_Metrics d\<rparr> \<and> d_SecretStorageRepo d = Some True \<and>
    (\<exists>c l. init = Inr c \<and> d_configLoader d = Some l \<and> loaded v c vars = Some (Inr (d_secretVersion d), l) \<and>
       d_cfg d = cfg l \<and> d_environ d = environ l \<and> d_StorageClient d = Some (storage_dsn st (cfg l))) \<and>
    (case p of WebService \<Rightarrow> d_HTTPServer d = Some (web_service_of st d (storage_dsn st (d_cfg d))) \<and> d_QueueClient d = None
     | PublisherProgram \<Rightarrow> d_OutboxProcessor d = Some \<lparr>op_OutboxRepo = True, op_Metrics = d_Metrics d\<rparr> \<and>
         (\<exists>q. d_QueueClient d = Some q \<and> queue_up q)
     | SubscriberProgram \<Rightarrow> d_AnalysisWorker d = Some (analysis_worker_of d) \<and> (\<exists>q. d_QueueClient d = Some q \<and> queue_up q))"
  by (rule started [OF assms]) (drule program_option_ok, auto simp: ready_simps web_service_of_def analysis_worker_of_def)

lemma apply_options_None:
  "apply_options (f # fs) d w = None \<longleftrightarrow>
     f d w = None \<or> (\<exists>x d1 w1. f d w = Some (Inr x, d1, w1) \<and> apply_options fs d1 w1 = None)"
  by (auto split: option.splits sum.splits)

lemma apply_options_append_None:
  "apply_options (fs @ gs) d w = None \<longleftrightarrow>
     apply_options fs d w = None \<or> (\<exists>d1 w1. apply_options fs d w = Some (Inr (), d1, w1) \<and> apply_options gs d1 w1 = None)"
  by (induction fs arbitrary: d w) (auto split: option.split sum.split prod.split)

lemma fail_or_not_None [simp]: "fail_or r f d w \<noteq> None"
  by (simp add: fail_or_def)

lemma default_options_None:
  assumes "apply_options (defaultOptions lib v st) (no_dependencies c vars) w = None"
  shows "loaded v c vars = None"
proof (rule ccontr)
  assume l: "loaded v c vars \<noteq> None"
  from assms obtain d1 w1 d2 w2 where
    o1: "WithSecretStorage lib st (no_dependencies c vars) w = Some (Inr (), d1, w1)" and
    o2: "WithSecretStorageRepo d1 w1 = Some (Inr (), d2, w2)" and
    rest: "apply_options [WithConfigLoader v, WithStorage lib st, WithCache lib, WithDataRepos, WithMetrics lib st,
      WithTracing lib st, WithDomainServices] d2 w2 = None"
    unfolding defaultOptions_def apply_options_None [of _ "_ # _"] WithSecretStorage_def WithSecretStorageRepo_def
    by auto
  have d2: "d2 = (no_dependencies c vars)\<lparr>d_SecretStorageClient := True, d_SecretStorageRepo := Some True\<rparr>" "w2 = w"
    using option_ok(1) [OF o1] option_ok(2) [OF o2] by (simp_all add: no_dependencies_def)
  have "WithConfigLoader v d2 w2 \<noteq> None"
    using l by (auto simp: d2 WithConfigLoader_def no_dependencies_def loaded_def Let_def split: option.splits sum.splits if_splits)
  with rest obtain d3 w3 d4 w4 d5 w5 where
    "WithStorage lib st d3 w3 = Some (Inr (), d4, w4)" and "WithCache lib d4 w4 = Some (Inr (), d5, w5)" and
    rest: "apply_options [WithDataRepos, WithMetrics lib st, WithTracing lib st, WithDomainServices] d5 w5 = None"
    unfolding apply_options_None [of _ "_ # _"] WithStorage_def WithCache_def by auto
  then have "d_StorageClient d5 \<noteq> None" using option_ok(3,4) by fastforce
  with rest show False
    by (auto simp: apply_options_None WithDataRepos_def WithMetrics_def WithTracing_def WithDomainServices_def
        simp del: apply_options.simps(2))
qed

lemma on_queue_not_None:
  "d_QueueClient d = Some q \<Longrightarrow> queue_up q \<Longrightarrow> (\<And>w. queue_up q \<Longrightarrow> f q w \<noteq> None) \<Longrightarrow> on_queue what f d w \<noteq> None"
  by (simp add: on_queue_def)

lemma and_then_None: "and_then f g d w = None \<longleftrightarrow>
    f d w = None \<or> (\<exists>u d1 w1. f d w = Some (Inr u, d1, w1) \<and> g d1 w1 = None)"
  by (auto simp: and_then_def split: option.splits prod.splits sum.splits)

lemma WithPublisher_not_None: "WithPublisher env st d w \<noteq> None"
proof
  assume "WithPublisher env st d w = None"
  then consider
    (queue) "WithQueue env d w = None"
  | (exchange) d1 w1 where "WithQueue env d w = Some (Inr (), d1, w1)"
      "on_queue ''failed to declare exchange'' (DeclareExchange env (st_ExchangeName st) ''topic'' True False) d1 w1 = None"
  | (queue2) d1 w1 d2 w2 where "WithQueue env d w = Some (Inr (), d1, w1)"
      "on_queue ''failed to declare exchange'' (DeclareExchange env (st_ExchangeName st) ''topic'' True False) d1 w1 = Some (Inr (), d2, w2)"
      "on_queue ''failed to declare queue'' (DeclareQueue env (st_QueueName st) True False) d2 w2 = None"
  | (bind) d1 w1 d2 w2 d3 w3 where "WithQueue env d w = Some (Inr (), d1, w1)"
      "on_queue ''failed to declare exchange'' (DeclareExchange env (st_ExchangeName st) ''topic'' True False) d1 w1 = Some (Inr (), d2, w2)"
      "on_queue ''failed to declare queue'' (DeclareQueue env (st_QueueName st) True False) d2 w2 = Some (Inr (), d3, w3)"
      "on_queue ''failed to bind queue'' (BindQueue env (st_QueueName st) (st_RoutingKey st) (st_ExchangeName st)) d3 w3 = None"
    by (auto simp: WithPublisher_def and_then_None)
  then show False
  proof cases
    case queue
    then show ?thesis by (auto simp: WithQueue_def split: prod.splits sum.splits)
  next
    case exchange
    from WithQueue_ok [OF exchange(1)] obtain q where "queue_up q" "d_QueueClient d1 = Some q" by auto
    with exchange(2) show ?thesis by (simp add: on_queue_def DeclareExchange_def on_channel_not_None)
  next
    case queue2
    from WithQueue_ok [OF queue2(1)] obtain q where q: "queue_up q" "d_QueueClient d1 = Some q" by auto
    from on_queue_ok [OF queue2(2) q(2,1)] declare_up(1) [OF q(1)]
    obtain q2 where "queue_up q2" "d_QueueClient d2 = Some q2" by auto
    with queue2(3) show ?thesis by (simp add: on_queue_def DeclareQueue_def on_channel_not_None)
  next
    case bind
    from WithQueue_ok [OF bind(1)] obtain q where q: "queue_up q" "d_QueueClient d1 = Some q" by auto
    from on_queue_ok [OF bind(2) q(2,1)] declare_up(1) [OF q(1)]
    obtain q2 where q2: "queue_up q2" "d_QueueClient d2 = Some q2" by auto
    from on_queue_ok [OF bind(3) q2(2,1)] declare_up(2) [OF q2(1)]
    obtain q3 where "queue_up q3" "d_QueueClient d3 = Some q3" by auto
    with bind(4) show ?thesis by (simp add: on_queue_def BindQueue_def on_channel_not_None)
  qed
qed

text \<open>Also: A start panics for two reasons only: a login of the secret storage without a response, and, in
  the web service, an API description that cannot be read. Everything else that fails is an error,
  which names the option and the step.\<close>

theorem start_panics_only:
  assumes "initializeDependencies lib v st init vars [program_option env lib st p] w = None"
  shows "(\<exists>c. init = Inr c \<and> loaded v c vars = None) \<or> p = WebService \<and> (\<exists>e. lib_GetSwagger lib = Inl e)"
proof -
  from assms obtain c where c: "init = Inr c"
    and run: "apply_options (defaultOptions lib v st @ [program_option env lib st p]) (no_dependencies c vars) w = None"
    by (auto simp: initializeDependencies_def split: sum.splits option.splits prod.splits)
  show ?thesis
  proof (cases "apply_options (defaultOptions lib v st) (no_dependencies c vars) w = None")
    case True
    from default_options_None [OF this] c show ?thesis by blast
  next
    case False
    with run obtain d1 w1 where d1: "apply_options (defaultOptions lib v st) (no_dependencies c vars) w = Some (Inr (), d1, w1)"
      and none: "program_option env lib st p d1 w1 = None"
      unfolding apply_options_append_None apply_options_None by auto
    from default_options_run [OF d1] have db: "d_StorageClient d1 \<noteq> None" by (auto simp: ready_simps)
    have "p \<noteq> PublisherProgram" using none WithPublisher_not_None [of env st d1 w1] by (auto simp: program_option_def)
    moreover have "p \<noteq> SubscriberProgram"
      using none by (auto simp: program_option_def WithSubscriber_def and_then_None WithQueue_def split: prod.splits sum.splits)
    ultimately have "p = WebService" by (cases p) auto
    with none db show ?thesis by (auto simp: program_option_def WithHTTPServer_def split: option.splits sum.splits)
  qed
qed

section \<open>The version that the loader starts with\<close>

lemma applySecrets_lastVersion: "lastVersion (snd (applySecretsToConfig kvs l)) = lastVersion l"
proof (induction kvs l rule: applySecretsToConfig.induct)
  case (2 key v kvs l)
  then show ?case
    by (auto simp: applySecretToConfig_def Setenv_def split: sum.splits prod.splits if_splits)
qed simp_all

lemma Load_lastVersion:
  assumes "Load v l = Some (r, l')"
  shows "lastVersion l' = lastVersion l"
proof -
  have auth: "lastVersion l1 = lastVersion l" if "authenticateVault v l = Some (q, l1)" for q l1
    using that by (auto simp: authenticateVault_def Let_def ld_call_def split: if_splits sum.splits option.splits)
  show ?thesis
  proof (cases "Enabled (SecretStorage (cfg l)) \<and> (\<exists>u l1. authenticateVault v l = Some (Inr u, l1))")
    case False
    with assms auth show ?thesis by (auto simp: Load_def split: if_splits option.splits prod.splits sum.splits)
  next
    case True
    then obtain u l1 where a: "authenticateVault v l = Some (Inr u, l1)" by blast
    obtain q l2 where q: "loadSecretsFromPath v ''data'' l1 = (q, l2)" by force
    have l2: "lastVersion l2 = lastVersion l" using auth [OF a] loadSecrets_frame(3) [OF q] by simp
    show ?thesis
    proof (cases q)
      case (Inl e)
      with assms True a q l2 show ?thesis by (auto simp: Load_def)
    next
      case (Inr data)
      obtain s l3 where s: "applySecretsToConfig (case data of None \<Rightarrow> [] | Some m \<Rightarrow> m) l2 = (s, l3)" by force
      have l3: "lastVersion l3 = lastVersion l"
        using applySecrets_lastVersion [of "case data of None \<Rightarrow> [] | Some m \<Rightarrow> m" l2] s l2 by simp
      show ?thesis
        using assms True a q Inr s l3 load_version_frame(3) [of v l3] by (cases s) (auto simp: Load_def)
    qed
  qed
qed

lemma loaded_lastVersion: "loaded v c vars = Some (r, l) \<Longrightarrow> lastVersion l = 0"
  by (auto simp: loaded_def NewLoader_def dest: Load_lastVersion split: if_splits)

text \<open>Also: No program ever reloads its configuration. The loader that a start leaves behind has version 0
  whatever version the start has read, and with a key-value store that answers as documented that is
  the version it finds each time: the settings stay those of the start.\<close>

theorem programs_never_reload:
  assumes "initializeDependencies lib v st init vars [program_option env lib st p] w = Some (Inr d, w')"
    and "data_endpoint v" "d_configLoader d = Some l" "watch_reach v l s"
  shows "cfg (w_loader s) = d_cfg d \<and> environ (w_loader s) = d_environ d"
proof -
  from started [OF assms(1)] obtain c l1 ver m where l1: "loaded v c vars = Some (Inr ver, l1)"
    and run: "program_option env lib st p (ready lib st l1 ver m) w = Some (Inr (), d, w')" by metis
  have d: "d_configLoader d = Some l1" "d_cfg d = cfg l1" "d_environ d = environ l1"
    using program_option_ok [OF run] by (auto simp: ready_simps)
  then show ?thesis
    using reload_run.reached [OF assms(4) [unfolded watch_reach_def]] assms(2,3) loaded_lastVersion [OF l1]
    by (simp add: not_reloaded_def)
qed

section \<open>With and without a cache\<close>

text \<open>Also: With a cache client, the services that a start wires are the services of the other theories: what
  they return and the state they leave are those of \<open>StartAnalysis\<close>, \<open>FetchAnalysis\<close> and
  \<open>ProcessMessage\<close>.\<close>

theorem wired_with_cache:
  assumes "initializeDependencies lib v st init vars [program_option env lib st p] w0 = Some (Inr d, w1)"
    and "lib_cache_Ping lib = Inr u"
  shows "wired_StartAnalysis (d_CacheRepo d) env mx dx url options w = map_prod Some id (StartAnalysis env mx dx url options w) \<and>
    wired_FetchAnalysis (d_CacheRepo d) env dx i w = map_prod Some id (FetchAnalysis env dx i w) \<and>
    wired_ProcessMessage (d_CacheRepo d) dx env P m w = map_prod Some id (ProcessMessage env (P\<lparr>port_cache := Some dx\<rparr>) q m w)"
proof -
  from started [OF assms(1)] obtain l ver mt where
    "program_option env lib st p (ready lib st l ver mt) w0 = Some (Inr (), d, w1)" by metis
  from program_option_ok [OF this] assms(2) have "d_CacheRepo d = Some True" by (auto simp: ready_simps)
  then show ?thesis
    by (auto simp: wired_StartAnalysis_def StartAnalysis_def wired_FetchAnalysis_def FetchAnalysis_def on_cache_def
        wired_ProcessMessage_def wired_ProcessAnalysisRequest_def wired_ports_def ProcessMessage_def
        processAnalysisMessage_Handle_def map_prod_def split: prod.split sum.split option.split)
qed


section \<open>Examples\<close>

definition sample_libraries :: libraries where
  "sample_libraries =
     \<lparr>lib_ConfigureTLS = Inr (), lib_NewVaultClient = (\<lambda>_ _. Inr ()), lib_sql_Open = (\<lambda>_. Inr ()), lib_db_Ping = Inr (),
      lib_cache_Ping = Inr (), lib_grpc_NewClient = (\<lambda>_. Inr ()), lib_metric_exporter = Inr (), lib_resource = Inr (),
      lib_instrument = (\<lambda>_ _. Inr ()), lib_trace_exporter = Inr (), lib_stdout_exporter = Inr (), lib_Hostname = Inr ''h'',
      lib_GetSwagger = Inr ()\<rparr>"

definition sample_settings :: settings where
  "sample_settings =
     \<lparr>st_vault_Address = ''http://vault:8200'', st_vault_Timeout = 30 * Second, st_TLSSkipVerify = False,
      st_storage_Port = 5432, st_SSLMode = ''disable'', st_metrics_Enabled = True, st_traces_Enabled = False,
      st_ExporterType = ''grpc'', st_OtelGRPCHost = ''otel'', st_OtelGRPCPort = ''4317'', st_ExchangeName = ''web-analyzer'',
      st_RoutingKey = ''analysis.*'', st_QueueName = ''analysis_queue'', st_http_Host = ''0.0.0.0'',
      st_http_Port = 8088\<rparr>"

definition without_cache :: libraries where
  "without_cache = sample_libraries\<lparr>lib_cache_Ping := Inl (ErrText ''connection refused'')\<rparr>"

definition offline_config :: service_config where
  "offline_config = sample_config\<lparr>SecretStorage := (SecretStorage sample_config)\<lparr>Enabled := False\<rparr>\<rparr>"

abbreviation sample_start :: "libraries \<Rightarrow> program \<Rightarrow> (dependencies result \<times> world) option" where
  "sample_start lib p \<equiv> initializeDependencies lib sample_vault sample_settings (Inr offline_config) Map.empty
     [program_option sample_env lib sample_settings p] empty_world"

definition answering :: "libraries \<Rightarrow> bool" where
  "answering lib \<longleftrightarrow> lib_NewVaultClient lib = (\<lambda>_ _. Inr ()) \<and> lib_sql_Open lib = (\<lambda>_. Inr ()) \<and>
     lib_db_Ping lib = Inr () \<and> lib_instrument lib = (\<lambda>_ _. Inr ()) \<and> lib_grpc_NewClient lib = (\<lambda>_. Inr ()) \<and>
     lib_metric_exporter lib = Inr () \<and> lib_resource lib = Inr ()"

lemma samples_answering [simp]:
  "answering sample_libraries" "answering without_cache" "answering (sample_libraries\<lparr>lib_GetSwagger := r\<rparr>)"
  by (simp_all add: answering_def without_cache_def sample_libraries_def)

lemma sample_metrics: "answering lib \<Longrightarrow> NewMetrics lib sample_settings = Inr (OTELMetrics (map fst instruments))"
  by (simp add: answering_def NewMetrics_def NewOTELMetrics_def sample_settings_def bind_result_def initializeMetrics_def
      instruments_def)

lemma sample_default_options:
  assumes "answering lib" "NewMetrics lib sample_settings = Inr m"
  shows "apply_options (defaultOptions lib sample_vault sample_settings @ opts) (no_dependencies offline_config Map.empty) w =
    apply_options opts (ready lib sample_settings (NewLoader offline_config Map.empty 0) 0 m) w"
proof -
  obtain dsn where dsn: "storage_dsn sample_settings offline_config = dsn" by simp
  have sets: "st_TLSSkipVerify sample_settings = False" "st_traces_Enabled sample_settings = False"
    by (simp_all add: sample_settings_def)
  have cfg: "\<not> Enabled (SecretStorage offline_config)" by (simp add: offline_config_def)
  show ?thesis
    by (cases "lib_cache_Ping lib")
       (simp_all add: defaultOptions_def option_defs fail_or_def bind_result_def sets assms(2) cfg dsn NewStorage_def
        assms(1) [unfolded answering_def]
        no_dependencies_def ready_simps NewLoader_def)
qed

lemma sample_start_eq:
  assumes "answering lib"
  shows "sample_start lib p =
    (case program_option sample_env lib sample_settings p
            (ready lib sample_settings (NewLoader offline_config Map.empty 0) 0 (OTELMetrics (map fst instruments))) empty_world of
       None \<Rightarrow> None
     | Some (Inl e, _, w1) \<Rightarrow> Some (Inl (ErrWrap ''failed to apply dependency option'' e), w1)
     | Some (Inr _, d, w1) \<Rightarrow> Some (Inr d, w1))"
proof -
  obtain m where m: "m = OTELMetrics (map fst instruments)" by simp
  have "apply_options (defaultOptions lib sample_vault sample_settings @ opts) (no_dependencies offline_config Map.empty) w =
      apply_options opts (ready lib sample_settings (NewLoader offline_config Map.empty 0) 0 m) w" for opts w
    unfolding m by (intro sample_default_options sample_metrics assms)
  then show ?thesis
    unfolding initializeDependencies_def m [symmetric] by (auto split: option.split sum.split prod.split)
qed

lemma sample_programs:
  "\<exists>d' w'. program_option sample_env lib sample_settings SubscriberProgram d empty_world = Some (Inr (), d', w')"
  "\<exists>d' w'. program_option sample_env lib sample_settings PublisherProgram d empty_world = Some (Inr (), d', w')"
  by (simp_all add: program_option_def WithSubscriber_def WithPublisher_def and_then_def WithQueue_def Connect_def
      NewRabbitMQQueue_def amqp_call_def statement_ok on_queue_def DeclareExchange_def DeclareQueue_def BindQueue_def
      on_channel_def IsConnected_def exchangeDeclare_def queueDeclare_def queueBind_def new_channel_def)

lemma sample_start_ok:
  assumes "answering lib" "p \<noteq> WebService"
    "\<And>d. \<exists>d' w'. program_option sample_env lib sample_settings p d empty_world = Some (Inr (), d', w')"
  shows "\<exists>d w. sample_start lib p = Some (Inr d, w)"
proof -
  let ?d = "ready lib sample_settings (NewLoader offline_config Map.empty 0) 0 (OTELMetrics (map fst instruments))"
  obtain d' w' where run: "program_option sample_env lib sample_settings p ?d empty_world = Some (Inr (), d', w')"
    using assms(3) by blast
  have "sample_start lib p = Some (Inr d', w')" unfolding sample_start_eq [OF assms(1)] run by simp
  then show ?thesis by blast
qed

lemma sample_starts:
  "\<exists>d w. sample_start sample_libraries PublisherProgram = Some (Inr d, w)"
  "\<exists>d w. sample_start sample_libraries SubscriberProgram = Some (Inr d, w)"
  "\<exists>d w. sample_start without_cache SubscriberProgram = Some (Inr d, w)"
  by (rule sample_start_ok [OF samples_answering(1) _ sample_programs(2)], simp)
     (rule sample_start_ok [OF samples_answering(1) _ sample_programs(1)], simp,
      rule sample_start_ok [OF samples_answering(2) _ sample_programs(1)], simp)

theorem start_wires_all_witness:
  "\<exists>d w. sample_start sample_libraries PublisherProgram = Some (Inr d, w) \<and> d_OutboxProcessor d \<noteq> None \<and>
     d_CacheRepo d = Some (d_CacheClient d)"
proof -
  obtain d w where d: "sample_start sample_libraries PublisherProgram = Some (Inr d, w)" using sample_starts by blast
  with start_wires_all [OF d] show ?thesis by auto
qed

theorem start_panics_only_witness:
  "sample_start (sample_libraries\<lparr>lib_GetSwagger := Inl (ErrText ''no document'')\<rparr>) WebService = None \<and>
   (\<exists>e. lib_GetSwagger (sample_libraries\<lparr>lib_GetSwagger := Inl (ErrText ''no document'')\<rparr>) = Inl e)"
proof -
  let ?lib = "sample_libraries\<lparr>lib_GetSwagger := Inl (ErrText ''no document'')\<rparr>"
  have n: "sample_start ?lib WebService = None"
    unfolding sample_start_eq [OF samples_answering(3)]
    by (simp add: program_option_def WithHTTPServer_def split: option.split)
  have "loaded sample_vault offline_config Map.empty \<noteq> None" by (simp add: loaded_def offline_config_def)
  with start_panics_only [OF n] n show ?thesis by auto
qed

theorem programs_never_reload_witness:
  "\<exists>d w l. sample_start sample_libraries SubscriberProgram = Some (Inr d, w) \<and> d_configLoader d = Some l \<and>
     cfg (w_loader (watch_start l)) = d_cfg d"
proof -
  obtain d w where d: "sample_start sample_libraries SubscriberProgram = Some (Inr d, w)" using sample_starts by blast
  from started [OF d] obtain l ver m where
    "program_option sample_env sample_libraries sample_settings SubscriberProgram (ready sample_libraries sample_settings l ver m)
       empty_world = Some (Inr (), d, w)" by metis
  from program_option_ok [OF this] obtain l where l: "d_configLoader d = Some l" by (auto simp: ready_simps)
  have "data_endpoint sample_vault" by (auto simp: data_endpoint_def sample_vault_def split: if_splits)
  moreover have "watch_reach sample_vault l (watch_start l)" by (simp add: watch_reach_def)
  ultimately show ?thesis using programs_never_reload [OF d _ l] d l by blast
qed

theorem wired_with_cache_witness:
  "\<exists>d w. sample_start sample_libraries SubscriberProgram = Some (Inr d, w) \<and>
     wired_FetchAnalysis (d_CacheRepo d) sample_env 10 (UUID ''a'') sample_world =
       map_prod Some id (FetchAnalysis sample_env 10 (UUID ''a'') sample_world)"
proof -
  obtain d w where d: "sample_start sample_libraries SubscriberProgram = Some (Inr d, w)" using sample_starts by blast
  have "lib_cache_Ping sample_libraries = Inr ()" by (simp add: sample_libraries_def)
  from wired_with_cache [OF d this] d show ?thesis by blast
qed


end
