(* ===== verification/Api_Json.thy ===== *)
theory Api_Json
  imports Handler Queue "HOL-Library.Finite_Map" "HOL-Library.List_Lexorder"
begin

text \<open>
  The types of \<open>adapters/http/handlers/http_server_gen.go\<close> that have JSON methods of their own, because
  they take additional properties: the details of the cache and the checks of the health and the
  readiness report. A Go map is a finite map, \<open>None\<close> is the map \<open>nil\<close>; a map is written with its keys
  in increasing order. An object has each of its keys once. A \<open>float32\<close> here is a whole number; below
  \<open>2 ^ 24\<close> it and its text are exact. Marshalling these types never fails.
\<close>

section \<open>Numbers and free-form values\<close>

text \<open>As \<open>float64_of_nat\<close>, with the 24 bits of a \<open>float32\<close>.\<close>

definition float32_of_nat :: "nat \<Rightarrow> nat" where
  "float32_of_nat n = round_to (2 ^ (bit_len n - 24)) n"

definition dec_float32 :: "json \<Rightarrow> int result" where
  "dec_float32 j =
     (case j of
        JNum i \<Rightarrow>
          (let f = float32_of_nat (nat \<bar>i\<bar>)
           in if f < 2 ^ 128 then Inr (sgn i * int f) else Inl json_type_error)
      | _ \<Rightarrow> Inl json_type_error)"

lemma bit_len_le: "n < 2 ^ p \<Longrightarrow> bit_len n \<le> p"
proof (induction p arbitrary: n)
  case (Suc p)
  then have "n div 2 < 2 ^ p" by (simp add: less_mult_imp_div_less mult.commute)
  with Suc.IH show ?case by (subst bit_len.simps) simp
qed (simp add: bit_len.simps)

lemma float32_exact: "n < 2 ^ 24 \<Longrightarrow> float32_of_nat n = n"
  using bit_len_le [of n 24] by (simp add: float32_of_nat_def round_to_def)

lemma dec_float32_exact: "\<bar>i\<bar> < 2 ^ 24 \<Longrightarrow> dec_float32 (JNum i) = Inr i"
proof -
  assume i: "\<bar>i\<bar> < 2 ^ 24"
  then have n: "nat \<bar>i\<bar> < 2 ^ 24" by simp
  then have "nat \<bar>i\<bar> < 2 ^ 128" by simp
  moreover have "sgn i * int (nat \<bar>i\<bar>) = i" by (simp add: sgn_mult_abs)
  ultimately show ?thesis unfolding dec_float32_def json.case float32_exact [OF n] Let_def by simp
qed

lemma float64_exact: "n < 2 ^ 53 \<Longrightarrow> float64_of_nat n = n"
  using bit_len_le [of n 53] by (simp add: float64_of_nat_def round_to_def)

text \<open>What \<open>json.Unmarshal\<close> puts into an \<open>interface{}\<close>: a number becomes a \<open>float64\<close>, an object a map.\<close>

lemma map_result_cong [fundef_cong]:
  "xs = ys \<Longrightarrow> (\<And>x. x \<in> set ys \<Longrightarrow> f x = g x) \<Longrightarrow> map_result f xs = map_result g ys"
  by (induction ys arbitrary: xs) auto

fun dec_any :: "json \<Rightarrow> json result" where
  "dec_any (JNum i) = (if float64_of_nat (nat \<bar>i\<bar>) < 2 ^ 1024 then Inr (JNum (via_float64 i)) else Inl json_type_error)"
| "dec_any (JArr js) = map_sum id JArr (map_result dec_any js)"
| "dec_any (JObj fs) =
     map_sum id (\<lambda>fs. JObj (sort_key fst fs)) (map_result (\<lambda>(k, j). map_sum id (Pair k) (dec_any j)) fs)"
| "dec_any j = Inr j"

fun any_value :: "json \<Rightarrow> bool" where
  "any_value (JNum i) \<longleftrightarrow> \<bar>i\<bar> < 2 ^ 53"
| "any_value (JArr js) \<longleftrightarrow> (\<forall>j \<in> set js. any_value j)"
| "any_value (JObj fs) \<longleftrightarrow> sorted (map fst fs) \<and> (\<forall>(k, j) \<in> set fs. any_value j)"
| "any_value j \<longleftrightarrow> True"

lemma map_result_id: "(\<And>x. x \<in> set xs \<Longrightarrow> f x = Inr x) \<Longrightarrow> map_result f xs = Inr xs"
  by (induction xs) auto

lemma dec_any_value: "any_value j \<Longrightarrow> dec_any j = Inr j"
proof (induction j rule: any_value.induct)
  case (3 fs)
  have "map_result (\<lambda>(k, j). map_sum id (Pair k) (dec_any j)) fs = Inr fs"
    using 3 by (intro map_result_id) auto
  with 3 show ?case by (simp add: sort_key_id_if_sorted)
next
  case (1 i)
  then have n: "nat \<bar>i\<bar> < 2 ^ 53" by simp
  then have "nat \<bar>i\<bar> < 2 ^ 1024" using power_increasing [of 53 1024 "2 :: nat"] by linarith
  with 1 float64_exact [OF n] show ?case by (simp add: via_float64_def)
qed (auto simp: map_result_id)

section \<open>Objects\<close>

type_synonym object = "(string, json) fmap"

definition object_json :: "object \<Rightarrow> json" where
  "object_json ob = JObj (sorted_list_of_fmap ob)"

text \<open>\<open>json.Unmarshal\<close> into a \<open>map[string]json.RawMessage\<close>.\<close>

definition raw_object :: "json \<Rightarrow> object result" where
  "raw_object j =
     (case j of JNull \<Rightarrow> Inr fmempty | JObj fs \<Rightarrow> Inr (fmap_of_list fs) | _ \<Rightarrow> Inl json_type_error)"

lemma raw_object_json [simp]: "raw_object (object_json ob) = Inr ob"
  by (simp add: raw_object_def object_json_def fmap_ext fmlookup_of_list)

text \<open>
  \<open>json.Unmarshal\<close> into a pointer: \<open>null\<close> makes it \<open>nil\<close>; otherwise what it points to is decoded over,
  a new zero value if it points to nothing.
\<close>

definition dec_pointee :: "('a \<Rightarrow> json \<Rightarrow> 'a result) \<Rightarrow> 'a \<Rightarrow> 'a option \<Rightarrow> json \<Rightarrow> 'a option result" where
  "dec_pointee dec zero old j =
     (if j = JNull then Inr None
      else map_sum id Some (dec (case old of None \<Rightarrow> zero | Some x \<Rightarrow> x) j))"

definition quoted :: "string \<Rightarrow> string" where
  "quoted k = [CHR 0x27] @ k @ [CHR 0x27]"

text \<open>A field with a name of its own: it is read and taken out of the object.\<close>

definition take_field ::
  "string \<Rightarrow> ('a option \<Rightarrow> json \<Rightarrow> 'a option result) \<Rightarrow> 'a option \<Rightarrow> object \<Rightarrow> ('a option \<times> object) result" where
  "take_field k dec old ob =
     (case fmlookup ob k of
        None \<Rightarrow> Inr (old, ob)
      | Some raw \<Rightarrow>
          (case dec old raw of
             Inl e \<Rightarrow> Inl (ErrWrap (''error reading '' @ quoted k) e)
           | Inr x \<Rightarrow> Inr (x, fmdrop k ob)))"

text \<open>The rest of the object: the loop goes over a map, whose order is that of the keys here.\<close>

definition take_rest :: "(json \<Rightarrow> 'a result) \<Rightarrow> (string, 'a) fmap option \<Rightarrow> object \<Rightarrow> (string, 'a) fmap option result" where
  "take_rest dec old ob =
     (if ob = fmempty then Inr old
      else map_sum id (Some \<circ> fmap_of_list)
             (map_result (\<lambda>(k, raw). case dec raw of
                  Inl e \<Rightarrow> Inl (ErrWrap (''error unmarshaling field '' @ k) e)
                | Inr x \<Rightarrow> Inr (k, x)) (sorted_list_of_fmap ob)))"

definition put_field :: "string \<Rightarrow> ('a \<Rightarrow> json) \<Rightarrow> 'a option \<Rightarrow> object \<Rightarrow> object" where
  "put_field k enc x ob = (case x of None \<Rightarrow> ob | Some x \<Rightarrow> fmupd k (enc x) ob)"

definition put_rest :: "('a \<Rightarrow> json) \<Rightarrow> (string, 'a) fmap option \<Rightarrow> object \<Rightarrow> object" where
  "put_rest enc ap ob = (case ap of None \<Rightarrow> ob | Some m \<Rightarrow> fmadd ob (fmmap enc m))"

definition get_property :: "string \<Rightarrow> (string, 'a) fmap option \<Rightarrow> 'a option" where
  "get_property fieldName ap = (case ap of None \<Rightarrow> None | Some m \<Rightarrow> fmlookup m fieldName)"

definition set_property :: "string \<Rightarrow> 'a \<Rightarrow> (string, 'a) fmap option \<Rightarrow> (string, 'a) fmap option" where
  "set_property fieldName v ap = Some (fmupd fieldName v (case ap of None \<Rightarrow> fmempty | Some m \<Rightarrow> m))"

lemma get_set_property [simp]: "get_property k (set_property k' v ap) = (if k = k' then Some v else get_property k ap)"
  by (simp add: get_property_def set_property_def split: option.split)

text \<open>A map without entries is not told from the map \<open>nil\<close>.\<close>

definition normal_properties :: "(string, 'a) fmap option \<Rightarrow> (string, 'a) fmap option" where
  "normal_properties ap = (if ap = Some fmempty then None else ap)"

definition properties_avoid :: "string list \<Rightarrow> ('a \<Rightarrow> bool) \<Rightarrow> (string, 'a) fmap option \<Rightarrow> bool" where
  "properties_avoid ks valid ap \<longleftrightarrow>
     (case ap of None \<Rightarrow> True | Some m \<Rightarrow> (\<forall>k \<in> set ks. fmlookup m k = None) \<and> fmpred (\<lambda>_. valid) m)"

lemma put_field_lookup [simp]:
  "fmlookup (put_field k enc x ob) k' = (if k = k' \<and> x \<noteq> None then map_option enc x else fmlookup ob k')"
  by (cases x) (auto simp: put_field_def)

lemma put_rest_lookup:
  "fmlookup (put_rest enc ap ob) k = (case get_property k ap of None \<Rightarrow> fmlookup ob k | Some v \<Rightarrow> Some (enc v))"
  by (cases ap) (auto simp: put_rest_def get_property_def fmlookup_dom_iff split: option.splits)

lemma properties_avoid_get: "properties_avoid ks valid ap \<Longrightarrow> k \<in> set ks \<Longrightarrow> get_property k ap = None"
  by (auto simp: properties_avoid_def get_property_def split: option.splits)

lemma put_rest_put_field:
  assumes "get_property k ap = None"
  shows "put_rest enc ap (put_field k enc' x ob) = put_field k enc' x (put_rest enc ap ob)"
proof (rule fmap_ext)
  fix k'
  show "fmlookup (put_rest enc ap (put_field k enc' x ob)) k' = fmlookup (put_field k enc' x (put_rest enc ap ob)) k'"
    using assms by (cases "k' = k") (simp_all add: put_rest_lookup split: option.split)
qed

lemma put_field_commute:
  "k \<noteq> k' \<Longrightarrow> put_field k enc x (put_field k' enc' x' ob) = put_field k' enc' x' (put_field k enc x ob)"
  by (rule fmap_ext) auto

subsection \<open>Types whose values are read as they were written\<close>

text \<open>\<open>valid\<close> are the values that a Go value of the type can have.\<close>

locale json_type =
  fixes enc :: "'a \<Rightarrow> json" and dec :: "'a \<Rightarrow> json \<Rightarrow> 'a result" and zero :: 'a and valid :: "'a \<Rightarrow> bool"
  assumes dec_enc: "valid x \<Longrightarrow> dec zero (enc x) = Inr x"
begin

lemma rest_result:
  assumes "fmpred (\<lambda>_. valid) m"
  shows "map_result (\<lambda>(k, raw). case dec zero raw of Inl e \<Rightarrow> Inl (f k e) | Inr x \<Rightarrow> Inr (k, x))
    (sorted_list_of_fmap (fmmap enc m)) = Inr (sorted_list_of_fmap m)"
proof -
  let ?F = "\<lambda>(k, raw). case dec zero raw of Inl e \<Rightarrow> Inl (f k e) | Inr x \<Rightarrow> Inr (k, x)"
  let ?g = "\<lambda>(k, x). (k, enc x)"
  have g: "sorted_list_of_fmap (fmmap enc m) = map ?g (sorted_list_of_fmap m)"
    by (auto simp: sorted_list_of_fmap_def fmlookup_dom_iff)
  have "dec zero (enc x) = Inr x" if "(k, x) \<in> set (sorted_list_of_fmap m)" for k x
    using that assms by (auto simp: sorted_list_of_fmap_def fmlookup_dom_iff intro!: dec_enc elim: fmpredD)
  then have "map_result ?F (map ?g (sorted_list_of_fmap m)) = Inr (map id (sorted_list_of_fmap m))"
    by (intro map_result_map) auto
  with g show ?thesis by simp
qed

lemma take_rest_enc:
  assumes "fmpred (\<lambda>_. valid) m"
  shows "take_rest (dec zero) old (fmmap enc m) = Inr (if m = fmempty then old else Some m)"
proof (cases "m = fmempty")
  case False
  then have "fmmap enc m \<noteq> fmempty" by (metis fmap_ext fmempty_lookup fmlookup_map option.map_disc_iff)
  with False show ?thesis
    using rest_result [OF assms] by (simp add: take_rest_def fmap_ext fmlookup_of_list)
qed (simp add: take_rest_def)

lemma take_put_rest:
  assumes "properties_avoid ks valid ap"
  shows "take_rest (dec zero) None (put_rest enc ap fmempty) = Inr (normal_properties ap)"
proof (cases ap)
  case (Some m)
  with assms show ?thesis
    using take_rest_enc [of m None] by (simp add: properties_avoid_def put_rest_def normal_properties_def)
qed (simp add: take_rest_def put_rest_def normal_properties_def)

end

locale json_struct_type = json_type enc dec zero valid
  for enc :: "'a \<Rightarrow> json" and dec :: "'a \<Rightarrow> json \<Rightarrow> 'a result" and zero :: 'a and valid :: "'a \<Rightarrow> bool" +
  assumes enc_not_null: "valid x \<Longrightarrow> enc x \<noteq> JNull"
begin

lemma pointee_enc: "valid x \<Longrightarrow> dec_pointee dec zero None (enc x) = Inr (Some x)"
  by (simp add: dec_pointee_def dec_enc enc_not_null)

lemma take_put:
  assumes "fmlookup ob k = None" "pred_option valid x"
  shows "take_field k (dec_pointee dec zero) None (put_field k enc x ob) = Inr (x, ob)"
  using assms by (cases x) (auto simp: take_field_def put_field_def pointee_enc fmap_ext)

end

section \<open>Details of the cache\<close>

record pool_stats =
  Hits :: int
  IdleConnections :: int
  Misses :: int
  StaleConnections :: int
  Timeouts :: int
  TotalConnections :: int
  WaitCount :: int
  WaitDurationNs :: int

definition zero_PoolStats :: pool_stats where
  "zero_PoolStats = \<lparr>Hits = 0, IdleConnections = 0, Misses = 0, StaleConnections = 0, Timeouts = 0,
     TotalConnections = 0, WaitCount = 0, WaitDurationNs = 0\<rparr>"

definition enc_PoolStats :: "pool_stats \<Rightarrow> json" where
  "enc_PoolStats p =
     JObj [(''hits'', JNum (Hits p)), (''idle_connections'', JNum (IdleConnections p)), (''misses'', JNum (Misses p)),
       (''stale_connections'', JNum (StaleConnections p)), (''timeouts'', JNum (Timeouts p)),
       (''total_connections'', JNum (TotalConnections p)), (''wait_count'', JNum (WaitCount p)),
       (''wait_duration_ns'', JNum (WaitDurationNs p))]"

definition dec_PoolStats :: "pool_stats \<Rightarrow> json \<Rightarrow> pool_stats result" where
  "dec_PoolStats old = json_struct (\<lambda>ob.
     bind_result (json_field ''hits'' dec_int (Hits old) ob) (\<lambda>a.
     bind_result (json_field ''idle_connections'' dec_int (IdleConnections old) ob) (\<lambda>b.
     bind_result (json_field ''misses'' dec_int (Misses old) ob) (\<lambda>c.
     bind_result (json_field ''stale_connections'' dec_int (StaleConnections old) ob) (\<lambda>d.
     bind_result (json_field ''timeouts'' dec_int (Timeouts old) ob) (\<lambda>e.
     bind_result (json_field ''total_connections'' dec_int (TotalConnections old) ob) (\<lambda>f.
     bind_result (json_field ''wait_count'' dec_int (WaitCount old) ob) (\<lambda>g.
     bind_result (json_field ''wait_duration_ns'' dec_int (WaitDurationNs old) ob) (\<lambda>h.
       Inr \<lparr>Hits = a, IdleConnections = b, Misses = c, StaleConnections = d, Timeouts = e, TotalConnections = f,
            WaitCount = g, WaitDurationNs = h\<rparr>)))))))))
     old"

definition pool_in_range :: "pool_stats \<Rightarrow> bool" where
  "pool_in_range p \<longleftrightarrow> in_int64 (Hits p) \<and> in_int64 (IdleConnections p) \<and> in_int64 (Misses p) \<and>
     in_int64 (StaleConnections p) \<and> in_int64 (Timeouts p) \<and> in_int64 (TotalConnections p) \<and>
     in_int64 (WaitCount p) \<and> in_int64 (WaitDurationNs p)"

interpretation pool: json_struct_type enc_PoolStats dec_PoolStats zero_PoolStats pool_in_range
  by unfold_locales (auto simp: enc_PoolStats_def dec_PoolStats_def pool_in_range_def dec_simps)

interpretation int_pointer: json_struct_type JNum "\<lambda>_. dec_int" 0 in_int64
  by unfold_locales (simp_all add: dec_int_def)

interpretation any: json_type "\<lambda>j. j" "\<lambda>_. dec_any" JNull any_value
  by unfold_locales (rule dec_any_value)

record cache_details =
  PoolStats :: "pool_stats option"
  TotalKeys :: "int option"
  AdditionalProperties :: "(string, json) fmap option"

definition CacheDependencyCheck_Details_Get :: "cache_details \<Rightarrow> string \<Rightarrow> json option" where
  "CacheDependencyCheck_Details_Get a fieldName = get_property fieldName (AdditionalProperties a)"

definition CacheDependencyCheck_Details_Set :: "string \<Rightarrow> json \<Rightarrow> cache_details \<Rightarrow> cache_details" where
  "CacheDependencyCheck_Details_Set fieldName v a =
     a\<lparr>AdditionalProperties := set_property fieldName v (AdditionalProperties a)\<rparr>"

definition CacheDependencyCheck_Details_UnmarshalJSON :: "cache_details \<Rightarrow> json \<Rightarrow> cache_details result" where
  "CacheDependencyCheck_Details_UnmarshalJSON a b =
     bind_result (raw_object b) (\<lambda>ob.
     bind_result (take_field ''pool_stats'' (dec_pointee dec_PoolStats zero_PoolStats) (PoolStats a) ob) (\<lambda>(p, ob).
     bind_result (take_field ''total_keys'' (dec_pointee (\<lambda>_. dec_int) 0) (TotalKeys a) ob) (\<lambda>(t, ob).
     bind_result (take_rest dec_any (AdditionalProperties a) ob) (\<lambda>ap.
       Inr \<lparr>PoolStats = p, TotalKeys = t, AdditionalProperties = ap\<rparr>))))"

definition CacheDependencyCheck_Details_MarshalJSON :: "cache_details \<Rightarrow> json" where
  "CacheDependencyCheck_Details_MarshalJSON a =
     object_json (put_rest (\<lambda>j. j) (AdditionalProperties a)
       (put_field ''total_keys'' JNum (TotalKeys a)
       (put_field ''pool_stats'' enc_PoolStats (PoolStats a) fmempty)))"

text \<open>The details inside the health report have the same fields, and the same code a second time.\<close>

definition HealthResponse_Checks_Cache_Details_Get :: "cache_details \<Rightarrow> string \<Rightarrow> json option" where
  "HealthResponse_Checks_Cache_Details_Get = CacheDependencyCheck_Details_Get"

definition HealthResponse_Checks_Cache_Details_Set :: "string \<Rightarrow> json \<Rightarrow> cache_details \<Rightarrow> cache_details" where
  "HealthResponse_Checks_Cache_Details_Set = CacheDependencyCheck_Details_Set"

definition HealthResponse_Checks_Cache_Details_UnmarshalJSON :: "cache_details \<Rightarrow> json \<Rightarrow> cache_details result" where
  "HealthResponse_Checks_Cache_Details_UnmarshalJSON = CacheDependencyCheck_Details_UnmarshalJSON"

definition HealthResponse_Checks_Cache_Details_MarshalJSON :: "cache_details \<Rightarrow> json" where
  "HealthResponse_Checks_Cache_Details_MarshalJSON = CacheDependencyCheck_Details_MarshalJSON"

definition zero_details :: cache_details where
  "zero_details = \<lparr>PoolStats = None, TotalKeys = None, AdditionalProperties = None\<rparr>"

definition details_in_range :: "cache_details \<Rightarrow> bool" where
  "details_in_range a \<longleftrightarrow> pred_option pool_in_range (PoolStats a) \<and> pred_option in_int64 (TotalKeys a) \<and>
     properties_avoid [''pool_stats'', ''total_keys''] any_value (AdditionalProperties a)"

text \<open>Details of the cache are read as they were written, when no additional property has the name of a
  field.\<close>

lemma details_read:
  assumes "details_in_range a"
  shows "CacheDependencyCheck_Details_UnmarshalJSON zero_details (CacheDependencyCheck_Details_MarshalJSON a) =
    Inr (a\<lparr>AdditionalProperties := normal_properties (AdditionalProperties a)\<rparr>)"
proof -
  let ?rest = "put_rest (\<lambda>j. j) (AdditionalProperties a) fmempty"
  have avoid: "properties_avoid [''pool_stats'', ''total_keys''] any_value (AdditionalProperties a)"
    and p: "pred_option pool_in_range (PoolStats a)" and t: "pred_option in_int64 (TotalKeys a)"
    using assms by (simp_all add: details_in_range_def)
  have get: "get_property ''pool_stats'' (AdditionalProperties a) = None" "get_property ''total_keys'' (AdditionalProperties a) = None"
    by (rule properties_avoid_get [OF avoid], simp)+
  then have none: "fmlookup ?rest ''pool_stats'' = None" "fmlookup ?rest ''total_keys'' = None"
    by (simp_all add: put_rest_lookup)
  have m: "CacheDependencyCheck_Details_MarshalJSON a = object_json (put_field ''pool_stats'' enc_PoolStats (PoolStats a)
      (put_field ''total_keys'' JNum (TotalKeys a) ?rest))"
    unfolding CacheDependencyCheck_Details_MarshalJSON_def put_rest_put_field [OF get(1)] put_rest_put_field [OF get(2)]
    by (subst put_field_commute) simp_all
  have "fmlookup (put_field ''total_keys'' JNum (TotalKeys a) ?rest) ''pool_stats'' = None" using none by simp
  note fields = pool.take_put [OF this p] int_pointer.take_put [OF none(2) t] any.take_put_rest [OF avoid]
  show ?thesis
    unfolding m CacheDependencyCheck_Details_UnmarshalJSON_def zero_details_def cache_details.simps raw_object_json
      bind_result_simps prod.case fields by simp
qed

section \<open>Checks of the reports\<close>

definition pointer_field :: "string \<Rightarrow> ('a \<Rightarrow> json \<Rightarrow> 'a result) \<Rightarrow> 'a \<Rightarrow> 'a option \<Rightarrow> (string \<times> json) list \<Rightarrow> 'a option result" where
  "pointer_field k dec zero old fs =
     (case map_of fs k of None \<Rightarrow> Inr old | Some j \<Rightarrow> dec_pointee dec zero old j)"

definition opt_field :: "string \<Rightarrow> ('a \<Rightarrow> json) \<Rightarrow> 'a option \<Rightarrow> (string \<times> json) list" where
  "opt_field k enc x = (case x of None \<Rightarrow> [] | Some x \<Rightarrow> [(k, enc x)])"

lemma map_of_opt_field [simp]: "map_of (opt_field k enc x) k' = (if k = k' then map_option enc x else None)"
  by (cases x) (auto simp: opt_field_def)

text \<open>A pointer to a map points to one that is not \<open>nil\<close>; what is decoded over it is added.\<close>

definition enc_map :: "(string, json) fmap \<Rightarrow> json" where
  "enc_map m = JObj (sorted_list_of_fmap m)"

definition dec_map :: "(string, json) fmap \<Rightarrow> json \<Rightarrow> (string, json) fmap result" where
  "dec_map old j =
     (case j of
        JNull \<Rightarrow> Inr fmempty
      | JObj fs \<Rightarrow> map_sum id (\<lambda>xs. fmadd old (fmap_of_list xs)) (map_result (\<lambda>(k, j). map_sum id (Pair k) (dec_any j)) fs)
      | _ \<Rightarrow> Inl json_type_error)"

definition any_map :: "(string, json) fmap \<Rightarrow> bool" where
  "any_map m \<longleftrightarrow> fmpred (\<lambda>_. any_value) m"

text \<open>One dependency in the health report; \<open>'d\<close> is the type of its details.\<close>

record 'd check =
  Details :: "'d option"
  Check_Error :: "string option"
  LastChecked :: "time option"
  ResponseTime :: "int option"
  Check_Status :: string

definition zero_check :: "'d check" where
  "zero_check = \<lparr>Details = None, Check_Error = None, LastChecked = None, ResponseTime = None, Check_Status = []\<rparr>"

definition enc_check :: "('d \<Rightarrow> json) \<Rightarrow> 'd check \<Rightarrow> json" where
  "enc_check enc c =
     JObj (opt_field ''details'' enc (Details c) @ opt_field ''error'' JStr (Check_Error c) @
       opt_field ''last_checked'' JTime (LastChecked c) @ opt_field ''response_time'' JNum (ResponseTime c) @
       [(''status'', JStr (Check_Status c))])"

definition dec_check :: "('d \<Rightarrow> json \<Rightarrow> 'd result) \<Rightarrow> 'd \<Rightarrow> 'd check \<Rightarrow> json \<Rightarrow> 'd check result" where
  "dec_check dec zero old = json_struct (\<lambda>ob.
     bind_result (pointer_field ''details'' dec zero (Details old) ob) (\<lambda>a.
     bind_result (pointer_field ''error'' (\<lambda>_. dec_string) [] (Check_Error old) ob) (\<lambda>b.
     bind_result (pointer_field ''last_checked'' (\<lambda>_. dec_time) 0 (LastChecked old) ob) (\<lambda>c.
     bind_result (pointer_field ''response_time'' (\<lambda>_. dec_float32) 0 (ResponseTime old) ob) (\<lambda>d.
     bind_result (json_field ''status'' dec_string (Check_Status old) ob) (\<lambda>e.
       Inr \<lparr>Details = a, Check_Error = b, LastChecked = c, ResponseTime = d, Check_Status = e\<rparr>))))))
     old"

definition check_in_range :: "('d \<Rightarrow> bool) \<Rightarrow> 'd check \<Rightarrow> bool" where
  "check_in_range valid c \<longleftrightarrow> pred_option valid (Details c) \<and> pred_option (\<lambda>i. \<bar>i\<bar> < 2 ^ 24) (ResponseTime c)"

text \<open>One dependency in the readiness report.\<close>

record ready_check =
  Ready_Error :: "string option"
  Ready_LastChecked :: "time option"
  Ready_Status :: string

definition zero_ready_check :: ready_check where
  "zero_ready_check = \<lparr>Ready_Error = None, Ready_LastChecked = None, Ready_Status = []\<rparr>"

definition enc_ready_check :: "ready_check \<Rightarrow> json" where
  "enc_ready_check c =
     JObj (opt_field ''error'' JStr (Ready_Error c) @ opt_field ''last_checked'' JTime (Ready_LastChecked c) @
       [(''status'', JStr (Ready_Status c))])"

definition dec_ready_check :: "ready_check \<Rightarrow> json \<Rightarrow> ready_check result" where
  "dec_ready_check old = json_struct (\<lambda>ob.
     bind_result (pointer_field ''error'' (\<lambda>_. dec_string) [] (Ready_Error old) ob) (\<lambda>a.
     bind_result (pointer_field ''last_checked'' (\<lambda>_. dec_time) 0 (Ready_LastChecked old) ob) (\<lambda>b.
     bind_result (json_field ''status'' dec_string (Ready_Status old) ob) (\<lambda>c.
       Inr \<lparr>Ready_Error = a, Ready_LastChecked = b, Ready_Status = c\<rparr>))))
     old"

lemma pointer_field_absent [simp]: "map_of fs k = None \<Longrightarrow> pointer_field k dec zero old fs = Inr old"
  by (simp add: pointer_field_def)

context json_struct_type
begin

lemma pointer_field_enc:
  "map_of fs k = map_option enc x \<Longrightarrow> pred_option valid x \<Longrightarrow> pointer_field k dec zero None fs = Inr x"
  by (cases x) (simp_all add: pointer_field_def pointee_enc)

end

interpretation map_details: json_struct_type enc_map dec_map fmempty any_map
proof
  fix m :: "(string, json) fmap" assume "any_map m"
  then have "dec_any j = Inr j" if "(k, j) \<in> set (sorted_list_of_fmap m)" for k j
    using that by (auto simp: any_map_def sorted_list_of_fmap_def fmlookup_dom_iff intro!: dec_any_value elim: fmpredD)
  then have "map_result (\<lambda>(k, j). map_sum id (Pair k) (dec_any j)) (sorted_list_of_fmap m) = Inr (sorted_list_of_fmap m)"
    by (intro map_result_id) auto
  then show "dec_map fmempty (enc_map m) = Inr m"
    by (simp add: dec_map_def enc_map_def fmap_ext fmlookup_of_list)
qed (simp add: enc_map_def)

interpretation cache_details: json_struct_type HealthResponse_Checks_Cache_Details_MarshalJSON
  HealthResponse_Checks_Cache_Details_UnmarshalJSON zero_details
  "\<lambda>a. details_in_range a \<and> AdditionalProperties a \<noteq> Some fmempty"
proof
  fix a assume "details_in_range a \<and> AdditionalProperties a \<noteq> Some fmempty"
  then show "HealthResponse_Checks_Cache_Details_UnmarshalJSON zero_details (HealthResponse_Checks_Cache_Details_MarshalJSON a) =
      Inr a"
    using details_read [of a] by (simp add: HealthResponse_Checks_Cache_Details_UnmarshalJSON_def
        HealthResponse_Checks_Cache_Details_MarshalJSON_def normal_properties_def)
qed (simp add: HealthResponse_Checks_Cache_Details_MarshalJSON_def CacheDependencyCheck_Details_MarshalJSON_def object_json_def)

interpretation text_pointer: json_struct_type JStr "\<lambda>_. dec_string" "[]" "\<lambda>_. True"
  by unfold_locales simp_all

interpretation time_pointer: json_struct_type JTime "\<lambda>_. dec_time" 0 "\<lambda>_. True"
  by unfold_locales (simp_all add: dec_time_def)

interpretation float32_pointer: json_struct_type JNum "\<lambda>_. dec_float32" 0 "\<lambda>i. \<bar>i\<bar> < 2 ^ 24"
  by unfold_locales (simp_all add: dec_float32_exact)

context json_struct_type
begin

lemma check_enc: "json_struct_type (enc_check enc) (dec_check dec zero) zero_check (check_in_range valid)"
proof
  fix c :: "'a check" assume c: "check_in_range valid c"
  define fs where "fs = opt_field ''details'' enc (Details c) @ opt_field ''error'' JStr (Check_Error c) @
       opt_field ''last_checked'' JTime (LastChecked c) @ opt_field ''response_time'' JNum (ResponseTime c) @
       [(''status'', JStr (Check_Status c))]"
  have "map_of fs ''details'' = map_option enc (Details c)" "map_of fs ''error'' = map_option JStr (Check_Error c)"
    "map_of fs ''last_checked'' = map_option JTime (LastChecked c)"
    "map_of fs ''response_time'' = map_option JNum (ResponseTime c)" "map_of fs ''status'' = Some (JStr (Check_Status c))"
    by (simp_all add: fs_def map_add_def split: option.split)
  then show "dec_check dec zero zero_check (enc_check enc c) = Inr c"
    using c by (simp add: enc_check_def fs_def [symmetric] dec_check_def json_struct_def zero_check_def check_in_range_def
        pointer_field_enc text_pointer.pointer_field_enc time_pointer.pointer_field_enc float32_pointer.pointer_field_enc
        json_field_def option.pred_True)
qed (simp add: enc_check_def)

end

interpretation ready: json_struct_type enc_ready_check dec_ready_check zero_ready_check "\<lambda>_. True"
proof
  fix c :: ready_check
  define fs where "fs = opt_field ''error'' JStr (Ready_Error c) @ opt_field ''last_checked'' JTime (Ready_LastChecked c) @
       [(''status'', JStr (Ready_Status c))]"
  have "map_of fs ''error'' = map_option JStr (Ready_Error c)" "map_of fs ''last_checked'' = map_option JTime (Ready_LastChecked c)"
    "map_of fs ''status'' = Some (JStr (Ready_Status c))"
    by (simp_all add: fs_def map_add_def split: option.split)
  then show "dec_ready_check zero_ready_check (enc_ready_check c) = Inr c"
    by (simp add: enc_ready_check_def fs_def [symmetric] dec_ready_check_def json_struct_def zero_ready_check_def
        text_pointer.pointer_field_enc time_pointer.pointer_field_enc json_field_def option.pred_True)
qed (simp add: enc_ready_check_def)

interpretation dependency: json_struct_type "enc_check enc_map" "dec_check dec_map fmempty" zero_check "check_in_range any_map"
  by (rule map_details.check_enc)

interpretation cache_check: json_struct_type "enc_check HealthResponse_Checks_Cache_Details_MarshalJSON"
  "dec_check HealthResponse_Checks_Cache_Details_UnmarshalJSON zero_details" zero_check
  "check_in_range (\<lambda>a. details_in_range a \<and> AdditionalProperties a \<noteq> Some fmempty)"
  by (rule cache_details.check_enc)

section \<open>The checks together\<close>

record ('c, 'd) checks =
  Cache_Check :: "'c option"
  Queue_Check :: "'d option"
  Storage_Check :: "'d option"
  Additional :: "(string, 'd) fmap option"

definition no_checks :: "('c, 'd) checks" where
  "no_checks = \<lparr>Cache_Check = None, Queue_Check = None, Storage_Check = None, Additional = None\<rparr>"

text \<open>The generator writes the same methods for both reports; \<open>dc\<close> and \<open>dd\<close> decode one check.\<close>

definition unmarshal_checks ::
  "('c \<Rightarrow> json \<Rightarrow> 'c result) \<Rightarrow> 'c \<Rightarrow> ('d \<Rightarrow> json \<Rightarrow> 'd result) \<Rightarrow> 'd \<Rightarrow> ('c, 'd) checks \<Rightarrow> json \<Rightarrow> ('c, 'd) checks result" where
  "unmarshal_checks dc zc dd zd a b =
     bind_result (raw_object b) (\<lambda>ob.
     bind_result (take_field ''cache'' (dec_pointee dc zc) (Cache_Check a) ob) (\<lambda>(c, ob).
     bind_result (take_field ''queue'' (dec_pointee dd zd) (Queue_Check a) ob) (\<lambda>(q, ob).
     bind_result (take_field ''storage'' (dec_pointee dd zd) (Storage_Check a) ob) (\<lambda>(s, ob).
     bind_result (take_rest (dd zd) (Additional a) ob) (\<lambda>ap.
       Inr \<lparr>Cache_Check = c, Queue_Check = q, Storage_Check = s, Additional = ap\<rparr>)))))"

definition marshal_checks :: "('c \<Rightarrow> json) \<Rightarrow> ('d \<Rightarrow> json) \<Rightarrow> ('c, 'd) checks \<Rightarrow> json" where
  "marshal_checks ec ed a =
     object_json (put_rest ed (Additional a) (put_field ''storage'' ed (Storage_Check a)
       (put_field ''queue'' ed (Queue_Check a) (put_field ''cache'' ec (Cache_Check a) fmempty))))"

type_synonym health_checks = "(cache_details check, (string, json) fmap check) checks"
type_synonym ready_checks = "(ready_check, ready_check) checks"

definition HealthResponse_Checks_Get :: "health_checks \<Rightarrow> string \<Rightarrow> (string, json) fmap check option" where
  "HealthResponse_Checks_Get a fieldName = get_property fieldName (Additional a)"

definition HealthResponse_Checks_Set :: "string \<Rightarrow> (string, json) fmap check \<Rightarrow> health_checks \<Rightarrow> health_checks" where
  "HealthResponse_Checks_Set fieldName v a = a\<lparr>Additional := set_property fieldName v (Additional a)\<rparr>"

definition HealthResponse_Checks_UnmarshalJSON :: "health_checks \<Rightarrow> json \<Rightarrow> health_checks result" where
  "HealthResponse_Checks_UnmarshalJSON =
     unmarshal_checks (dec_check HealthResponse_Checks_Cache_Details_UnmarshalJSON zero_details) zero_check
       (dec_check dec_map fmempty) zero_check"

definition HealthResponse_Checks_MarshalJSON :: "health_checks \<Rightarrow> json" where
  "HealthResponse_Checks_MarshalJSON =
     marshal_checks (enc_check HealthResponse_Checks_Cache_Details_MarshalJSON) (enc_check enc_map)"

definition ReadinessResponse_Checks_Get :: "ready_checks \<Rightarrow> string \<Rightarrow> ready_check option" where
  "ReadinessResponse_Checks_Get a fieldName = get_property fieldName (Additional a)"

definition ReadinessResponse_Checks_Set :: "string \<Rightarrow> ready_check \<Rightarrow> ready_checks \<Rightarrow> ready_checks" where
  "ReadinessResponse_Checks_Set fieldName v a = a\<lparr>Additional := set_property fieldName v (Additional a)\<rparr>"

definition ReadinessResponse_Checks_UnmarshalJSON :: "ready_checks \<Rightarrow> json \<Rightarrow> ready_checks result" where
  "ReadinessResponse_Checks_UnmarshalJSON =
     unmarshal_checks dec_ready_check zero_ready_check dec_ready_check zero_ready_check"

definition ReadinessResponse_Checks_MarshalJSON :: "ready_checks \<Rightarrow> json" where
  "ReadinessResponse_Checks_MarshalJSON = marshal_checks enc_ready_check enc_ready_check"

definition checks_in_range :: "('c \<Rightarrow> bool) \<Rightarrow> ('d \<Rightarrow> bool) \<Rightarrow> ('c, 'd) checks \<Rightarrow> bool" where
  "checks_in_range vc vd a \<longleftrightarrow> pred_option vc (Cache_Check a) \<and> pred_option vd (Queue_Check a) \<and>
     pred_option vd (Storage_Check a) \<and> properties_avoid [''cache'', ''queue'', ''storage''] vd (Additional a)"

locale checks_type = cache: json_struct_type ec dc zc vc + dep: json_struct_type ed dd zd vd
  for ec :: "'c \<Rightarrow> json" and dc zc vc and ed :: "'d \<Rightarrow> json" and dd zd vd
begin

lemma checks_read:
  assumes "checks_in_range vc vd a"
  shows "unmarshal_checks dc zc dd zd no_checks (marshal_checks ec ed a) =
    Inr (a\<lparr>Additional := normal_properties (Additional a)\<rparr>)"
proof -
  let ?rest = "put_rest ed (Additional a) fmempty"
  let ?s = "put_field ''storage'' ed (Storage_Check a) ?rest"
  let ?q = "put_field ''queue'' ed (Queue_Check a) ?s"
  have avoid: "properties_avoid [''cache'', ''queue'', ''storage''] vd (Additional a)"
    and v: "pred_option vc (Cache_Check a)" "pred_option vd (Queue_Check a)" "pred_option vd (Storage_Check a)"
    using assms by (simp_all add: checks_in_range_def)
  have get: "get_property ''cache'' (Additional a) = None" "get_property ''queue'' (Additional a) = None"
    "get_property ''storage'' (Additional a) = None"
    by (rule properties_avoid_get [OF avoid], simp)+
  then have none: "fmlookup ?q ''cache'' = None" "fmlookup ?s ''queue'' = None" "fmlookup ?rest ''storage'' = None"
    by (simp_all add: put_rest_lookup)
  have commute: "put_field ''storage'' ed x (put_field ''queue'' ed y ob) = put_field ''queue'' ed y (put_field ''storage'' ed x ob)"
    "put_field ''storage'' ed x (put_field ''cache'' ec z ob) = put_field ''cache'' ec z (put_field ''storage'' ed x ob)"
    "put_field ''queue'' ed x (put_field ''cache'' ec z ob) = put_field ''cache'' ec z (put_field ''queue'' ed x ob)" for x y z ob
    by (rule put_field_commute, simp)+
  have "put_field ''storage'' ed (Storage_Check a) (put_field ''queue'' ed (Queue_Check a) (put_field ''cache'' ec (Cache_Check a) ?rest)) =
      put_field ''cache'' ec (Cache_Check a) ?q"
    unfolding commute ..
  then have m: "marshal_checks ec ed a = object_json (put_field ''cache'' ec (Cache_Check a) ?q)"
    unfolding marshal_checks_def get [THEN put_rest_put_field] by simp
  note steps = cache.take_put [OF none(1) v(1)] dep.take_put [OF none(2) v(2)] dep.take_put [OF none(3) v(3)]
    dep.take_put_rest [OF avoid]
  show ?thesis
    unfolding m unmarshal_checks_def no_checks_def checks.simps raw_object_json bind_result_simps prod.case steps by simp
qed

text \<open>A property with the name of a field is written in the place of the field.\<close>

lemma property_wins:
  assumes "get_property k (Additional a) = Some d"
  shows "raw_object (marshal_checks ec ed a) = Inr ob \<Longrightarrow> fmlookup ob k = Some (ed d)"
  using assms by (auto simp: marshal_checks_def put_rest_lookup)

end

interpretation readiness: checks_type enc_ready_check dec_ready_check zero_ready_check "\<lambda>_. True"
  enc_ready_check dec_ready_check zero_ready_check "\<lambda>_. True"
  by unfold_locales

interpretation health: checks_type "enc_check HealthResponse_Checks_Cache_Details_MarshalJSON"
  "dec_check HealthResponse_Checks_Cache_Details_UnmarshalJSON zero_details" zero_check
  "check_in_range (\<lambda>a. details_in_range a \<and> AdditionalProperties a \<noteq> Some fmempty)"
  "enc_check enc_map" "dec_check dec_map fmempty" zero_check "check_in_range any_map"
  by unfold_locales

section \<open>What a client reads\<close>

text \<open>Also: The checks of the health report are read as they were written, by the code that is generated for
  them, when no additional property has the name of a field and the response times are below
  \<open>2 ^ 24\<close> milliseconds; an empty map comes back as \<open>nil\<close>.\<close>

theorem health_checks_roundtrip:
  assumes "checks_in_range (check_in_range (\<lambda>d. details_in_range d \<and> AdditionalProperties d \<noteq> Some fmempty))
    (check_in_range any_map) a"
  shows "HealthResponse_Checks_UnmarshalJSON no_checks (HealthResponse_Checks_MarshalJSON a) =
    Inr (a\<lparr>Additional := normal_properties (Additional a)\<rparr>)"
  using health.checks_read [OF assms]
  by (simp add: HealthResponse_Checks_UnmarshalJSON_def HealthResponse_Checks_MarshalJSON_def)

definition sample_details :: cache_details where
  "sample_details =
     \<lparr>PoolStats = Some (zero_PoolStats\<lparr>Hits := 3\<rparr>), TotalKeys = Some 7,
      AdditionalProperties = Some (fmupd ''shard'' (JNum 2) fmempty)\<rparr>"

definition sample_checks :: health_checks where
  "sample_checks =
     \<lparr>Cache_Check = Some (zero_check\<lparr>Details := Some sample_details, ResponseTime := Some 5, Check_Status := ''healthy''\<rparr>),
      Queue_Check = None, Storage_Check = Some (zero_check\<lparr>Check_Error := Some ''timeout'', Check_Status := ''unhealthy''\<rparr>),
      Additional = Some (fmupd ''vault'' (zero_check\<lparr>Check_Status := ''healthy''\<rparr>) fmempty)\<rparr>"

lemma sample_checks_in_range:
  "checks_in_range (check_in_range (\<lambda>d. details_in_range d \<and> AdditionalProperties d \<noteq> Some fmempty))
     (check_in_range any_map) sample_checks"
  by (auto simp: sample_checks_def checks_in_range_def check_in_range_def details_in_range_def sample_details_def
      zero_check_def zero_PoolStats_def pool_in_range_def properties_avoid_def in_int64_def intro!: fmpred_upd)

theorem health_checks_roundtrip_witness:
  "HealthResponse_Checks_UnmarshalJSON no_checks (HealthResponse_Checks_MarshalJSON sample_checks) = Inr sample_checks"
proof -
  have "Additional sample_checks \<noteq> Some fmempty"
    by (simp add: sample_checks_def)
  with health_checks_roundtrip [OF sample_checks_in_range] show ?thesis by (simp add: normal_properties_def)
qed

text \<open>Also: An additional property with the name of a field replaces the field: a check called storage, set
  with \<open>Set\<close>, is what a client reads as the check of the storage, and the check of the storage is lost.\<close>

theorem property_replaces_field:
  assumes "checks_in_range (check_in_range (\<lambda>d. details_in_range d \<and> AdditionalProperties d \<noteq> Some fmempty))
    (check_in_range any_map) a" and "check_in_range any_map d"
  shows "HealthResponse_Checks_UnmarshalJSON no_checks
      (HealthResponse_Checks_MarshalJSON (HealthResponse_Checks_Set ''storage'' d a)) =
    Inr (a\<lparr>Storage_Check := Some d, Additional := normal_properties (Additional a)\<rparr>)"
proof -
  let ?b = "a\<lparr>Storage_Check := Some d\<rparr>"
  have free: "get_property ''storage'' (Additional a) = None"
    by (rule properties_avoid_get [OF assms(1) [unfolded checks_in_range_def, THEN conjunct2, THEN conjunct2, THEN conjunct2]]) simp
  have "put_rest enc (set_property ''storage'' d (Additional a)) (put_field ''storage'' enc s ob) =
      put_rest enc (Additional a) (put_field ''storage'' enc (Some d) ob)" for enc :: "_ \<Rightarrow> json" and s ob
  proof (rule fmap_ext)
    fix k
    show "fmlookup (put_rest enc (set_property ''storage'' d (Additional a)) (put_field ''storage'' enc s ob)) k =
      fmlookup (put_rest enc (Additional a) (put_field ''storage'' enc (Some d) ob)) k"
      using free by (cases "k = ''storage''") (simp_all add: put_rest_lookup split: option.split)
  qed
  then have "HealthResponse_Checks_MarshalJSON (HealthResponse_Checks_Set ''storage'' d a) = HealthResponse_Checks_MarshalJSON ?b"
    by (simp add: HealthResponse_Checks_MarshalJSON_def HealthResponse_Checks_Set_def marshal_checks_def)
  moreover have "checks_in_range (check_in_range (\<lambda>d. details_in_range d \<and> AdditionalProperties d \<noteq> Some fmempty))
      (check_in_range any_map) ?b"
    using assms by (simp add: checks_in_range_def)
  ultimately show ?thesis
    using health.checks_read [of ?b]
    by (simp add: HealthResponse_Checks_UnmarshalJSON_def HealthResponse_Checks_MarshalJSON_def)
qed

theorem property_replaces_field_witness:
  "\<exists>b. HealthResponse_Checks_UnmarshalJSON no_checks
      (HealthResponse_Checks_MarshalJSON (HealthResponse_Checks_Set ''storage'' (zero_check\<lparr>Check_Status := ''healthy''\<rparr>) sample_checks)) =
    Inr b \<and> map_option Check_Status (Storage_Check b) = Some ''healthy'' \<and>
    map_option Check_Status (Storage_Check sample_checks) = Some ''unhealthy''"
proof -
  have "check_in_range any_map (zero_check\<lparr>Check_Status := ''healthy''\<rparr>)"
    by (simp add: check_in_range_def zero_check_def)
  from property_replaces_field [OF sample_checks_in_range this] show ?thesis by (simp add: sample_checks_def)
qed

lemma take_rest_keys:
  assumes "take_rest dec old ob = Inr ap" "ob \<noteq> fmempty"
  shows "\<exists>m. ap = Some m \<and> fmdom' m = fmdom' ob"
proof -
  let ?F = "\<lambda>(k, raw). case dec raw of Inl e \<Rightarrow> Inl (ErrWrap (''error unmarshaling field '' @ k) e) | Inr x \<Rightarrow> Inr (k, x)"
  from assms obtain xs where xs: "map_result ?F (sorted_list_of_fmap ob) = Inr xs" and ap: "ap = Some (fmap_of_list xs)"
    by (auto simp: take_rest_def map_sum_def split: sum.splits)
  from map_result_all2 [OF xs] have "map fst xs = map fst (sorted_list_of_fmap ob)"
    by (induction rule: list_all2_induct) (auto split: sum.splits prod.splits)
  then have "fmdom' (fmap_of_list xs) = fmdom' ob"
    by (simp add: fmdom'_alt_def fset_of_list.rep_eq sorted_list_of_fmap_def)
  with ap show ?thesis by blast
qed

lemma take_field_result:
  assumes "take_field k dec old ob = Inr (x, ob')"
  shows "ob' = fmdrop k ob" "fmlookup ob k = None \<Longrightarrow> x = old"
  using assms by (auto simp: take_field_def fmap_ext split: option.splits sum.splits)

text \<open>Also: Reading over a value keeps what the text does not mention. A check that the new text has no key
  for stays, and so do all additional properties when the new text has none; when it has some, they
  replace the old ones.\<close>

theorem reading_keeps_stale_checks:
  assumes "ReadinessResponse_Checks_UnmarshalJSON a (JObj fs) = Inr b"
  shows "(''cache'' \<notin> set (map fst fs) \<longrightarrow> Cache_Check b = Cache_Check a) \<and>
    (''queue'' \<notin> set (map fst fs) \<longrightarrow> Queue_Check b = Queue_Check a) \<and>
    (''storage'' \<notin> set (map fst fs) \<longrightarrow> Storage_Check b = Storage_Check a) \<and>
    (let new = set (map fst fs) - {''cache'', ''queue'', ''storage''}
     in if new = {} then Additional b = Additional a else \<exists>m. Additional b = Some m \<and> fmdom' m = new)"
proof -
  let ?dec = "dec_pointee dec_ready_check zero_ready_check"
  let ?o1 = "fmap_of_list fs"
  let ?o2 = "fmdrop ''cache'' ?o1"
  let ?o3 = "fmdrop ''queue'' ?o2"
  let ?o4 = "fmdrop ''storage'' ?o3"
  from assms obtain c q s ap o2 o3 o4 where
    c: "take_field ''cache'' ?dec (Cache_Check a) ?o1 = Inr (c, o2)" and
    q: "take_field ''queue'' ?dec (Queue_Check a) o2 = Inr (q, o3)" and
    s: "take_field ''storage'' ?dec (Storage_Check a) o3 = Inr (s, o4)" and
    ap: "take_rest (dec_ready_check zero_ready_check) (Additional a) o4 = Inr ap" and
    b: "b = \<lparr>Cache_Check = c, Queue_Check = q, Storage_Check = s, Additional = ap\<rparr>"
    by (auto simp: ReadinessResponse_Checks_UnmarshalJSON_def unmarshal_checks_def raw_object_def bind_result_def
        split: sum.splits)
  have obs: "o2 = ?o2" "o3 = ?o3" "o4 = ?o4"
    using take_field_result(1) [OF c] take_field_result(1) [OF q] take_field_result(1) [OF s] by simp_all
  have none: "fmlookup ?o1 k = None \<longleftrightarrow> k \<notin> set (map fst fs)" for k
    by (simp add: fmlookup_of_list map_of_eq_None_iff)
  have stale: "''cache'' \<notin> set (map fst fs) \<longrightarrow> Cache_Check b = Cache_Check a"
    "''queue'' \<notin> set (map fst fs) \<longrightarrow> Queue_Check b = Queue_Check a"
    "''storage'' \<notin> set (map fst fs) \<longrightarrow> Storage_Check b = Storage_Check a"
    using take_field_result(2) [OF c] take_field_result(2) [OF q] take_field_result(2) [OF s] none by (simp_all add: b obs)
  let ?new = "set (map fst fs) - {''cache'', ''queue'', ''storage''}"
  have dom: "fmdom' ?o4 = ?new"
    by (auto simp: fmdom'_alt_def fset_of_list.rep_eq)
  have "o4 = fmempty \<longleftrightarrow> ?new = {}"
    unfolding obs dom [symmetric] by (metis fmdom'_empty fmrestrict_set_dom fmrestrict_set_null)
  then have "if ?new = {} then Additional b = Additional a else \<exists>m. Additional b = Some m \<and> fmdom' m = ?new"
    using take_rest_keys [OF ap] ap dom by (auto simp: b obs take_rest_def)
  with stale show ?thesis by (simp only: Let_def)
qed

definition stale_checks :: ready_checks where
  "stale_checks = no_checks\<lparr>Cache_Check := Some (zero_ready_check\<lparr>Ready_Status := ''healthy''\<rparr>)\<rparr>"

theorem reading_keeps_stale_checks_witness:
  "\<exists>b. ReadinessResponse_Checks_UnmarshalJSON stale_checks (JObj [(''storage'', JObj [(''status'', JStr ''unhealthy'')])]) = Inr b \<and>
     map_option Ready_Status (Cache_Check b) = Some ''healthy''"
proof -
  let ?fs = "[(''storage'', JObj [(''status'', JStr ''unhealthy'')])]"
  have drop: "fmdrop ''storage'' (fmupd ''storage'' v fmempty) = fmempty" for v :: json
    by (rule fmap_ext) simp
  obtain b where b: "ReadinessResponse_Checks_UnmarshalJSON stale_checks (JObj ?fs) = Inr b"
    by (simp add: ReadinessResponse_Checks_UnmarshalJSON_def unmarshal_checks_def raw_object_def take_field_def
        dec_pointee_def dec_ready_check_def json_struct_def json_field_def take_rest_def drop stale_checks_def no_checks_def)
  have "''cache'' \<notin> set (map fst ?fs)" by simp
  with reading_keeps_stale_checks [OF b] have "Cache_Check b = Cache_Check stale_checks" by blast
  with b show ?thesis by (simp add: stale_checks_def)
qed

text \<open>What a client makes of the readiness report.\<close>

definition ready_check_of :: "dependency_status \<Rightarrow> ready_check" where
  "ready_check_of d = zero_ready_check\<lparr>Ready_Status := DomainDependencyStatusToHandler (ds_status d)\<rparr>"

definition ready_checks_of :: "readiness_result \<Rightarrow> ready_checks" where
  "ready_checks_of res =
     \<lparr>Cache_Check = Some (ready_check_of (Cache res)), Queue_Check = Some (ready_check_of (Queue res)),
      Storage_Check = Some (ready_check_of (Storage res)), Additional = None\<rparr>"

lemma three_checks:
  "marshal_checks enc enc' \<lparr>Cache_Check = Some c, Queue_Check = Some q, Storage_Check = Some s, Additional = None\<rparr> =
     JObj [(''cache'', enc c), (''queue'', enc' q), (''storage'', enc' s)]"
proof -
  have "sorted_list_of_set {''storage'', ''queue'', ''cache''} = [''cache'', ''queue'', ''storage'']"
    by (rule sorted_list_of_set_unique [THEN iffD1]) (auto simp: less_char_def)
  then show ?thesis
    by (simp add: marshal_checks_def object_json_def put_rest_def put_field_def sorted_list_of_fmap_def
        sorted_list_of_fset.rep_eq)
qed


end
