(* ===== verification/Programs.thy ===== *)
theory Programs
  imports Runtime Wiring
begin

text \<open>
  The lives of the publisher and of the subscriber (\<open>internal/runtime/publisher.go\<close>, \<open>subscriber.go\<close>): the
  main goroutine, which waits for a signal and stops, beside the goroutines that work, as step
  relations. With an exit status the process is gone, and its goroutines with it.
\<close>

section \<open>The publisher\<close>

text \<open>
  The main goroutine waits, has cancelled the context, has closed the queue, has closed the storage.
  The loop of the processor is in its select, in the batches of a tick, or has returned the error of
  its context. The pending batch (\<open>True\<close>) and the retryable batch of a tick run side by side, each
  with a goroutine for every event: the even workers and the odd ones.
\<close>

datatype publisher_main = PWaiting | PCancelled | PQueueClosed | PCleaned

datatype batch_pc = BatchStart | BatchRunning | BatchDone

datatype loop_pc = Selecting | InTick | LoopReturned ctx_error

record publisher =
  u_main :: publisher_main
  u_ctx :: "ctx_error option"  \<comment> \<open>of \<open>backgroundActorCtx\<close>\<close>
  u_loop :: loop_pc
  u_batch :: "bool \<Rightarrow> batch_pc"
  u_workers :: "nat \<Rightarrow> pub_pc"
  u_queue :: rabbit
  u_world :: world
  u_exit :: "nat option"

definition publisher_start :: "rabbit \<Rightarrow> world \<Rightarrow> publisher" where
  "publisher_start q w =
     \<lparr>u_main = PWaiting, u_ctx = None, u_loop = Selecting, u_batch = (\<lambda>_. BatchDone), u_workers = (\<lambda>_. PubIdle),
      u_queue = q, u_world = w, u_exit = None\<rparr>"

definition in_batch :: "bool \<Rightarrow> nat \<Rightarrow> bool" where
  "in_batch pending j \<longleftrightarrow> even j = pending"

definition find_batch :: "bool \<Rightarrow> env \<Rightarrow> world \<Rightarrow> outbox_event list result \<times> world" where
  "find_batch pending env = (if pending then ob_FindPending env BatchSize else ob_FindRetryable env BatchSize)"

definition start_workers :: "bool \<Rightarrow> outbox_event list \<Rightarrow> (nat \<Rightarrow> pub_pc) \<Rightarrow> nat \<Rightarrow> pub_pc" where
  "start_workers pending evs T j = (if in_batch pending j \<and> j div 2 < length evs then PubClaim (evs ! (j div 2)) else T j)"

definition worker_finished :: "pub_pc \<Rightarrow> bool" where
  "worker_finished pc \<longleftrightarrow> (case pc of PubIdle \<Rightarrow> True | PubDone _ \<Rightarrow> True | _ \<Rightarrow> False)"

text \<open>What a worker asks for after the queue or the storage was closed is refused.\<close>

definition refusing :: "env \<Rightarrow> env" where
  "refusing env = env\<lparr>fault := (\<lambda>_. Lost (ErrText ''closed''))\<rparr>"

definition worker_env :: "env \<Rightarrow> publisher \<Rightarrow> pub_pc \<Rightarrow> env" where
  "worker_env env s pc =
     (case pc of
        PubSend _ \<Rightarrow> if IsConnected (u_queue s) then env else refusing env
      | _ \<Rightarrow> if u_main s = PCleaned then refusing env else env)"

inductive publisher_step ::
  "env \<Rightarrow> string \<Rightarrow> (nat \<Rightarrow> int \<Rightarrow> duration) \<Rightarrow> publisher \<Rightarrow> publisher \<Rightarrow> bool" for env exchange delay
where
  TickerFires: "u_exit s = None \<Longrightarrow> u_loop s = Selecting \<Longrightarrow>
    publisher_step env exchange delay s (s\<lparr>u_loop := InTick, u_batch := (\<lambda>_. BatchStart)\<rparr>)"
| Find: "u_exit s = None \<Longrightarrow> u_loop s = InTick \<Longrightarrow> u_batch s b = BatchStart \<Longrightarrow>
    find_batch b (if u_main s = PCleaned then refusing env else env) (u_world s) = (r, w) \<Longrightarrow>
    publisher_step env exchange delay s
      (case r of
         Inl _ \<Rightarrow> s\<lparr>u_world := w, u_batch := (u_batch s)(b := BatchDone)\<rparr>
       | Inr evs \<Rightarrow> s\<lparr>u_world := w, u_batch := (u_batch s)(b := BatchRunning),
           u_workers := start_workers b evs (u_workers s)\<rparr>)"
| Work: "u_exit s = None \<Longrightarrow> \<not> worker_finished (u_workers s j) \<Longrightarrow>
    pub_step (worker_env env s (u_workers s j)) exchange delay (u_workers s j) (u_world s) = (pc, w) \<Longrightarrow>
    publisher_step env exchange delay s (s\<lparr>u_world := w, u_workers := (u_workers s)(j := pc)\<rparr>)"
| BatchEnds: "u_exit s = None \<Longrightarrow> u_batch s b = BatchRunning \<Longrightarrow>
    (\<And>j. in_batch b j \<Longrightarrow> worker_finished (u_workers s j)) \<Longrightarrow>
    publisher_step env exchange delay s (s\<lparr>u_batch := (u_batch s)(b := BatchDone)\<rparr>)"
| TickEnds: "u_exit s = None \<Longrightarrow> u_loop s = InTick \<Longrightarrow> u_batch s = (\<lambda>_. BatchDone) \<Longrightarrow>
    publisher_step env exchange delay s (s\<lparr>u_loop := Selecting\<rparr>)"
| LoopReturns: "u_exit s = None \<Longrightarrow> u_loop s = Selecting \<Longrightarrow> u_ctx s = Some e \<Longrightarrow>
    publisher_step env exchange delay s (s\<lparr>u_loop := LoopReturned e\<rparr>)"
| LoopFatal: "u_exit s = None \<Longrightarrow> u_loop s = LoopReturned e \<Longrightarrow> e \<noteq> Canceled \<Longrightarrow>
    publisher_step env exchange delay s (s\<lparr>u_exit := Some 1\<rparr>)"
| ConnectionLost: "u_exit s = None \<Longrightarrow>
    publisher_step env exchange delay s (s\<lparr>u_queue := (u_queue s)\<lparr>q_conn := map_option (\<lambda>_. True) (q_conn (u_queue s))\<rparr>\<rparr>)"
| Signalled: "u_exit s = None \<Longrightarrow> u_main s = PWaiting \<Longrightarrow>
    publisher_step env exchange delay s (s\<lparr>u_main := PCancelled, u_ctx := Some Canceled\<rparr>)"
| QueueCloses: "u_exit s = None \<Longrightarrow> u_main s = PCancelled \<Longrightarrow> queue_Close env (u_queue s) (u_world s) = (r, q, w) \<Longrightarrow>
    publisher_step env exchange delay s (s\<lparr>u_main := PQueueClosed, u_queue := q, u_world := w\<rparr>)"
| StorageCloses: "u_exit s = None \<Longrightarrow> u_main s = PQueueClosed \<Longrightarrow> amqp_call env (u_world s) = (r, w) \<Longrightarrow>
    publisher_step env exchange delay s (s\<lparr>u_main := PCleaned, u_world := w\<rparr>)"
| Returns: "u_exit s = None \<Longrightarrow> u_main s = PCleaned \<Longrightarrow> publisher_step env exchange delay s (s\<lparr>u_exit := Some 0\<rparr>)"

abbreviation publisher_reach ::
  "env \<Rightarrow> string \<Rightarrow> (nat \<Rightarrow> int \<Rightarrow> duration) \<Rightarrow> rabbit \<Rightarrow> world \<Rightarrow> publisher \<Rightarrow> bool" where
  "publisher_reach env exchange delay q w \<equiv> (publisher_step env exchange delay)\<^sup>*\<^sup>* (publisher_start q w)"

definition publisher_ok :: "publisher \<Rightarrow> bool" where
  "publisher_ok s \<longleftrightarrow> pub_inv (u_workers s, u_world s) \<and>
     u_ctx s = (if u_main s = PWaiting then None else Some Canceled) \<and>
     (\<forall>e. u_loop s = LoopReturned e \<longrightarrow> e = Canceled) \<and>
     (u_main s \<in> {PQueueClosed, PCleaned} \<longrightarrow> \<not> IsConnected (u_queue s)) \<and>
     (u_exit s = None \<or> u_exit s = Some 0 \<and> u_main s = PCleaned)"

lemma amqp_call_tables: "amqp_call env w = (r, w') \<Longrightarrow> outbox_tab w' = outbox_tab w \<and> bus w' = bus w"
  by (auto simp: amqp_call_def statement_def call_def split: outcome.splits prod.splits sum.splits)

lemma queue_Close_tables: "queue_Close env q w = (r, q', w') \<Longrightarrow> outbox_tab w' = outbox_tab w \<and> bus w' = bus w"
  by (auto simp: queue_Close_def channel_Close_def Let_def dest!: amqp_call_tables split: option.splits prod.splits if_splits)

lemma find_batch_tables: "find_batch b env w = (r, w') \<Longrightarrow> outbox_tab w' = outbox_tab w"
  using ob_FindPending_state(1) [of env BatchSize w] ob_FindRetryable_state [of env BatchSize w]
  by (auto simp: find_batch_def split: if_splits)

lemma pub_inv_world: "pub_inv (T, w) \<Longrightarrow> outbox_tab w' = outbox_tab w \<Longrightarrow> pub_inv (T, w')"
  using outbox_table_same by (auto simp: pub_inv_def busy_def)

lemma pub_inv_workers: "pub_inv (T, w) \<Longrightarrow> (\<And>i j. holds i (T' j) \<Longrightarrow> holds i (T j)) \<Longrightarrow> pub_inv (T', w)"
  unfolding pub_inv_def prod.case by blast

lemma start_workers_holds: "holds i (start_workers b evs T j) \<Longrightarrow> holds i (T j)"
  by (auto simp: start_workers_def holds_def split: if_splits)

lemma publisher_ok_step: "publisher_step env ex d s s' \<Longrightarrow> publisher_ok s \<Longrightarrow> publisher_ok s'"
proof (induction rule: publisher_step.induct)
  case (Find s b r w)
  then have inv: "pub_inv (u_workers s, w)" using pub_inv_world find_batch_tables by (auto simp: publisher_ok_def)
  have "pub_inv (start_workers b evs (u_workers s), w)" for evs
    using start_workers_holds by (rule pub_inv_workers [OF inv])
  with Find inv show ?case by (auto simp: publisher_ok_def split: sum.split)
next
  case (Work s j pc w)
  then show ?case using pub_inv_step by (auto simp: publisher_ok_def)
next
  case (QueueCloses s r q w)
  then show ?case
    using pub_inv_world queue_Close_tables queue_Close_down by (auto simp: publisher_ok_def)
next
  case (StorageCloses s r w)
  then show ?case using pub_inv_world amqp_call_tables by (auto simp: publisher_ok_def)
next
  case (ConnectionLost s)
  then show ?case by (auto simp: publisher_ok_def IsConnected_def)
qed (auto simp: publisher_ok_def split: if_splits)

lemma publisher_start_ok: "outbox_table_ok w \<Longrightarrow> publisher_ok (publisher_start q w)"
  by (simp add: publisher_ok_def publisher_start_def pub_inv_def holds_def)

interpretation publisher_run: step_invariant "publisher_step env ex d" "publisher_start q w"
  "\<lambda>s. outbox_table_ok w \<longrightarrow> publisher_ok s"
  for env ex d q w
  by unfold_locales (simp_all add: publisher_ok_step publisher_start_ok)

lemma publisher_reach_ok: "publisher_reach env ex d q w s \<Longrightarrow> outbox_table_ok w \<Longrightarrow> publisher_ok s"
  using publisher_run.reached by blast

text \<open>From every state without an exit the main goroutine can go on to the exit, alone.\<close>

lemma publisher_leaves:
  assumes "u_exit s = None"
  shows "\<exists>s'. (publisher_step env ex d)\<^sup>*\<^sup>* s s' \<and> u_exit s' = Some 0 \<and> u_workers s' = u_workers s \<and>
    outbox_tab (u_world s') = outbox_tab (u_world s) \<and> bus (u_world s') = bus (u_world s)"
    (is "?leaves s")
proof -
  let ?R = "publisher_step env ex d"
  have go: "?leaves a" if "?R a b" "u_workers b = u_workers a" "outbox_tab (u_world b) = outbox_tab (u_world a)"
    "bus (u_world b) = bus (u_world a)" "?leaves b" for a b
    using that by (metis converse_rtranclp_into_rtranclp)
  have cleaned: "?leaves a" if "u_exit a = None" "u_main a = PCleaned" for a
    using publisher_step.Returns [OF that, of env ex d] by (intro exI [of _ "a\<lparr>u_exit := Some 0\<rparr>"]) auto
  have closed: "?leaves a" if "u_exit a = None" "u_main a = PQueueClosed" for a
  proof -
    obtain r w where w: "amqp_call env (u_world a) = (r, w)" by force
    show ?thesis
      by (intro go [OF publisher_step.StorageCloses [OF that w]] cleaned)
         (simp_all add: that(1) amqp_call_tables [OF w])
  qed
  have cancelled: "?leaves a" if "u_exit a = None" "u_main a = PCancelled" for a
  proof -
    obtain r q w where w: "queue_Close env (u_queue a) (u_world a) = (r, q, w)" by (metis surj_pair)
    show ?thesis
      by (intro go [OF publisher_step.QueueCloses [OF that w]] closed)
         (simp_all add: that(1) queue_Close_tables [OF w])
  qed
  have waiting: "?leaves a" if "u_exit a = None" "u_main a = PWaiting" for a
    by (intro go [OF publisher_step.Signalled [OF that]] cancelled) (simp_all add: that(1))
  show ?thesis
    using assms cleaned closed cancelled waiting by (cases "u_main s") auto
qed

text \<open>Also: The publisher ends regularly, and only on a signal: the error with which the processor returns is
  that of the context that the signal has cancelled, which is not fatal; the queue is closed by then.
  Its workers obey the rules of the publishers of \<open>Publisher\<close>, so of one event at most one worker
  holds it.\<close>

theorem publisher_ends_regularly:
  assumes "publisher_reach env ex d q w s" "outbox_table_ok w"
  shows "(u_exit s = None \<or> u_exit s = Some 0) \<and> (u_exit s \<noteq> None \<longrightarrow> u_ctx s = Some Canceled \<and> \<not> IsConnected (u_queue s)) \<and>
    (holds i (u_workers s j) \<and> holds i (u_workers s k) \<longrightarrow> j = k) \<and> outbox_table_ok (u_world s)"
  using publisher_reach_ok [OF assms] by (auto simp: publisher_ok_def pub_inv_def)

text \<open>C24: The publisher does not wait for its workers. Whatever an event that one of them holds is at, the
  program can be told to stop and be gone, with the event in processing; no publisher that runs later,
  and no subscriber, brings it back: it can never be claimed again, and is never found.\<close>

theorem publisher_stop_orphans:
  assumes "publisher_reach env ex d q w s" "outbox_table_ok w" "u_exit s = None" "holds i (u_workers s j)"
  shows "\<exists>s'. (publisher_step env ex d)\<^sup>*\<^sup>* s s' \<and> u_exit s' = Some 0 \<and> bus (u_world s') = bus (u_world s) \<and>
    (\<forall>t. (pub_sys env' ex d)\<^sup>*\<^sup>* (\<lambda>_. PubIdle, u_world s') t \<longrightarrow> busy i (snd t) \<and> \<not> claimable i (snd t) \<and>
      (\<forall>n evs. fst (ob_FindPending env' n (snd t)) = Inr evs \<or> fst (ob_FindRetryable env' n (snd t)) = Inr evs
         \<longrightarrow> i \<notin> oe_id ` set evs))"
proof -
  obtain s' where s': "(publisher_step env ex d)\<^sup>*\<^sup>* s s'" "u_exit s' = Some 0" "u_workers s' = u_workers s"
    "bus (u_world s') = bus (u_world s)"
    using publisher_leaves [OF assms(3)] by blast
  have "publisher_ok s'"
    using publisher_reach_ok [OF rtranclp_trans [OF assms(1) s'(1)] assms(2)] .
  then have inv: "pub_inv (u_workers s', u_world s')" by (simp add: publisher_ok_def)
  then have busy: "busy i (u_world s')" and ok: "outbox_table_ok (u_world s')"
    using assms(4) unfolding pub_inv_def prod.case s'(3) by blast+
  have "\<forall>k. \<not> holds i (fst (\<lambda>_::nat. PubIdle, u_world s') k)" by (simp add: holds_def)
  with orphan_stays [of env' ex d "(\<lambda>_. PubIdle, u_world s')" _ i] busy ok have
    "busy i (snd t) \<and> \<not> claimable i (snd t) \<and>
      (\<forall>n evs. fst (ob_FindPending env' n (snd t)) = Inr evs \<or> fst (ob_FindRetryable env' n (snd t)) = Inr evs
         \<longrightarrow> i \<notin> oe_id ` set evs)" if "(pub_sys env' ex d)\<^sup>*\<^sup>* (\<lambda>_. PubIdle, u_world s') t" for t
    using that by simp
  with s' show ?thesis by blast
qed

section \<open>The subscriber\<close>

text \<open>
  The main goroutine waits or has cancelled the context, and returns at once; the function that would
  close the clients is never called. The consumer receives, works on a delivery, or has finished;
  \<open>s_arrived\<close> are the deliveries that the broker has sent and the consumer has not taken.
  \<open>s_consume\<close> is what \<open>Consume\<close> has returned, the end of the context or the end of the consumer,
  whichever its select takes. The handler is that of the worker; \<open>None\<close> is a panic.
\<close>

datatype subscriber_main = SWaiting | SCancelled

datatype consume_result = ContextError ctx_error | ConsumerError error

datatype consumer_pc = Receiving | Working delivery | Finished consume_result

record subscriber =
  s_main :: subscriber_main
  s_ctx :: "ctx_error option"
  s_consumer :: consumer_pc
  s_arrived :: "delivery list"
  s_consume :: "consume_result option"
  s_queue :: rabbit
  s_world :: world
  s_exit :: "nat option"

definition subscriber_initial :: "rabbit \<Rightarrow> world \<Rightarrow> subscriber" where
  "subscriber_initial q w =
     \<lparr>s_main = SWaiting, s_ctx = None, s_consumer = Receiving, s_arrived = [], s_consume = None, s_queue = q,
      s_world = w, s_exit = None\<rparr>"

definition deliver_to ::
  "env \<Rightarrow> (msg \<Rightarrow> world \<Rightarrow> unit result option \<times> world) \<Rightarrow> delivery \<Rightarrow> world \<Rightarrow> unit option \<times> world" where
  "deliver_to env handler d w =
     (case decode_delivery d of
        Inl _ \<Rightarrow> (Some (), snd (settle env Nacked d w))
      | Inr m \<Rightarrow> (case handler m w of (r, w1) \<Rightarrow> (map_option (\<lambda>_. ()) r, w1)))"

inductive subscriber_step ::
  "env \<Rightarrow> (msg \<Rightarrow> world \<Rightarrow> unit result option \<times> world) \<Rightarrow> subscriber \<Rightarrow> subscriber \<Rightarrow> bool" for env handler
where
  Arrives: "s_exit s = None \<Longrightarrow> IsConnected (s_queue s) \<Longrightarrow>
    subscriber_step env handler s (s\<lparr>s_arrived := s_arrived s @ [d]\<rparr>)"
| Receives: "s_exit s = None \<Longrightarrow> s_consumer s = Receiving \<Longrightarrow> s_arrived s = d # ds \<Longrightarrow>
    subscriber_step env handler s (s\<lparr>s_consumer := Working d, s_arrived := ds\<rparr>)"
| Handles: "s_exit s = None \<Longrightarrow> s_consumer s = Working d \<Longrightarrow> deliver_to env handler d (s_world s) = (Some (), w) \<Longrightarrow>
    subscriber_step env handler s (s\<lparr>s_consumer := Receiving, s_world := w\<rparr>)"
| Panics: "s_exit s = None \<Longrightarrow> s_consumer s = Working d \<Longrightarrow> deliver_to env handler d (s_world s) = (None, w) \<Longrightarrow>
    subscriber_step env handler s (s\<lparr>s_world := w, s_exit := Some 2\<rparr>)"
| ContextEnds: "s_exit s = None \<Longrightarrow> s_consumer s = Receiving \<Longrightarrow> s_ctx s = Some e \<Longrightarrow>
    subscriber_step env handler s (s\<lparr>s_consumer := Finished (ContextError e)\<rparr>)"
| DeliveriesEnd: "s_exit s = None \<Longrightarrow> s_consumer s = Receiving \<Longrightarrow> s_arrived s = [] \<Longrightarrow>
    q_channel (s_queue s) = Some ch \<Longrightarrow> ch_closed ch \<or> ch_canceled ch \<Longrightarrow>
    subscriber_step env handler s (s\<lparr>s_consumer := Finished (ConsumerError (ErrText ''delivery channel closed''))\<rparr>)"
| ConsumeEnds: "s_exit s = None \<Longrightarrow> s_consume s = None \<Longrightarrow> s_ctx s = Some e \<Longrightarrow>
    subscriber_step env handler s (s\<lparr>s_consume := Some (ContextError e)\<rparr>)"
| ConsumeReports: "s_exit s = None \<Longrightarrow> s_consume s = None \<Longrightarrow> s_consumer s = Finished r \<Longrightarrow>
    subscriber_step env handler s (s\<lparr>s_consume := Some r\<rparr>)"
| ConsumeFatal: "s_exit s = None \<Longrightarrow> s_consume s = Some r \<Longrightarrow> r \<noteq> ContextError Canceled \<Longrightarrow>
    subscriber_step env handler s (s\<lparr>s_exit := Some 1\<rparr>)"
| Disconnected: "s_exit s = None \<Longrightarrow>
    subscriber_step env handler s (s\<lparr>s_queue := (s_queue s)\<lparr>q_conn := map_option (\<lambda>_. True) (q_conn (s_queue s))\<rparr>\<rparr>)"
| Interrupted: "s_exit s = None \<Longrightarrow> s_main s = SWaiting \<Longrightarrow>
    subscriber_step env handler s (s\<lparr>s_main := SCancelled, s_ctx := Some Canceled\<rparr>)"
| Leaves: "s_exit s = None \<Longrightarrow> s_main s = SCancelled \<Longrightarrow> subscriber_step env handler s (s\<lparr>s_exit := Some 0\<rparr>)"

abbreviation subscriber_reach ::
  "env \<Rightarrow> (msg \<Rightarrow> world \<Rightarrow> unit result option \<times> world) \<Rightarrow> rabbit \<Rightarrow> world \<Rightarrow> subscriber \<Rightarrow> bool" where
  "subscriber_reach env handler q w \<equiv> (subscriber_step env handler)\<^sup>*\<^sup>* (subscriber_initial q w)"

definition subscriber_ok :: "(msg \<Rightarrow> world \<Rightarrow> unit result option \<times> world) \<Rightarrow> subscriber \<Rightarrow> bool" where
  "subscriber_ok handler s \<longleftrightarrow>
     s_ctx s = (if s_main s = SWaiting then None else Some Canceled) \<and>
     q_channel (s_queue s) = Some new_channel \<and> \<not> q_closed (s_queue s) \<and>
     (\<forall>r. s_consumer s = Finished r \<or> s_consume s = Some r \<longrightarrow> r = ContextError Canceled) \<and>
     (s_exit s = None \<or> s_exit s = Some 0 \<and> s_main s = SCancelled \<or> s_exit s = Some 2 \<and> (\<exists>m w. fst (handler m w) = None))"

lemma deliver_to_panics: "deliver_to env handler d w = (None, w') \<Longrightarrow> \<exists>m w. fst (handler m w) = None"
  by (auto simp: deliver_to_def split: sum.splits prod.splits) (metis fst_conv)

lemma subscriber_ok_step: "subscriber_step env handler s s' \<Longrightarrow> subscriber_ok handler s \<Longrightarrow> subscriber_ok handler s'"
proof (induction rule: subscriber_step.induct)
  case (Panics s d w)
  then show ?case using deliver_to_panics by (auto simp: subscriber_ok_def)
next
  case (DeliveriesEnd s ch)
  then show ?case by (auto simp: subscriber_ok_def new_channel_def)
qed (auto simp: subscriber_ok_def split: if_splits)

lemma subscriber_initial_ok:
  "q_channel q = Some new_channel \<Longrightarrow> \<not> q_closed q \<Longrightarrow> subscriber_ok handler (subscriber_initial q w)"
  by (simp add: subscriber_ok_def subscriber_initial_def)

interpretation subscriber_run: step_invariant "subscriber_step env handler" "subscriber_initial q w"
  "\<lambda>s. q_channel q = Some new_channel \<and> \<not> q_closed q \<longrightarrow> subscriber_ok handler s"
  for env handler q w
  by unfold_locales (auto intro: subscriber_ok_step subscriber_initial_ok)

lemma subscriber_reach_ok:
  "subscriber_reach env handler q w s \<Longrightarrow> q_channel q = Some new_channel \<Longrightarrow> \<not> q_closed q \<Longrightarrow> subscriber_ok handler s"
  using subscriber_run.reached by blast

text \<open>Also: The subscriber ends with 0 only on a signal, with 2 only when the handler panics, and never with a
  fatal error: its consumer ends only with its context, because nothing closes the channel; nothing
  closes the queue either, not even the end of the program.\<close>

theorem subscriber_ends_only_when_told:
  assumes "subscriber_reach env handler q w s" "q_channel q = Some new_channel" "\<not> q_closed q"
  shows "s_exit s \<noteq> Some 1 \<and> (s_exit s = Some 0 \<longrightarrow> s_ctx s = Some Canceled) \<and>
    (s_exit s = Some 2 \<longrightarrow> (\<exists>m w. fst (handler m w) = None)) \<and> \<not> q_closed (s_queue s) \<and>
    (\<forall>r. s_consumer s = Finished r \<longrightarrow> r = ContextError Canceled)"
  using subscriber_reach_ok [OF assms] by (auto simp: subscriber_ok_def split: if_splits)

text \<open>Also: The subscriber does not wait for the message in work: it can be told to stop and be gone with that
  message, and all that have arrived, unsettled; with the tables and the cache as the work has left
  them so far.\<close>

theorem subscriber_stop_unsettled:
  assumes "subscriber_reach env handler q w s" "s_exit s = None" "s_consumer s = Working d"
  shows "\<exists>s'. (subscriber_step env handler)\<^sup>*\<^sup>* s s' \<and> s_exit s' = Some 0 \<and> s_consumer s' = Working d \<and>
    s_arrived s' = s_arrived s \<and> s_world s' = s_world s"
proof -
  let ?R = "subscriber_step env handler"
  have leave: "?R a (a\<lparr>s_exit := Some 0\<rparr>)" if "s_exit a = None" "s_main a = SCancelled" for a
    by (rule subscriber_step.Leaves [OF that])
  show ?thesis
  proof (cases "s_main s")
    case SCancelled
    then show ?thesis
      using leave [OF assms(2)] assms(3) by (intro exI [of _ "s\<lparr>s_exit := Some 0\<rparr>"]) auto
  next
    case SWaiting
    let ?c = "s\<lparr>s_main := SCancelled, s_ctx := Some Canceled\<rparr>"
    have "?R s ?c" by (rule subscriber_step.Interrupted [OF assms(2) SWaiting])
    moreover have "?R ?c (?c\<lparr>s_exit := Some 0\<rparr>)" by (rule leave) (simp_all add: assms(2))
    ultimately have "?R\<^sup>*\<^sup>* s (?c\<lparr>s_exit := Some 0\<rparr>)" by simp
    then show ?thesis using assms(3) by (intro exI [of _ "?c\<lparr>s_exit := Some 0\<rparr>"]) auto
  qed
qed

text \<open>A subscriber that has lost its connection and has nothing left to do.\<close>

definition idle_without_connection :: "world \<Rightarrow> subscriber \<Rightarrow> bool" where
  "idle_without_connection w s \<longleftrightarrow> s_exit s = None \<and> \<not> IsConnected (s_queue s) \<and> s_arrived s = [] \<and>
     s_consumer s = Receiving \<and> s_consume s = None \<and> s_world s = w"

lemma idle_step:
  assumes "subscriber_step env handler s s'" "subscriber_ok handler s" "idle_without_connection w s" "s_main s' = SWaiting"
  shows "idle_without_connection w s'"
  using assms by (cases rule: subscriber_step.cases)
    (auto simp: idle_without_connection_def subscriber_ok_def IsConnected_def new_channel_def)

lemma main_waiting_before: "subscriber_step env handler s s' \<Longrightarrow> s_main s' = SWaiting \<Longrightarrow> s_main s = SWaiting"
  by (cases rule: subscriber_step.cases) auto

text \<open>C25: A subscriber outlives its connection and does nothing more. Once the connection is lost and
  what has arrived is done, nothing happens in it until it is told to stop: no message is received,
  no error is reported, the program does not end, and so nothing starts it again.\<close>

theorem subscriber_outlives_connection:
  assumes "subscriber_reach env handler q w0 s" "q_channel q = Some new_channel" "\<not> q_closed q"
    and "idle_without_connection w s" "(subscriber_step env handler)\<^sup>*\<^sup>* s s'" "s_main s' = SWaiting"
  shows "s_exit s' = None \<and> s_consumer s' = Receiving \<and> s_consume s' = None \<and> s_world s' = w"
proof -
  from assms(5,6) have "idle_without_connection w s'"
  proof (induction rule: rtranclp_induct)
    case (step a b)
    have "s_main a = SWaiting" using main_waiting_before [OF step(2,4)] .
    moreover have "subscriber_ok handler a"
      using subscriber_reach_ok [OF rtranclp_trans [OF assms(1) step(1)] assms(2,3)] .
    ultimately show ?case using idle_step [OF step(2)] step(3,4) by blast
  qed (rule assms(4))
  then show ?thesis by (simp add: idle_without_connection_def)
qed

section \<open>Examples\<close>

definition sample_rabbit :: rabbit where
  "sample_rabbit = NewRabbitMQQueue\<lparr>q_conn := Some False, q_channel := Some new_channel\<rparr>"

lemma sample_rabbit_simps: "q_channel sample_rabbit = Some new_channel" "\<not> q_closed sample_rabbit" "IsConnected sample_rabbit"
  by (simp_all add: sample_rabbit_def NewRabbitMQQueue_def IsConnected_def)

lemma sample_claim_at:
  "outbox_tab w = outbox_tab sample_outbox \<Longrightarrow>
     \<exists>c w'. ob_ClaimForProcessing sample_env (UUID ''h'') w = (Inr c, w') \<and> oe_id c = UUID ''h''"
  using convert_processing [OF event_row_roundtrip [OF sample_fresh, of "''h''" PriorityHigh 2]]
  by (auto simp: ob_ClaimForProcessing_def in_tx_ok statement_ok claim_statement_def sample_outbox_def
      claimable_row_def event_row_def sample_event_def)

lemma sample_publisher_at_work:
  "\<exists>s. publisher_reach sample_env ''x'' sample_delay sample_rabbit sample_outbox s \<and> u_exit s = None \<and>
     holds (UUID ''h'') (u_workers s 2)"
proof -
  let ?R = "publisher_step sample_env ''x'' sample_delay"
  let ?s0 = "publisher_start sample_rabbit sample_outbox"
  let ?s1 = "?s0\<lparr>u_loop := InTick, u_batch := (\<lambda>_. BatchStart)\<rparr>"
  obtain w where find: "find_batch True sample_env sample_outbox = (Inr sample_pending, w)"
    using sample_batch_found by (cases "ob_FindPending sample_env BatchSize sample_outbox") (simp add: find_batch_def)
  let ?s2 = "?s1\<lparr>u_world := w, u_batch := (u_batch ?s1)(True := BatchRunning),
    u_workers := start_workers True sample_pending (u_workers ?s1)\<rparr>"
  have "?R ?s0 ?s1" by (rule publisher_step.TickerFires) (simp_all add: publisher_start_def)
  moreover have "?R ?s1 ?s2"
    using publisher_step.Find [of ?s1 True sample_env "Inr sample_pending" w] find by (simp add: publisher_start_def)
  moreover have claim: "u_workers ?s2 2 = PubClaim (sample_event ''h'' PriorityHigh 2)"
    by (simp add: start_workers_def in_batch_def sample_pending_def)
  obtain c w' where c: "ob_ClaimForProcessing sample_env (UUID ''h'') w = (Inr c, w')" "oe_id c = UUID ''h''"
    using sample_claim_at find_batch_tables [OF find] by blast
  have "pub_step (worker_env sample_env ?s2 (u_workers ?s2 2)) ''x'' sample_delay (u_workers ?s2 2) (u_world ?s2) = (PubSend c, w')"
    unfolding claim using c(1) by (simp add: worker_env_def pub_step_def publisher_start_def sample_event_def)
  then have "?R ?s2 (?s2\<lparr>u_world := w', u_workers := (u_workers ?s2)(2 := PubSend c)\<rparr>)"
    by (intro publisher_step.Work) (simp_all only: claim, simp_all add: worker_finished_def publisher_start_def)
  ultimately have "publisher_reach sample_env ''x'' sample_delay sample_rabbit sample_outbox
      (?s2\<lparr>u_world := w', u_workers := (u_workers ?s2)(2 := PubSend c)\<rparr>)"
    by (meson converse_rtranclp_into_rtranclp rtranclp.rtrancl_refl)
  moreover have "u_exit (?s2\<lparr>u_world := w', u_workers := (u_workers ?s2)(2 := PubSend c)\<rparr>) = None"
    "holds (UUID ''h'') (u_workers (?s2\<lparr>u_world := w', u_workers := (u_workers ?s2)(2 := PubSend c)\<rparr>) 2)"
    by (simp_all add: publisher_start_def holds_def c(2))
  ultimately show ?thesis by blast
qed

theorem publisher_ends_regularly_witness:
  "\<exists>s. publisher_reach sample_env ''x'' sample_delay sample_rabbit sample_outbox s \<and> holds (UUID ''h'') (u_workers s 2) \<and>
     \<not> holds (UUID ''h'') (u_workers s 0)"
proof -
  obtain s where s: "publisher_reach sample_env ''x'' sample_delay sample_rabbit sample_outbox s"
    "holds (UUID ''h'') (u_workers s 2)" using sample_publisher_at_work by blast
  from publisher_ends_regularly [OF s(1) sample_outbox_ok, of "UUID ''h''" 2 0] s show ?thesis by auto
qed

theorem publisher_stop_orphans_witness:
  "\<exists>w. busy (UUID ''h'') w \<and> \<not> claimable (UUID ''h'') w \<and> outbox_tab w \<noteq> []"
proof -
  obtain s where s: "publisher_reach sample_env ''x'' sample_delay sample_rabbit sample_outbox s" "u_exit s = None"
    "holds (UUID ''h'') (u_workers s 2)" using sample_publisher_at_work by blast
  from publisher_stop_orphans [OF s(1) sample_outbox_ok s(2,3), of sample_env]
  have "\<exists>w. busy (UUID ''h'') w \<and> \<not> claimable (UUID ''h'') w"
    by (elim exE conjE) (erule allE, erule impE, rule rtranclp.rtrancl_refl, blast)
  then show ?thesis by (auto simp: busy_def)
qed

definition quiet_handler :: "msg \<Rightarrow> world \<Rightarrow> unit result option \<times> world" where
  "quiet_handler m w = (Some (Inr ()), w)"

theorem subscriber_ends_only_when_told_witness:
  "\<exists>s. subscriber_reach sample_env quiet_handler sample_rabbit empty_world s \<and> s_exit s = Some 0 \<and> s_ctx s = Some Canceled"
proof -
  let ?s0 = "subscriber_initial sample_rabbit empty_world"
  let ?s1 = "?s0\<lparr>s_main := SCancelled, s_ctx := Some Canceled\<rparr>"
  have "subscriber_step sample_env quiet_handler ?s0 ?s1"
    by (rule subscriber_step.Interrupted) (simp_all add: subscriber_initial_def)
  moreover have "subscriber_step sample_env quiet_handler ?s1 (?s1\<lparr>s_exit := Some 0\<rparr>)"
    by (rule subscriber_step.Leaves) (simp_all add: subscriber_initial_def)
  ultimately have r: "subscriber_reach sample_env quiet_handler sample_rabbit empty_world (?s1\<lparr>s_exit := Some 0\<rparr>)" by simp
  from subscriber_ends_only_when_told [OF r sample_rabbit_simps(1,2)] r show ?thesis by (intro exI [of _ "?s1\<lparr>s_exit := Some 0\<rparr>"]) simp
qed

theorem subscriber_stop_unsettled_witness:
  "\<exists>s. subscriber_reach sample_env quiet_handler sample_rabbit empty_world s \<and> s_exit s = Some 0 \<and>
     s_consumer s = Working (sample_delivery 1) \<and> settled (s_world s) = []"
proof -
  let ?s0 = "subscriber_initial sample_rabbit empty_world"
  let ?s1 = "?s0\<lparr>s_arrived := s_arrived ?s0 @ [sample_delivery 1]\<rparr>"
  let ?s2 = "?s1\<lparr>s_consumer := Working (sample_delivery 1), s_arrived := []\<rparr>"
  have "subscriber_step sample_env quiet_handler ?s0 ?s1"
    by (rule subscriber_step.Arrives) (simp_all add: subscriber_initial_def sample_rabbit_simps)
  moreover have "subscriber_step sample_env quiet_handler ?s1 ?s2"
    by (rule subscriber_step.Receives) (simp_all add: subscriber_initial_def)
  ultimately have r: "subscriber_reach sample_env quiet_handler sample_rabbit empty_world ?s2" by simp
  have pc: "s_exit ?s2 = None" "s_consumer ?s2 = Working (sample_delivery 1)" by (simp_all add: subscriber_initial_def)
  from subscriber_stop_unsettled [OF r pc] obtain s' where s': "(subscriber_step sample_env quiet_handler)\<^sup>*\<^sup>* ?s2 s'"
    "s_exit s' = Some 0" "s_consumer s' = Working (sample_delivery 1)" "s_world s' = s_world ?s2" by blast
  have "settled (s_world s') = []" using s'(4) by (simp add: subscriber_initial_def empty_world_def)
  with rtranclp_trans [OF r s'(1)] s'(2,3) show ?thesis by blast
qed

theorem subscriber_outlives_connection_witness:
  "\<exists>s. subscriber_reach sample_env quiet_handler sample_rabbit empty_world s \<and> \<not> IsConnected (s_queue s) \<and> s_exit s = None"
proof -
  let ?s0 = "subscriber_initial sample_rabbit empty_world"
  let ?s1 = "?s0\<lparr>s_queue := (s_queue ?s0)\<lparr>q_conn := map_option (\<lambda>_. True) (q_conn (s_queue ?s0))\<rparr>\<rparr>"
  have "subscriber_step sample_env quiet_handler ?s0 ?s1"
    by (rule subscriber_step.Disconnected) (simp add: subscriber_initial_def)
  then have r: "subscriber_reach sample_env quiet_handler sample_rabbit empty_world ?s1" by simp
  have idle: "idle_without_connection empty_world ?s1"
    by (simp add: idle_without_connection_def subscriber_initial_def sample_rabbit_def NewRabbitMQQueue_def IsConnected_def)
  then have "s_exit ?s1 = None"
    using subscriber_outlives_connection [OF r sample_rabbit_simps(1,2) idle rtranclp.rtrancl_refl]
    by (simp add: subscriber_initial_def)
  with r idle show ?thesis by (auto simp: idle_without_connection_def)
qed

end
