(* ===== verification/Use_Cases.thy ===== *)
theory Use_Cases
  imports Runtime Worker Telemetry
begin

text \<open>
  The applications of the publisher and of the subscriber (\<open>internal/usecases/publisher_app.go\<close>,
  \<open>subscriber_app.go\<close>, their commands and queries): the services of \<open>Publisher\<close> and \<open>Subscriber\<close>
  behind the decorators of \<open>Telemetry\<close>, and the processor and the worker on top of them. The state is
  the world with the telemetry.
\<close>

section \<open>The applications\<close>

type_synonym traced = "world \<times> telemetry"

definition applied ::
  "((world, 'r) action \<Rightarrow> (world, 'r) action) \<Rightarrow> (world \<Rightarrow> 'r result \<times> world) \<Rightarrow> traced \<Rightarrow> 'r result \<times> traced" where
  "applied decorate f st =
     (let (r, w, t) = decorate (action_of (\<lambda>w. let (r, w) = f w in (Some r, w))) st in (the r, w, t))"

definition publisher_FetchPendingEvents :: "env \<Rightarrow> nat \<Rightarrow> world \<Rightarrow> outbox_event list result \<times> world" where
  "publisher_FetchPendingEvents env batchSize = ob_FindPending env batchSize"

definition publisher_FetchRetryableEvents :: "env \<Rightarrow> nat \<Rightarrow> world \<Rightarrow> outbox_event list result \<times> world" where
  "publisher_FetchRetryableEvents env batchSize = ob_FindRetryable env batchSize"

definition FetchPendingOutboxEventsQueryHandler :: "env \<Rightarrow> nat \<Rightarrow> traced \<Rightarrow> outbox_event list result \<times> traced" where
  "FetchPendingOutboxEventsQueryHandler env batchSize =
     applied (ApplyQueryDecorators (now env) ''queries.FetchPendingOutboxEventsQuery'')
       (publisher_FetchPendingEvents env batchSize)"

definition FetchRetryableOutboxEventsQueryHandler :: "env \<Rightarrow> nat \<Rightarrow> traced \<Rightarrow> outbox_event list result \<times> traced" where
  "FetchRetryableOutboxEventsQueryHandler env batchSize =
     applied (ApplyQueryDecorators (now env) ''queries.FetchRetryableOutboxEventsQuery'')
       (publisher_FetchRetryableEvents env batchSize)"

text \<open>The error of \<open>PublishEvent\<close> is always nil: what went wrong is in its result.\<close>

definition publishOutboxEvent_Handle ::
  "env \<Rightarrow> string \<Rightarrow> (nat \<Rightarrow> int \<Rightarrow> duration) \<Rightarrow> outbox_event \<Rightarrow> world \<Rightarrow> publish_result result \<times> world" where
  "publishOutboxEvent_Handle env exchange delay e w =
     (case PublishEvent env exchange delay e w of (r, w1) \<Rightarrow> (Inr r, w1))"

definition PublishOutboxEventHandler ::
  "env \<Rightarrow> string \<Rightarrow> (nat \<Rightarrow> int \<Rightarrow> duration) \<Rightarrow> outbox_event \<Rightarrow> traced \<Rightarrow> publish_result result \<times> traced" where
  "PublishOutboxEventHandler env exchange delay e =
     applied (ApplyCommandDecorators (now env) ''commands.PublishOutboxEventCommand'')
       (publishOutboxEvent_Handle env exchange delay e)"

definition ProcessAnalysisMessageHandler ::
  "env \<Rightarrow> ports \<Rightarrow> request_payload \<Rightarrow> traced \<Rightarrow> process_result result \<times> traced" where
  "ProcessAnalysisMessageHandler env P p =
     applied (ApplyCommandDecorators (now env) ''commands.ProcessAnalysisMessageCommand'')
       (processAnalysisMessage_Handle env P p)"

section \<open>Processor and worker on the applications\<close>

definition publish_batch ::
  "env \<Rightarrow> string \<Rightarrow> (nat \<Rightarrow> int \<Rightarrow> duration) \<Rightarrow> outbox_event list \<Rightarrow> traced \<Rightarrow> traced" where
  "publish_batch env exchange delay evs st =
     fold (\<lambda>e st. snd (PublishOutboxEventHandler env exchange delay e st)) evs st"

definition Processor_processPendingEvents ::
  "(outbox_event list \<Rightarrow> outbox_event list) \<Rightarrow> env \<Rightarrow> string \<Rightarrow> (nat \<Rightarrow> int \<Rightarrow> duration) \<Rightarrow> traced \<Rightarrow> unit result \<times> traced" where
  "Processor_processPendingEvents sched env exchange delay st =
     (case FetchPendingOutboxEventsQueryHandler env BatchSize st of
        (Inl e, st1) \<Rightarrow> (Inl e, st1)
      | (Inr evs, st1) \<Rightarrow>
          (if evs = [] then (Inr (), st1)
           else (Inr (), publish_batch env exchange delay (sched evs) st1)))"

definition Processor_processRetryableEvents ::
  "(outbox_event list \<Rightarrow> outbox_event list) \<Rightarrow> env \<Rightarrow> string \<Rightarrow> (nat \<Rightarrow> int \<Rightarrow> duration) \<Rightarrow> traced \<Rightarrow> unit result \<times> traced" where
  "Processor_processRetryableEvents sched env exchange delay st =
     (case FetchRetryableOutboxEventsQueryHandler env BatchSize st of
        (Inl e, st1) \<Rightarrow> (Inl e, st1)
      | (Inr evs, st1) \<Rightarrow>
          (if evs = [] then (Inr (), st1)
           else (Inr (), publish_batch env exchange delay (sched evs) st1)))"

text \<open>A request to the broker, which the telemetry does not see.\<close>

definition untraced :: "(world \<Rightarrow> 'r \<times> world) \<Rightarrow> traced \<Rightarrow> 'r \<times> traced" where
  "untraced f st = (case f (fst st) of (r, w) \<Rightarrow> (r, w, snd st))"

definition AnalysisWorker_ProcessMessage ::
  "env \<Rightarrow> ports \<Rightarrow> string \<Rightarrow> msg \<Rightarrow> traced \<Rightarrow> unit result \<times> traced" where
  "AnalysisWorker_ProcessMessage env P topicName m st =
     (case Unmarshal dec_payload m of
        Inl _ \<Rightarrow> untraced (ctrl_Reject env m) st
      | Inr payload \<Rightarrow>
          (case ProcessAnalysisMessageHandler env P payload st of
             (Inl _, st1) \<Rightarrow> untraced (Requeue env topicName m) st1
           | (Inr result, st1) \<Rightarrow>
               if \<not> pr_success result then untraced (ctrl_Ack env m) st1 else untraced (ctrl_Ack env m) st1))"

section \<open>The decorators do not interfere\<close>

lemma applied_simps [simp]:
  "fst (applied (ApplyCommandDecorators clk n) f st) = fst (f (fst st))"
  "fst (snd (applied (ApplyCommandDecorators clk n) f st)) = snd (f (fst st))"
  "fst (applied (ApplyQueryDecorators clk n) f st) = fst (f (fst st))"
  "fst (snd (applied (ApplyQueryDecorators clk n) f st)) = snd (f (fst st))"
  by (simp_all add: applied_def action_of_def Let_def split_beta)

text \<open>A step on the state with telemetry simulates one on the world.\<close>

definition simulates :: "(traced \<Rightarrow> 'r \<times> traced) \<Rightarrow> (world \<Rightarrow> 'r \<times> world) \<Rightarrow> bool" where
  "simulates F f \<longleftrightarrow> (\<forall>st. fst (F st) = fst (f (fst st)) \<and> fst (snd (F st)) = snd (f (fst st)))"

lemma simulates_at:
  assumes "simulates F f"
  shows "fst (F st) = fst (f (fst st))" "fst (snd (F st)) = snd (f (fst st))"
  using assms by (simp_all only: simulates_def)

lemma simulatesD: "simulates F f \<Longrightarrow> F st = (r, st') \<Longrightarrow> f (fst st) = (r, fst st')"
  by (metis fst_conv prod.collapse simulates_def snd_conv)

lemma simulates_applied [simp]:
  "simulates (applied (ApplyCommandDecorators clk n) f) f" "simulates (applied (ApplyQueryDecorators clk n) f) f"
  by (simp_all add: simulates_def)

lemma simulates_untraced [simp]: "simulates (untraced f) f"
  by (simp add: simulates_def untraced_def split_beta)

lemma simulates_result:
  assumes "simulates F f" "\<And>e. simulates (G e) (g e)" "\<And>x. simulates (H x) (h x)"
  shows "simulates (\<lambda>st. case F st of (Inl e, st1) \<Rightarrow> G e st1 | (Inr x, st1) \<Rightarrow> H x st1)
    (\<lambda>w. case f w of (Inl e, w1) \<Rightarrow> g e w1 | (Inr x, w1) \<Rightarrow> h x w1)"
  unfolding simulates_def
proof
  fix st
  obtain r st1 where F: "F st = (r, st1)" by (metis surj_pair)
  from simulatesD [OF assms(1) F] have "f (fst st) = (r, fst st1)" .
  with F assms(2,3) show "fst (case F st of (Inl e, st1) \<Rightarrow> G e st1 | (Inr x, st1) \<Rightarrow> H x st1) =
      fst (case f (fst st) of (Inl e, w1) \<Rightarrow> g e w1 | (Inr x, w1) \<Rightarrow> h x w1) \<and>
      fst (snd (case F st of (Inl e, st1) \<Rightarrow> G e st1 | (Inr x, st1) \<Rightarrow> H x st1)) =
      snd (case f (fst st) of (Inl e, w1) \<Rightarrow> g e w1 | (Inr x, w1) \<Rightarrow> h x w1)"
    by (cases r) (simp_all add: simulates_at)
qed

lemma simulates_return [simp]: "simulates (\<lambda>st. (r, st)) (\<lambda>w. (r, w))"
  by (simp add: simulates_def)

lemma publish_batch_world: "fst (publish_batch env ex d evs st) = publish_all env ex d evs (fst st)"
  unfolding publish_batch_def publish_all_def
  by (induction evs arbitrary: st)
     (simp_all add: PublishOutboxEventHandler_def publishOutboxEvent_Handle_def split_beta)

lemma simulates_publish_batch [simp]:
  "simulates (\<lambda>st. (r, publish_batch env ex d evs st)) (\<lambda>w. (r, publish_all env ex d evs w))"
  by (simp add: simulates_def publish_batch_world)

lemma simulates_if: "simulates F f \<Longrightarrow> simulates G g \<Longrightarrow>
    simulates (\<lambda>st. if b then F st else G st) (\<lambda>w. if b then f w else g w)"
  by (cases b) simp_all

text \<open>C26: The batches of the processor that runs in the program, through its application with all decorators,
  do to the tables, the cache and the broker what the plain batches do, and give the same result.\<close>

theorem decorated_batches:
  "simulates (Processor_processPendingEvents sched env ex d) (processPendingEvents sched env ex d) \<and>
   simulates (Processor_processRetryableEvents sched env ex d) (processRetryableEvents sched env ex d)"
proof
  show "simulates (Processor_processPendingEvents sched env ex d) (processPendingEvents sched env ex d)"
    unfolding Processor_processPendingEvents_def processPendingEvents_def FetchPendingOutboxEventsQueryHandler_def
      publisher_FetchPendingEvents_def
    by (intro simulates_result simulates_if simulates_applied simulates_return simulates_publish_batch)
  show "simulates (Processor_processRetryableEvents sched env ex d) (processRetryableEvents sched env ex d)"
    unfolding Processor_processRetryableEvents_def processRetryableEvents_def FetchRetryableOutboxEventsQueryHandler_def
      publisher_FetchRetryableEvents_def
    by (intro simulates_result simulates_if simulates_applied simulates_return simulates_publish_batch)
qed

text \<open>Also: The worker of the subscriber, through its application with all decorators, settles each message as
  the plain one does, with the same effect on the world.\<close>

theorem decorated_worker:
  "simulates (AnalysisWorker_ProcessMessage env P q m) (ProcessMessage env P q m)"
proof (cases "Unmarshal dec_payload m")
  case (Inr payload)
  show ?thesis
    unfolding AnalysisWorker_ProcessMessage_def ProcessMessage_def ProcessAnalysisMessageHandler_def Inr sum.case
    by (intro simulates_result simulates_if simulates_applied simulates_untraced)
qed (simp add: AnalysisWorker_ProcessMessage_def ProcessMessage_def simulates_def untraced_def split_beta)

section \<open>What the telemetry tells\<close>

definition ok_spans :: "telemetry \<Rightarrow> telemetry \<Rightarrow> nat \<Rightarrow> bool" where
  "ok_spans t t' n \<longleftrightarrow>
     (\<exists>sps. tm_spans t' = tm_spans t @ sps \<and> length sps = n \<and> (\<forall>sp \<in> set sps. \<exists>a. sp_status sp = SpanOk a)) \<and>
     (\<exists>ls. tm_log t' = tm_log t @ ls \<and> length ls = n \<and> set ls \<subseteq> {TraceLine ''command executed successfully''})"

lemma ok_spans_refl: "ok_spans t t 0"
  by (simp add: ok_spans_def)

lemma ok_spans_trans:
  assumes "ok_spans t t' m" "ok_spans t' t'' n"
  shows "ok_spans t t'' (m + n)"
proof -
  from assms obtain sps sps' ls ls' where
    "tm_spans t' = tm_spans t @ sps" "length sps = m" "\<forall>sp \<in> set sps. \<exists>a. sp_status sp = SpanOk a"
    "tm_log t' = tm_log t @ ls" "length ls = m" "set ls \<subseteq> {TraceLine ''command executed successfully''}"
    "tm_spans t'' = tm_spans t' @ sps'" "length sps' = n" "\<forall>sp \<in> set sps'. \<exists>a. sp_status sp = SpanOk a"
    "tm_log t'' = tm_log t' @ ls'" "length ls' = n" "set ls' \<subseteq> {TraceLine ''command executed successfully''}"
    unfolding ok_spans_def by blast
  then show ?thesis
    unfolding ok_spans_def by (intro conjI exI [of _ "sps @ sps'"] exI [of _ "ls @ ls'"]) auto
qed

lemma applied_command_ok:
  assumes "\<exists>r. fst (f (fst st)) = Inr r"
  shows "ok_spans (snd st) (snd (snd (applied (ApplyCommandDecorators clk n) f st))) 1"
proof -
  obtain w t where st: "st = (w, t)" by force
  obtain r w' where f: "f w = (Inr r, w')" using assms st by (metis fst_conv prod.collapse)
  show ?thesis
    by (simp add: st f ok_spans_def applied_def ApplyCommandDecorators_def metrics_decorator_def tracing_decorator_def
        logging_decorator_def action_of_def Inc_def span_of_def line_of_def err_of_def Let_def)
qed

lemma publish_batch_ok: "ok_spans (snd st) (snd (publish_batch env ex d evs st)) (length evs)"
proof (induction evs arbitrary: st)
  case (Cons e evs)
  let ?st = "snd (PublishOutboxEventHandler env ex d e st)"
  have "ok_spans (snd st) (snd ?st) 1"
    unfolding PublishOutboxEventHandler_def
    by (rule applied_command_ok) (simp add: publishOutboxEvent_Handle_def split_beta)
  from ok_spans_trans [OF this Cons.IH] show ?case by (simp add: publish_batch_def)
qed (simp add: publish_batch_def ok_spans_refl)

text \<open>Also: What goes wrong is not in the traces. Each event that is published or not, and each message that is
  processed or fails, adds one span with the status ok and one line of success, because the error of
  the service is nil in every case.\<close>

theorem failures_traced_as_success:
  "ok_spans (snd st) (snd (publish_batch env ex d evs st)) (length evs) \<and>
   ok_spans (snd st) (snd (snd (AnalysisWorker_ProcessMessage env P q m st)))
     (if \<exists>p. Unmarshal dec_payload m = Inr p then 1 else 0)"
proof (cases "Unmarshal dec_payload m")
  case (Inl e)
  then show ?thesis
    by (simp add: publish_batch_ok AnalysisWorker_ProcessMessage_def untraced_def ok_spans_refl split_beta)
next
  case (Inr p)
  have ok: "ok_spans (snd st) (snd (snd (ProcessAnalysisMessageHandler env P p st))) 1"
    unfolding ProcessAnalysisMessageHandler_def
    by (rule applied_command_ok) (simp add: processAnalysisMessage_Handle_def split_beta)
  moreover have "snd (snd (AnalysisWorker_ProcessMessage env P q m st)) = snd (snd (ProcessAnalysisMessageHandler env P p st))"
    by (simp add: AnalysisWorker_ProcessMessage_def Inr untraced_def split_beta split: sum.split)
  ultimately show ?thesis by (simp add: publish_batch_ok Inr)
qed

end
