(* ===== verification/Queue_Logging.thy ===== *)
theory Queue_Logging
  imports Queue Telemetry
begin

text \<open>
  How the queue library logs (\<open>pkg/queue/logger_adapter.go\<close>), the options it is made with (\<open>options.go\<close>), and
  the level of the logger of the service (\<open>internal/infrastructure/logger.go\<close>). The adapter looks at its
  logger through type assertions, so values have a type here: the methods they have, with their
  signatures, beside what a call of each returns and prints.
\<close>

section \<open>Values and type assertions\<close>

datatype go_type =
    TString
  | TError
  | TAny
  | TNamed string
  | TInterface "(string \<times> go_type list \<times> go_type list) list"  \<comment> \<open>its methods, by name\<close>

type_synonym signature = "string \<times> go_type list \<times> go_type list"

datatype log_call = CallInfo | CallError | CallDebug | CallMsg string | CallErr error | CallStr string string

text \<open>A value that an \<open>any\<close> can hold: \<open>nil\<close>, or an object, whose methods may return objects again without end.\<close>

codatatype obj =
    Nil_Obj
  | Obj (obj_methods: "signature list") (obj_prints: "log_call \<Rightarrow> string list") (obj_result: "log_call \<Rightarrow> obj")

text \<open>\<open>x.(interface{...})\<close> succeeds when the object has all the methods, with identical signatures.\<close>

definition implements :: "obj \<Rightarrow> signature list \<Rightarrow> bool" where
  "implements x ms \<longleftrightarrow> x \<noteq> Nil_Obj \<and> set ms \<subseteq> set (obj_methods x)"

definition Msg_method :: signature where "Msg_method = (''Msg'', [TString], [])"
definition Msg_only :: go_type where "Msg_only = TInterface [Msg_method]"
definition Str_Msg :: signature where "Str_Msg = (''Str'', [TString, TString], [Msg_only])"
definition Msg_Str :: go_type where "Msg_Str = TInterface [Msg_method, Str_Msg]"
definition Err_any :: signature where "Err_any = (''Err'', [TError], [TAny])"
definition Str_any :: signature where "Str_any = (''Str'', [TString, TString], [TAny])"
definition Err_Msg_Str :: signature where "Err_Msg_Str = (''Err'', [TError], [Msg_Str])"
definition Str_Msg_Str :: signature where "Str_Msg_Str = (''Str'', [TString, TString], [Msg_Str])"

definition Info_method :: signature where "Info_method = (''Info'', [], [Msg_Str])"

definition Error_method :: signature where
  "Error_method = (''Error'', [], [TInterface [Err_any, Msg_method, Str_any]])"

definition Debug_method :: signature where "Debug_method = (''Debug'', [], [Msg_only])"

section \<open>The adapter\<close>

record log_event =
  le_event :: obj
  le_info :: obj
  le_error :: obj
  le_debug :: obj

definition no_event :: log_event where
  "no_event = \<lparr>le_event = Nil_Obj, le_info = Nil_Obj, le_error = Nil_Obj, le_debug = Nil_Obj\<rparr>"

definition LoggerAdapter_Info :: "obj \<Rightarrow> log_event" where
  "LoggerAdapter_Info l =
     (if implements l [Info_method] then no_event\<lparr>le_event := obj_result l CallInfo, le_info := obj_result l CallInfo\<rparr>
      else no_event)"

definition LoggerAdapter_Error :: "obj \<Rightarrow> log_event" where
  "LoggerAdapter_Error l =
     (if implements l [Error_method] then no_event\<lparr>le_event := obj_result l CallError, le_error := obj_result l CallError\<rparr>
      else no_event)"

definition LoggerAdapter_Debug :: "obj \<Rightarrow> log_event" where
  "LoggerAdapter_Debug l =
     (if implements l [Debug_method] then no_event\<lparr>le_event := obj_result l CallDebug, le_debug := obj_result l CallDebug\<rparr>
      else no_event)"

definition print_msg :: "obj \<Rightarrow> string \<Rightarrow> string list" where
  "print_msg x m = (if implements x [Msg_method] then obj_prints x (CallMsg m) else [])"

definition LogEventAdapter_Msg :: "string \<Rightarrow> log_event \<Rightarrow> string list" where
  "LogEventAdapter_Msg m l =
     (if le_info l \<noteq> Nil_Obj then print_msg (le_info l) m
      else if le_error l \<noteq> Nil_Obj then print_msg (le_error l) m
      else if le_debug l \<noteq> Nil_Obj then print_msg (le_debug l) m
      else print_msg (le_event l) m)"

definition getErrMethod :: "obj \<Rightarrow> (error \<Rightarrow> obj) option" where
  "getErrMethod x =
     (if implements x [Err_any] \<or> implements x [Err_Msg_Str] then Some (\<lambda>e. obj_result x (CallErr e)) else None)"

definition getStrMethod :: "obj \<Rightarrow> (string \<Rightarrow> string \<Rightarrow> obj) option" where
  "getStrMethod x =
     (if implements x [Str_any] \<or> implements x [Str_Msg] \<or> implements x [Str_Msg_Str]
      then Some (\<lambda>k v. obj_result x (CallStr k v)) else None)"

definition LogEventAdapter_Err :: "error \<Rightarrow> log_event \<Rightarrow> log_event" where
  "LogEventAdapter_Err e l =
     (if le_error l \<noteq> Nil_Obj then
        (case getErrMethod (le_error l) of None \<Rightarrow> l | Some f \<Rightarrow> no_event\<lparr>le_event := f e, le_error := f e\<rparr>)
      else if le_event l \<noteq> Nil_Obj then
        (case getErrMethod (le_event l) of None \<Rightarrow> l | Some f \<Rightarrow> no_event\<lparr>le_event := f e\<rparr>)
      else l)"

definition LogEventAdapter_Str :: "string \<Rightarrow> string \<Rightarrow> log_event \<Rightarrow> log_event" where
  "LogEventAdapter_Str k v l =
     (if le_info l \<noteq> Nil_Obj then
        (case getStrMethod (le_info l) of None \<Rightarrow> l | Some f \<Rightarrow> no_event\<lparr>le_event := f k v, le_info := f k v\<rparr>)
      else if le_error l \<noteq> Nil_Obj then
        (case getStrMethod (le_error l) of None \<Rightarrow> l | Some f \<Rightarrow> no_event\<lparr>le_event := f k v, le_error := f k v\<rparr>)
      else if le_event l \<noteq> Nil_Obj then
        (case getStrMethod (le_event l) of None \<Rightarrow> l | Some f \<Rightarrow> no_event\<lparr>le_event := f k v\<rparr>)
      else l)"

text \<open>A line of the library: a level, fields, a message.\<close>

datatype log_level = LInfo | LError | LDebug

datatype log_field = FErr error | FStr string string

fun event_of :: "log_level \<Rightarrow> obj \<Rightarrow> log_event" where
  "event_of LInfo l = LoggerAdapter_Info l"
| "event_of LError l = LoggerAdapter_Error l"
| "event_of LDebug l = LoggerAdapter_Debug l"

fun with_field :: "log_field \<Rightarrow> log_event \<Rightarrow> log_event" where
  "with_field (FErr e) l = LogEventAdapter_Err e l"
| "with_field (FStr k v) l = LogEventAdapter_Str k v l"

definition log_through :: "obj \<Rightarrow> log_level \<Rightarrow> log_field list \<Rightarrow> string \<Rightarrow> string list" where
  "log_through l lv fs m = LogEventAdapter_Msg m (fold with_field fs (event_of lv l))"

text \<open>What the same line is when the logger is called itself, with the methods of the same names.\<close>

fun level_call :: "log_level \<Rightarrow> log_call" where
  "level_call LInfo = CallInfo"
| "level_call LError = CallError"
| "level_call LDebug = CallDebug"

fun field_call :: "log_field \<Rightarrow> log_call" where
  "field_call (FErr e) = CallErr e"
| "field_call (FStr k v) = CallStr k v"

definition log_directly :: "obj \<Rightarrow> log_level \<Rightarrow> log_field list \<Rightarrow> string \<Rightarrow> string list" where
  "log_directly l lv fs m =
     obj_prints (fold (\<lambda>f x. obj_result x (field_call f)) fs (obj_result l (level_call lv))) (CallMsg m)"

section \<open>Loggers that the adapter does not know\<close>

text \<open>
  The logger of the service is one of \<open>zerolog\<close>: each of the three methods, as far as a value has it, returns
  a pointer to an event of that package.
\<close>

definition zerolog_logger :: "obj \<Rightarrow> bool" where
  "zerolog_logger l \<longleftrightarrow>
     (\<forall>(nm, args, res) \<in> set (obj_methods l). nm \<in> {''Info'', ''Error'', ''Debug''} \<longrightarrow> res = [TNamed ''*zerolog.Event''])"

lemma zerolog_unknown:
  assumes "zerolog_logger l"
  shows "\<not> implements l [Info_method]" "\<not> implements l [Error_method]" "\<not> implements l [Debug_method]"
  using assms by (auto simp: zerolog_logger_def implements_def Info_method_def Error_method_def Debug_method_def
      Msg_Str_def Msg_only_def)

lemma no_event_field: "with_field f no_event = no_event"
  by (cases f) (simp_all add: LogEventAdapter_Err_def LogEventAdapter_Str_def no_event_def)

lemma no_event_fields: "fold with_field fs no_event = no_event"
  by (induction fs) (simp_all add: no_event_field)

text \<open>Also: The queue library logs nothing in this service. The methods of a \<open>zerolog\<close> logger return pointers, the
  assertions of the adapter ask for interfaces, and Go compares signatures exactly: every line of the
  library, a lost message and a failed request to the broker among them, is dropped.\<close>

theorem queue_logs_nothing:
  assumes "zerolog_logger l"
  shows "log_through l lv fs m = []"
proof -
  have "event_of lv l = no_event"
    using zerolog_unknown [OF assms]
    by (cases lv) (simp_all add: LoggerAdapter_Info_def LoggerAdapter_Error_def LoggerAdapter_Debug_def)
  then show ?thesis
    by (simp add: log_through_def no_event_fields) (simp add: LogEventAdapter_Msg_def no_event_def print_msg_def implements_def)
qed

definition sample_zerolog :: obj where
  "sample_zerolog =
     Obj [(''Info'', [], [TNamed ''*zerolog.Event'']), (''Error'', [], [TNamed ''*zerolog.Event''])]
       (\<lambda>_. []) (\<lambda>_. Obj [Msg_method] (\<lambda>c. case c of CallMsg m \<Rightarrow> [m] | _ \<Rightarrow> []) (\<lambda>_. Nil_Obj))"

theorem queue_logs_nothing_witness:
  "log_through sample_zerolog LInfo [] ''lost'' = [] \<and> log_directly sample_zerolog LInfo [] ''lost'' = [''lost'']"
proof -
  have "zerolog_logger sample_zerolog" by (auto simp: zerolog_logger_def sample_zerolog_def)
  from queue_logs_nothing [OF this] show ?thesis by (simp add: log_directly_def sample_zerolog_def)
qed

section \<open>Loggers that it was written for\<close>

text \<open>An event all of whose calls the adapter finds, and so on for the events that come of it.\<close>

coinductive known_event :: "obj \<Rightarrow> bool" where
  "x \<noteq> Nil_Obj \<Longrightarrow> {Msg_method, Err_any, Str_any} \<subseteq> set (obj_methods x) \<Longrightarrow>
   (\<And>e. known_event (obj_result x (CallErr e))) \<Longrightarrow> (\<And>k v. known_event (obj_result x (CallStr k v))) \<Longrightarrow>
   known_event x"

lemma known_eventD:
  assumes "known_event x"
  shows "x \<noteq> Nil_Obj" "implements x [Msg_method]" "getErrMethod x = Some (\<lambda>e. obj_result x (CallErr e))"
    "getStrMethod x = Some (\<lambda>k v. obj_result x (CallStr k v))" "known_event (obj_result x (field_call f))"
  using assms by (cases rule: known_event.cases; cases f; simp add: implements_def getErrMethod_def getStrMethod_def)+

definition holding :: "obj \<Rightarrow> log_event \<Rightarrow> bool" where
  "holding x l \<longleftrightarrow> le_event l = x \<and> (le_info l = Nil_Obj \<or> le_info l = x) \<and>
     (le_error l = Nil_Obj \<or> le_error l = x) \<and> (le_debug l = Nil_Obj \<or> le_debug l = x)"

lemma holding_field:
  assumes "holding x l" "known_event x"
  shows "holding (obj_result x (field_call f)) (with_field f l)"
proof -
  note x = known_eventD(1,3,4) [OF assms(2)]
  from assms(1) have ev: "le_event l = x" and i: "le_info l = Nil_Obj \<or> le_info l = x"
    and e: "le_error l = Nil_Obj \<or> le_error l = x" by (simp_all add: holding_def)
  show ?thesis
    using i e x by (cases f; elim disjE)
      (simp_all add: ev holding_def LogEventAdapter_Err_def LogEventAdapter_Str_def no_event_def)
qed

lemma holding_fields:
  assumes "holding x l" "known_event x"
  shows "holding (fold (\<lambda>f x. obj_result x (field_call f)) fs x) (fold with_field fs l) \<and>
    known_event (fold (\<lambda>f x. obj_result x (field_call f)) fs x)"
  using assms
proof (induction fs arbitrary: x l)
  case (Cons f fs)
  show ?case
    using Cons.IH [OF holding_field [OF Cons.prems] known_eventD(5) [OF Cons.prems(2)]] by simp
qed simp

lemma holding_msg:
  assumes "holding x l" "known_event x"
  shows "LogEventAdapter_Msg m l = obj_prints x (CallMsg m)"
proof -
  note x = known_eventD(1,2) [OF assms(2)]
  from assms(1) have "le_event l = x" "le_info l = Nil_Obj \<or> le_info l = x" "le_error l = Nil_Obj \<or> le_error l = x"
    "le_debug l = Nil_Obj \<or> le_debug l = x" by (simp_all add: holding_def)
  with x show ?thesis by (elim disjE) (simp_all add: LogEventAdapter_Msg_def print_msg_def)
qed

text \<open>Also: With a logger of the signatures that the adapter asks for, whose events take errors and fields, a line
  of the library is the line that the logger writes itself, whatever its level and fields.\<close>

theorem adapter_forwards:
  assumes "implements l [Info_method, Error_method, Debug_method]" "known_event (obj_result l (level_call lv))"
  shows "log_through l lv fs m = log_directly l lv fs m"
proof -
  have "holding (obj_result l (level_call lv)) (event_of lv l)"
    using assms(1) by (cases lv) (simp_all add: implements_def holding_def no_event_def LoggerAdapter_Info_def
        LoggerAdapter_Error_def LoggerAdapter_Debug_def)
  from holding_fields [OF this assms(2)] holding_msg show ?thesis
    by (simp add: log_through_def log_directly_def)
qed

text \<open>A logger with one such event, which keeps what it is given and prints it with the message.\<close>

fun said :: "log_call \<Rightarrow> string" where
  "said (CallErr e) = Error e @ '' ''"
| "said (CallStr k v) = k @ ''='' @ v @ '' ''"
| "said (CallMsg m) = m"
| "said _ = []"

primcorec writing_event :: "string \<Rightarrow> obj" where
  "writing_event s = Obj [Err_any, Msg_method, Str_any] (\<lambda>c. [s @ said c]) (\<lambda>c. writing_event (s @ said c))"

lemma writing_event_known: "known_event (writing_event s)"
proof (coinduction arbitrary: s)
  case known_event
  have "writing_event s \<noteq> Nil_Obj" by (subst writing_event.code) simp
  then show ?case by auto
qed

definition writing_logger :: obj where
  "writing_logger = Obj [Info_method, Error_method, Debug_method] (\<lambda>_. []) (\<lambda>_. writing_event [])"

theorem adapter_forwards_witness:
  "log_through writing_logger LError [FErr (ErrText ''refused''), FStr ''queue'' ''q''] ''failed to consume'' =
     [''refused queue=q failed to consume'']"
proof -
  have "implements writing_logger [Info_method, Error_method, Debug_method]"
    by (simp add: writing_logger_def implements_def)
  moreover have "known_event (obj_result writing_logger (level_call LError))"
    by (simp add: writing_logger_def writing_event_known)
  ultimately show ?thesis
    using adapter_forwards [of writing_logger LError "[FErr (ErrText ''refused''), FStr ''queue'' ''q'']" "''failed to consume''"]
    by (simp add: log_directly_def writing_logger_def)
qed

section \<open>Options\<close>

record connection_options =
  co_timeout :: "duration option"
  co_reconnectDelay :: duration
  co_logger :: "obj option"

datatype connection_option = WithLogger obj | WithConnectionTimeout duration | WithReconnectDelay duration

fun apply_connection_option :: "connection_option \<Rightarrow> connection_options \<Rightarrow> connection_options" where
  "apply_connection_option (WithLogger l) opts = opts\<lparr>co_logger := Some l\<rparr>"
| "apply_connection_option (WithConnectionTimeout d) opts = opts\<lparr>co_timeout := Some d\<rparr>"
| "apply_connection_option (WithReconnectDelay d) opts = opts\<lparr>co_reconnectDelay := d\<rparr>"

text \<open>What a queue keeps of its options.\<close>

record queue_settings =
  qs_reconnectDelay :: duration
  qs_logger :: "obj option"

definition queue_settings_of :: "connection_option list \<Rightarrow> queue_settings" where
  "queue_settings_of opts =
     (let options = fold apply_connection_option opts
            \<lparr>co_timeout = None, co_reconnectDelay = 5 * Second, co_logger = None\<rparr>
      in \<lparr>qs_reconnectDelay = co_reconnectDelay options, qs_logger = co_logger options\<rparr>)"

definition publishingTimeout :: duration where "publishingTimeout = 3 * Second"

text \<open>The options of a publish are its timeouts, of which the last one holds.\<close>

definition publisher_timeout :: "duration list \<Rightarrow> duration" where
  "publisher_timeout opts = fold (\<lambda>d _. d) opts publishingTimeout"

fun not_timeout :: "connection_option \<Rightarrow> bool" where
  "not_timeout (WithConnectionTimeout _) = False"
| "not_timeout _ = True"

lemma fold_timeout:
  "co_reconnectDelay a = co_reconnectDelay b \<Longrightarrow> co_logger a = co_logger b \<Longrightarrow>
   co_reconnectDelay (fold apply_connection_option opts a) = co_reconnectDelay (fold apply_connection_option (filter not_timeout opts) b) \<and>
   co_logger (fold apply_connection_option opts a) = co_logger (fold apply_connection_option (filter not_timeout opts) b)"
proof (induction opts arbitrary: a b)
  case (Cons opt opts)
  then show ?case by (cases opt) simp_all
qed simp

text \<open>Also: The timeout of a connection is kept and never read: with and without the options that set it, the
  queue is the same.\<close>

theorem connection_timeout_ignored: "queue_settings_of opts = queue_settings_of (filter not_timeout opts)"
  using fold_timeout [of _ _ opts] by (simp add: queue_settings_of_def Let_def)

text \<open>\<open>infrastructure.NewQueue\<close>.\<close>

definition NewQueue_options :: "obj \<Rightarrow> connection_option list" where
  "NewQueue_options logger = [WithLogger logger, WithReconnectDelay (5 * Second)]"

lemma NewQueue_settings: "queue_settings_of (NewQueue_options l) = \<lparr>qs_reconnectDelay = 5 * Second, qs_logger = Some l\<rparr>"
  by (simp add: queue_settings_of_def NewQueue_options_def)

section \<open>The level of the service\<close>

text \<open>\<open>zerolog\<close> counts its levels from \<open>trace\<close>, -1, to \<open>panic\<close>, 5, and writes an event when its level is not
  below the global one.\<close>

definition New_level :: "string \<Rightarrow> int" where
  "New_level level =
     (let l = to_lower level
      in if l = ''debug'' then 0 else if l = ''info'' then 1 else if l = ''warn'' \<or> l = ''warning'' then 2
         else if l = ''error'' then 3 else if l = ''fatal'' then 4 else if l = ''panic'' then 5 else 1)"

fun line_level :: "log_line \<Rightarrow> int" where
  "line_level (TraceLine _) = -1"
| "line_level (ErrorLine _ _) = 3"

definition written :: "string \<Rightarrow> log_line list \<Rightarrow> log_line list" where
  "written level ls = filter (\<lambda>l. New_level level \<le> line_level l) ls"

lemma New_level_range: "0 \<le> New_level level"
  by (simp add: New_level_def Let_def)

text \<open>Also: What the decorators log of a success is never written, at any level that can be configured: the
  setting knows no level as low as trace, and unknown levels, trace among them, mean info. Of a
  decorated command the log has at most a failure.\<close>

theorem successes_never_logged:
  "\<exists>ls. written level (tm_log (snd (snd (ApplyCommandDecorators clk n (action_of f) (s, t))))) =
     written level (tm_log t) @ ls \<and>
     ((\<nexists>e. fst (f s) = Some (Inl e)) \<longrightarrow> ls = [])"
proof -
  obtain r s' where f: "f s = (r, s')" by (metis surj_pair)
  have "tm_log (snd (snd (ApplyCommandDecorators clk n (action_of f) (s, t)))) = tm_log t @ [line_of ''command'' (err_of r)]"
    by (simp add: ApplyCommandDecorators_def metrics_decorator_def tracing_decorator_def logging_decorator_def
        action_of_def f Inc_def Let_def split: option.split)
  moreover have "written level [line_of ''command'' (err_of r)] = []" if "\<nexists>e. r = Some (Inl e)"
    using that New_level_range [of level] by (auto simp: written_def line_of_def err_of_def split: option.splits sum.splits)
  ultimately show ?thesis
    by (intro exI [of _ "written level [line_of ''command'' (err_of r)]"]) (auto simp: written_def f)
qed

end
