(* ===== verification/Pipeline.thy ===== *)
theory Pipeline
  imports Worker
begin

text \<open>
  The way of one request through the three programs: started by the web service
  (\<open>application_service.go\<close>), published by the publisher (\<open>publisher_service.go\<close>), delivered by the
  broker, processed by the worker (\<open>subscriber_service.go\<close>) and fetched by the client. It has no
  code of its own; what it adds to the theories of the parts is that their contracts meet.
\<close>

section \<open>What publishing leaves alone\<close>

text \<open>Of an event, publishing changes the status, the counters, the error and the times; it touches
  neither the analyses nor the cache.\<close>

definition event_core :: "outbox_row \<Rightarrow> uuid \<times> uuid \<times> outbox_event_type \<times> json" where
  "event_core r = (or_id r, or_aggregate_id r, or_event_type r, or_payload r)"

definition same_requests :: "world \<Rightarrow> world \<Rightarrow> bool" where
  "same_requests v w \<longleftrightarrow> map event_core (outbox_tab w) = map event_core (outbox_tab v) \<and>
     analysis_tab w = analysis_tab v \<and> cache_tab w = cache_tab v"

lemma same_requests_refl [simp]: "same_requests w w"
  by (simp add: same_requests_def)

lemma same_requests_tick_free: "tick_free (same_requests v)"
  by (simp add: tick_free_def same_requests_def)

lemma same_requests_trans [trans]: "same_requests u v \<Longrightarrow> same_requests v w \<Longrightarrow> same_requests u w"
  by (simp add: same_requests_def)

lemma mark_event_same:
  assumes "same_requests v w" "\<And>r. event_core (f t r) = event_core r"
  shows "same_requests v (snd (mark_event env what i ov f t w))"
proof -
  have "same_requests v (snd (statement env (mark_rows i ov (f t)) w))"
  proof (rule statement_preserves [OF same_requests_tick_free assms(1)])
    fix u x u' assume "same_requests v u" "mark_rows i ov (f t) u = Inr (x, u')"
    then show "same_requests v u'"
      by (auto simp: mark_rows_def same_requests_def map_update_where assms(2) split: if_splits)
  qed
  then show ?thesis by (auto simp: mark_event_def split: prod.splits sum.splits)
qed

lemma mark_tx_same:
  assumes "same_requests v w" "\<And>t r. event_core (f t r) = event_core r"
  shows "same_requests v (snd (in_tx env (\<lambda>w. mark_event env what i ov f (now env w) w) w))"
  by (rule in_tx_preserves [OF same_requests_tick_free assms(1)]) (rule mark_event_same [OF _ assms(2)])

lemma ob_mark_same:
  assumes "same_requests v w"
  shows "same_requests v (snd (ob_MarkPublished env i w))"
    "same_requests v (snd (ob_MarkFailed env i x t w))"
    "same_requests v (snd (ob_MarkPermanentlyFailed env i x w))"
    "same_requests v (snd (ob_MarkProcessed env i w))"
    "same_requests v (snd (ob_MarkCompleted env i w))"
  unfolding ob_MarkPublished_def ob_MarkFailed_def ob_MarkPermanentlyFailed_def ob_MarkProcessed_def
    ob_MarkCompleted_def
  by (rule mark_tx_same mark_event_same; use assms in \<open>simp add: event_core_def\<close>)+

lemma ob_claim_same:
  assumes "same_requests v w"
  shows "same_requests v (snd (ob_ClaimForProcessing env i w))"
  unfolding ob_ClaimForProcessing_def
proof (rule in_tx_preserves [OF same_requests_tick_free assms])
  fix u assume u: "same_requests v u"
  have "same_requests v (snd (statement env (claim_statement i (now env u)) u))"
  proof (rule statement_preserves [OF same_requests_tick_free u])
    fix u x u' t assume "same_requests v u" "claim_statement i t u = Inr (x, u')"
    then show "same_requests v u'"
      by (auto simp: claim_statement_def same_requests_def map_update_where event_core_def
          set_processing_def split: option.splits)
  qed
  then show "same_requests v (snd (case statement env (claim_statement i (now env u)) u of
         (Inl e, w1) \<Rightarrow>
           (Inl (if errors_Is e ErrNoRows then ErrText ''event not found or already claimed''
                 else ErrWrap ''failed to claim event'' e), w1)
       | (Inr r, w1) \<Rightarrow> (convertRowToEvent r, w1)))"
    by (auto split: prod.splits sum.splits)
qed

lemma metric_same [simp]: "same_requests v (record_metric m w) = same_requests v w"
  by (simp add: same_requests_def)

lemma queue_Publish_same: "same_requests v w \<Longrightarrow> same_requests v (snd (queue_Publish env ex k b w))"
  unfolding queue_Publish_def
  by (rule statement_preserves [OF same_requests_tick_free]) (auto simp: same_requests_def)

lemma PublishEvent_same:
  assumes "same_requests v w"
  shows "same_requests v (snd (PublishEvent env ex d e w))"
proof -
  obtain r1 w1 where s1: "ob_ClaimForProcessing env (oe_id e) w = (r1, w1)" by force
  note w1 = ob_claim_same [OF assms, of env "oe_id e", unfolded s1, simplified]
  show ?thesis
  proof (cases r1)
    case (Inr c)
    obtain r2 w2 where s2: "queue_Publish env ex (event_type_string (oe_event_type c))
        (enc_event_payload (oe_payload c)) w1 = (r2, w2)" by force
    note w2 = queue_Publish_same [OF w1, of env ex "event_type_string (oe_event_type c)"
        "enc_event_payload (oe_payload c)", unfolded s2, simplified]
    obtain r3 w3 where s3: "ob_MarkPublished env (oe_id c) w2 = (r3, w3)" by force
    note w3 = ob_mark_same(1) [OF w2, of env "oe_id c", unfolded s3, simplified]
    have "same_requests v (snd (handlePublishFailure env d c x w2))" for x
      using w2 by (simp add: handlePublishFailure_def Let_def ob_mark_same)
    with s1 Inr s2 s3 w3 show ?thesis
      by (cases r2; cases r3) (simp_all add: PublishEvent_def)
  qed (use s1 w1 in \<open>simp add: PublishEvent_def\<close>)
qed

lemma publish_all_same: "same_requests v w \<Longrightarrow> same_requests v (publish_all env ex d evs w)"
  unfolding publish_all_def by (induction evs arbitrary: w) (simp_all add: PublishEvent_same)

lemma processPendingEvents_same: "same_requests w (snd (processPendingEvents sched env ex d w))"
proof -
  obtain r w1 where f: "ob_FindPending env BatchSize w = (r, w1)" by force
  have "same_requests w w1"
    using f by (auto simp: ob_FindPending_def ob_findByCriteria_def statement_def call_def same_requests_def
        split: outcome.splits sum.splits prod.splits)
  with f show ?thesis
    by (cases r) (simp_all add: processPendingEvents_def publish_all_same)
qed

section \<open>Processing on a healthy system\<close>

text \<open>Room for \<open>n\<close> more changes in the 32 bits of the lock version.\<close>

definition lock_room :: "uuid \<Rightarrow> nat \<Rightarrow> world \<Rightarrow> bool" where
  "lock_room i n w \<longleftrightarrow> (\<forall>r \<in> set (analysis_tab w). ar_id r = i \<longrightarrow> ar_lock_version r + int n \<le> max_int32)"

lemma lock_room_tab: "analysis_tab w' = analysis_tab w \<Longrightarrow> lock_room i n w' = lock_room i n w"
  by (simp add: lock_room_def)

lemma updated_ok:
  assumes "no_faults env" "lock_room i (Suc n) w" "\<not> bad"
    and "\<And>t r. ar_lock_version (f t r) = ar_lock_version r"
  shows "\<exists>t w'. updateByCriteria env (\<lambda>w. if bad then Inl x else locked_update env i f w) ctx w = (Inr (), w') \<and>
    lock_room i n w' \<and> outbox_tab w' = outbox_tab w \<and> cache_tab w' = cache_tab w \<and>
    analysis_tab w' = update_where (\<lambda>r. ar_id r = i) (\<lambda>r. bump_lock (f t r)\<lparr>ar_updated_at := t\<rparr>) (analysis_tab w)"
proof -
  have "\<not> lock_overflow i (w\<lparr>tick := Suc (tick w)\<rparr>)"
    using assms(2) by (fastforce simp: lock_overflow_def lock_room_def)
  moreover have "ar_lock_version (f t r) + (1 + int n) \<le> max_int32"
    if "r \<in> set (analysis_tab w)" "ar_id r = i" for t r
    using assms(2,4) that by (auto simp: lock_room_def)
  ultimately show ?thesis
    using assms(1,3)
    by (intro exI [of _ "now env (w\<lparr>tick := Suc (tick w)\<rparr>)"] exI)
      (auto simp: updateByCriteria_def statement_ok locked_update_def update_analysis_def
        lock_room_def set_update_where bump_lock_def add.assoc)
qed

lemma updated_fine:
  assumes "no_faults env" "lock_room i (Suc n) w" "\<And>t r. ar_lock_version (f t r) = ar_lock_version r"
  shows "\<exists>t w'. updateByCriteria env (\<lambda>w. locked_update env i f w) ctx w = (Inr (), w') \<and>
    lock_room i n w' \<and> outbox_tab w' = outbox_tab w \<and> cache_tab w' = cache_tab w \<and>
    analysis_tab w' = update_where (\<lambda>r. ar_id r = i) (\<lambda>r. bump_lock (f t r)\<lparr>ar_updated_at := t\<rparr>) (analysis_tab w)"
  using updated_ok [OF assms(1,2), of False f undefined ctx] assms(3) by simp

lemma marked_ok:
  assumes "no_faults env" "i \<in> or_id ` set (outbox_tab w)"
  shows "\<exists>w'. mark_event env what i never f t w = (Inr (), w')"
proof -
  have "filter (\<lambda>r. or_id r = i) (outbox_tab w) \<noteq> []"
    using assms(2) by (auto simp: filter_empty_conv)
  with assms(1) show ?thesis by (simp add: mark_event_def statement_ok mark_rows_def never_def)
qed

lemma core_ids: "map event_core xs = map event_core ys \<Longrightarrow> or_id ` set xs = or_id ` set ys"
proof -
  assume "map event_core xs = map event_core ys"
  then have "map (fst \<circ> event_core) xs = map (fst \<circ> event_core) ys" by (metis map_map)
  then have "set (map or_id xs) = set (map or_id ys)" by (simp add: comp_def event_core_def)
  then show ?thesis by simp
qed

text \<open>The completed analyses can be read, so a duplicate can be copied.\<close>

definition readable :: "world \<Rightarrow> bool" where
  "readable w \<longleftrightarrow> (\<forall>r \<in> set (analysis_tab w). ar_status r = StatusCompleted \<longrightarrow> (\<exists>a. convertRowToAnalysis r = Inr a))"

lemma latest_completed_in: "latest_completed rs = Some r \<Longrightarrow> r \<in> set rs"
  by (induction rs arbitrary: r) (auto split: option.splits if_splits)

lemma duplicate_ok:
  assumes "no_faults env" "readable w"
  shows "\<exists>q w'. checkDuplicateContent env h w = (Inr q, w')"
proof (cases "latest_completed (filter (hash_match h) (analysis_tab w))")
  case None
  with assms(1) show ?thesis
    by (simp add: checkDuplicateContent_def an_FindByContentHash_def findByCriteria_def statement_ok find_row_def)
next
  case (Some r)
  then have "r \<in> set (analysis_tab w)" "ar_status r = StatusCompleted"
    using latest_completed_in [OF Some] by (auto simp: hash_match_def)
  with assms(2) obtain a where "convertRowToAnalysis r = Inr a" by (auto simp: readable_def)
  with assms(1) Some show ?thesis
    by (simp add: checkDuplicateContent_def an_FindByContentHash_def findByCriteria_def statement_ok find_row_def)
qed

lemma latest_event_in:
  assumes "latest_event i rows = Some r"
  shows "r \<in> set rows \<and> or_aggregate_id r = i"
proof -
  obtain rs where "sort_key (\<lambda>r. - or_created_at r) (filter (\<lambda>r. or_aggregate_id r = i) rows) = r # rs"
    using assms by (auto simp: latest_event_def split: list.splits)
  then have "r \<in> set (filter (\<lambda>r. or_aggregate_id r = i) rows)" by (metis list.set_intros(1) set_sort)
  then show ?thesis by simp
qed

lemma process_begin_ok:
  assumes "no_faults env" "lock_room i (Suc n) w" "latest_event i (outbox_tab w) = Some r"
    and "convertRowToEvent r = Inr ev" "readable w"
  shows "\<exists>w'. process_begin env P i w = (Inr ev, w') \<and> lock_room i n w' \<and> readable w' \<and>
    or_id ` set (outbox_tab w') = or_id ` set (outbox_tab w)"
proof -
  let ?w1 = "w\<lparr>tick := Suc (tick w)\<rparr>"
  have s1: "ob_GetByAggregateID env i w = (Inr ev, ?w1)"
    using assms(1,3,4) by (simp add: ob_GetByAggregateID_def statement_ok)
  have "r \<in> set (outbox_tab w)" using latest_event_in [OF assms(3)] ..
  then have "oe_id ev \<in> or_id ` set (outbox_tab ?w1)"
    using convertRowToEvent_fields [OF assms(4)] by simp
  from marked_ok [OF assms(1) this] obtain w2 where s2: "ob_MarkProcessed env (oe_id ev) ?w1 = (Inr (), w2)"
    unfolding ob_MarkProcessed_def by blast
  have same: "same_requests ?w1 w2" using ob_mark_same(4) [of ?w1 ?w1 env "oe_id ev"] s2 by simp
  then have w2: "analysis_tab w2 = analysis_tab w" "or_id ` set (outbox_tab w2) = or_id ` set (outbox_tab w)"
    using core_ids [of "outbox_tab w2" "outbox_tab w"] by (simp_all add: same_requests_def)
  have "lock_room i (Suc n) w2" using assms(2) w2(1) lock_room_tab by blast
  from updated_ok [OF assms(1) this, of "\<not> known_status StatusInProgress" "\<lambda>t r. r\<lparr>ar_status := StatusInProgress\<rparr>"
      "ErrText ''pq: invalid input value for enum analysis_status''" "''failed to update analysis status''"]
  obtain t w3 where s3: "an_UpdateStatus env i StatusInProgress w2 = (Inr (), w3)" "lock_room i n w3"
    "outbox_tab w3 = outbox_tab w2"
    "analysis_tab w3 = update_where (\<lambda>r. ar_id r = i) (\<lambda>r. bump_lock (r\<lparr>ar_status := StatusInProgress\<rparr>)\<lparr>ar_updated_at := t\<rparr>)
       (analysis_tab w2)"
    by (auto simp: an_UpdateStatus_def known_status_def)
  have "readable w3"
    using assms(5) by (auto simp: readable_def s3(4) w2(1) set_update_where bump_lock_def)
  then show ?thesis
    using s1 s2 s3 w2 by (auto simp: process_begin_def frame_simps readable_def lock_room_def)
qed

lemma invalidated:
  "no_faults env \<Longrightarrow> port_cache P \<noteq> None \<Longrightarrow> cache_tab (cache_invalidate env P i w) (analysis_key i) = None"
  by (auto simp: cache_invalidate_def cache_Delete_def keydb_Delete_def statement_ok)

text \<open>
  How a request can end: completed, if the page can be had, or failed, if it cannot.
\<close>

definition decided :: "bool \<Rightarrow> bool \<Rightarrow> analysis_row \<Rightarrow> bool" where
  "decided can cannot r \<longleftrightarrow>
     can \<and> ar_status r = StatusCompleted \<and> ar_results r \<noteq> None \<or>
     cannot \<and> ar_status r = StatusFailed \<and> ar_error_code r = Some ''FETCH_ERROR''"

abbreviation row_key :: "analysis_row \<Rightarrow> uuid \<times> string" where
  "row_key r \<equiv> (ar_id r, ar_url r)"

context service_contract
begin

lemma store_ok:
  assumes "no_faults env" "lock_room i (Suc n) w" "\<not> hash_too_long h"
  shows "\<exists>w'. store_results env P i h c pr res w = (Inr (), w') \<and> lock_room i n w' \<and> outbox_tab w' = outbox_tab w"
proof -
  let ?w = "record_metric (ProcessingMetric pr) (record_metric (FetchMetric (wp_fetch_duration c)) w)"
  have "lock_room i (Suc n) ?w" using assms(2) by (simp add: lock_room_def)
  from updated_ok [OF assms(1) this assms(3), of "set_completed h (int (length (wp_html c)))
      (enc_results (Some (with_timing (wp_fetch_duration c) pr res)))" pg_too_long "''failed to update analysis results''"]
  show ?thesis
    by (auto simp: store_results_def an_Update_def frame_simps lock_room_def set_completed_def)
qed

lemma copy_ok:
  assumes "no_faults env" "lock_room i (Suc n) w" "\<not> hash_too_long h"
  shows "\<exists>w'. copyAnalysisResults env P i h src w = (Inr (), w') \<and> lock_room i n w' \<and> outbox_tab w' = outbox_tab w"
  using updated_ok [OF assms, of "set_completed h (an_content_size src) (enc_results (an_results src))" pg_too_long
      "''failed to update analysis results''"]
  by (auto simp: copyAnalysisResults_def an_Update_def frame_simps lock_room_def set_completed_def)

lemma full_ok:
  assumes "no_faults env" "lock_room i (Suc n) w" "\<not> hash_too_long h"
    and "port_analyze P (wp_url c) (wp_html c) opts = Inr d"
  shows "\<exists>w'. performFullAnalysis env P i h c opts w = (Inr (), w') \<and> lock_room i n w' \<and> outbox_tab w' = outbox_tab w"
proof -
  obtain d1 w1 where s: "check_external_links env P opts d w = (d1, w1)" by force
  note w1 = check_external_frame [OF s]
  then have "lock_room i (Suc n) w1" using assms(2) lock_room_tab by blast
  from store_ok [OF assms(1) this assms(3), of c "now env w1 - now env w" d1] w1 show ?thesis
    using s assms(4) by (simp add: performFullAnalysis_def)
qed

lemma process_content_ok:
  assumes "no_faults env" "lock_room (rp_analysis_id p) (Suc n) w" "\<not> hash_too_long h" "readable w"
    and "port_analyze P (wp_url c) (wp_html c) (rp_options p) = Inr d"
  shows "\<exists>w'. process_content env P p h c w = (Inr (), w') \<and> lock_room (rp_analysis_id p) n w' \<and>
    outbox_tab w' = outbox_tab w"
proof -
  obtain q w1 where s: "checkDuplicateContent env h w = (Inr q, w1)"
    using duplicate_ok [OF assms(1,4)] by blast
  note w1 = duplicate_frame [OF s]
  then have "lock_room (rp_analysis_id p) (Suc n) w1" using assms(2) lock_room_tab by blast
  note full = full_ok [OF assms(1) this assms(3,5)] and copy = copy_ok [OF assms(1) this assms(3)]
  show ?thesis
  proof (cases q)
    case None
    with full s w1 show ?thesis by (auto simp: process_content_def)
  next
    case (Some src)
    with copy [of src] s w1 show ?thesis by (auto simp: process_content_def)
  qed
qed

lemma process_finish_ok:
  assumes "no_faults env" "lock_room i (Suc n) w" "oe_id ev \<in> or_id ` set (outbox_tab w)"
  shows "\<exists>w'. process_finish env P i ev h w =
      (\<lparr>pr_success = True, pr_content_hash = h, pr_error_code = [], pr_error_message = []\<rparr>, w') \<and>
    (port_cache P \<noteq> None \<longrightarrow> cache_tab w' (analysis_key i) = None)"
proof -
  let ?d = "Milliseconds (time_Sub (now env w) (oe_created_at ev))"
  from updated_fine [OF assms(1,2), of "\<lambda>t r. r\<lparr>ar_duration := Some ?d, ar_completed_at := Some t\<rparr>"
      "''failed to update analysis duration and completion''"]
  obtain w1 where s1: "an_UpdateCompletionDuration env i ?d w = (Inr (), w1)" "outbox_tab w1 = outbox_tab w"
    by (auto simp: an_UpdateCompletionDuration_def)
  with assms(3) have "oe_id ev \<in> or_id ` set (outbox_tab w1)" by simp
  from marked_ok [OF assms(1) this] obtain w2 where "ob_MarkCompleted env (oe_id ev) w1 = (Inr (), w2)"
    unfolding ob_MarkCompleted_def by blast
  with s1 show ?thesis using invalidated [OF assms(1), of P i w2] by (simp add: process_finish_def Let_def)
qed

lemma unfetchable_ok:
  assumes "no_faults env" "lock_room (rp_analysis_id p) (Suc n) w"
    and "port_fetch P env (rp_url p) (opt_timeout (rp_options p)) w = (Inl e, w1)"
  shows "\<exists>res w'. process_fetch env P p w = (Inl res, w') \<and>
    (port_cache P \<noteq> None \<longrightarrow> cache_tab w' (analysis_key (rp_analysis_id p)) = None) \<and>
    map row_key (analysis_tab w') = map row_key (analysis_tab w) \<and>
    (\<forall>r \<in> set (analysis_tab w'). ar_id r = rp_analysis_id p \<longrightarrow> decided can True r)"
proof -
  let ?i = "rp_analysis_id p"
  have tab: "analysis_tab w1 = analysis_tab w" using fetch_frame [OF assms(3)] ..
  then have "lock_room ?i (Suc n) w1" using assms(2) lock_room_tab by blast
  from updated_fine [OF assms(1) this, of "\<lambda>t r. r\<lparr>ar_status := StatusFailed, ar_error_code := Some ''FETCH_ERROR'',
      ar_error_message := Some (Error e), ar_error_status_code := Some 0, ar_completed_at := Some t\<rparr>"
      "''failed to mark analysis as failed''"]
  obtain t w2 where m: "an_MarkFailed env ?i ''FETCH_ERROR'' (Error e) 0 w1 = (Inr (), w2)"
    "analysis_tab w2 = update_where (\<lambda>r. ar_id r = ?i) (\<lambda>r. bump_lock (r\<lparr>ar_status := StatusFailed,
       ar_error_code := Some ''FETCH_ERROR'', ar_error_message := Some (Error e), ar_error_status_code := Some 0,
       ar_completed_at := Some t\<rparr>)\<lparr>ar_updated_at := t\<rparr>) (analysis_tab w)"
    by (auto simp: an_MarkFailed_def tab)
  have "map row_key (analysis_tab w2) = map row_key (analysis_tab w)"
    unfolding m(2) by (rule map_update_where) (simp add: bump_lock_def)
  moreover have "\<forall>r \<in> set (analysis_tab w2). ar_id r = ?i \<longrightarrow> decided can True r"
    unfolding m(2) by (auto simp: set_update_where bump_lock_def decided_def)
  ultimately show ?thesis
    using assms(3) m(1) invalidated [OF assms(1), of P ?i w2] by (simp add: process_fetch_def frame_simps)
qed

lemma fetched_ok:
  assumes "no_faults env" "lock_room (rp_analysis_id p) 2 w" "readable w" "oe_id ev \<in> or_id ` set (outbox_tab w)"
    and "port_analyze P (wp_url c) (wp_html c) (rp_options p) = Inr d"
    and "\<not> hash_too_long h"
  shows "\<exists>w1 res w'. process_content env P p h c w = (Inr (), w1) \<and>
    process_finish env P (rp_analysis_id p) ev h w1 = (res, w') \<and> pr_success res \<and>
    (port_cache P \<noteq> None \<longrightarrow> cache_tab w' (analysis_key (rp_analysis_id p)) = None)"
proof -
  have "lock_room (rp_analysis_id p) (Suc 1) w" using assms(2) by (simp add: numeral_2_eq_2)
  from process_content_ok [OF assms(1) this assms(6,3,5)] obtain w1 where
    w1: "process_content env P p h c w = (Inr (), w1)" "lock_room (rp_analysis_id p) (Suc 0) w1"
      "outbox_tab w1 = outbox_tab w"
    by auto
  with process_finish_ok [OF assms(1) w1(2), of ev h] assms(4) show ?thesis by auto
qed

lemma process_decided:
  assumes "no_faults env" "lock_room (rp_analysis_id p) 3 w" "readable w"
    and "latest_event (rp_analysis_id p) (outbox_tab w) = Some r" "convertRowToEvent r = Inr ev"
    and "\<And>u s. \<exists>d. port_analyze P u s (rp_options p) = Inr d"
    and "\<And>s. \<not> hash_too_long (NewContentHash (sha256_Sum env) s)"
  shows "\<exists>res w'. ProcessAnalysisRequest env P p w = (res, w') \<and>
    (port_cache P \<noteq> None \<longrightarrow> cache_tab w' (analysis_key (rp_analysis_id p)) = None) \<and>
    map row_key (analysis_tab w') = map row_key (analysis_tab w) \<and>
    (\<forall>r \<in> set (analysis_tab w'). ar_id r = rp_analysis_id p \<longrightarrow>
       decided (\<exists>v c. fst (port_fetch P env (rp_url p) (opt_timeout (rp_options p)) v) = Inr c)
               (\<exists>v e. fst (port_fetch P env (rp_url p) (opt_timeout (rp_options p)) v) = Inl e) r)"
    (is "\<exists>res w'. _ \<and> _ \<and> _ \<and> (\<forall>r \<in> _. _ \<longrightarrow> decided ?can ?cannot r)")
proof -
  let ?i = "rp_analysis_id p"
  have l3: "lock_room ?i (Suc 2) w" using assms(2) by (simp add: eval_nat_numeral)
  from process_begin_ok [OF assms(1) l3 assms(4,5,3), of P] obtain w1 where
    w1: "process_begin env P ?i w = (Inr ev, w1)" "lock_room ?i 2 w1" "readable w1"
      "or_id ` set (outbox_tab w1) = or_id ` set (outbox_tab w)" by blast
  have keys: "map row_key (analysis_tab w1) = map row_key (analysis_tab w)" by (rule process_begin_same [OF w1(1)])
  obtain q w2 where f: "port_fetch P env (rp_url p) (opt_timeout (rp_options p)) w1 = (q, w2)" by force
  show ?thesis
  proof (cases q)
    case (Inl e)
    have "lock_room ?i (Suc 1) w1" using w1(2) by (simp add: numeral_2_eq_2)
    from unfetchable_ok [OF assms(1) this f [unfolded Inl], of ?can] obtain res w' where
      "process_fetch env P p w1 = (Inl res, w')"
      "port_cache P \<noteq> None \<longrightarrow> cache_tab w' (analysis_key ?i) = None"
      "map row_key (analysis_tab w') = map row_key (analysis_tab w1)"
      "\<forall>r \<in> set (analysis_tab w'). ar_id r = ?i \<longrightarrow> decided ?can True r" by blast
    moreover from f Inl have "?cannot = True" by (metis fst_conv)
    ultimately show ?thesis using w1(1) keys by (simp add: ProcessAnalysisRequest_def)
  next
    case (Inr c)
    let ?h = "NewContentHash (sha256_Sum env) (wp_html c)"
    note w2 = fetch_frame [OF f]
    obtain d where d: "port_analyze P (wp_url c) (wp_html c) (rp_options p) = Inr d" using assms(6) by blast
    have "lock_room ?i 2 w2" "readable w2" using w1(2,3) w2 by (simp_all add: lock_room_def readable_def)
    moreover have "oe_id ev \<in> or_id ` set (outbox_tab w2)"
      using latest_event_in [OF assms(4)] convertRowToEvent_fields [OF assms(5)] w1(4) w2 by auto
    ultimately obtain w3 res w' where w3: "process_content env P p ?h c w2 = (Inr (), w3)"
      "process_finish env P ?i ev ?h w3 = (res, w')" "pr_success res"
      "port_cache P \<noteq> None \<longrightarrow> cache_tab w' (analysis_key ?i) = None"
      using fetched_ok [OF assms(1) _ _ _ d assms(7)] by blast
    then have run: "ProcessAnalysisRequest env P p w = (res, w')"
      using w1(1) f Inr by (simp add: ProcessAnalysisRequest_def process_fetch_def Let_def)
    moreover from f Inr have "?can = True" by (metis fst_conv)
    ultimately show ?thesis
      using process_success_same [OF run w3(3)] process_success [OF run w3(3)] w3(4) by (simp add: decided_def)
  qed
qed

end

section \<open>From the request to the event\<close>

lemma StartAnalysis_started:
  assumes "StartAnalysis env mx ex url opts w0 = (Inr a, w1)"
  obtains row ev where "analysis_tab w1 = analysis_tab w0 @ [row]" "outbox_tab w1 = outbox_tab w0 @ [ev]"
    "ar_id row = an_id a" "ar_url row = url" "ar_status row = StatusRequested" "ar_lock_version row = 1"
    "or_aggregate_id ev = an_id a" "or_status ev = OutboxStatusPending" "or_event_type ev = OutboxEventAnalysisRequested"
    "or_payload ev = enc_payload \<lparr>rp_analysis_id = an_id a, rp_url = url, rp_options = opts,
      rp_priority = PriorityNormal, rp_created_at = an_created_at a\<rparr>"
proof -
  obtain q w' where tx: "in_tx env (start_body env mx url opts) w0 = (q, w')" by force
  with assms have q: "q = Inr a" "analysis_tab w1 = analysis_tab w'" "outbox_tab w1 = outbox_tab w'"
    using cache_Set_tables by (auto simp: StartAnalysis_def split: sum.splits)
  from tx show thesis
  proof (cases rule: in_tx_cases)
    case (committed x w2)
    with q have "x = a" by simp
    from start_body_Inr [OF committed(2) [unfolded this]] committed(3) q(2,3) show thesis
      by (auto intro: that)
  qed (use q in simp_all)
qed

lemma StartAnalysis_keeps:
  "analysis_table_ok w \<Longrightarrow> analysis_table_ok (snd (StartAnalysis env mx ex url opts w))"
  "outbox_table_ok w \<Longrightarrow> outbox_table_ok (snd (StartAnalysis env mx ex url opts w))"
proof -
  have save: "analysis_table_ok v \<Longrightarrow> analysis_table_ok (snd (an_SaveInTx env url opts v))" for v
    using analysis_calls.keeps [of v "CallSaveInTx url opts" env] by (simp add: plain_status_def)
  have event: "outbox_table_ok v \<Longrightarrow> outbox_table_ok (snd (ob_SaveInTx env (requested_event mx a url opts) v))" for a v
    using outbox_ops.keeps [of v "OpSave (requested_event mx a url opts)" env]
    by (simp add: saves_pending_def requested_event_def)
  have frames: "outbox_tab (snd (an_SaveInTx env url opts v)) = outbox_tab v"
    "analysis_tab (snd (ob_SaveInTx env e v)) = analysis_tab v" for v e
  proof -
    have "outbox_tab (snd (an_insert env ctx url x v)) = outbox_tab v" for ctx x
      by (auto simp: an_insert_def Let_def wrap_error_def statement_def call_def insert_analysis_def
          getNextVersionWithExecutor_def split: outcome.splits sum.splits prod.splits if_splits)
    then show "outbox_tab (snd (an_SaveInTx env url opts v)) = outbox_tab v" by (simp add: an_SaveInTx_def)
    show "analysis_tab (snd (ob_SaveInTx env e v)) = analysis_tab v"
      by (auto simp: ob_SaveInTx_def Let_def statement_def call_def insert_outbox_def
          split: outcome.splits sum.splits prod.splits if_splits)
  qed
  have body: "(analysis_table_ok v \<longrightarrow> analysis_table_ok (snd (start_body env mx url opts v))) \<and>
      (outbox_table_ok v \<longrightarrow> outbox_table_ok (snd (start_body env mx url opts v)))" for v
  proof -
    obtain r1 v1 where s1: "an_SaveInTx env url opts v = (r1, v1)" by force
    with save [of v] frames(1) [of v] have v1: "analysis_table_ok v \<longrightarrow> analysis_table_ok v1" "outbox_tab v1 = outbox_tab v"
      by auto
    show ?thesis
    proof (cases r1)
      case (Inr a)
      obtain r2 v2 where s2: "ob_SaveInTx env (requested_event mx a url opts) v1 = (r2, v2)" by force
      with event [of v1 a] frames(2) [of "requested_event mx a url opts" v1] s1 Inr v1 show ?thesis
        by (cases r2) (auto simp: start_body_def analysis_table_ok_def outbox_table_ok_def)
    qed (use s1 v1 in \<open>auto simp: start_body_def outbox_table_ok_def\<close>)
  qed
  have split: "snd (StartAnalysis env mx ex url opts w) = w' \<or> (\<exists>a. snd (StartAnalysis env mx ex url opts w) =
      snd (cache_Set env ex a w'))" if "w' = snd (in_tx env (start_body env mx url opts) w)" for w'
    using that by (auto simp: StartAnalysis_def split: prod.splits sum.splits)
  show "analysis_table_ok (snd (StartAnalysis env mx ex url opts w))" if "analysis_table_ok w"
  proof -
    have "analysis_table_ok (snd (in_tx env (start_body env mx url opts) w))"
      by (rule in_tx_preserves [OF analysis_table_ok_tick that]) (use body in blast)
    with split [OF refl] cache_Set_tables show ?thesis by (auto simp: analysis_table_ok_def)
  qed
  show "outbox_table_ok (snd (StartAnalysis env mx ex url opts w))" if "outbox_table_ok w"
  proof -
    have "outbox_table_ok (snd (in_tx env (start_body env mx url opts) w))"
      by (rule in_tx_preserves [where P = outbox_table_ok])
        (use body that in \<open>auto simp: tick_free_def outbox_table_ok_def\<close>)
    with split [OF refl] cache_Set_tables show ?thesis by (auto simp: outbox_table_ok_def)
  qed
qed

section \<open>From the event to the message\<close>

text \<open>The published message of a started analysis, and the state in which a worker finds it.\<close>

lemma tick_publishes:
  assumes "no_faults env" "outbox_table_ok w" "\<And>xs. mset (sched xs) = mset xs"
    and "fst (ob_FindPending env BatchSize w) = Inr evs" "e \<in> set evs"
    and "w' = snd (processPendingEvents sched env ex d w)"
  shows "message_of ex e \<in> set (drop (length (bus w)) (bus w'))"
proof -
  have "evs \<noteq> []" using assms(5) by auto
  moreover have "set (sched evs) = set evs" by (metis assms(3) set_mset_mset)
  ultimately show ?thesis
    using pending_batch_effect [OF assms(1-4), of ex d] assms(5,6) by (simp add: Let_def)
qed

lemma core_events:
  "map event_core xs = map event_core ys \<Longrightarrow> r \<in> set xs \<Longrightarrow> \<exists>s \<in> set ys. event_core s = event_core r"
  by (metis (no_types, lifting) image_iff list.set_map)

lemma latest_event_Some:
  assumes "r \<in> set rows" "or_aggregate_id r = i"
  shows "\<exists>s. latest_event i rows = Some s"
proof (cases "sort_key (\<lambda>r. - or_created_at r) (filter (\<lambda>r. or_aggregate_id r = i) rows)")
  case Nil
  from arg_cong [OF this, of set] assms show ?thesis by simp
qed (simp add: latest_event_def)

text \<open>What the event of an analysis request is converted to.\<close>

lemma convert_request:
  assumes "or_event_type r = OutboxEventAnalysisRequested" "or_payload r = enc_payload p"
    and "\<bar>opt_timeout (rp_options p)\<bar> \<le> 2 ^ 53"
  shows "\<exists>e. convertRowToEvent r = Inr e \<and> oe_payload e = AnalysisRequestPayload p \<and>
    oe_aggregate_id e = or_aggregate_id r"
proof -
  have "in_int64 (opt_timeout (rp_options p))" using assms(3) by (simp add: in_int64_def abs_le_iff)
  with assms(1,2) show ?thesis by (simp add: convertRowToEvent_def unmarshalPayload_def dec_enc_payload)
qed

text \<open>The latest event of an analysis is its request, as long as nothing but publishing happens.\<close>

lemma request_found:
  assumes "outbox_tab w1 = outbox_tab w0 @ [ev]" "i \<notin> or_aggregate_id ` set (outbox_tab w0)"
    and "or_aggregate_id ev = i" "or_event_type ev = OutboxEventAnalysisRequested" "or_payload ev = enc_payload p"
    and "\<bar>opt_timeout (rp_options p)\<bar> \<le> 2 ^ 53" "same_requests w1 w2"
  shows "\<exists>r e. latest_event i (outbox_tab w2) = Some r \<and> convertRowToEvent r = Inr e"
proof -
  have core: "map event_core (outbox_tab w2) = map event_core (outbox_tab w1)"
    using assms(7) by (simp add: same_requests_def)
  obtain s where "s \<in> set (outbox_tab w2)" "event_core s = event_core ev"
    using core_events [OF core [symmetric], of ev] assms(1) by auto
  then obtain r where r: "latest_event i (outbox_tab w2) = Some r"
    using latest_event_Some assms(3) by (fastforce simp: event_core_def)
  note in2 = latest_event_in [OF r]
  obtain r1 where r1: "r1 \<in> set (outbox_tab w1)" "event_core r1 = event_core r"
    using core_events [OF core, of r] in2 by auto
  with in2 have "or_aggregate_id r1 = i" by (simp add: event_core_def)
  with r1(1) assms(1,2) have "r1 = ev" by auto
  with r1(2) assms(4,5) have "or_event_type r = OutboxEventAnalysisRequested" "or_payload r = enc_payload p"
    by (simp_all add: event_core_def)
  from convert_request [OF this assms(6)] r show ?thesis by blast
qed

text \<open>The event that was fetched for the analysis is the one that was saved for it.\<close>

lemma fetched_request:
  assumes "fst (ob_FindPending env n w1) = Inr evs" "e \<in> set evs" "oe_aggregate_id e = i"
    and "outbox_tab w1 = outbox_tab w0 @ [ev]" "i \<notin> or_aggregate_id ` set (outbox_tab w0)"
    and "or_event_type ev = OutboxEventAnalysisRequested" "or_payload ev = enc_payload p"
    and "\<bar>opt_timeout (rp_options p)\<bar> \<le> 2 ^ 53"
  shows "oe_payload e = AnalysisRequestPayload p"
proof -
  from rows_of_pending [OF assms(1,2)] obtain r where
    r: "r \<in> set (outbox_tab w1)" "convertRowToEvent r = Inr e" by blast
  then have "or_aggregate_id r = i" using assms(3) by (auto simp: convertRowToEvent_def split: sum.splits)
  with r(1) assms(4,5) have "r = ev" by auto
  with convert_request [OF assms(6-8)] r(2) show ?thesis by auto
qed

section \<open>From the result to the client\<close>

lemma settle_frames:
  "no_faults env \<Longrightarrow> analysis_tab (snd (settle env s d w)) = analysis_tab w"
  "no_faults env \<Longrightarrow> cache_tab (snd (settle env s d w)) = cache_tab w"
  by (simp_all add: settle_def statement_ok)

lemma fetch_uncached:
  assumes "no_faults env" "cache_tab w (analysis_key i) = None" "List.find (\<lambda>r. ar_id r = i) (analysis_tab w) = Some r"
  shows "fst (FetchAnalysis env ex i w) =
    (case convertRowToAnalysis r of Inl e \<Rightarrow> Inl (ErrWrap ''failed to find analysis'' e) | Inr a \<Rightarrow> Inr a)"
  using assms
  by (auto simp: FetchAnalysis_def cache_Find_def keydb_Get_def statement_ok an_Find_def findByCriteria_def
      find_row_def split: sum.splits)

text \<open>The worker, on a delivery of the message of a request.\<close>

lemma deliver_request:
  assumes "no_faults env" "decode_delivery dl = Inr m" "m_delivery m = dl" "Unmarshal dec_payload m = Inr p"
    and "ProcessAnalysisRequest env P p w = (res, w1)"
  shows "analysis_tab (handle_delivery env (ProcessMessage env P q) dl w) = analysis_tab w1"
    "cache_tab (handle_delivery env (ProcessMessage env P q) dl w) = cache_tab w1"
  using assms
  by (simp_all add: handle_delivery_def ProcessMessage_def processAnalysisMessage_Handle_def ctrl_Ack_def settle_frames)

text \<open>A request that waits for a worker: its event is in the outbox, its row in the table.\<close>

definition awaiting :: "uuid \<Rightarrow> string \<Rightarrow> world \<Rightarrow> bool" where
  "awaiting i url w \<longleftrightarrow>
     (\<exists>r e. latest_event i (outbox_tab w) = Some r \<and> convertRowToEvent r = Inr e) \<and> lock_room i 3 w \<and> readable w \<and>
     i \<in> ar_id ` set (analysis_tab w) \<and> (\<forall>r \<in> set (analysis_tab w). ar_id r = i \<longrightarrow> ar_url r = url)"

text \<open>The payload that a started analysis is published with.\<close>

definition request_of :: "analysis \<Rightarrow> string \<Rightarrow> analysis_options \<Rightarrow> request_payload" where
  "request_of a url opts = \<lparr>rp_analysis_id = an_id a, rp_url = url, rp_options = opts,
     rp_priority = PriorityNormal, rp_created_at = an_created_at a\<rparr>"

lemma request_of_simps [simp]:
  "rp_analysis_id (request_of a url opts) = an_id a" "rp_url (request_of a url opts) = url"
  "rp_options (request_of a url opts) = opts"
  by (simp_all add: request_of_def)

lemma started_awaits:
  assumes "analysis_table_ok w0" "readable w0" "StartAnalysis env mx ex url opts w0 = (Inr a, w1)"
    and "an_id a \<notin> or_aggregate_id ` set (outbox_tab w0)" "\<bar>opt_timeout opts\<bar> \<le> 2 ^ 53" "same_requests w1 w2"
  shows "awaiting (an_id a) url w2"
proof -
  let ?i = "an_id a"
  obtain row ev where tabs: "analysis_tab w1 = analysis_tab w0 @ [row]" "outbox_tab w1 = outbox_tab w0 @ [ev]"
    and row: "ar_id row = ?i" "ar_url row = url" "ar_status row = StatusRequested" "ar_lock_version row = 1"
    and ev: "or_aggregate_id ev = ?i" "or_event_type ev = OutboxEventAnalysisRequested"
      "or_payload ev = enc_payload (request_of a url opts)"
    using StartAnalysis_started [OF assms(3)] unfolding request_of_def by metis
  have tab2: "analysis_tab w2 = analysis_tab w0 @ [row]" using assms(6) tabs(1) by (simp add: same_requests_def)
  have "analysis_table_ok w1" using StartAnalysis_keeps(1) [OF assms(1), of env mx ex url opts] assms(3) by simp
  then have uniq: "r = row" if "r \<in> set (analysis_tab w2)" "ar_id r = ?i" for r
    using that row(1) distinct_map_eqD [of ar_id "analysis_tab w1" r row] tab2 tabs(1)
    by (simp add: analysis_table_ok_def)
  have "ar_lock_version r = 1" if "r \<in> set (analysis_tab w2)" "ar_id r = ?i" for r
    using uniq [OF that] row(4) by simp
  then have "lock_room ?i 3 w2" by (simp add: lock_room_def max_int32_def)
  moreover have "readable w2" using assms(2) row(3) tab2 by (auto simp: readable_def)
  moreover have "\<forall>r \<in> set (analysis_tab w2). ar_id r = ?i \<longrightarrow> ar_url r = url" using uniq row(2) by blast
  ultimately show ?thesis
    using request_found [OF tabs(2) assms(4) ev _ assms(6)] assms(5) row(1) tab2 by (simp add: awaiting_def)
qed

text \<open>What a worker and the clients after it see of such a request, and of the page it is about.\<close>

definition answered :: "env \<Rightarrow> duration \<Rightarrow> uuid \<Rightarrow> string \<Rightarrow> bool \<Rightarrow> bool \<Rightarrow> world \<Rightarrow> bool" where
  "answered env ex i url can cannot w \<longleftrightarrow>
     (\<exists>r \<in> set (analysis_tab w). ar_id r = i \<and> ar_url r = url \<and> decided can cannot r \<and>
        fst (FetchAnalysis env ex i w) =
          (case convertRowToAnalysis r of Inl e \<Rightarrow> Inl (ErrWrap ''failed to find analysis'' e) | Inr a \<Rightarrow> Inr a))"

lemma awaiting_decided:
  assumes "no_faults env" "awaiting (rp_analysis_id p) (rp_url p) w" "P = service_ports H D ws ls mxs cfg (Some expiry)"
    and "\<And>s. length (NewContentHash (sha256_Sum env) s) \<le> 64"
  shows "\<exists>res w' r. ProcessAnalysisRequest env P p w = (res, w') \<and> cache_tab w' (analysis_key (rp_analysis_id p)) = None \<and>
    List.find (\<lambda>r. ar_id r = rp_analysis_id p) (analysis_tab w') = Some r \<and> ar_url r = rp_url p \<and>
    decided (\<exists>v c. fst (Fetch H mxs env (rp_url p) (opt_timeout (rp_options p)) v) = Inr c)
            (\<exists>v e. fst (Fetch H mxs env (rp_url p) (opt_timeout (rp_options p)) v) = Inl e) r"
proof -
  let ?i = "rp_analysis_id p"
  from assms(2) obtain r0 e0 where found: "latest_event ?i (outbox_tab w) = Some r0" "convertRowToEvent r0 = Inr e0"
    and room: "lock_room ?i 3 w" "readable w" and row: "?i \<in> ar_id ` set (analysis_tab w)"
      "\<forall>r \<in> set (analysis_tab w). ar_id r = ?i \<longrightarrow> ar_url r = rp_url p"
    by (auto simp: awaiting_def)
  have "\<exists>d. port_analyze P u s (rp_options p) = Inr d" for u s by (simp add: assms(3) service_ports_def Analyze_def)
  moreover have "\<not> hash_too_long (NewContentHash (sha256_Sum env) s)" for s
    using assms(4) by (simp add: hash_too_long_def not_less)
  ultimately obtain res w' where run: "ProcessAnalysisRequest env P p w = (res, w')"
    "cache_tab w' (analysis_key ?i) = None" and keys: "map row_key (analysis_tab w') = map row_key (analysis_tab w)"
    and all: "\<forall>r \<in> set (analysis_tab w'). ar_id r = ?i \<longrightarrow>
      decided (\<exists>v c. fst (Fetch H mxs env (rp_url p) (opt_timeout (rp_options p)) v) = Inr c)
              (\<exists>v e. fst (Fetch H mxs env (rp_url p) (opt_timeout (rp_options p)) v) = Inl e) r"
    using adapters.process_decided [OF assms(1) room found, of H D ws ls mxs cfg "Some expiry"] assms(3)
    by (auto simp: service_ports_def)
  have keys: "row_key ` set (analysis_tab w') = row_key ` set (analysis_tab w)"
    using arg_cong [OF keys, of set] by simp
  have "fst ` row_key ` set (analysis_tab w') = fst ` row_key ` set (analysis_tab w)" by (simp only: keys)
  then have "?i \<in> ar_id ` set (analysis_tab w')" using row(1) by (simp add: image_image)
  then obtain r where r: "List.find (\<lambda>r. ar_id r = ?i) (analysis_tab w') = Some r"
    by (cases "List.find (\<lambda>r. ar_id r = ?i) (analysis_tab w')") (auto simp: find_None_iff)
  note in_r = find_SomeD [OF r]
  then have "row_key r \<in> row_key ` set (analysis_tab w')" by (intro imageI) simp
  also note keys
  finally obtain r1 where "row_key r = row_key r1" "r1 \<in> set (analysis_tab w)" by (rule imageE)
  with row(2) in_r have "ar_url r = rp_url p" by auto
  with run r all in_r show ?thesis by blast
qed

lemma delivered_answered:
  assumes "no_faults env" "awaiting (rp_analysis_id p) (rp_url p) w" "P = service_ports H D ws ls mxs cfg (Some expiry)"
    and "\<And>s. length (NewContentHash (sha256_Sum env) s) \<le> 64"
    and "decode_delivery dl = Inr m" "m_delivery m = dl" "Unmarshal dec_payload m = Inr p"
    and "w3 = handle_delivery env (ProcessMessage env P q) dl w"
  shows "settled w3 = settled w @ [(dl_tag dl, Acked)] \<and>
    answered env ex (rp_analysis_id p) (rp_url p)
      (\<exists>v c. fst (Fetch H mxs env (rp_url p) (opt_timeout (rp_options p)) v) = Inr c)
      (\<exists>v e. fst (Fetch H mxs env (rp_url p) (opt_timeout (rp_options p)) v) = Inl e) w3"
proof -
  let ?i = "rp_analysis_id p"
  from awaiting_decided [OF assms(1-4)] obtain res w' r where
    run: "ProcessAnalysisRequest env P p w = (res, w')" "cache_tab w' (analysis_key ?i) = None"
    and r: "List.find (\<lambda>r. ar_id r = ?i) (analysis_tab w') = Some r" "ar_url r = rp_url p"
    and dec: "decided (\<exists>v c. fst (Fetch H mxs env (rp_url p) (opt_timeout (rp_options p)) v) = Inr c)
      (\<exists>v e. fst (Fetch H mxs env (rp_url p) (opt_timeout (rp_options p)) v) = Inl e) r" by blast
  note tab3 = deliver_request [OF assms(1,5-7) run(1), of q, folded assms(8)]
  have "settled w3 = settled w @ [(dl_tag dl, Acked)]"
    using delivery_settled [OF assms(1)] assms(5,7) by (simp add: assms(3,8) verdict_def)
  moreover have "fst (FetchAnalysis env ex ?i w3) =
      (case convertRowToAnalysis r of Inl e \<Rightarrow> Inl (ErrWrap ''failed to find analysis'' e) | Inr a \<Rightarrow> Inr a)"
    using fetch_uncached [OF assms(1), of w3 ?i r ex] tab3 run(2) r(1) by simp
  ultimately show ?thesis
    using find_SomeD [OF r(1)] r(2) dec unfolding answered_def tab3 by blast
qed

section \<open>Properties\<close>

text \<open>C1: On a healthy system no accepted request is left hanging. A request that was accepted, for an
  analysis that has no earlier event, with a timeout that survives JSON, is fetched by the next tick of the publisher,
  if it is in its batch, and a message for it is published; when the broker delivers
  that message to a worker, and the analyses completed before can be read, the delivery is acknowledged and the
  row of the analysis is completed with its results, which only a page that can be had leads to, or failed for a
  page that cannot be had; and a client that asks for it gets what the row says, not what the cache held.\<close>

theorem request_answered:
  assumes "no_faults env" "analysis_table_ok w0" "outbox_table_ok w0" "readable w0"
    and "StartAnalysis env mx ex url opts w0 = (Inr a, w1)" "an_id a \<notin> or_aggregate_id ` set (outbox_tab w0)"
    and "\<And>xs. mset (sched xs) = mset xs" "fst (ob_FindPending env BatchSize w1) = Inr evs"
    and "an_id a \<in> oe_aggregate_id ` set evs" "w2 = snd (processPendingEvents sched env exch delay w1)"
    and "\<bar>opt_timeout opts\<bar> \<le> 2 ^ 53" "P = service_ports H D ws ls mxs cfg (Some expiry)"
    and "\<And>s. length (NewContentHash (sha256_Sum env) s) \<le> 64"
  shows "\<exists>msg \<in> set (drop (length (bus w1)) (bus w2)). \<forall>dl. dl_body dl = Inr (msg_body msg) \<longrightarrow>
    (let w3 = handle_delivery env (ProcessMessage env P q) dl w2 in
       settled w3 = settled w2 @ [(dl_tag dl, Acked)] \<and>
       answered env ex (an_id a) url (\<exists>v c. fst (Fetch H mxs env url (opt_timeout opts) v) = Inr c)
         (\<exists>v e. fst (Fetch H mxs env url (opt_timeout opts) v) = Inl e) w3)"
proof -
  let ?p = "request_of a url opts"
  obtain row ev where tabs: "outbox_tab w1 = outbox_tab w0 @ [ev]" "or_event_type ev = OutboxEventAnalysisRequested"
    "or_payload ev = enc_payload ?p"
    using StartAnalysis_started [OF assms(5)] unfolding request_of_def by metis
  have ok1: "outbox_table_ok w1" using StartAnalysis_keeps(2) [OF assms(3), of env mx ex url opts] assms(5) by simp
  obtain e where e: "e \<in> set evs" "oe_aggregate_id e = an_id a" using assms(9) by auto
  have pay: "oe_payload e = AnalysisRequestPayload ?p"
    by (rule fetched_request [OF assms(8) e tabs(1) assms(6) tabs(2,3)]) (use assms(11) in simp)
  have "same_requests w1 w2" using processPendingEvents_same assms(10) by blast
  note waits = started_awaits [OF assms(2,4,5,6,11) this]
  show ?thesis
  proof (rule bexI [OF _ tick_publishes [OF assms(1) ok1 assms(7,8) e(1) assms(10)]], intro allI impI)
    fix dl :: delivery assume dl: "dl_body dl = Inr (msg_body (message_of exch e))"
    from payload_delivered [OF pay _ dl] assms(11) obtain m where
      m: "decode_delivery dl = Inr m" "m_delivery m = dl" "Unmarshal dec_payload m = Inr ?p" by auto
    from delivered_answered [OF assms(1) _ assms(12,13) m refl, of w2 q ex] waits
    show "let w3 = handle_delivery env (ProcessMessage env P q) dl w2 in
       settled w3 = settled w2 @ [(dl_tag dl, Acked)] \<and>
       answered env ex (an_id a) url (\<exists>v c. fst (Fetch H mxs env url (opt_timeout opts) v) = Inr c)
         (\<exists>v e. fst (Fetch H mxs env url (opt_timeout opts) v) = Inl e) w3"
      by (simp add: Let_def)
  qed
qed

text \<open>A request for a page that can be had.\<close>

definition sample_started :: "analysis result \<times> world" where
  "sample_started = StartAnalysis sample_env default_max_retries 10 ''http://a.b/'' sample_options empty_world"

definition sample_fetched :: "outbox_event list result" where
  "sample_fetched = fst (ob_FindPending sample_env BatchSize (snd sample_started))"

lemma sample_requested:
  "case fst sample_started of Inl _ \<Rightarrow> False | Inr a \<Rightarrow>
     (case sample_fetched of Inl _ \<Rightarrow> False | Inr evs \<Rightarrow> map oe_aggregate_id evs = [an_id a])"
  by code_simp

lemma sample_page:
  "fst (Fetch empty_page 1000 sample_env ''http://a.b/'' (30 * Second) v) = Inl e \<Longrightarrow> False"
proof -
  have "validateURL sample_env ''http://a.b/'' = Inr ()" by code_simp
  then show "fst (Fetch empty_page 1000 sample_env ''http://a.b/'' (30 * Second) v) = Inl e \<Longrightarrow> False"
    by (auto simp: Fetch_def Let_def breaker_execute_def fetchWithRetry_def empty_page_def response_content_def)
qed

theorem request_answered_witness:
  "\<exists>(msg :: message) dl. dl_body dl = Inr (msg_body msg) \<and>
     (\<exists>r \<in> set (analysis_tab (handle_delivery sample_env (ProcessMessage sample_env
          (service_ports empty_page sample_html id id 1000 sample_checker (Some 10)) ''q'') dl
          (snd (processPendingEvents rev sample_env ''x'' sample_delay (snd sample_started))))).
        ar_url r = ''http://a.b/'' \<and> ar_status r = StatusCompleted)"
proof -
  obtain a evs where a: "fst sample_started = Inr a" "sample_fetched = Inr evs" "map oe_aggregate_id evs = [an_id a]"
    using sample_requested by (auto split: sum.splits)
  then have s: "StartAnalysis sample_env default_max_retries 10 ''http://a.b/'' sample_options empty_world =
      (Inr a, snd sample_started)"
    by (metis prod.collapse sample_started_def)
  have "an_id a \<in> set (map oe_aggregate_id evs)" using a(3) by simp
  then have evs: "an_id a \<in> oe_aggregate_id ` set evs" by simp
  have hash: "length (NewContentHash (sha256_Sum sample_env) t) \<le> 64" for t
    by (simp add: NewContentHash_def sample_env_def)
  have empty: "analysis_table_ok empty_world" "outbox_table_ok empty_world" "readable empty_world"
    "an_id a \<notin> or_aggregate_id ` set (outbox_tab empty_world)"
    by (simp_all add: analysis_table_ok_def outbox_table_ok_def readable_def empty_world_def)
  have t: "\<bar>opt_timeout sample_options\<bar> \<le> 2 ^ 53" by (simp add: sample_options_def Second_def)
  have rev: "mset (rev xs) = mset xs" for xs :: "outbox_event list" by simp
  let ?P = "service_ports empty_page sample_html id id 1000 sample_checker (Some 10)"
  from request_answered [OF sample_env_simps(7) empty(1-3) s empty(4) rev a(2) [unfolded sample_fetched_def] evs refl t refl hash,
      of "''x''" sample_delay empty_page sample_html id id 1000 sample_checker 10 "''q''"]
  obtain msg :: message where "\<forall>dl. dl_body dl = Inr (msg_body msg) \<longrightarrow>
      answered sample_env 10 (an_id a) ''http://a.b/'' 
        (\<exists>v c. fst (Fetch empty_page 1000 sample_env ''http://a.b/'' (opt_timeout sample_options) v) = Inr c)
        (\<exists>v e. fst (Fetch empty_page 1000 sample_env ''http://a.b/'' (opt_timeout sample_options) v) = Inl e)
        (handle_delivery sample_env (ProcessMessage sample_env ?P ''q'') dl
          (snd (processPendingEvents rev sample_env ''x'' sample_delay (snd sample_started))))"
    unfolding Let_def by blast
  moreover have "\<not> (\<exists>v e. fst (Fetch empty_page 1000 sample_env ''http://a.b/'' (opt_timeout sample_options) v) = Inl e)"
    using sample_page by (auto simp: sample_options_def)
  ultimately have "dl_body dl = Inr (msg_body msg) \<longrightarrow> (\<exists>r \<in> set (analysis_tab (handle_delivery sample_env
      (ProcessMessage sample_env ?P ''q'') dl
      (snd (processPendingEvents rev sample_env ''x'' sample_delay (snd sample_started))))).
        ar_url r = ''http://a.b/'' \<and> ar_status r = StatusCompleted)" for dl :: delivery
    unfolding answered_def decided_def by blast
  from this [of "\<lparr>dl_tag = 1, dl_headers = [], dl_body = Inr (msg_body msg)\<rparr>"] show ?thesis
    by (metis delivery.select_convs(3))
qed

end
