(* ===== verification/Response_Writer.thy ===== *)
theory Response_Writer
  imports Http
begin

text \<open>
  \<open>adapters/middleware/response_writer.go\<close> in full: the writer that the access log and the metrics put
  around the one they are given, with its status, its byte count and the interfaces of the inner
  writer that it passes on. The response of \<open>Http\<close>, which the handlers and middlewares use, is shown
  to be an abstraction of it.
\<close>

section \<open>The writers\<close>

text \<open>
  The innermost writer is that of \<open>net/http\<close> (or of a test): it may or may not offer flushing, hijacking
  and pushing. How much of a text it takes, and with what error, is up to the connection: \<open>nw_takes\<close>,
  by the number of the write.
\<close>

record net_writer =
  nw_Flusher :: bool
  nw_Hijacker :: bool
  nw_Pusher :: bool
  nw_takes :: "nat \<Rightarrow> string \<Rightarrow> nat \<times> error option"
  nw_Hijack :: "error option"
  nw_Push :: "string \<Rightarrow> error option"
  nw_header :: "(string \<times> string) list"
  nw_sent :: "(int \<times> (string \<times> string) list) option"
  nw_body :: string
  nw_writes :: nat
  nw_flushes :: nat
  nw_hijacked :: bool
  nw_pushed :: "string list"

datatype http_writer =
    NetWriter net_writer
  | FlushableResponseWriter (ResponseWriter: http_writer) (statusCode: int) (bytesWritten: int)
      (has_flusher: bool) (has_hijacker: bool) (has_pusher: bool)

text \<open>The type assertions \<open>w.(http.Flusher)\<close> and so on: the wrapper has the methods itself.\<close>

fun is_Flusher :: "http_writer \<Rightarrow> bool" where
  "is_Flusher (NetWriter n) = nw_Flusher n"
| "is_Flusher (FlushableResponseWriter w s b f h p) = True"

fun is_Hijacker :: "http_writer \<Rightarrow> bool" where
  "is_Hijacker (NetWriter n) = nw_Hijacker n"
| "is_Hijacker (FlushableResponseWriter w s b f h p) = True"

fun is_Pusher :: "http_writer \<Rightarrow> bool" where
  "is_Pusher (NetWriter n) = nw_Pusher n"
| "is_Pusher (FlushableResponseWriter w s b f h p) = True"

definition NewFlushable :: "http_writer \<Rightarrow> http_writer" where
  "NewFlushable w = FlushableResponseWriter w 200 0 (is_Flusher w) (is_Hijacker w) (is_Pusher w)"

section \<open>The innermost writer\<close>

definition net_WriteHeader :: "int \<Rightarrow> net_writer \<Rightarrow> net_writer" where
  "net_WriteHeader code n =
     (case nw_sent n of None \<Rightarrow> n\<lparr>nw_sent := Some (code, nw_header n)\<rparr> | Some _ \<Rightarrow> n)"

definition net_Write :: "string \<Rightarrow> net_writer \<Rightarrow> (nat \<times> error option) \<times> net_writer" where
  "net_Write s n =
     (let r = nw_takes n (nw_writes n) s
      in (r, (net_WriteHeader 200 n)\<lparr>nw_body := nw_body n @ take (fst r) s, nw_writes := Suc (nw_writes n)\<rparr>))"

definition net_Flush :: "net_writer \<Rightarrow> net_writer" where
  "net_Flush n = (net_WriteHeader 200 n)\<lparr>nw_flushes := Suc (nw_flushes n)\<rparr>"

section \<open>The methods\<close>

definition ErrNotSupported :: error where
  "ErrNotSupported = ErrText ''feature not supported''"

text \<open>\<open>Header()\<close> is promoted from the embedded writer; the handlers only set keys in it.\<close>

fun w_header_set :: "string \<Rightarrow> string \<Rightarrow> http_writer \<Rightarrow> http_writer" where
  "w_header_set k v (NetWriter n) = NetWriter (n\<lparr>nw_header := AList.update k v (nw_header n)\<rparr>)"
| "w_header_set k v (FlushableResponseWriter w s b f h p) = FlushableResponseWriter (w_header_set k v w) s b f h p"

fun w_WriteHeader :: "int \<Rightarrow> http_writer \<Rightarrow> http_writer" where
  "w_WriteHeader code (NetWriter n) = NetWriter (net_WriteHeader code n)"
| "w_WriteHeader code (FlushableResponseWriter w s b f h p) =
     FlushableResponseWriter (w_WriteHeader code w) code b f h p"

fun w_Write :: "string \<Rightarrow> http_writer \<Rightarrow> (nat \<times> error option) \<times> http_writer" where
  "w_Write t (NetWriter n) = (case net_Write t n of (r, n') \<Rightarrow> (r, NetWriter n'))"
| "w_Write t (FlushableResponseWriter w s b f h p) =
     (case w_Write t w of
        ((n, err), w') \<Rightarrow> ((n, err), FlushableResponseWriter w' s (int64 (b + int n)) f h p))"

text \<open>A handler flushes only what it has asserted to be a \<open>Flusher\<close>.\<close>

fun w_Flush :: "http_writer \<Rightarrow> http_writer" where
  "w_Flush (NetWriter n) = NetWriter (if nw_Flusher n then net_Flush n else n)"
| "w_Flush (FlushableResponseWriter w s b f h p) =
     FlushableResponseWriter (if f then w_Flush w else w) s b f h p"

fun w_Hijack :: "http_writer \<Rightarrow> error option \<times> http_writer" where
  "w_Hijack (NetWriter n) =
     (if nw_Hijacker n then (nw_Hijack n, NetWriter (n\<lparr>nw_hijacked := (nw_Hijack n = None \<or> nw_hijacked n)\<rparr>))
      else (Some ErrNotSupported, NetWriter n))"
| "w_Hijack (FlushableResponseWriter w s b f h p) =
     (if h then (case w_Hijack w of (r, w') \<Rightarrow> (r, FlushableResponseWriter w' s b f h p))
      else (Some ErrNotSupported, FlushableResponseWriter w s b f h p))"

fun w_Push :: "string \<Rightarrow> http_writer \<Rightarrow> error option \<times> http_writer" where
  "w_Push t (NetWriter n) =
     (if nw_Pusher n then (nw_Push n t, NetWriter (n\<lparr>nw_pushed := nw_pushed n @ (if nw_Push n t = None then [t] else [])\<rparr>))
      else (Some ErrNotSupported, NetWriter n))"
| "w_Push t (FlushableResponseWriter w s b f h p) =
     (if p then (case w_Push t w of (r, w') \<Rightarrow> (r, FlushableResponseWriter w' s b f h p))
      else (Some ErrNotSupported, FlushableResponseWriter w s b f h p))"

definition w_StatusCode :: "http_writer \<Rightarrow> int" where
  "w_StatusCode w = statusCode w"

definition w_BytesWritten :: "http_writer \<Rightarrow> int" where
  "w_BytesWritten w = bytesWritten w"

definition w_Unwrap :: "http_writer \<Rightarrow> http_writer" where
  "w_Unwrap w = ResponseWriter w"

section \<open>What a handler does with a writer\<close>

datatype writer_op =
    OpHeader string string
  | OpWriteHeader int
  | OpWrite string
  | OpFlush
  | OpHijack
  | OpPush string

fun w_exec :: "writer_op \<Rightarrow> http_writer \<Rightarrow> http_writer" where
  "w_exec (OpHeader k v) w = w_header_set k v w"
| "w_exec (OpWriteHeader c) w = w_WriteHeader c w"
| "w_exec (OpWrite t) w = snd (w_Write t w)"
| "w_exec OpFlush w = w_Flush w"
| "w_exec OpHijack w = snd (w_Hijack w)"
| "w_exec (OpPush t) w = snd (w_Push t w)"

definition w_run :: "writer_op list \<Rightarrow> http_writer \<Rightarrow> http_writer" where
  "w_run ops w = fold w_exec ops w"

text \<open>The writer of \<open>net/http\<close> below the wrappers, and the statuses of the wrappers, outermost first.\<close>

fun net_of :: "http_writer \<Rightarrow> net_writer" where
  "net_of (NetWriter n) = n"
| "net_of (FlushableResponseWriter w s b f h p) = net_of w"

fun statuses :: "http_writer \<Rightarrow> int list" where
  "statuses (NetWriter n) = []"
| "statuses (FlushableResponseWriter w s b f h p) = s # statuses w"

section \<open>A wrapper is transparent\<close>

text \<open>A wrapper notes in \<open>has_flusher\<close> and so on what the writer in it offers.\<close>

fun knows :: "http_writer \<Rightarrow> bool" where
  "knows (NetWriter n) = True"
| "knows (FlushableResponseWriter w s b f h p) =
     (f = is_Flusher w \<and> h = is_Hijacker w \<and> p = is_Pusher w \<and> knows w)"

lemma knows_New [simp]: "knows (NewFlushable w) = knows w"
  by (simp add: NewFlushable_def)

text \<open>What the outermost wrapper keeps, does and counts in one operation.\<close>

definition status_after :: "writer_op \<Rightarrow> int \<Rightarrow> int" where
  "status_after c s = (case c of OpWriteHeader k \<Rightarrow> k | _ \<Rightarrow> s)"

lemma interfaces_kept [simp]:
  "is_Flusher (w_exec c w) = is_Flusher w" "is_Hijacker (w_exec c w) = is_Hijacker w" "is_Pusher (w_exec c w) = is_Pusher w"
  by (cases c; cases w; simp add: net_Write_def net_WriteHeader_def net_Flush_def Let_def split: option.splits prod.splits)+

lemmas writer_kept = interfaces_kept [of "OpWrite t", unfolded w_exec.simps, simplified]
  interfaces_kept [of OpFlush, unfolded w_exec.simps, simplified] interfaces_kept [of OpHijack, unfolded w_exec.simps, simplified]
  interfaces_kept [of "OpPush t", unfolded w_exec.simps, simplified]
  interfaces_kept [of "OpWriteHeader c", unfolded w_exec.simps, simplified]
  interfaces_kept [of "OpHeader k v", unfolded w_exec.simps, simplified] for t c k v

text \<open>A writer without the interface is the innermost one, and the operation does nothing to it.\<close>

lemma not_offered:
  "\<not> is_Flusher w \<Longrightarrow> w_Flush w = w"
  "\<not> is_Hijacker w \<Longrightarrow> w_Hijack w = (Some ErrNotSupported, w)"
  "\<not> is_Pusher w \<Longrightarrow> w_Push t w = (Some ErrNotSupported, w)"
  by (cases w; simp)+

lemma knows_exec: "knows w \<Longrightarrow> knows (w_exec c w)"
proof (induction w)
  case (FlushableResponseWriter w s b f h p)
  then have k: "knows (w_exec c w)" "f = is_Flusher w" "h = is_Hijacker w" "p = is_Pusher w" "knows w" by auto
  from k show ?case
    by (cases c) (auto simp: writer_kept split: prod.splits dest!: arg_cong [where f = snd])
qed (cases c; simp add: Let_def net_Write_def)

section \<open>Down to the connection\<close>

lemma Write_net: "w_Write t w = (r, w') \<Longrightarrow> net_Write t (net_of w) = (r, net_of w')"
  by (induction w arbitrary: w' r) (auto split: prod.splits)

lemma takes_exec [simp]: "nw_takes (net_of (w_exec c w)) = nw_takes (net_of w)"
proof (induction w)
  case (NetWriter n)
  then show ?case
    by (cases c) (auto simp: net_Write_def net_WriteHeader_def net_Flush_def Let_def split: option.splits)
next
  case (FlushableResponseWriter w s b f h p)
  then show ?case by (cases c) (auto split: prod.splits dest!: arg_cong [where f = snd])
qed

text \<open>No more is taken than there is (\<open>io.Writer\<close>); then the body grows by what a write reports.\<close>

definition takes_ok :: "http_writer \<Rightarrow> bool" where
  "takes_ok w \<longleftrightarrow> (\<forall>k t. fst (nw_takes (net_of w) k t) \<le> length t)"

definition body_length :: "http_writer \<Rightarrow> int" where
  "body_length w = int (length (nw_body (net_of w)))"

lemma body_kept:
  assumes "knows w" "\<And>t. c \<noteq> OpWrite t"
  shows "body_length (w_exec c w) = body_length w"
  using assms(1)
proof (induction w)
  case (NetWriter n)
  then show ?case
    using assms(2) by (cases c) (auto simp: body_length_def net_WriteHeader_def net_Flush_def split: option.splits)
next
  case (FlushableResponseWriter w s b f h p)
  then show ?case
    using assms(2) by (cases c) (auto simp: body_length_def split: prod.splits dest!: arg_cong [where f = snd])
qed

lemma body_written:
  assumes "takes_ok w" "w_Write t w = ((n, e), w')"
  shows "body_length w' = body_length w + int n"
proof -
  note net = Write_net [OF assms(2)]
  then have n: "n = fst (nw_takes (net_of w) (nw_writes (net_of w)) t)" by (simp add: net_Write_def Let_def)
  have "net_of w' = snd (net_Write t (net_of w))" using net by simp
  then have "nw_body (net_of w') = nw_body (net_of w) @ take n t"
    unfolding n by (simp add: net_Write_def Let_def)
  with n assms(1) show ?thesis by (simp add: body_length_def takes_ok_def)
qed

lemma int64_add: "int64 (int64 x + y) = int64 (x + y)"
  by (simp add: int64_def algebra_simps mod_simps)

lemma exec_wrapped:
  assumes "knows (FlushableResponseWriter w s b f h p)" "takes_ok w"
  shows "w_exec c (FlushableResponseWriter w s (int64 b) f h p) =
    FlushableResponseWriter (w_exec c w) (status_after c s)
      (int64 (b + (body_length (w_exec c w) - body_length w))) f h p"
proof (cases "\<exists>t. c = OpWrite t")
  case True
  then obtain t where c: "c = OpWrite t" ..
  obtain n e w' where w: "w_Write t w = ((n, e), w')" by (metis prod.exhaust)
  from body_written [OF assms(2) w] w c int64_add [of b "int n"] show ?thesis by (simp add: status_after_def algebra_simps)
next
  case False
  then have "body_length (w_exec c w) = body_length w" using body_kept assms(1) by auto
  with False assms(1) not_offered show ?thesis
    by (cases c) (auto simp: status_after_def split: prod.splits)
qed

lemma run_wrapped:
  assumes "knows (FlushableResponseWriter w s b f h p)" "takes_ok w"
  shows "w_run ops (FlushableResponseWriter w s (int64 b) f h p) =
    FlushableResponseWriter (w_run ops w) (fold status_after ops s)
      (int64 (b + (body_length (w_run ops w) - body_length w))) f h p"
  using assms
proof (induction ops arbitrary: w s b)
  case (Cons c ops)
  let ?b = "b + (body_length (w_exec c w) - body_length w)"
  have k: "knows (FlushableResponseWriter (w_exec c w) (status_after c s) ?b f h p)"
    using Cons.prems(1) knows_exec by simp
  moreover have "takes_ok (w_exec c w)" using Cons.prems(2) by (simp add: takes_ok_def)
  ultimately show ?case
    using Cons.IH [of "w_exec c w" "status_after c s" ?b] exec_wrapped [OF Cons.prems]
    by (simp add: w_run_def algebra_simps)
qed (simp add: w_run_def)

section \<open>Properties\<close>

text \<open>Also: A wrapper is transparent and keeps its books. Whatever a handler does with it, the writer inside is
  as if the handler had done it there, one that cannot be flushed included; the status is the last that
  was written, or 200, and the byte count is what the connection has taken since the wrapper was made, in 64
  bits. But the wrapper is a flusher for every handler, also around a writer that is none.\<close>

theorem wrapper_transparent:
  assumes "knows w" "takes_ok w"
  shows "let w' = w_run ops (NewFlushable w) in
    w_Unwrap w' = w_run ops w \<and> w_StatusCode w' = fold status_after ops 200 \<and>
    w_BytesWritten w' = int64 (body_length (w_run ops w) - body_length w) \<and> is_Flusher w'"
proof -
  have "int64 0 = 0" by (simp add: int64_def)
  moreover have "knows (FlushableResponseWriter w 200 0 (is_Flusher w) (is_Hijacker w) (is_Pusher w))"
    using assms(1) by simp
  note run_wrapped [OF this assms(2), of ops]
  ultimately show ?thesis
    by (simp add: NewFlushable_def Let_def w_Unwrap_def w_StatusCode_def w_BytesWritten_def)
qed

definition sample_net :: net_writer where
  "sample_net = \<lparr>nw_Flusher = False, nw_Hijacker = False, nw_Pusher = False, nw_takes = (\<lambda>k t. (length t, None)),
     nw_Hijack = None, nw_Push = (\<lambda>t. None), nw_header = [], nw_sent = None, nw_body = [], nw_writes = 0,
     nw_flushes = 0, nw_hijacked = False, nw_pushed = []\<rparr>"

theorem wrapper_transparent_witness:
  "let w = w_run [OpWrite ''ab'', OpFlush, OpWriteHeader 404] (NewFlushable (NewFlushable (NetWriter sample_net))) in
     w_StatusCode w = 404 \<and> w_BytesWritten w = 2 \<and> is_Flusher w \<and> nw_sent (net_of w) = Some (200, [])"
proof -
  let ?w = "NewFlushable (NetWriter sample_net)" and ?ops = "[OpWrite ''ab'', OpFlush, OpWriteHeader 404]"
  have "knows ?w" "takes_ok ?w" by (simp_all add: takes_ok_def NewFlushable_def sample_net_def)
  note wrapper_transparent [OF this, of ?ops]
  moreover have "body_length (w_run ?ops ?w) - body_length ?w = 2"
    "nw_sent (net_of (w_run ?ops (NewFlushable ?w))) = Some (200, [])"
    by (simp_all add: w_run_def NewFlushable_def sample_net_def net_Write_def Let_def net_WriteHeader_def body_length_def)
  moreover have "int64 2 = 2" by (simp add: int64_def)
  ultimately show ?thesis by (simp add: Let_def status_after_def)
qed

section \<open>The response as an abstraction\<close>

definition represents :: "(chunk \<Rightarrow> string) \<Rightarrow> http_writer \<Rightarrow> response \<Rightarrow> bool" where
  "represents enc w r \<longleftrightarrow>
     nw_header (net_of w) = rs_header r \<and> nw_sent (net_of w) = rs_sent r \<and> statuses w = rs_wraps r \<and>
     nw_body (net_of w) = concat (map enc (rs_body r))"

lemma statuses_simps:
  "statuses (w_header_set k v w) = statuses w" "statuses (w_WriteHeader c w) = map (\<lambda>_. c) (statuses w)"
  "statuses (snd (w_Write t w)) = statuses w" "statuses (w_Flush w) = statuses w"
  "statuses (NewFlushable w) = 200 # statuses w"
  by (induction w) (auto simp: NewFlushable_def split: prod.splits)

lemma net_of_simps:
  "net_of (w_header_set k v w) = (net_of w)\<lparr>nw_header := AList.update k v (nw_header (net_of w))\<rparr>"
  "net_of (w_WriteHeader c w) = net_WriteHeader c (net_of w)"
  "net_of (snd (w_Write t w)) = snd (net_Write t (net_of w))"
  "net_of (NewFlushable w) = net_of w"
  by (induction w) (auto simp: NewFlushable_def split: prod.splits)

lemma net_of_Flush: "net_of (w_Flush w) = net_of w \<or> net_of (w_Flush w) = net_Flush (net_of w)"
  by (induction w) auto

lemma represents_ops:
  assumes "represents enc w r"
  shows "represents enc (NewFlushable w) (NewFlushableResponseWriter r)"
    and "represents enc (w_header_set k v w) (header_set k v r)"
    and "represents enc (w_WriteHeader code w) (WriteHeader code r)"
    and "w_Write (enc ch) w = ((length (enc ch), e), w') \<Longrightarrow> represents enc w' (write_body ch r)"
    and "rs_sent r \<noteq> None \<Longrightarrow> represents enc (w_Flush w) r"
    and "w = FlushableResponseWriter inner s b f h p \<Longrightarrow> w_StatusCode w = StatusCode r \<and> represents enc (w_Unwrap w) (unwrap r)"
proof -
  show "represents enc (NewFlushable w) (NewFlushableResponseWriter r)"
    using assms by (simp add: represents_def NewFlushableResponseWriter_def statuses_simps net_of_simps)
  show "represents enc (w_header_set k v w) (header_set k v r)"
    using assms by (simp add: represents_def header_set_def statuses_simps net_of_simps)
  show "represents enc (w_WriteHeader code w) (WriteHeader code r)"
    using assms by (auto simp: represents_def statuses_simps net_of_simps net_WriteHeader_def split: option.splits)
  show "represents enc w' (write_body ch r)" if w: "w_Write (enc ch) w = ((length (enc ch), e), w')"
  proof -
    have w': "w' = snd (w_Write (enc ch) w)" using w by simp
    have "fst (nw_takes (net_of w) (nw_writes (net_of w)) (enc ch)) = length (enc ch)"
      using Write_net [OF w] by (simp add: net_Write_def Let_def)
    with assms show ?thesis
      unfolding w' represents_def statuses_simps net_of_simps
      by (auto simp: net_Write_def Let_def net_WriteHeader_def split: option.splits)
  qed
  show "represents enc (w_Flush w) r" if "rs_sent r \<noteq> None"
    using net_of_Flush [of w] assms that
    by (auto simp: represents_def statuses_simps net_Flush_def net_WriteHeader_def split: option.splits)
  show "w_StatusCode w = StatusCode r \<and> represents enc (w_Unwrap w) (unwrap r)"
    if "w = FlushableResponseWriter inner s b f h p"
    using assms that
    by (auto simp: represents_def w_StatusCode_def StatusCode_def w_Unwrap_def unwrap_def dest: sym)
qed

text \<open>Also: The response that handlers and middlewares of the model work on is an abstraction of the writers of the
  code: a response that stands for a writer stands for it again after each thing that they do to it, a new
  wrapper, a header, a status, a body that the connection takes, a flush once the status is written; and the
  status that the access log and the metrics read is that of the wrapper.\<close>

theorem response_refined:
  assumes "represents enc w r"
  shows "represents enc (NewFlushable w) (NewFlushableResponseWriter r) \<and>
    represents enc (w_header_set k v w) (header_set k v r) \<and>
    represents enc (w_WriteHeader code w) (WriteHeader code r) \<and>
    (fst (fst (w_Write (enc ch) w)) = length (enc ch) \<longrightarrow> represents enc (snd (w_Write (enc ch) w)) (write_body ch r)) \<and>
    (rs_sent r \<noteq> None \<longrightarrow> represents enc (w_Flush w) r) \<and>
    (rs_wraps r \<noteq> [] \<longrightarrow> w_StatusCode w = StatusCode r \<and> represents enc (w_Unwrap w) (unwrap r))"
proof (intro conjI impI represents_ops(1-3) [OF assms] represents_ops(5) [OF assms])
  show "represents enc (snd (w_Write (enc ch) w)) (write_body ch r)"
    if "fst (fst (w_Write (enc ch) w)) = length (enc ch)"
    by (rule represents_ops(4) [OF assms, of ch "snd (fst (w_Write (enc ch) w))"]) (simp add: that [symmetric])
  have "\<exists>inner s b f h p. w = FlushableResponseWriter inner s b f h p" if "rs_wraps r \<noteq> []"
    using assms that by (cases w) (simp_all add: represents_def)
  then show "w_StatusCode w = StatusCode r" "represents enc (w_Unwrap w) (unwrap r)" if "rs_wraps r \<noteq> []"
    using represents_ops(6) [OF assms] that by blast+
qed

theorem response_refined_witness:
  "\<exists>r. represents (\<lambda>c. ''x'') (NewFlushable (NetWriter sample_net)) r \<and> StatusCode r = 200"
proof -
  have "represents (\<lambda>c. ''x'') (NetWriter sample_net) fresh_response"
    by (simp add: represents_def sample_net_def fresh_response_def)
  with response_refined have "represents (\<lambda>c. ''x'') (NewFlushable (NetWriter sample_net))
      (NewFlushableResponseWriter fresh_response)" by blast
  then show ?thesis by (auto simp: NewFlushableResponseWriter_def StatusCode_def)
qed

end
