(* ===== verification/Settings.thy ===== *)
theory Settings
  imports Wiring Middleware
begin

text \<open>
  \<open>config/settings.go\<close>, every section with its fields and the defaults of their tags, and \<open>Init\<close> of
  \<open>config/loader.go\<close>. The other theories use the fields that their code reads; how these come out of the
  whole configuration is written down here, and what the defaults mean for the service is shown. The
  package that reads the environment is a parameter; without variables it gives the defaults.
\<close>

section \<open>The sections\<close>

record app_config =
  app_ServiceName :: string
  app_ServiceVersion :: string
  app_CommitSHA :: string
  app_APIVersion :: string
  app_Env :: string

definition default_app_config :: app_config where
  "default_app_config =
     \<lparr>app_ServiceName = ''svc-web-analyzer'', app_ServiceVersion = ''0.0.0'',
      app_CommitSHA = ''unknown'', app_APIVersion = ''v1'', app_Env = ''unknown''\<rparr>"

record access_log_config =
  acl_Enabled :: bool
  acl_LogHealthChecks :: bool
  acl_IncludeQueryParams :: bool

definition default_access_log_config :: access_log_config where
  "default_access_log_config =
     \<lparr>acl_Enabled = True, acl_LogHealthChecks = False, acl_IncludeQueryParams = True\<rparr>"

record logging_config =
  log_Level :: string
  log_Format :: string
  log_AccessLog :: access_log_config

definition default_logging_config :: logging_config where
  "default_logging_config =
     \<lparr>log_Level = ''info'', log_Format = ''json'', log_AccessLog = default_access_log_config\<rparr>"

record metrics_config =
  met_Enabled :: bool

definition default_metrics_config :: metrics_config where
  "default_metrics_config =
     \<lparr>met_Enabled = False\<rparr>"

record traces_config =
  trc_Enabled :: bool
  trc_SamplerRatio :: real

definition default_traces_config :: traces_config where
  "default_traces_config =
     \<lparr>trc_Enabled = False, trc_SamplerRatio = 1\<rparr>"

record telemetry_config =
  tel_ExporterType :: string
  tel_OtelGRPCHost :: string
  tel_OtelGRPCPort :: string
  tel_OtelProductCluster :: string
  tel_Metrics :: metrics_config
  tel_Traces :: traces_config

definition default_telemetry_config :: telemetry_config where
  "default_telemetry_config =
     \<lparr>tel_ExporterType = ''grpc'', tel_OtelGRPCHost = [], tel_OtelGRPCPort = ''4317'',
      tel_OtelProductCluster = [], tel_Metrics = default_metrics_config,
      tel_Traces = default_traces_config\<rparr>"

record vault_config =
  vlt_Enabled :: bool
  vlt_Address :: string
  vlt_Token :: string
  vlt_RoleID :: string
  vlt_SecretID :: string
  vlt_AuthMethod :: string
  vlt_MountPath :: string
  vlt_Namespace :: string
  vlt_Timeout :: duration
  vlt_MaxRetries :: int
  vlt_TLSSkipVerify :: bool
  vlt_PollInterval :: duration

definition default_vault_config :: vault_config where
  "default_vault_config =
     \<lparr>vlt_Enabled = True, vlt_Address = ''http://vault:8200'', vlt_Token = ''bottom-Secret'',
      vlt_RoleID = [], vlt_SecretID = [], vlt_AuthMethod = ''token'',
      vlt_MountPath = ''svc-web-analyzer'', vlt_Namespace = [], vlt_Timeout = 30 * Second,
      vlt_MaxRetries = 3, vlt_TLSSkipVerify = False, vlt_PollInterval = 86400 * Second\<rparr>"

record http_server_config =
  srv_Port :: int
  srv_Host :: string
  srv_ReadTimeout :: duration
  srv_WriteTimeout :: duration
  srv_IdleTimeout :: duration
  srv_ShutdownTimeout :: duration

definition default_http_server_config :: http_server_config where
  "default_http_server_config =
     \<lparr>srv_Port = 8088, srv_Host = ''0.0.0.0'', srv_ReadTimeout = 30 * Second,
      srv_WriteTimeout = 30 * Second, srv_IdleTimeout = 120 * Second,
      srv_ShutdownTimeout = 30 * Second\<rparr>"

record sse_config =
  sse_HeartbeatInterval :: duration
  sse_EventsInterval :: duration

definition default_sse_config :: sse_config where
  "default_sse_config =
     \<lparr>sse_HeartbeatInterval = 5 * Second, sse_EventsInterval = 100 * Millisecond\<rparr>"

record cache_config =
  kdb_Addr :: string
  kdb_Password :: string
  kdb_DB :: int
  kdb_PoolSize :: int
  kdb_MinIdleConns :: int
  kdb_DialTimeout :: duration
  kdb_ReadTimeout :: duration
  kdb_WriteTimeout :: duration
  kdb_PoolTimeout :: duration
  kdb_MaxRetries :: int
  kdb_DefaultExpiry :: duration

definition default_cache_config :: cache_config where
  "default_cache_config =
     \<lparr>kdb_Addr = ''keydb:6379'', kdb_Password = ''bottom.Secret'', kdb_DB = 0, kdb_PoolSize = 10,
      kdb_MinIdleConns = 3, kdb_DialTimeout = 5 * Second, kdb_ReadTimeout = 3 * Second,
      kdb_WriteTimeout = 3 * Second, kdb_PoolTimeout = 5 * Second, kdb_MaxRetries = 3,
      kdb_DefaultExpiry = 86400 * Second\<rparr>"

record storage_config =
  stg_Host :: string
  stg_Port :: int
  stg_Database :: string
  stg_Username :: string
  stg_Password :: string
  stg_SSLMode :: string
  stg_MaxOpenConns :: int
  stg_MaxIdleConns :: int
  stg_ConnMaxLifetime :: duration
  stg_ConnMaxIdleTime :: duration
  stg_ConnectTimeout :: duration
  stg_QueryTimeout :: duration

definition default_storage_config :: storage_config where
  "default_storage_config =
     \<lparr>stg_Host = ''postgres'', stg_Port = 5432, stg_Database = ''web_analyzer'',
      stg_Username = ''postgres'', stg_Password = [], stg_SSLMode = ''disable'',
      stg_MaxOpenConns = 25, stg_MaxIdleConns = 5, stg_ConnMaxLifetime = 300 * Second,
      stg_ConnMaxIdleTime = 300 * Second, stg_ConnectTimeout = 10 * Second,
      stg_QueryTimeout = 30 * Second\<rparr>"

record queue_config =
  mq_Host :: string
  mq_Port :: int
  mq_Username :: string
  mq_Password :: string
  mq_VirtualHost :: string
  mq_ExchangeName :: string
  mq_RoutingKey :: string
  mq_QueueName :: string
  mq_ConnectTimeout :: duration
  mq_Heartbeat :: duration
  mq_PrefetchCount :: int
  mq_Durable :: bool
  mq_AutoDelete :: bool

definition default_queue_config :: queue_config where
  "default_queue_config =
     \<lparr>mq_Host = ''rabbitmq'', mq_Port = 5672, mq_Username = ''admin'',
      mq_Password = ''bottom.Secret'', mq_VirtualHost = ''/'', mq_ExchangeName = ''web-analyzer'',
      mq_RoutingKey = ''analysis.*'', mq_QueueName = ''analysis_queue'',
      mq_ConnectTimeout = 10 * Second, mq_Heartbeat = 10 * Second, mq_PrefetchCount = 10,
      mq_Durable = True, mq_AutoDelete = False\<rparr>"

record outbox_config =
  obx_MaxRetries :: max_retries_by_priority

definition default_outbox_config :: outbox_config where
  "default_outbox_config =
     \<lparr>obx_MaxRetries = default_max_retries\<rparr>"

record rate_limiting_config =
  thr_Enabled :: bool
  thr_RequestsPerSecond :: int
  thr_BurstSize :: int
  thr_WindowDuration :: duration
  thr_EnableIPLimiting :: bool
  thr_EnableUserLimiting :: bool
  thr_CleanupInterval :: duration
  thr_MaxKeys :: int
  thr_SkipPaths :: "string list"

definition default_rate_limiting_config :: rate_limiting_config where
  "default_rate_limiting_config =
     \<lparr>thr_Enabled = True, thr_RequestsPerSecond = 10, thr_BurstSize = 20,
      thr_WindowDuration = 300 * Second, thr_EnableIPLimiting = True, thr_EnableUserLimiting = True,
      thr_CleanupInterval = 60 * Second, thr_MaxKeys = 1000, thr_SkipPaths = [''/health'']\<rparr>"

record authentication_config =
  ath_Enabled :: bool
  ath_SecretKey :: string
  ath_ValidIssuers :: "string list"
  ath_TokenExpiry :: duration
  ath_SkipPaths :: "string list"
  ath_PasetoKeyPath :: string
  ath_UseVaultKeys :: bool
  ath_KeyCacheTTL :: duration
  ath_FallbackKeyHex :: string

definition default_authentication_config :: authentication_config where
  "default_authentication_config =
     \<lparr>ath_Enabled = True, ath_SecretKey = ''default-secret-key-change-in-production'',
      ath_ValidIssuers = [''web-analyzer-service'', ''auth-service''],
      ath_TokenExpiry = 3600 * Second, ath_SkipPaths = [''/v1/health''],
      ath_PasetoKeyPath = ''secret/data/paseto/public-key'', ath_UseVaultKeys = True,
      ath_KeyCacheTTL = 3600 * Second,
      ath_FallbackKeyHex = ''01c7981f62c676934dc4acfa7825205ae927960875d09abec497efbe2dba41b7''\<rparr>"

record circuit_breaker_config =
  brk_MaxRequests :: int
  brk_Interval :: duration
  brk_Timeout :: duration

definition default_circuit_breaker_config :: circuit_breaker_config where
  "default_circuit_breaker_config =
     \<lparr>brk_MaxRequests = 3, brk_Interval = 10 * Second, brk_Timeout = 60 * Second\<rparr>"

record web_fetcher_config =
  wf_MaxRetries :: int
  wf_RetryWaitTime :: duration
  wf_MaxRetryWaitTime :: duration
  wf_MaxRedirects :: int
  wf_MaxResponseSizeBytes :: int
  wf_UserAgent :: string
  wf_CircuitBreaker :: circuit_breaker_config

definition default_web_fetcher_config :: web_fetcher_config where
  "default_web_fetcher_config =
     \<lparr>wf_MaxRetries = 3, wf_RetryWaitTime = Second, wf_MaxRetryWaitTime = 5 * Second,
      wf_MaxRedirects = 10, wf_MaxResponseSizeBytes = 10485760, wf_UserAgent = ''WebAnalyzer/1.0'',
      wf_CircuitBreaker = default_circuit_breaker_config\<rparr>"

record link_checker_config =
  lc_Timeout :: duration
  lc_MaxConcurrentChecks :: int
  lc_MaxLinksToCheck :: int
  lc_Retries :: int
  lc_RetryWaitTime :: duration
  lc_MaxRetryWaitTime :: duration
  lc_CircuitBreaker :: circuit_breaker_config

definition default_link_checker_config :: link_checker_config where
  "default_link_checker_config =
     \<lparr>lc_Timeout = 10 * Second, lc_MaxConcurrentChecks = 10, lc_MaxLinksToCheck = 100, lc_Retries = 2,
      lc_RetryWaitTime = 500 * Millisecond, lc_MaxRetryWaitTime = 2 * Second,
      lc_CircuitBreaker = default_circuit_breaker_config\<rparr>"

record full_config =
  sc_AppConfig :: app_config
  sc_Logging :: logging_config
  sc_Telemetry :: telemetry_config
  sc_SecretStorage :: vault_config
  sc_HTTPServer :: http_server_config
  sc_SSE :: sse_config
  sc_Cache :: cache_config
  sc_Storage :: storage_config
  sc_Queue :: queue_config
  sc_Outbox :: outbox_config
  sc_ThrottledRateLimiting :: rate_limiting_config
  sc_Backoff :: backoff_config
  sc_Auth :: authentication_config
  sc_WebFetcher :: web_fetcher_config
  sc_LinkChecker :: link_checker_config

definition default_full_config :: full_config where
  "default_full_config =
     \<lparr>sc_AppConfig = default_app_config, sc_Logging = default_logging_config,
      sc_Telemetry = default_telemetry_config, sc_SecretStorage = default_vault_config,
      sc_HTTPServer = default_http_server_config, sc_SSE = default_sse_config,
      sc_Cache = default_cache_config, sc_Storage = default_storage_config,
      sc_Queue = default_queue_config, sc_Outbox = default_outbox_config,
      sc_ThrottledRateLimiting = default_rate_limiting_config, sc_Backoff = default_backoff,
      sc_Auth = default_authentication_config, sc_WebFetcher = default_web_fetcher_config,
      sc_LinkChecker = default_link_checker_config\<rparr>"

section \<open>Reading it\<close>

text \<open>The variables that the linker may set, and what the package makes of the environment.\<close>

record build_info =
  bld_ServiceVersion :: string
  bld_CommitSHA :: string
  bld_APIVersion :: string

definition Init :: "build_info \<Rightarrow> full_config result \<Rightarrow> full_config result" where
  "Init b processed =
     (case processed of
        Inl e \<Rightarrow> Inl (ErrWrap ''unable to parse service configuration'' e)
      | Inr c \<Rightarrow>
          (let a = sc_AppConfig c;
               a = (if bld_ServiceVersion b \<noteq> [] then a\<lparr>app_ServiceVersion := bld_ServiceVersion b\<rparr> else a);
               a = (if bld_CommitSHA b \<noteq> [] then a\<lparr>app_CommitSHA := bld_CommitSHA b\<rparr> else a);
               a = (if bld_APIVersion b \<noteq> [] then a\<lparr>app_APIVersion := bld_APIVersion b\<rparr> else a)
           in Inr (c\<lparr>sc_AppConfig := a\<rparr>)))"

section \<open>Dumping it\<close>

text \<open>
  The JSON of the configuration, by the tags of its fields; \<open>num\<close> is what the library makes of a
  \<open>float64\<close>, and a list of texts is one that is set.
\<close>

definition enc_app_config :: "app_config \<Rightarrow> json" where
  "enc_app_config c = JObj ([(''service_name'', JStr (app_ServiceName c)),
      (''service_version'', JStr (app_ServiceVersion c)), (''commit_sha'', JStr (app_CommitSHA c)),
      (''api_version'', JStr (app_APIVersion c)), (''env'', JStr (app_Env c))])"

definition enc_access_log_config :: "access_log_config \<Rightarrow> json" where
  "enc_access_log_config c = JObj ([(''enabled'', JBool (acl_Enabled c)), (''log_health_checks'', JBool (acl_LogHealthChecks c)),
      (''include_query_params'', JBool (acl_IncludeQueryParams c))])"

definition enc_logging_config :: "logging_config \<Rightarrow> json" where
  "enc_logging_config c = JObj ([(''level'', JStr (log_Level c)), (''format'', JStr (log_Format c)),
      (''access_log'', enc_access_log_config (log_AccessLog c))])"

definition enc_metrics_config :: "metrics_config \<Rightarrow> json" where
  "enc_metrics_config c = JObj ([(''enabled'', JBool (met_Enabled c))])"

definition enc_traces_config :: "(real \<Rightarrow> json) \<Rightarrow> traces_config \<Rightarrow> json" where
  "enc_traces_config num c = JObj ([(''enabled'', JBool (trc_Enabled c)), (''sampler_ratio'', num (trc_SamplerRatio c))])"

definition enc_telemetry_config :: "(real \<Rightarrow> json) \<Rightarrow> telemetry_config \<Rightarrow> json" where
  "enc_telemetry_config num c = JObj ([(''exporter_type'', JStr (tel_ExporterType c)),
      (''otel_grpc_host'', JStr (tel_OtelGRPCHost c)),
      (''otel_grpc_port'', JStr (tel_OtelGRPCPort c)),
      (''otel_product_cluster'', JStr (tel_OtelProductCluster c)),
      (''metrics'', enc_metrics_config (tel_Metrics c)),
      (''traces'', enc_traces_config num (tel_Traces c))])"

definition enc_vault_config :: "vault_config \<Rightarrow> json" where
  "enc_vault_config c = JObj ([(''enabled'', JBool (vlt_Enabled c)), (''address'', JStr (vlt_Address c))] @
     omit_if (vlt_Token c = []) (''token'', JStr (vlt_Token c)) @
     omit_if (vlt_RoleID c = []) (''role_id'', JStr (vlt_RoleID c)) @
     omit_if (vlt_SecretID c = []) (''secret_id'', JStr (vlt_SecretID c)) @
     [(''auth_method'', JStr (vlt_AuthMethod c)), (''mount_path'', JStr (vlt_MountPath c))] @
     omit_if (vlt_Namespace c = []) (''namespace'', JStr (vlt_Namespace c)) @
     [(''timeout'', JNum (vlt_Timeout c)), (''max_retries'', JNum (vlt_MaxRetries c)),
      (''tls_skip_verify'', JBool (vlt_TLSSkipVerify c)),
      (''poll_interval'', JNum (vlt_PollInterval c))])"

definition enc_http_server_config :: "http_server_config \<Rightarrow> json" where
  "enc_http_server_config c = JObj ([(''port'', JNum (srv_Port c)), (''host'', JStr (srv_Host c)),
      (''read_timeout'', JNum (srv_ReadTimeout c)), (''write_timeout'', JNum (srv_WriteTimeout c)),
      (''idle_timeout'', JNum (srv_IdleTimeout c)),
      (''shutdown_timeout'', JNum (srv_ShutdownTimeout c))])"

definition enc_sse_config :: "sse_config \<Rightarrow> json" where
  "enc_sse_config c = JObj ([(''heartbeat_interval'', JNum (sse_HeartbeatInterval c)),
      (''events_interval'', JNum (sse_EventsInterval c))])"

definition enc_cache_config :: "cache_config \<Rightarrow> json" where
  "enc_cache_config c = JObj ([(''addr'', JStr (kdb_Addr c))] @
     omit_if (kdb_Password c = []) (''password'', JStr (kdb_Password c)) @
     [(''db'', JNum (kdb_DB c)), (''pool_size'', JNum (kdb_PoolSize c)),
      (''min_idle_conns'', JNum (kdb_MinIdleConns c)), (''dial_timeout'', JNum (kdb_DialTimeout c)),
      (''read_timeout'', JNum (kdb_ReadTimeout c)), (''write_timeout'', JNum (kdb_WriteTimeout c)),
      (''pool_timeout'', JNum (kdb_PoolTimeout c)), (''max_retries'', JNum (kdb_MaxRetries c)),
      (''default_expiry'', JNum (kdb_DefaultExpiry c))])"

definition enc_storage_config :: "storage_config \<Rightarrow> json" where
  "enc_storage_config c = JObj ([(''host'', JStr (stg_Host c)), (''port'', JNum (stg_Port c)),
      (''database'', JStr (stg_Database c)), (''username'', JStr (stg_Username c))] @
     omit_if (stg_Password c = []) (''password'', JStr (stg_Password c)) @
     [(''ssl_mode'', JStr (stg_SSLMode c)), (''max_open_conns'', JNum (stg_MaxOpenConns c)),
      (''max_idle_conns'', JNum (stg_MaxIdleConns c)),
      (''conn_max_lifetime'', JNum (stg_ConnMaxLifetime c)),
      (''conn_max_idle_time'', JNum (stg_ConnMaxIdleTime c)),
      (''connect_timeout'', JNum (stg_ConnectTimeout c)),
      (''query_timeout'', JNum (stg_QueryTimeout c))])"

definition enc_queue_config :: "queue_config \<Rightarrow> json" where
  "enc_queue_config c = JObj ([(''host'', JStr (mq_Host c)), (''port'', JNum (mq_Port c)),
      (''username'', JStr (mq_Username c))] @
     omit_if (mq_Password c = []) (''password'', JStr (mq_Password c)) @
     [(''virtual_host'', JStr (mq_VirtualHost c)), (''exchange_name'', JStr (mq_ExchangeName c)),
      (''routing_key'', JStr (mq_RoutingKey c)), (''queue_name'', JStr (mq_QueueName c)),
      (''connect_timeout'', JNum (mq_ConnectTimeout c)), (''heartbeat'', JNum (mq_Heartbeat c)),
      (''prefetch_count'', JNum (mq_PrefetchCount c)), (''durable'', JBool (mq_Durable c)),
      (''auto_delete'', JBool (mq_AutoDelete c))])"

definition enc_max_retries_by_priority :: "max_retries_by_priority \<Rightarrow> json" where
  "enc_max_retries_by_priority c = JObj ([(''low'', JNum (Low c)), (''normal'', JNum (Normal c)), (''high'', JNum (High c)),
      (''urgent'', JNum (Urgent c))])"

definition enc_outbox_config :: "outbox_config \<Rightarrow> json" where
  "enc_outbox_config c = JObj ([(''max_retries'', enc_max_retries_by_priority (obx_MaxRetries c))])"

definition enc_rate_limiting_config :: "rate_limiting_config \<Rightarrow> json" where
  "enc_rate_limiting_config c = JObj ([(''enabled'', JBool (thr_Enabled c)),
      (''requests_per_second'', JNum (thr_RequestsPerSecond c)),
      (''burst_size'', JNum (thr_BurstSize c)), (''window_duration'', JNum (thr_WindowDuration c)),
      (''enable_ip_limiting'', JBool (thr_EnableIPLimiting c)),
      (''enable_user_limiting'', JBool (thr_EnableUserLimiting c)),
      (''cleanup_interval'', JNum (thr_CleanupInterval c)), (''max_keys'', JNum (thr_MaxKeys c)),
      (''skip_paths'', JArr (map JStr (thr_SkipPaths c)))])"

definition enc_backoff_config :: "(real \<Rightarrow> json) \<Rightarrow> backoff_config \<Rightarrow> json" where
  "enc_backoff_config num c = JObj ([(''base_delay'', JNum (BaseDelay c)), (''multiplier'', num (Multiplier c)),
      (''jitter'', num (Jitter c)), (''max_delay'', JNum (MaxDelay c))])"

definition enc_authentication_config :: "authentication_config \<Rightarrow> json" where
  "enc_authentication_config c = JObj ([(''enabled'', JBool (ath_Enabled c))] @
     omit_if (ath_SecretKey c = []) (''secret_key'', JStr (ath_SecretKey c)) @
     [(''valid_issuers'', JArr (map JStr (ath_ValidIssuers c))),
      (''token_expiry'', JNum (ath_TokenExpiry c)),
      (''skip_paths'', JArr (map JStr (ath_SkipPaths c))),
      (''paseto_key_path'', JStr (ath_PasetoKeyPath c)),
      (''use_vault_keys'', JBool (ath_UseVaultKeys c)), (''key_cache_ttl'', JNum (ath_KeyCacheTTL c))] @
     omit_if (ath_FallbackKeyHex c = []) (''fallback_key_hex'', JStr (ath_FallbackKeyHex c)))"

definition enc_circuit_breaker_config :: "circuit_breaker_config \<Rightarrow> json" where
  "enc_circuit_breaker_config c = JObj ([(''max_requests'', JNum (brk_MaxRequests c)), (''interval'', JNum (brk_Interval c)),
      (''timeout'', JNum (brk_Timeout c))])"

definition enc_web_fetcher_config :: "web_fetcher_config \<Rightarrow> json" where
  "enc_web_fetcher_config c = JObj ([(''max_retries'', JNum (wf_MaxRetries c)), (''retry_wait_time'', JNum (wf_RetryWaitTime c)),
      (''max_retry_wait_time'', JNum (wf_MaxRetryWaitTime c)),
      (''max_redirects'', JNum (wf_MaxRedirects c)),
      (''max_response_size_bytes'', JNum (wf_MaxResponseSizeBytes c)),
      (''user_agent'', JStr (wf_UserAgent c)),
      (''circuit_breaker'', enc_circuit_breaker_config (wf_CircuitBreaker c))])"

definition enc_link_checker_config :: "link_checker_config \<Rightarrow> json" where
  "enc_link_checker_config c = JObj ([(''timeout'', JNum (lc_Timeout c)),
      (''max_concurrent_checks'', JNum (lc_MaxConcurrentChecks c)),
      (''max_links_to_check'', JNum (lc_MaxLinksToCheck c)), (''retries'', JNum (lc_Retries c)),
      (''retry_wait_time'', JNum (lc_RetryWaitTime c)),
      (''max_retry_wait_time'', JNum (lc_MaxRetryWaitTime c)),
      (''circuit_breaker'', enc_circuit_breaker_config (lc_CircuitBreaker c))])"

definition enc_full_config :: "(real \<Rightarrow> json) \<Rightarrow> full_config \<Rightarrow> json" where
  "enc_full_config num c = JObj ([(''app_config'', enc_app_config (sc_AppConfig c)),
      (''logging'', enc_logging_config (sc_Logging c)),
      (''telemetry'', enc_telemetry_config num (sc_Telemetry c)),
      (''secret_storage'', enc_vault_config (sc_SecretStorage c)),
      (''http_server'', enc_http_server_config (sc_HTTPServer c)),
      (''sse'', enc_sse_config (sc_SSE c)), (''cache'', enc_cache_config (sc_Cache c)),
      (''storage'', enc_storage_config (sc_Storage c)), (''queue'', enc_queue_config (sc_Queue c)),
      (''outbox'', enc_outbox_config (sc_Outbox c)),
      (''throttled_rate_limiting'', enc_rate_limiting_config (sc_ThrottledRateLimiting c)),
      (''backoff'', enc_backoff_config num (sc_Backoff c)),
      (''auth'', enc_authentication_config (sc_Auth c)),
      (''web_fetcher'', enc_web_fetcher_config (sc_WebFetcher c)),
      (''link_checker'', enc_link_checker_config (sc_LinkChecker c))])"

text \<open>\<open>DumpConfig\<close>, which \<open>SIGUSR1\<close> asks for: what goes to the standard output. All numbers of the model can be
  written as JSON, so that the branch for an error of the encoder has no case.\<close>

definition newline_text :: string where
  "newline_text = [CHR 0x0A]"

definition DumpConfig :: "(real \<Rightarrow> json) \<Rightarrow> full_config \<Rightarrow> chunk list" where
  "DumpConfig num c =
     [TextChunk (newline_text @ ''=== Configuration Dump ==='' @ newline_text), JsonChunk (enc_full_config num c),
      TextChunk (newline_text @ ''=== End Configuration ==='' @ newline_text @ newline_text)]"

fun json_at :: "string list \<Rightarrow> json \<Rightarrow> json option" where
  "json_at [] j = Some j"
| "json_at (k # ks) (JObj fs) = (case map_of fs k of None \<Rightarrow> None | Some j \<Rightarrow> json_at ks j)"
| "json_at (k # ks) _ = None"

text \<open>The credentials in a configuration, by the place that the tags give them.\<close>

definition credentials :: "full_config \<Rightarrow> (string list \<times> string) list" where
  "credentials c =
     [([''secret_storage'', ''token''], vlt_Token (sc_SecretStorage c)),
      ([''secret_storage'', ''role_id''], vlt_RoleID (sc_SecretStorage c)),
      ([''secret_storage'', ''secret_id''], vlt_SecretID (sc_SecretStorage c)),
      ([''storage'', ''password''], stg_Password (sc_Storage c)),
      ([''queue'', ''password''], mq_Password (sc_Queue c)),
      ([''cache'', ''password''], kdb_Password (sc_Cache c)),
      ([''auth'', ''secret_key''], ath_SecretKey (sc_Auth c))]"

section \<open>What the parts read of it\<close>

definition auth_of :: "authentication_config \<Rightarrow> auth_config" where
  "auth_of a = \<lparr>auth_Enabled = ath_Enabled a, ValidIssuers = ath_ValidIssuers a, SkipPaths = ath_SkipPaths a,
     PasetoKeyPath = ath_PasetoKeyPath a, UseVaultKeys = ath_UseVaultKeys a, KeyCacheTTL = ath_KeyCacheTTL a,
     FallbackKeyHex = ath_FallbackKeyHex a\<rparr>"

definition http_of :: "full_config \<Rightarrow> http_config" where
  "http_of c = \<lparr>WriteTimeout = srv_WriteTimeout (sc_HTTPServer c), APIVersion = app_APIVersion (sc_AppConfig c),
     metrics_Enabled = met_Enabled (tel_Metrics (sc_Telemetry c)),
     accesslog_Enabled = acl_Enabled (log_AccessLog (sc_Logging c)),
     LogHealthChecks = acl_LogHealthChecks (log_AccessLog (sc_Logging c)),
     ratelimit_Enabled = thr_Enabled (sc_ThrottledRateLimiting c),
     ratelimit_SkipPaths = thr_SkipPaths (sc_ThrottledRateLimiting c), Auth = auth_of (sc_Auth c)\<rparr>"

definition secret_storage_of :: "vault_config \<Rightarrow> secret_storage_config" where
  "secret_storage_of v = \<lparr>Enabled = vlt_Enabled v, Token = vlt_Token v, RoleID = vlt_RoleID v, SecretID = vlt_SecretID v,
     AuthMethod = vlt_AuthMethod v, MountPath = vlt_MountPath v, MaxRetries = vlt_MaxRetries v,
     PollInterval = vlt_PollInterval v\<rparr>"

definition loader_config_of :: "full_config \<Rightarrow> service_config" where
  "loader_config_of c = \<lparr>SecretStorage = secret_storage_of (sc_SecretStorage c),
     storage_Username = stg_Username (sc_Storage c), storage_Password = stg_Password (sc_Storage c),
     storage_Host = stg_Host (sc_Storage c), storage_Database = stg_Database (sc_Storage c),
     cache_Password = kdb_Password (sc_Cache c), cache_Addr = kdb_Addr (sc_Cache c),
     queue_Username = mq_Username (sc_Queue c), queue_Password = mq_Password (sc_Queue c), queue_Host = mq_Host (sc_Queue c),
     auth_SecretKey = ath_SecretKey (sc_Auth c)\<rparr>"

definition settings_of :: "full_config \<Rightarrow> settings" where
  "settings_of c = \<lparr>st_vault_Address = vlt_Address (sc_SecretStorage c), st_vault_Timeout = vlt_Timeout (sc_SecretStorage c),
     st_TLSSkipVerify = vlt_TLSSkipVerify (sc_SecretStorage c), st_storage_Port = stg_Port (sc_Storage c),
     st_SSLMode = stg_SSLMode (sc_Storage c), st_metrics_Enabled = met_Enabled (tel_Metrics (sc_Telemetry c)),
     st_traces_Enabled = trc_Enabled (tel_Traces (sc_Telemetry c)), st_ExporterType = tel_ExporterType (sc_Telemetry c),
     st_OtelGRPCHost = tel_OtelGRPCHost (sc_Telemetry c), st_OtelGRPCPort = tel_OtelGRPCPort (sc_Telemetry c),
     st_ExchangeName = mq_ExchangeName (sc_Queue c), st_RoutingKey = mq_RoutingKey (sc_Queue c),
     st_QueueName = mq_QueueName (sc_Queue c), st_http_Host = srv_Host (sc_HTTPServer c), st_http_Port = srv_Port (sc_HTTPServer c)\<rparr>"

definition checker_of :: "link_checker_config \<Rightarrow> checker_config" where
  "checker_of l = \<lparr>MaxLinksToCheck = nat (lc_MaxLinksToCheck l), check_timeout = lc_Timeout l\<rparr>"

text \<open>The paths of the routes of \<open>HandlerWithOptions\<close>; the base URL of the service is empty.\<close>

definition route_path :: "endpoint \<Rightarrow> string" where
  "route_path e = (case e of
     EGetAnalysis i \<Rightarrow> ''/v1/analysis/'' @ i
   | EGetAnalysisEvents i \<Rightarrow> ''/v1/analysis/'' @ i @ ''/events''
   | EAnalyzeURL \<Rightarrow> ''/v1/analyze''
   | EHealthCheck \<Rightarrow> ''/v1/health''
   | ELivenessCheck \<Rightarrow> ''/v1/liveness''
   | EReadinessCheck \<Rightarrow> ''/v1/readiness'')"

section \<open>Properties\<close>

text \<open>Also: What the linker has set wins over the environment, field by field, and nothing else of the
  configuration changes; without either the versions are those of the defaults.\<close>

theorem init_build_info:
  "case Init b processed of
     Inl e \<Rightarrow> \<exists>x. processed = Inl x
   | Inr c \<Rightarrow> \<exists>p. processed = Inr p \<and> c\<lparr>sc_AppConfig := sc_AppConfig p\<rparr> = p \<and>
       app_APIVersion (sc_AppConfig c) =
         (if bld_APIVersion b = [] then app_APIVersion (sc_AppConfig p) else bld_APIVersion b) \<and>
       app_ServiceVersion (sc_AppConfig c) =
         (if bld_ServiceVersion b = [] then app_ServiceVersion (sc_AppConfig p) else bld_ServiceVersion b) \<and>
       app_CommitSHA (sc_AppConfig c) =
         (if bld_CommitSHA b = [] then app_CommitSHA (sc_AppConfig p) else bld_CommitSHA b)"
  by (cases processed) (simp_all add: Init_def Let_def)

text \<open>Also: What the default configuration exempts. From authentication the health check, and no other route: the
  function that the validator asks lets it pass without looking for a token, although the API description has
  it protected. From the rate limit nothing: the path that the default names is a prefix of no route, so the
  probes are limited with everything else.\<close>

theorem default_exemptions:
  "(shouldSkipAuth (Auth (http_of default_full_config)) (route_path e) \<longleftrightarrow> e = EHealthCheck) \<and>
   AuthenticationFunc env (Auth (http_of default_full_config)) src tok (r\<lparr>rq_path := route_path EHealthCheck\<rparr>) sv =
     Some (Inr (r\<lparr>rq_path := route_path EHealthCheck\<rparr>), sv) \<and>
   \<not> shouldSkipRateLimit (ratelimit_SkipPaths (http_of default_full_config)) (route_path e)"
proof -
  have skip: "SkipPaths (Auth (http_of default_full_config)) = [''/v1/health'']"
    "ratelimit_SkipPaths (http_of default_full_config) = [''/health'']"
    by (simp_all add: http_of_def auth_of_def default_full_config_def default_authentication_config_def
        default_rate_limiting_config_def)
  then have "shouldSkipAuth (Auth (http_of default_full_config)) (route_path EHealthCheck)"
    by (simp add: shouldSkipAuth_def route_path_def has_prefix_def)
  then show ?thesis
    by (cases e) (auto simp: skip shouldSkipAuth_def shouldSkipRateLimit_def route_path_def has_prefix_def AuthenticationFunc_def)
qed

text \<open>Also: With the default configuration the publisher waits between 0.8 and 12 seconds before a retry, however
  many there were; the upper bound is above the maximum of 10 seconds that the settings name.\<close>

theorem default_delays:
  assumes "0 \<le> n"
  shows "800 * Millisecond \<le> Backoff (sc_Backoff default_full_config) k n \<and>
    Backoff (sc_Backoff default_full_config) k n \<le> 12 * Second"
proof -
  have "backoff_lo default_backoff = 800 * Millisecond" "backoff_hi default_backoff = 12 * Second"
    by (simp_all add: backoff_lo_def backoff_hi_def default_backoff_def Second_def Millisecond_def)
  with Backoff_bounds [OF default_backoff_valid assms, of k] show ?thesis
    by (simp add: default_full_config_def)
qed

theorem default_delays_witness: "Backoff (sc_Backoff default_full_config) 7 1000 \<le> 12 * Second"
  using default_delays [of 1000 7] by simp

lemma section_at:
  "json_at (''secret_storage'' # ks) (enc_full_config num c) = json_at ks (enc_vault_config (sc_SecretStorage c))"
  "json_at (''storage'' # ks) (enc_full_config num c) = json_at ks (enc_storage_config (sc_Storage c))"
  "json_at (''queue'' # ks) (enc_full_config num c) = json_at ks (enc_queue_config (sc_Queue c))"
  "json_at (''cache'' # ks) (enc_full_config num c) = json_at ks (enc_cache_config (sc_Cache c))"
  "json_at (''auth'' # ks) (enc_full_config num c) = json_at ks (enc_authentication_config (sc_Auth c))"
  by (simp_all add: enc_full_config_def)

lemma credential_at:
  "vlt_Token v \<noteq> [] \<Longrightarrow> json_at [''token''] (enc_vault_config v) = Some (JStr (vlt_Token v))"
  "vlt_RoleID v \<noteq> [] \<Longrightarrow> json_at [''role_id''] (enc_vault_config v) = Some (JStr (vlt_RoleID v))"
  "vlt_SecretID v \<noteq> [] \<Longrightarrow> json_at [''secret_id''] (enc_vault_config v) = Some (JStr (vlt_SecretID v))"
  "stg_Password g \<noteq> [] \<Longrightarrow> json_at [''password''] (enc_storage_config g) = Some (JStr (stg_Password g))"
  "mq_Password q \<noteq> [] \<Longrightarrow> json_at [''password''] (enc_queue_config q) = Some (JStr (mq_Password q))"
  "kdb_Password k \<noteq> [] \<Longrightarrow> json_at [''password''] (enc_cache_config k) = Some (JStr (kdb_Password k))"
  "ath_SecretKey a \<noteq> [] \<Longrightarrow> json_at [''secret_key''] (enc_authentication_config a) = Some (JStr (ath_SecretKey a))"
  by (simp_all add: enc_vault_config_def enc_storage_config_def enc_queue_config_def enc_cache_config_def
      enc_authentication_config_def del: map_of_append)

text \<open>Also: A dump of the configuration, which any \<open>SIGUSR1\<close> writes to the standard output, has every credential in
  clear text: the token and identifiers of the secret storage and the passwords that were loaded from it.\<close>

theorem dump_shows_credentials:
  assumes "(path, secret) \<in> set (credentials c)" "secret \<noteq> []"
  shows "\<exists>j. JsonChunk j \<in> set (DumpConfig num c) \<and> json_at path j = Some (JStr secret)"
proof (intro exI conjI)
  show "JsonChunk (enc_full_config num c) \<in> set (DumpConfig num c)" by (simp add: DumpConfig_def)
  show "json_at path (enc_full_config num c) = Some (JStr secret)"
    using assms by (auto simp: credentials_def section_at credential_at)
qed

theorem dump_shows_credentials_witness:
  "\<exists>j. JsonChunk j \<in> set (DumpConfig (\<lambda>x. JNum 0) default_full_config) \<and>
     json_at [''queue'', ''password''] j = Some (JStr ''bottom.Secret'')"
  by (rule dump_shows_credentials)
    (simp_all add: credentials_def default_full_config_def default_queue_config_def)

end
