(* ===== verification/Api_Analysis.thy ===== *)
theory Api_Analysis
  imports Api_Json
begin

text \<open>
  The types of \<open>adapters/http/handlers/http_server_gen.go\<close> for analyses, requests and errors, which a
  Go client of the API is made with, and what such a client reads of the responses of the request
  handler. The decoders decode into a new value, whose pointers are \<open>nil\<close>. A pointer to a slice may
  point to a \<open>nil\<close> slice.
\<close>

section \<open>Fields that may be absent\<close>

text \<open>A pointer with \<open>omitempty\<close> in a new value.\<close>

definition new_field :: "string \<Rightarrow> (json \<Rightarrow> 'a result) \<Rightarrow> (string \<times> json) list \<Rightarrow> 'a option result" where
  "new_field k dec = json_field k (dec_pointer dec) None"

definition slice_of :: "('a \<Rightarrow> bool) \<Rightarrow> 'a slice \<Rightarrow> bool" where
  "slice_of valid s \<longleftrightarrow> s \<noteq> None \<and> list_all valid (elems s)"

context json_struct_type
begin

lemma new_field_enc:
  "map_of fs k = map_option enc x \<Longrightarrow> pred_option valid x \<Longrightarrow> new_field k (dec zero) fs = Inr x"
  by (cases x) (simp_all add: new_field_def json_field_def dec_pointer_def dec_enc enc_not_null)

lemma slice_type:
  "json_struct_type (enc_slice enc) (\<lambda>_. dec_slice (dec zero)) None (slice_of valid)"
  by unfold_locales
    (auto simp: slice_of_def enc_slice_def dec_slice_def list_all_iff dec_enc map_result_map [where h = "\<lambda>x. x"] split: option.split)

end

lemma new_field_absent [simp]: "map_of fs k = None \<Longrightarrow> new_field k dec fs = Inr None"
  by (simp add: new_field_def json_field_def)

lemma map_of_opt_fields [simp]:
  "k \<noteq> k' \<Longrightarrow> map_of (opt_field k enc x @ fs) k' = map_of fs k'"
  "map_of fs k = None \<Longrightarrow> map_of (opt_field k enc x @ fs) k = map_option enc x"
  by (cases x; simp add: opt_field_def)+

interpretation bool_pointer: json_struct_type JBool "\<lambda>_. dec_bool" False "\<lambda>_. True"
  by unfold_locales (simp_all add: dec_bool_def)

definition id_json :: "uuid \<Rightarrow> json" where
  "id_json i = JStr (uuid_string i)"

interpretation id_pointer: json_struct_type id_json "\<lambda>_. dec_uuid" uuid_Nil "\<lambda>_. True"
  by unfold_locales (auto simp: id_json_def dec_uuid_def intro: uuid_string_inj [THEN iffD1])

interpretation texts: json_struct_type "enc_slice JStr" "\<lambda>_. dec_slice dec_string" None "slice_of (\<lambda>_. True)"
  by (rule text_pointer.slice_type)

section \<open>The results of an analysis\<close>

record LoginForm =
  Form_Action :: "string option"
  Form_Fields :: "string slice option"
  Form_Method :: "string option"

definition enc_LoginForm :: "LoginForm \<Rightarrow> json" where
  "enc_LoginForm f =
     JObj (opt_field ''action'' JStr (Form_Action f) @
       opt_field ''fields'' (enc_slice JStr) (Form_Fields f) @
       opt_field ''method'' JStr (Form_Method f) @
       [])"

definition dec_LoginForm :: "json \<Rightarrow> LoginForm result" where
  "dec_LoginForm = json_struct (\<lambda>ob.
     bind_result (new_field ''action'' dec_string ob) (\<lambda>a.
     bind_result (new_field ''fields'' (dec_slice dec_string) ob) (\<lambda>b.
     bind_result (new_field ''method'' dec_string ob) (\<lambda>c.
       Inr \<lparr>Form_Action = a, Form_Fields = b, Form_Method = c\<rparr>))))
     \<lparr>Form_Action = None, Form_Fields = None, Form_Method = None\<rparr>"

definition valid_LoginForm :: "LoginForm \<Rightarrow> bool" where
  "valid_LoginForm f \<longleftrightarrow> pred_option (slice_of (\<lambda>_. True)) (Form_Fields f)"

interpretation login: json_struct_type enc_LoginForm "\<lambda>_. dec_LoginForm"
  "\<lparr>Form_Action = None, Form_Fields = None, Form_Method = None\<rparr>" valid_LoginForm
  by unfold_locales (simp_all add: enc_LoginForm_def dec_LoginForm_def valid_LoginForm_def json_struct_def option.pred_True
    text_pointer.new_field_enc texts.new_field_enc del: map_of_append)

interpretation logins: json_struct_type "enc_slice enc_LoginForm" "\<lambda>_. dec_slice dec_LoginForm" None
  "slice_of valid_LoginForm"
  by (rule login.slice_type)

record FormAnalysis =
  LoginFormDetails :: "LoginForm slice option"
  LoginFormsDetected :: "int option"
  Forms_TotalCount :: "int option"

definition enc_FormAnalysis :: "FormAnalysis \<Rightarrow> json" where
  "enc_FormAnalysis f =
     JObj (opt_field ''login_form_details'' (enc_slice enc_LoginForm) (LoginFormDetails f) @
       opt_field ''login_forms_detected'' JNum (LoginFormsDetected f) @
       opt_field ''total_count'' JNum (Forms_TotalCount f) @
       [])"

definition dec_FormAnalysis :: "json \<Rightarrow> FormAnalysis result" where
  "dec_FormAnalysis = json_struct (\<lambda>ob.
     bind_result (new_field ''login_form_details'' (dec_slice dec_LoginForm) ob) (\<lambda>a.
     bind_result (new_field ''login_forms_detected'' dec_int ob) (\<lambda>b.
     bind_result (new_field ''total_count'' dec_int ob) (\<lambda>c.
       Inr \<lparr>LoginFormDetails = a, LoginFormsDetected = b, Forms_TotalCount = c\<rparr>))))
     \<lparr>LoginFormDetails = None, LoginFormsDetected = None, Forms_TotalCount = None\<rparr>"

definition valid_FormAnalysis :: "FormAnalysis \<Rightarrow> bool" where
  "valid_FormAnalysis f \<longleftrightarrow> pred_option (slice_of valid_LoginForm) (LoginFormDetails f) \<and>
     pred_option in_int64 (LoginFormsDetected f) \<and>
     pred_option in_int64 (Forms_TotalCount f)"

interpretation forms: json_struct_type enc_FormAnalysis "\<lambda>_. dec_FormAnalysis"
  "\<lparr>LoginFormDetails = None, LoginFormsDetected = None, Forms_TotalCount = None\<rparr>" valid_FormAnalysis
  by unfold_locales (simp_all add: enc_FormAnalysis_def dec_FormAnalysis_def valid_FormAnalysis_def json_struct_def option.pred_True
    int_pointer.new_field_enc logins.new_field_enc del: map_of_append)

record InaccessibleLink =
  Link_Error :: "string option"
  Link_StatusCode :: "int option"
  Link_Url :: "string option"

definition enc_InaccessibleLink :: "InaccessibleLink \<Rightarrow> json" where
  "enc_InaccessibleLink l =
     JObj (opt_field ''error'' JStr (Link_Error l) @
       opt_field ''status_code'' JNum (Link_StatusCode l) @
       opt_field ''url'' JStr (Link_Url l) @
       [])"

definition dec_InaccessibleLink :: "json \<Rightarrow> InaccessibleLink result" where
  "dec_InaccessibleLink = json_struct (\<lambda>ob.
     bind_result (new_field ''error'' dec_string ob) (\<lambda>a.
     bind_result (new_field ''status_code'' dec_int ob) (\<lambda>b.
     bind_result (new_field ''url'' dec_string ob) (\<lambda>c.
       Inr \<lparr>Link_Error = a, Link_StatusCode = b, Link_Url = c\<rparr>))))
     \<lparr>Link_Error = None, Link_StatusCode = None, Link_Url = None\<rparr>"

definition valid_InaccessibleLink :: "InaccessibleLink \<Rightarrow> bool" where
  "valid_InaccessibleLink l \<longleftrightarrow> pred_option in_int64 (Link_StatusCode l)"

interpretation broken: json_struct_type enc_InaccessibleLink "\<lambda>_. dec_InaccessibleLink"
  "\<lparr>Link_Error = None, Link_StatusCode = None, Link_Url = None\<rparr>" valid_InaccessibleLink
  by unfold_locales (simp_all add: enc_InaccessibleLink_def dec_InaccessibleLink_def valid_InaccessibleLink_def json_struct_def option.pred_True
    int_pointer.new_field_enc text_pointer.new_field_enc del: map_of_append)

interpretation brokens: json_struct_type "enc_slice enc_InaccessibleLink" "\<lambda>_. dec_slice dec_InaccessibleLink" None
  "slice_of valid_InaccessibleLink"
  by (rule broken.slice_type)

record LinkAnalysis =
  ExternalCount :: "int option"
  InaccessibleLinks :: "InaccessibleLink slice option"
  InternalCount :: "int option"
  Links_TotalCount :: "int option"

definition enc_LinkAnalysis :: "LinkAnalysis \<Rightarrow> json" where
  "enc_LinkAnalysis l =
     JObj (opt_field ''external_count'' JNum (ExternalCount l) @
       opt_field ''inaccessible_links'' (enc_slice enc_InaccessibleLink) (InaccessibleLinks l) @
       opt_field ''internal_count'' JNum (InternalCount l) @
       opt_field ''total_count'' JNum (Links_TotalCount l) @
       [])"

definition dec_LinkAnalysis :: "json \<Rightarrow> LinkAnalysis result" where
  "dec_LinkAnalysis = json_struct (\<lambda>ob.
     bind_result (new_field ''external_count'' dec_int ob) (\<lambda>a.
     bind_result (new_field ''inaccessible_links'' (dec_slice dec_InaccessibleLink) ob) (\<lambda>b.
     bind_result (new_field ''internal_count'' dec_int ob) (\<lambda>c.
     bind_result (new_field ''total_count'' dec_int ob) (\<lambda>d.
       Inr \<lparr>ExternalCount = a, InaccessibleLinks = b, InternalCount = c, Links_TotalCount = d\<rparr>)))))
     \<lparr>ExternalCount = None, InaccessibleLinks = None, InternalCount = None, Links_TotalCount = None\<rparr>"

definition valid_LinkAnalysis :: "LinkAnalysis \<Rightarrow> bool" where
  "valid_LinkAnalysis l \<longleftrightarrow> pred_option in_int64 (ExternalCount l) \<and>
     pred_option (slice_of valid_InaccessibleLink) (InaccessibleLinks l) \<and>
     pred_option in_int64 (InternalCount l) \<and>
     pred_option in_int64 (Links_TotalCount l)"

interpretation links: json_struct_type enc_LinkAnalysis "\<lambda>_. dec_LinkAnalysis"
  "\<lparr>ExternalCount = None, InaccessibleLinks = None, InternalCount = None, Links_TotalCount = None\<rparr>" valid_LinkAnalysis
  by unfold_locales (simp_all add: enc_LinkAnalysis_def dec_LinkAnalysis_def valid_LinkAnalysis_def json_struct_def option.pred_True
    brokens.new_field_enc int_pointer.new_field_enc del: map_of_append)

record AnalysisData_HeadingCounts =
  Count_H1 :: "int option"
  Count_H2 :: "int option"
  Count_H3 :: "int option"
  Count_H4 :: "int option"
  Count_H5 :: "int option"
  Count_H6 :: "int option"

definition enc_AnalysisData_HeadingCounts :: "AnalysisData_HeadingCounts \<Rightarrow> json" where
  "enc_AnalysisData_HeadingCounts h =
     JObj (opt_field ''h1'' JNum (Count_H1 h) @
       opt_field ''h2'' JNum (Count_H2 h) @
       opt_field ''h3'' JNum (Count_H3 h) @
       opt_field ''h4'' JNum (Count_H4 h) @
       opt_field ''h5'' JNum (Count_H5 h) @
       opt_field ''h6'' JNum (Count_H6 h) @
       [])"

definition dec_AnalysisData_HeadingCounts :: "json \<Rightarrow> AnalysisData_HeadingCounts result" where
  "dec_AnalysisData_HeadingCounts = json_struct (\<lambda>ob.
     bind_result (new_field ''h1'' dec_int ob) (\<lambda>a.
     bind_result (new_field ''h2'' dec_int ob) (\<lambda>b.
     bind_result (new_field ''h3'' dec_int ob) (\<lambda>c.
     bind_result (new_field ''h4'' dec_int ob) (\<lambda>d.
     bind_result (new_field ''h5'' dec_int ob) (\<lambda>e.
     bind_result (new_field ''h6'' dec_int ob) (\<lambda>f.
       Inr \<lparr>Count_H1 = a, Count_H2 = b, Count_H3 = c, Count_H4 = d, Count_H5 = e, Count_H6 = f\<rparr>)))))))
     \<lparr>Count_H1 = None, Count_H2 = None, Count_H3 = None, Count_H4 = None, Count_H5 = None, Count_H6 = None\<rparr>"

definition valid_AnalysisData_HeadingCounts :: "AnalysisData_HeadingCounts \<Rightarrow> bool" where
  "valid_AnalysisData_HeadingCounts h \<longleftrightarrow> pred_option in_int64 (Count_H1 h) \<and>
     pred_option in_int64 (Count_H2 h) \<and>
     pred_option in_int64 (Count_H3 h) \<and>
     pred_option in_int64 (Count_H4 h) \<and>
     pred_option in_int64 (Count_H5 h) \<and>
     pred_option in_int64 (Count_H6 h)"

interpretation headings: json_struct_type enc_AnalysisData_HeadingCounts "\<lambda>_. dec_AnalysisData_HeadingCounts"
  "\<lparr>Count_H1 = None, Count_H2 = None, Count_H3 = None, Count_H4 = None, Count_H5 = None, Count_H6 = None\<rparr>" valid_AnalysisData_HeadingCounts
  by unfold_locales (simp_all add: enc_AnalysisData_HeadingCounts_def dec_AnalysisData_HeadingCounts_def valid_AnalysisData_HeadingCounts_def json_struct_def option.pred_True
    int_pointer.new_field_enc del: map_of_append)

text \<open>The generator writes the structures inside a structure out again; their fields are those above.\<close>


record AnalysisData =
  FetchTimeMs :: "int option"
  Forms :: "FormAnalysis option"
  Heading_Counts :: "AnalysisData_HeadingCounts option"
  HtmlVersion :: "string option"
  Links :: "LinkAnalysis option"
  ProcessingTimeMs :: "int option"
  Title :: "string option"

definition enc_AnalysisData :: "AnalysisData \<Rightarrow> json" where
  "enc_AnalysisData d =
     JObj (opt_field ''fetch_time_ms'' JNum (FetchTimeMs d) @
       opt_field ''forms'' enc_FormAnalysis (Forms d) @
       opt_field ''heading_counts'' enc_AnalysisData_HeadingCounts (Heading_Counts d) @
       opt_field ''html_version'' JStr (HtmlVersion d) @
       opt_field ''links'' enc_LinkAnalysis (Links d) @
       opt_field ''processing_time_ms'' JNum (ProcessingTimeMs d) @
       opt_field ''title'' JStr (Title d) @
       [])"

definition dec_AnalysisData :: "json \<Rightarrow> AnalysisData result" where
  "dec_AnalysisData = json_struct (\<lambda>ob.
     bind_result (new_field ''fetch_time_ms'' dec_int ob) (\<lambda>a.
     bind_result (new_field ''forms'' dec_FormAnalysis ob) (\<lambda>b.
     bind_result (new_field ''heading_counts'' dec_AnalysisData_HeadingCounts ob) (\<lambda>c.
     bind_result (new_field ''html_version'' dec_string ob) (\<lambda>d.
     bind_result (new_field ''links'' dec_LinkAnalysis ob) (\<lambda>e.
     bind_result (new_field ''processing_time_ms'' dec_int ob) (\<lambda>f.
     bind_result (new_field ''title'' dec_string ob) (\<lambda>g.
       Inr \<lparr>FetchTimeMs = a, Forms = b, Heading_Counts = c, HtmlVersion = d, Links = e, ProcessingTimeMs = f, Title = g\<rparr>))))))))
     \<lparr>FetchTimeMs = None, Forms = None, Heading_Counts = None, HtmlVersion = None, Links = None, ProcessingTimeMs = None, Title = None\<rparr>"

definition valid_AnalysisData :: "AnalysisData \<Rightarrow> bool" where
  "valid_AnalysisData d \<longleftrightarrow> pred_option in_int64 (FetchTimeMs d) \<and>
     pred_option valid_FormAnalysis (Forms d) \<and>
     pred_option valid_AnalysisData_HeadingCounts (Heading_Counts d) \<and>
     pred_option valid_LinkAnalysis (Links d) \<and>
     pred_option in_int64 (ProcessingTimeMs d)"

interpretation data: json_struct_type enc_AnalysisData "\<lambda>_. dec_AnalysisData"
  "\<lparr>FetchTimeMs = None, Forms = None, Heading_Counts = None, HtmlVersion = None, Links = None, ProcessingTimeMs = None, Title = None\<rparr>" valid_AnalysisData
  by unfold_locales (simp_all add: enc_AnalysisData_def dec_AnalysisData_def valid_AnalysisData_def json_struct_def option.pred_True
    forms.new_field_enc headings.new_field_enc int_pointer.new_field_enc links.new_field_enc text_pointer.new_field_enc del: map_of_append)

record AnalysisResult =
  Result_AnalysisId :: "uuid option"
  Result_CompletedAt :: "time option"
  Result_ContentHash :: "string option"
  Result_ContentSize :: "int option"
  Result_CreatedAt :: "time option"
  Result_Duration :: "string option"
  Results :: "AnalysisData option"
  Result_Status :: "string option"
  Result_Url :: "string option"

definition enc_AnalysisResult :: "AnalysisResult \<Rightarrow> json" where
  "enc_AnalysisResult a =
     JObj (opt_field ''analysis_id'' id_json (Result_AnalysisId a) @
       opt_field ''completed_at'' JTime (Result_CompletedAt a) @
       opt_field ''content_hash'' JStr (Result_ContentHash a) @
       opt_field ''content_size'' JNum (Result_ContentSize a) @
       opt_field ''created_at'' JTime (Result_CreatedAt a) @
       opt_field ''duration'' JStr (Result_Duration a) @
       opt_field ''results'' enc_AnalysisData (Results a) @
       opt_field ''status'' JStr (Result_Status a) @
       opt_field ''url'' JStr (Result_Url a) @
       [])"

definition dec_AnalysisResult :: "json \<Rightarrow> AnalysisResult result" where
  "dec_AnalysisResult = json_struct (\<lambda>ob.
     bind_result (new_field ''analysis_id'' dec_uuid ob) (\<lambda>a.
     bind_result (new_field ''completed_at'' dec_time ob) (\<lambda>b.
     bind_result (new_field ''content_hash'' dec_string ob) (\<lambda>c.
     bind_result (new_field ''content_size'' dec_int ob) (\<lambda>d.
     bind_result (new_field ''created_at'' dec_time ob) (\<lambda>e.
     bind_result (new_field ''duration'' dec_string ob) (\<lambda>f.
     bind_result (new_field ''results'' dec_AnalysisData ob) (\<lambda>g.
     bind_result (new_field ''status'' dec_string ob) (\<lambda>h.
     bind_result (new_field ''url'' dec_string ob) (\<lambda>i.
       Inr \<lparr>Result_AnalysisId = a, Result_CompletedAt = b, Result_ContentHash = c, Result_ContentSize = d, Result_CreatedAt = e, Result_Duration = f, Results = g, Result_Status = h, Result_Url = i\<rparr>))))))))))
     \<lparr>Result_AnalysisId = None, Result_CompletedAt = None, Result_ContentHash = None, Result_ContentSize = None, Result_CreatedAt = None, Result_Duration = None, Results = None, Result_Status = None, Result_Url = None\<rparr>"

definition valid_AnalysisResult :: "AnalysisResult \<Rightarrow> bool" where
  "valid_AnalysisResult a \<longleftrightarrow> pred_option in_int64 (Result_ContentSize a) \<and>
     pred_option valid_AnalysisData (Results a)"

interpretation result: json_struct_type enc_AnalysisResult "\<lambda>_. dec_AnalysisResult"
  "\<lparr>Result_AnalysisId = None, Result_CompletedAt = None, Result_ContentHash = None, Result_ContentSize = None, Result_CreatedAt = None, Result_Duration = None, Results = None, Result_Status = None, Result_Url = None\<rparr>" valid_AnalysisResult
  by unfold_locales (simp_all add: enc_AnalysisResult_def dec_AnalysisResult_def valid_AnalysisResult_def json_struct_def option.pred_True
    data.new_field_enc id_pointer.new_field_enc int_pointer.new_field_enc text_pointer.new_field_enc time_pointer.new_field_enc del: map_of_append)

section \<open>The other answers\<close>

record AnalysisError =
  Failure_AnalysisId :: "uuid option"
  Failure_Details :: "string option"
  Failure_Error :: "string option"
  ErrorMessage :: "string option"
  HttpStatusCode :: "int option"
  Failure_Status :: "string option"

definition enc_AnalysisError :: "AnalysisError \<Rightarrow> json" where
  "enc_AnalysisError e =
     JObj (opt_field ''analysis_id'' id_json (Failure_AnalysisId e) @
       opt_field ''details'' JStr (Failure_Details e) @
       opt_field ''error'' JStr (Failure_Error e) @
       opt_field ''error_message'' JStr (ErrorMessage e) @
       opt_field ''http_status_code'' JNum (HttpStatusCode e) @
       opt_field ''status'' JStr (Failure_Status e) @
       [])"

definition dec_AnalysisError :: "json \<Rightarrow> AnalysisError result" where
  "dec_AnalysisError = json_struct (\<lambda>ob.
     bind_result (new_field ''analysis_id'' dec_uuid ob) (\<lambda>a.
     bind_result (new_field ''details'' dec_string ob) (\<lambda>b.
     bind_result (new_field ''error'' dec_string ob) (\<lambda>c.
     bind_result (new_field ''error_message'' dec_string ob) (\<lambda>d.
     bind_result (new_field ''http_status_code'' dec_int ob) (\<lambda>e.
     bind_result (new_field ''status'' dec_string ob) (\<lambda>f.
       Inr \<lparr>Failure_AnalysisId = a, Failure_Details = b, Failure_Error = c, ErrorMessage = d, HttpStatusCode = e, Failure_Status = f\<rparr>)))))))
     \<lparr>Failure_AnalysisId = None, Failure_Details = None, Failure_Error = None, ErrorMessage = None, HttpStatusCode = None, Failure_Status = None\<rparr>"

definition valid_AnalysisError :: "AnalysisError \<Rightarrow> bool" where
  "valid_AnalysisError e \<longleftrightarrow> pred_option in_int64 (HttpStatusCode e)"

interpretation failure: json_struct_type enc_AnalysisError "\<lambda>_. dec_AnalysisError"
  "\<lparr>Failure_AnalysisId = None, Failure_Details = None, Failure_Error = None, ErrorMessage = None, HttpStatusCode = None, Failure_Status = None\<rparr>" valid_AnalysisError
  by unfold_locales (simp_all add: enc_AnalysisError_def dec_AnalysisError_def valid_AnalysisError_def json_struct_def option.pred_True
    id_pointer.new_field_enc int_pointer.new_field_enc text_pointer.new_field_enc del: map_of_append)

record AnalysisInProgress =
  Progress_AnalysisId :: "uuid option"
  CurrentStep :: "string option"
  Progress_EstimatedCompletionTime :: "string option"
  Progress :: "int option"
  Progress_Status :: "string option"

definition enc_AnalysisInProgress :: "AnalysisInProgress \<Rightarrow> json" where
  "enc_AnalysisInProgress p =
     JObj (opt_field ''analysis_id'' id_json (Progress_AnalysisId p) @
       opt_field ''current_step'' JStr (CurrentStep p) @
       opt_field ''estimated_completion_time'' JStr (Progress_EstimatedCompletionTime p) @
       opt_field ''progress'' JNum (Progress p) @
       opt_field ''status'' JStr (Progress_Status p) @
       [])"

definition dec_AnalysisInProgress :: "json \<Rightarrow> AnalysisInProgress result" where
  "dec_AnalysisInProgress = json_struct (\<lambda>ob.
     bind_result (new_field ''analysis_id'' dec_uuid ob) (\<lambda>a.
     bind_result (new_field ''current_step'' dec_string ob) (\<lambda>b.
     bind_result (new_field ''estimated_completion_time'' dec_string ob) (\<lambda>c.
     bind_result (new_field ''progress'' dec_int ob) (\<lambda>d.
     bind_result (new_field ''status'' dec_string ob) (\<lambda>e.
       Inr \<lparr>Progress_AnalysisId = a, CurrentStep = b, Progress_EstimatedCompletionTime = c, Progress = d, Progress_Status = e\<rparr>))))))
     \<lparr>Progress_AnalysisId = None, CurrentStep = None, Progress_EstimatedCompletionTime = None, Progress = None, Progress_Status = None\<rparr>"

definition valid_AnalysisInProgress :: "AnalysisInProgress \<Rightarrow> bool" where
  "valid_AnalysisInProgress p \<longleftrightarrow> pred_option in_int64 (Progress p)"

interpretation progress: json_struct_type enc_AnalysisInProgress "\<lambda>_. dec_AnalysisInProgress"
  "\<lparr>Progress_AnalysisId = None, CurrentStep = None, Progress_EstimatedCompletionTime = None, Progress = None, Progress_Status = None\<rparr>" valid_AnalysisInProgress
  by unfold_locales (simp_all add: enc_AnalysisInProgress_def dec_AnalysisInProgress_def valid_AnalysisInProgress_def json_struct_def option.pred_True
    id_pointer.new_field_enc int_pointer.new_field_enc text_pointer.new_field_enc del: map_of_append)

record AnalysisResponse =
  Response_AnalysisId :: "uuid option"
  Response_CreatedAt :: "time option"
  EstimatedCompletionTime :: "string option"
  Response_Status :: "string option"
  Response_Url :: "string option"

definition enc_AnalysisResponse :: "AnalysisResponse \<Rightarrow> json" where
  "enc_AnalysisResponse a =
     JObj (opt_field ''analysis_id'' id_json (Response_AnalysisId a) @
       opt_field ''created_at'' JTime (Response_CreatedAt a) @
       opt_field ''estimated_completion_time'' JStr (EstimatedCompletionTime a) @
       opt_field ''status'' JStr (Response_Status a) @
       opt_field ''url'' JStr (Response_Url a) @
       [])"

definition dec_AnalysisResponse :: "json \<Rightarrow> AnalysisResponse result" where
  "dec_AnalysisResponse = json_struct (\<lambda>ob.
     bind_result (new_field ''analysis_id'' dec_uuid ob) (\<lambda>a.
     bind_result (new_field ''created_at'' dec_time ob) (\<lambda>b.
     bind_result (new_field ''estimated_completion_time'' dec_string ob) (\<lambda>c.
     bind_result (new_field ''status'' dec_string ob) (\<lambda>d.
     bind_result (new_field ''url'' dec_string ob) (\<lambda>e.
       Inr \<lparr>Response_AnalysisId = a, Response_CreatedAt = b, EstimatedCompletionTime = c, Response_Status = d, Response_Url = e\<rparr>))))))
     \<lparr>Response_AnalysisId = None, Response_CreatedAt = None, EstimatedCompletionTime = None, Response_Status = None, Response_Url = None\<rparr>"

interpretation response: json_struct_type enc_AnalysisResponse "\<lambda>_. dec_AnalysisResponse"
  "\<lparr>Response_AnalysisId = None, Response_CreatedAt = None, EstimatedCompletionTime = None, Response_Status = None, Response_Url = None\<rparr>" "\<lambda>_. True"
  by unfold_locales (simp_all add: enc_AnalysisResponse_def dec_AnalysisResponse_def json_struct_def option.pred_True
    id_pointer.new_field_enc text_pointer.new_field_enc time_pointer.new_field_enc del: map_of_append)

record ErrorResponse =
  Error_Details :: "string option"
  Error_Error :: "string option"
  Error_Message :: "string option"
  RetryAfter :: "int option"
  Error_StatusCode :: "int option"
  Error_Timestamp :: "time option"

definition enc_ErrorResponse :: "ErrorResponse \<Rightarrow> json" where
  "enc_ErrorResponse e =
     JObj (opt_field ''details'' JStr (Error_Details e) @
       opt_field ''error'' JStr (Error_Error e) @
       opt_field ''message'' JStr (Error_Message e) @
       opt_field ''retry_after'' JNum (RetryAfter e) @
       opt_field ''status_code'' JNum (Error_StatusCode e) @
       opt_field ''timestamp'' JTime (Error_Timestamp e) @
       [])"

definition dec_ErrorResponse :: "json \<Rightarrow> ErrorResponse result" where
  "dec_ErrorResponse = json_struct (\<lambda>ob.
     bind_result (new_field ''details'' dec_string ob) (\<lambda>a.
     bind_result (new_field ''error'' dec_string ob) (\<lambda>b.
     bind_result (new_field ''message'' dec_string ob) (\<lambda>c.
     bind_result (new_field ''retry_after'' dec_int ob) (\<lambda>d.
     bind_result (new_field ''status_code'' dec_int ob) (\<lambda>e.
     bind_result (new_field ''timestamp'' dec_time ob) (\<lambda>f.
       Inr \<lparr>Error_Details = a, Error_Error = b, Error_Message = c, RetryAfter = d, Error_StatusCode = e, Error_Timestamp = f\<rparr>)))))))
     \<lparr>Error_Details = None, Error_Error = None, Error_Message = None, RetryAfter = None, Error_StatusCode = None, Error_Timestamp = None\<rparr>"

definition valid_ErrorResponse :: "ErrorResponse \<Rightarrow> bool" where
  "valid_ErrorResponse e \<longleftrightarrow> pred_option in_int64 (RetryAfter e) \<and>
     pred_option in_int64 (Error_StatusCode e)"

interpretation error_body: json_struct_type enc_ErrorResponse "\<lambda>_. dec_ErrorResponse"
  "\<lparr>Error_Details = None, Error_Error = None, Error_Message = None, RetryAfter = None, Error_StatusCode = None, Error_Timestamp = None\<rparr>" valid_ErrorResponse
  by unfold_locales (simp_all add: enc_ErrorResponse_def dec_ErrorResponse_def valid_ErrorResponse_def json_struct_def option.pred_True
    int_pointer.new_field_enc text_pointer.new_field_enc time_pointer.new_field_enc del: map_of_append)

record Pagination =
  HasNext :: "bool option"
  HasPrevious :: "bool option"
  Limit :: "int option"
  Page :: "int option"
  Pagination_TotalCount :: "int option"
  TotalPages :: "int option"

definition enc_Pagination :: "Pagination \<Rightarrow> json" where
  "enc_Pagination p =
     JObj (opt_field ''has_next'' JBool (HasNext p) @
       opt_field ''has_previous'' JBool (HasPrevious p) @
       opt_field ''limit'' JNum (Limit p) @
       opt_field ''page'' JNum (Page p) @
       opt_field ''total_count'' JNum (Pagination_TotalCount p) @
       opt_field ''total_pages'' JNum (TotalPages p) @
       [])"

definition dec_Pagination :: "json \<Rightarrow> Pagination result" where
  "dec_Pagination = json_struct (\<lambda>ob.
     bind_result (new_field ''has_next'' dec_bool ob) (\<lambda>a.
     bind_result (new_field ''has_previous'' dec_bool ob) (\<lambda>b.
     bind_result (new_field ''limit'' dec_int ob) (\<lambda>c.
     bind_result (new_field ''page'' dec_int ob) (\<lambda>d.
     bind_result (new_field ''total_count'' dec_int ob) (\<lambda>e.
     bind_result (new_field ''total_pages'' dec_int ob) (\<lambda>f.
       Inr \<lparr>HasNext = a, HasPrevious = b, Limit = c, Page = d, Pagination_TotalCount = e, TotalPages = f\<rparr>)))))))
     \<lparr>HasNext = None, HasPrevious = None, Limit = None, Page = None, Pagination_TotalCount = None, TotalPages = None\<rparr>"

definition valid_Pagination :: "Pagination \<Rightarrow> bool" where
  "valid_Pagination p \<longleftrightarrow> pred_option in_int64 (Limit p) \<and>
     pred_option in_int64 (Page p) \<and>
     pred_option in_int64 (Pagination_TotalCount p) \<and>
     pred_option in_int64 (TotalPages p)"

interpretation pagination: json_struct_type enc_Pagination "\<lambda>_. dec_Pagination"
  "\<lparr>HasNext = None, HasPrevious = None, Limit = None, Page = None, Pagination_TotalCount = None, TotalPages = None\<rparr>" valid_Pagination
  by unfold_locales (simp_all add: enc_Pagination_def dec_Pagination_def valid_Pagination_def json_struct_def option.pred_True
    bool_pointer.new_field_enc int_pointer.new_field_enc del: map_of_append)

section \<open>Requests\<close>

text \<open>\<open>AnalyzeRequest\<close>, as a client writes it; the server reads it with \<open>dec_analyze_body\<close>.\<close>

definition enc_request_options :: "request_options \<Rightarrow> json" where
  "enc_request_options p =
     JObj (opt_field ''check_links'' JBool (ro_check_links p) @ opt_field ''detect_forms'' JBool (ro_detect_forms p) @
       opt_field ''include_headings'' JBool (ro_include_headings p) @ opt_field ''timeout'' JNum (ro_timeout p) @ [])"

definition enc_AnalyzeRequest :: "analyze_body \<Rightarrow> json" where
  "enc_AnalyzeRequest q =
     JObj (opt_field ''options'' enc_request_options (ab_options q) @ [(''url'', JStr (ab_url q))])"

definition request_in_range :: "analyze_body \<Rightarrow> bool" where
  "request_in_range q \<longleftrightarrow> pred_option (\<lambda>p. pred_option in_int64 (ro_timeout p)) (ab_options q)"

interpretation request_options: json_struct_type enc_request_options "\<lambda>_. dec_request_options"
  "\<lparr>ro_check_links = None, ro_detect_forms = None, ro_include_headings = None, ro_timeout = None\<rparr>"
  "\<lambda>p. pred_option in_int64 (ro_timeout p)"
  by unfold_locales (simp_all add: enc_request_options_def dec_request_options_def json_struct_def option.pred_True
    new_field_def [symmetric] int_pointer.new_field_enc bool_pointer.new_field_enc del: map_of_append)

lemma request_read: "request_in_range q \<Longrightarrow> dec_analyze_body (enc_AnalyzeRequest q) = Inr q"
proof -
  assume q: "request_in_range q"
  have "json_field ''url'' dec_string [] (opt_field ''options'' enc_request_options (ab_options q) @ [(''url'', JStr (ab_url q))]) =
      Inr (ab_url q)"
    by (simp add: json_field_def del: map_of_append)
  with q show ?thesis
    by (simp add: enc_AnalyzeRequest_def dec_analyze_body_def json_struct_def new_field_def [symmetric] request_in_range_def
        request_options.new_field_enc del: map_of_append)
qed

section \<open>What a client makes of an analysis\<close>

definition link_view :: "inaccessible_link \<Rightarrow> InaccessibleLink" where
  "link_view l = \<lparr>Link_Error = Some (il_error l), Link_StatusCode = Some (il_status_code l), Link_Url = Some (il_url l)\<rparr>"

definition login_view :: "login_form \<Rightarrow> LoginForm" where
  "login_view f =
     \<lparr>Form_Action = Some (lf_action f), Form_Fields = map_option Some (lf_fields f), Form_Method = Some (lf_method f)\<rparr>"

definition slice_view :: "('a \<Rightarrow> 'b) \<Rightarrow> 'a slice \<Rightarrow> 'b slice option" where
  "slice_view f s = map_option (\<lambda>xs. Some (map f xs)) s"

text \<open>The times of fetching and of processing have other names in the two types.\<close>

definition data_view :: "analysis_data \<Rightarrow> AnalysisData" where
  "data_view d =
     (let h = ad_heading_counts d; l = ad_links d; f = ad_forms d
      in \<lparr>FetchTimeMs = None,
          Forms = Some \<lparr>LoginFormDetails = slice_view login_view (fa_login_form_details f),
            LoginFormsDetected = Some (fa_login_forms_detected f), Forms_TotalCount = Some (fa_total_count f)\<rparr>,
          Heading_Counts = Some \<lparr>Count_H1 = Some (H1 h), Count_H2 = Some (H2 h), Count_H3 = Some (H3 h),
            Count_H4 = Some (H4 h), Count_H5 = Some (H5 h), Count_H6 = Some (H6 h)\<rparr>,
          HtmlVersion = Some (ad_html_version d),
          Links = Some \<lparr>ExternalCount = Some (la_external_count l),
            InaccessibleLinks = slice_view link_view (la_inaccessible_links l),
            InternalCount = Some (la_internal_count l), Links_TotalCount = Some (la_total_count l)\<rparr>,
          ProcessingTimeMs = None, Title = Some (ad_title d)\<rparr>)"

definition result_view :: "analysis \<Rightarrow> AnalysisResult" where
  "result_view a =
     \<lparr>Result_AnalysisId = Some (an_id a), Result_CompletedAt = an_completed_at a,
      Result_ContentHash = (if an_content_hash a = [] then None else Some (an_content_hash a)),
      Result_ContentSize = (if an_content_size a = 0 then None else Some (an_content_size a)),
      Result_CreatedAt = Some (an_created_at a), Result_Duration = None,
      Results = map_option data_view (an_results a), Result_Status = Some (status_string (an_status a)),
      Result_Url = Some (an_url a)\<rparr>"

lemma link_read: "in_int64 (il_status_code l) \<Longrightarrow> dec_InaccessibleLink (enc_inaccessible_link l) = Inr (link_view l)"
  by (simp add: dec_InaccessibleLink_def enc_inaccessible_link_def link_view_def new_field_def dec_simps)

lemma dec_slice_view:
  "(\<And>x. x \<in> set (elems s) \<Longrightarrow> dec (enc x) = Inr (f x)) \<Longrightarrow> map_of fs k = Some (enc_slice enc s) \<Longrightarrow>
   new_field k (dec_slice dec) fs = Inr (slice_view f s)"
  by (cases s) (auto simp: new_field_def json_field_def dec_pointer_def enc_slice_def dec_slice_def slice_view_def map_result_map)

lemma new_field_read: "map_of fs k = Some j \<Longrightarrow> j \<noteq> JNull \<Longrightarrow> dec j = Inr x \<Longrightarrow> new_field k dec fs = Inr (Some x)"
  by (simp add: new_field_def json_field_def dec_pointer_def)

lemma login_read: "dec_LoginForm (enc_login_form f) = Inr (login_view f)"
proof -
  have "new_field ''fields'' (dec_slice dec_string)
      [(''method'', JStr (lf_method f)), (''action'', JStr (lf_action f)), (''fields'', enc_slice JStr (lf_fields f))] =
    Inr (slice_view id (lf_fields f))"
    by (rule dec_slice_view) simp_all
  moreover have "slice_view id s = map_option Some s" for s :: "string slice"
    by (simp add: slice_view_def)
  ultimately show ?thesis
    by (simp add: dec_LoginForm_def enc_login_form_def login_view_def new_field_read json_struct_def)
qed

lemma headings_read:
  assumes "data_in_range d"
  shows "dec_AnalysisData_HeadingCounts (enc_heading_counts (ad_heading_counts d)) = Inr (the (Heading_Counts (data_view d)))"
  using assms by (simp add: dec_AnalysisData_HeadingCounts_def enc_heading_counts_def data_view_def data_in_range_def
      Let_def new_field_def dec_simps)

lemma links_read:
  assumes "data_in_range d"
  shows "dec_LinkAnalysis (enc_link_analysis (ad_links d)) = Inr (the (Links (data_view d)))"
proof -
  have "new_field ''inaccessible_links'' (dec_slice dec_InaccessibleLink)
      (case enc_link_analysis (ad_links d) of JObj fs \<Rightarrow> fs) = Inr (slice_view link_view (la_inaccessible_links (ad_links d)))"
    using assms by (intro dec_slice_view [where enc = enc_inaccessible_link])
      (auto simp: enc_link_analysis_def data_in_range_def links_in_range_def intro: link_read)
  with assms show ?thesis
    by (simp add: dec_LinkAnalysis_def enc_link_analysis_def data_view_def data_in_range_def links_in_range_def Let_def
        json_struct_def new_field_read dec_int_def)
qed

lemma forms_read:
  assumes "data_in_range d"
  shows "dec_FormAnalysis (enc_form_analysis (ad_forms d)) = Inr (the (Forms (data_view d)))"
proof -
  have "new_field ''login_form_details'' (dec_slice dec_LoginForm)
      (case enc_form_analysis (ad_forms d) of JObj fs \<Rightarrow> fs) = Inr (slice_view login_view (fa_login_form_details (ad_forms d)))"
    by (intro dec_slice_view [where enc = enc_login_form]) (auto simp: enc_form_analysis_def intro: login_read)
  with assms show ?thesis
    by (simp add: dec_FormAnalysis_def enc_form_analysis_def data_view_def data_in_range_def Let_def
        json_struct_def new_field_read dec_int_def)
qed

lemma data_read: "data_in_range d \<Longrightarrow> dec_AnalysisData (enc_analysis_data d) = Inr (data_view d)"
proof -
  assume d: "data_in_range d"
  have obj: "enc_heading_counts h \<noteq> JNull" "enc_link_analysis l \<noteq> JNull" "enc_form_analysis f \<noteq> JNull" for h l f
    by (simp_all add: enc_heading_counts_def enc_link_analysis_def enc_form_analysis_def)
  show ?thesis
    using headings_read [OF d] links_read [OF d] forms_read [OF d] obj
    by (simp add: dec_AnalysisData_def enc_analysis_data_def json_struct_def new_field_read) (simp add: data_view_def Let_def)
qed
section \<open>What a client reads\<close>

lemma result_read:
  assumes "analysis_in_range a"
  shows "dec_AnalysisResult (enc_analysis a) =
    (if an_duration a = None then Inr (result_view a) else Inl json_type_error)"
proof -
  define fs where "fs = (case enc_analysis a of JObj fs \<Rightarrow> fs)"
  have enc: "enc_analysis a = JObj fs" by (simp add: fs_def enc_analysis_def)
  have obj: "enc_analysis_data d \<noteq> JNull" for d by (simp add: enc_analysis_data_def)
  note fields = fs_def enc_analysis_def new_field_read
  have "new_field ''analysis_id'' dec_uuid fs = Inr (Some (an_id a))"
    by (cases "an_id a") (simp add: fields dec_uuid_def del: map_of_append)
  moreover have "new_field ''completed_at'' dec_time fs = Inr (an_completed_at a)"
    by (cases "an_completed_at a") (simp_all add: fields dec_time_def del: map_of_append)
  moreover have "new_field ''content_hash'' dec_string fs = Inr (Result_ContentHash (result_view a))"
    by (cases "an_content_hash a = []") (simp_all add: fields result_view_def del: map_of_append)
  moreover have "new_field ''content_size'' dec_int fs = Inr (Result_ContentSize (result_view a))"
    using assms by (cases "an_content_size a = 0")
      (simp_all add: fields result_view_def analysis_in_range_def dec_int_def del: map_of_append)
  moreover have "new_field ''created_at'' dec_time fs = Inr (Some (an_created_at a))"
    by (simp add: fields dec_time_def del: map_of_append)
  moreover have "new_field ''duration'' dec_string fs = (if an_duration a = None then Inr None else Inl json_type_error)"
    by (cases "an_duration a")
      (simp_all add: fs_def enc_analysis_def new_field_def json_field_def dec_pointer_def dec_string_def del: map_of_append)
  moreover have "new_field ''results'' dec_AnalysisData fs = Inr (Results (result_view a))"
    using assms obj by (cases "an_results a")
      (simp_all add: fields analysis_in_range_def data_read result_view_def del: map_of_append)
  moreover have "new_field ''status'' dec_string fs = Inr (Some (status_string (an_status a)))"
    "new_field ''url'' dec_string fs = Inr (Some (an_url a))"
    by (simp_all add: fields del: map_of_append)
  ultimately show ?thesis
    by (simp add: enc dec_AnalysisResult_def json_struct_def result_view_def)
qed

lemma duration_unreadable:
  assumes "an_duration a \<noteq> None"
  shows "\<exists>e. dec_AnalysisResult (enc_analysis a) = Inl e"
proof -
  have "new_field ''duration'' dec_string (case enc_analysis a of JObj fs \<Rightarrow> fs) = Inl json_type_error"
    using assms by (cases "an_duration a")
      (simp_all add: enc_analysis_def new_field_def json_field_def dec_pointer_def dec_string_def del: map_of_append)
  then show ?thesis
    by (auto simp: enc_analysis_def dec_AnalysisResult_def json_struct_def bind_result_def split: sum.split
        simp del: map_of_append)
qed

lemma failure_read:
  "dec_AnalysisError (enc_analysis a) =
     (if an_error a = None
      then Inr \<lparr>Failure_AnalysisId = Some (an_id a), Failure_Details = None, Failure_Error = None, ErrorMessage = None,
                HttpStatusCode = None, Failure_Status = Some (status_string (an_status a))\<rparr>
      else Inl json_type_error)"
proof -
  define fs where "fs = (case enc_analysis a of JObj fs \<Rightarrow> fs)"
  have enc: "enc_analysis a = JObj fs" by (simp add: fs_def enc_analysis_def)
  note fields = fs_def enc_analysis_def
  have "new_field ''analysis_id'' dec_uuid fs = Inr (Some (an_id a))"
    by (cases "an_id a") (simp add: fields new_field_read dec_uuid_def del: map_of_append)
  moreover have "new_field ''error'' dec_string fs = (if an_error a = None then Inr None else Inl json_type_error)"
    by (cases "an_error a")
      (simp_all add: fields new_field_def json_field_def dec_pointer_def dec_string_def enc_analysis_error_def del: map_of_append)
  moreover have "new_field ''status'' dec_string fs = Inr (Some (status_string (an_status a)))"
    by (simp add: fields new_field_read del: map_of_append)
  moreover have "map_of fs ''details'' = None" "map_of fs ''error_message'' = None" "map_of fs ''http_status_code'' = None"
    by (simp_all add: fields del: map_of_append)
  ultimately show ?thesis
    by (simp add: enc dec_AnalysisError_def json_struct_def)
qed

lemma response_read:
  "dec_AnalysisResponse (enc_analysis a) =
     Inr \<lparr>Response_AnalysisId = Some (an_id a), Response_CreatedAt = Some (an_created_at a),
          EstimatedCompletionTime = None, Response_Status = Some (status_string (an_status a)),
          Response_Url = Some (an_url a)\<rparr>"
proof -
  have "dec_uuid (JStr (uuid_string (an_id a))) = Inr (an_id a)"
    by (cases "an_id a") (simp add: dec_uuid_def)
  then show ?thesis
    by (simp add: dec_AnalysisResponse_def enc_analysis_def json_struct_def new_field_read dec_time_def del: map_of_append)
qed

lemma start_result:
  assumes "AnalyzeCommandHandler app url options sv = (Inr a, sv')"
  shows "\<exists>i t. a = new_analysis i url t 1"
proof -
  have "StartAnalysis (wa_env app) (wa_retries app) (wa_expiry app) url options (sv_world sv) = (Inr a, sv_world sv')"
    using arg_cong [OF assms, of fst] arg_cong [OF assms, of "\<lambda>x. sv_world (snd x)"]
    by (simp add: AnalyzeCommandHandler_def prod_eq_iff)
  then obtain w1 where "in_tx (wa_env app) (start_body (wa_env app) (wa_retries app) url options) (sv_world sv) = (Inr a, w1)"
    by (auto simp: StartAnalysis_def split: sum.splits prod.splits)
  then show ?thesis
  proof (cases rule: in_tx_cases)
    case (committed b w2)
    then show ?thesis
      by (auto simp: start_body_def an_SaveInTx_def an_insert_def Let_def split: sum.splits prod.splits)
  qed simp_all
qed


definition sample_analyze_request :: analyze_body where
  "sample_analyze_request =
     \<lparr>ab_options = Some \<lparr>ro_check_links = Some False, ro_detect_forms = None, ro_include_headings = None, ro_timeout = Some 5\<rparr>,
      ab_url = ''http://a.b/''\<rparr>"

lemma sample_request_accepted:
  "case fst (StartAnalysis sample_env default_max_retries 10 ''http://a.b/''
       (mapRequestOptionsToDomainOptions (ab_options sample_analyze_request)) empty_world) of Inl e \<Rightarrow> False | Inr a \<Rightarrow> True"
  by code_simp


text \<open>C35: A client cannot read a finished analysis with the generated types. The duration of an analysis is
  sent as a number and expected as text, its error is sent as an object and expected as text: with
  a duration the whole answer is refused as a result, with an error it is refused as a failure.
  Without them it is read, and the times of fetching and of processing are lost.\<close>

theorem finished_analysis_unreadable:
  assumes "GetAnalysis app i r (rs, sv) = Some (rs', sv')" "rs_sent rs = None" "sent_status rs' = 200"
  shows "\<exists>a. fst (FetchAnalysisQueryHandler app i sv) = Inr a \<and> rs_body rs' = rs_body rs @ [JsonChunk (enc_analysis a)] \<and>
    (an_duration a \<noteq> None \<longrightarrow> (\<exists>e. dec_AnalysisResult (enc_analysis a) = Inl e)) \<and>
    (an_error a \<noteq> None \<longrightarrow> (\<exists>e. dec_AnalysisError (enc_analysis a) = Inl e)) \<and>
    (an_duration a = None \<and> analysis_in_range a \<longrightarrow> dec_AnalysisResult (enc_analysis a) = Inr (result_view a))"
proof -
  obtain q sv1 where q: "FetchAnalysisQueryHandler app i sv = (q, sv1)" by force
  with assms obtain a where a: "q = Inr a" by (cases q) (auto simp: GetAnalysis_def)
  with assms q have "rs_body rs' = rs_body rs @ [JsonChunk (enc_analysis a)]" by (auto simp: GetAnalysis_def)
  then show ?thesis
    using duration_unreadable [of a] result_read [of a] q a by (auto simp: failure_read)
qed

text \<open>A completed analysis of the table, with nothing in the cache.\<close>

definition finished_server :: server where
  "finished_server = sample_server\<lparr>sv_world := empty_world\<lparr>analysis_tab :=
     [(sample_row ''a'')\<lparr>ar_status := StatusCompleted, ar_duration := Some 15, ar_completed_at := Some 15\<rparr>]\<rparr>\<rparr>"

lemma finished_found:
  "case fst (FetchAnalysis sample_env 10 (UUID ''a'') (sv_world finished_server)) of Inl e \<Rightarrow> False
   | Inr a \<Rightarrow> (case an_duration a of None \<Rightarrow> False | Some d \<Rightarrow> True)"
  by code_simp

theorem finished_analysis_unreadable_witness:
  "\<exists>rs' sv' j e. GetAnalysis sample_app (UUID ''a'') sample_http_request (fresh_response, finished_server) = Some (rs', sv') \<and>
     sent_status rs' = 200 \<and> rs_body rs' = [JsonChunk j] \<and> dec_AnalysisResult j = Inl e"
proof -
  have "fst (FetchAnalysisQueryHandler sample_app (UUID ''a'') finished_server) =
      fst (FetchAnalysis sample_env 10 (UUID ''a'') (sv_world finished_server))"
    by (simp add: FetchAnalysisQueryHandler_def) (simp add: sample_app_def)
  then obtain a sv' where "FetchAnalysisQueryHandler sample_app (UUID ''a'') finished_server = (Inr a, sv')" "an_duration a \<noteq> None"
    using finished_found by (auto simp: prod_eq_iff split: sum.splits option.splits)
  note a = this
  then have g: "GetAnalysis sample_app (UUID ''a'') sample_http_request (fresh_response, finished_server) =
      Some (write_json 200 (JsonChunk (enc_analysis a)) fresh_response, sv')"
    by (simp add: GetAnalysis_def)
  from finished_analysis_unreadable [OF g] have "\<exists>e. dec_AnalysisResult (enc_analysis a) = Inl e"
    using a by simp
  with g show ?thesis by simp
qed

text \<open>Also: Every error that the request handler reports is read with the generated type as it was written.\<close>

theorem error_answer_read:
  assumes "in_int64 c"
  shows "\<exists>j. rs_body (writeErrorResponse t c ty msg details rs) = rs_body rs @ [JsonChunk j] \<and>
    dec_ErrorResponse j = Inr \<lparr>Error_Details = Some details, Error_Error = Some ty, Error_Message = Some msg, RetryAfter = None,
      Error_StatusCode = Some c, Error_Timestamp = Some t\<rparr>"
  using assms by (simp add: writeErrorResponse_def dec_ErrorResponse_def json_struct_def new_field_read dec_int_def dec_time_def)

theorem error_answer_read_witness:
  "\<exists>j e. rs_body (writeErrorResponse 7 404 ''not_found'' ''analysis not found'' ''d'' fresh_response) = [JsonChunk j] \<and>
     dec_ErrorResponse j = Inr e \<and> Error_StatusCode e = Some 404"
proof -
  have "in_int64 404" by (simp add: in_int64_def)
  from error_answer_read [OF this, of 7 "''not_found''" "''analysis not found''" "''d''" fresh_response] show ?thesis by auto
qed

text \<open>Also: The generated types are read as they are written: results, failures, progress, responses and errors, when
  their numbers are in the range of their types and no pointer points to a \<open>nil\<close> slice.\<close>

theorem generated_types_roundtrip:
  "(valid_AnalysisResult a \<longrightarrow> dec_AnalysisResult (enc_AnalysisResult a) = Inr a) \<and>
   (valid_AnalysisError f \<longrightarrow> dec_AnalysisError (enc_AnalysisError f) = Inr f) \<and>
   (valid_AnalysisInProgress p \<longrightarrow> dec_AnalysisInProgress (enc_AnalysisInProgress p) = Inr p) \<and>
   dec_AnalysisResponse (enc_AnalysisResponse q) = Inr q \<and>
   (valid_ErrorResponse e \<longrightarrow> dec_ErrorResponse (enc_ErrorResponse e) = Inr e)"
  using result.dec_enc failure.dec_enc progress.dec_enc response.dec_enc error_body.dec_enc by simp

definition sample_result :: AnalysisResult where
  "sample_result =
     \<lparr>Result_AnalysisId = Some (UUID ''a''), Result_CompletedAt = None, Result_ContentHash = None, Result_ContentSize = Some 3,
      Result_CreatedAt = Some 0, Result_Duration = Some ''15s'',
      Results = Some \<lparr>FetchTimeMs = Some 342,
        Forms = Some \<lparr>LoginFormDetails = Some (Some [\<lparr>Form_Action = None, Form_Fields = Some (Some [''user'']), Form_Method = Some ''POST''\<rparr>]),
          LoginFormsDetected = Some 1, Forms_TotalCount = Some 1\<rparr>,
        Heading_Counts = None, HtmlVersion = Some ''HTML5'', Links = None, ProcessingTimeMs = Some 125, Title = None\<rparr>,
      Result_Status = Some ''completed'', Result_Url = None\<rparr>"

theorem generated_types_roundtrip_witness:
  "dec_AnalysisResult (enc_AnalysisResult sample_result) = Inr sample_result"
proof -
  have "valid_AnalysisResult sample_result"
    by (simp add: valid_AnalysisResult_def sample_result_def valid_AnalysisData_def valid_FormAnalysis_def valid_LoginForm_def
        slice_of_def in_int64_def)
  with generated_types_roundtrip [of sample_result] show ?thesis by blast
qed

section \<open>The constants of the types\<close>

text \<open>The constants that the generator defines for the types of the states; the types are texts, and nothing
  checks that a value is one of them.\<close>

definition AnalysisErrorStatus :: "string list" where
  "AnalysisErrorStatus = [''failed'']"

definition AnalysisInProgressStatus :: "string list" where
  "AnalysisInProgressStatus = [''in_progress'']"

definition AnalysisResponseStatus :: "string list" where
  "AnalysisResponseStatus = [''completed'', ''failed'', ''in_progress'', ''requested'']"

definition AnalysisResultStatus :: "string list" where
  "AnalysisResultStatus = [''completed'']"

definition LoginFormMethod :: "string list" where
  "LoginFormMethod = [''POST'']"

definition HealthResponseChecksCacheStatus :: "string list" where
  "HealthResponseChecksCacheStatus = [''degraded'', ''healthy'', ''unhealthy'', ''unknown'']"

definition HealthResponseChecksQueueStatus :: "string list" where
  "HealthResponseChecksQueueStatus = [''degraded'', ''healthy'', ''unhealthy'', ''unknown'']"

definition HealthResponseChecksStorageStatus :: "string list" where
  "HealthResponseChecksStorageStatus = [''degraded'', ''healthy'', ''unhealthy'', ''unknown'']"

definition HealthResponseStatus :: "string list" where
  "HealthResponseStatus = [''DEGRADED'', ''DOWN'', ''MAINTENANCE'', ''OK'']"

definition LivenessResponseStatus :: "string list" where
  "LivenessResponseStatus = [''DEGRADED'', ''DOWN'', ''MAINTENANCE'', ''OK'']"

definition ReadinessResponseChecksCacheStatus :: "string list" where
  "ReadinessResponseChecksCacheStatus = [''degraded'', ''healthy'', ''unhealthy'', ''unknown'']"

definition ReadinessResponseChecksQueueStatus :: "string list" where
  "ReadinessResponseChecksQueueStatus = [''degraded'', ''healthy'', ''unhealthy'', ''unknown'']"

definition ReadinessResponseChecksStorageStatus :: "string list" where
  "ReadinessResponseChecksStorageStatus = [''degraded'', ''healthy'', ''unhealthy'', ''unknown'']"

definition ReadinessResponseStatus :: "string list" where
  "ReadinessResponseStatus = [''DEGRADED'', ''DOWN'', ''MAINTENANCE'', ''OK'']"

lemmas status_constants = AnalysisErrorStatus_def AnalysisInProgressStatus_def AnalysisResponseStatus_def AnalysisResultStatus_def
  HealthResponseChecksCacheStatus_def HealthResponseChecksQueueStatus_def HealthResponseChecksStorageStatus_def
  HealthResponseStatus_def LivenessResponseStatus_def ReadinessResponseChecksCacheStatus_def
  ReadinessResponseChecksQueueStatus_def ReadinessResponseChecksStorageStatus_def ReadinessResponseStatus_def

text \<open>Also: Every state of a dependency or of the service that the probes can name is a constant of its type, also a
  state of the domain that is none of its own constants; MAINTENANCE is never sent. Of the states of an
  analysis, all of which are sent with 200, the type of the 200 answer has completed alone.\<close>

theorem sent_states_documented:
  "list_all (\<lambda>vs. set vs = range DomainDependencyStatusToHandler)
     [HealthResponseChecksCacheStatus, HealthResponseChecksQueueStatus, HealthResponseChecksStorageStatus,
      ReadinessResponseChecksCacheStatus, ReadinessResponseChecksQueueStatus, ReadinessResponseChecksStorageStatus] \<and>
   set HealthResponseStatus - {''MAINTENANCE''} = range DomainHealthStatusToHandler \<and>
   set LivenessResponseStatus - {''MAINTENANCE''} = range DomainLivenessStatusToHandler \<and>
   set ReadinessResponseStatus - {''MAINTENANCE''} = range DomainReadinessStatusToHandler \<and>
   set AnalysisResponseStatus = status_string ` {s. known_status s} \<and>
   set AnalysisResponseStatus - set AnalysisResultStatus = status_string ` {StatusRequested, StatusInProgress, StatusFailed}"
proof -
  note range = rangeI [of DomainDependencyStatusToHandler DependencyHealthy] rangeI [of DomainDependencyStatusToHandler DependencyDegraded]
    rangeI [of DomainDependencyStatusToHandler DependencyUnhealthy] rangeI [of DomainDependencyStatusToHandler "DependencyOther []"]
  have "range DomainDependencyStatusToHandler = {''degraded'', ''healthy'', ''unhealthy'', ''unknown''}"
    using range by (auto simp: DomainDependencyStatusToHandler_def split: dependency_check_status.splits)
  moreover have "range DomainHealthStatusToHandler = {''DEGRADED'', ''DOWN'', ''OK''}"
    using rangeI [of DomainHealthStatusToHandler Healthy] rangeI [of DomainHealthStatusToHandler HealthDegraded]
      rangeI [of DomainHealthStatusToHandler Unhealthy]
    by (auto simp: DomainHealthStatusToHandler_def split: health_status.splits)
  moreover have "range DomainLivenessStatusToHandler = {''DEGRADED'', ''DOWN'', ''OK''}"
    using rangeI [of DomainLivenessStatusToHandler Alive] rangeI [of DomainLivenessStatusToHandler LivenessDegraded]
      rangeI [of DomainLivenessStatusToHandler Dead]
    by (auto simp: DomainLivenessStatusToHandler_def split: liveness_status.splits)
  moreover have "range DomainReadinessStatusToHandler = {''DEGRADED'', ''DOWN'', ''OK''}"
    using rangeI [of DomainReadinessStatusToHandler Ready] rangeI [of DomainReadinessStatusToHandler ReadinessDegraded]
      rangeI [of DomainReadinessStatusToHandler NotReady]
    by (auto simp: DomainReadinessStatusToHandler_def split: readiness_status.splits)
  moreover have "{s. known_status s} = {StatusRequested, StatusInProgress, StatusCompleted, StatusFailed}"
  proof (rule set_eqI)
    fix s
    show "s \<in> {s. known_status s} \<longleftrightarrow> s \<in> {StatusRequested, StatusInProgress, StatusCompleted, StatusFailed}"
      by (cases s) (simp_all add: known_status_def)
  qed
  ultimately show ?thesis
    by (simp add: status_constants status_string_def) blast
qed

section \<open>The reports of the probes\<close>

record LivenessResponse =
  Liveness_Status :: string
  Liveness_Timestamp :: time
  Liveness_Version :: string

definition dec_LivenessResponse :: "json \<Rightarrow> LivenessResponse result" where
  "dec_LivenessResponse = json_struct (\<lambda>ob.
     bind_result (json_field ''status'' dec_string [] ob) (\<lambda>a.
     bind_result (json_field ''timestamp'' dec_time 0 ob) (\<lambda>b.
     bind_result (json_field ''version'' dec_string [] ob) (\<lambda>c.
       Inr \<lparr>Liveness_Status = a, Liveness_Timestamp = b, Liveness_Version = c\<rparr>))))
     \<lparr>Liveness_Status = [], Liveness_Timestamp = 0, Liveness_Version = []\<rparr>"

record ReadinessResponse =
  Readiness_Checks :: ready_checks
  Readiness_Status :: string
  Readiness_Timestamp :: time
  Readiness_Version :: "string option"

definition dec_ReadinessResponse :: "json \<Rightarrow> ReadinessResponse result" where
  "dec_ReadinessResponse = json_struct (\<lambda>ob.
     bind_result (json_field ''checks'' (ReadinessResponse_Checks_UnmarshalJSON no_checks) no_checks ob) (\<lambda>a.
     bind_result (json_field ''status'' dec_string [] ob) (\<lambda>b.
     bind_result (json_field ''timestamp'' dec_time 0 ob) (\<lambda>c.
     bind_result (new_field ''version'' dec_string ob) (\<lambda>d.
       Inr \<lparr>Readiness_Checks = a, Readiness_Status = b, Readiness_Timestamp = c, Readiness_Version = d\<rparr>)))))
     \<lparr>Readiness_Checks = no_checks, Readiness_Status = [], Readiness_Timestamp = 0, Readiness_Version = None\<rparr>"

text \<open>Also: The liveness and the readiness report are read with the generated types, and a client can tell the
  verdict from the state that it reads as from the status code: 200 goes with OK, 503 with DOWN.\<close>

theorem probe_reports_read:
  assumes "rs_sent rs = None"
  shows "\<exists>l. \<exists>r1 s1 j1 r2 s2 j2 y. LivenessCheck app r (rs, sv) = Some (r1, s1) \<and> rs_body r1 = rs_body rs @ [JsonChunk j1] \<and>
    dec_LivenessResponse j1 = Inr l \<and> Liveness_Version l = ''1.0.0'' \<and>
    (sent_status r1, Liveness_Status l) \<in> {(200, ''OK''), (503, ''DOWN'')} \<and>
    ReadinessCheck app r (rs, sv) = Some (r2, s2) \<and> rs_body r2 = rs_body rs @ [JsonChunk j2] \<and>
    dec_ReadinessResponse j2 = Inr y \<and> Readiness_Version y = Some ''1.0.0'' \<and>
    (sent_status r2, Readiness_Status y) \<in> {(200, ''OK''), (503, ''DOWN'')}"
proof -
  obtain l s1 where l: "FetchLivenessReportQueryHandler app sv = (Inr l, s1)" "l = fst (CheckLiveness (wa_env app) (sv_world sv))"
    by (simp add: FetchLivenessReportQueryHandler_def prod_eq_iff FetchLivenessReport_def split_beta)
  obtain y s2 where y: "FetchReadinessReportQueryHandler app sv = (Inr y, s2)" "y = fst (CheckReadiness (wa_env app) (sv_world sv))"
    by (simp add: FetchReadinessReportQueryHandler_def prod_eq_iff FetchReadinessReport_def split_beta)
  define checks where "checks = JObj [(''cache'', readiness_check (Cache y)), (''queue'', readiness_check (Queue y)),
    (''storage'', readiness_check (Storage y))]"
  have obj: "checks \<noteq> JNull" by (simp add: checks_def)
  have "checks = ReadinessResponse_Checks_MarshalJSON (ready_checks_of y)"
    by (simp add: checks_def ReadinessResponse_Checks_MarshalJSON_def ready_checks_of_def three_checks enc_ready_check_def
        ready_check_of_def zero_ready_check_def readiness_check_def opt_field_def)
  then have read: "ReadinessResponse_Checks_UnmarshalJSON no_checks checks = Inr (ready_checks_of y)"
    using readiness.checks_read [of "ready_checks_of y"]
    by (simp add: ReadinessResponse_Checks_UnmarshalJSON_def ReadinessResponse_Checks_MarshalJSON_def checks_in_range_def
        ready_checks_of_def properties_avoid_def normal_properties_def)
  have "OverallStatus l = Alive \<or> OverallStatus l = Dead" "OverallStatus y = Ready \<or> OverallStatus y = NotReady"
    unfolding l(2) y(2) probe_verdicts by simp_all
  then show ?thesis
    using assms obj
    by (auto simp: LivenessCheck_def ReadinessCheck_def l(1) y(1) Let_def checks_def [symmetric] dec_LivenessResponse_def
        dec_ReadinessResponse_def json_struct_def json_field_def new_field_def dec_pointer_def dec_time_def read
        DomainLivenessStatusToHandler_def DomainReadinessStatusToHandler_def)
qed

theorem probe_reports_read_witness:
  "\<exists>r1 s1 j1 l. LivenessCheck sample_app sample_http_request (fresh_response, sample_server) = Some (r1, s1) \<and>
     rs_body r1 = [JsonChunk j1] \<and> dec_LivenessResponse j1 = Inr l"
  using probe_reports_read [OF fresh_not_sent(1), of sample_app sample_http_request sample_server] by auto
end
