(* ===== verification/System.thy ===== *)
theory System
  imports Pipeline
begin

text \<open>
  The three programs together: any number of publishers, at the steps of \<open>PublishEvent\<close>, and of
  subscribers, at the stages of \<open>ProcessAnalysisRequest\<close>, interleave with the requests and the queries of the
  web service, over one database, one cache and one broker, which delivers any of its messages, again
  and again. Every call may fail, so what is shown holds for every pattern of failures. A transaction
  is one step: the others do not see what is not committed.
\<close>

section \<open>What processing leaves alone\<close>

text \<open>Processing the analysis \<open>i\<close> changes no other row, no event but in its status, counters and times,
  and sends nothing.\<close>

definition processed :: "uuid \<Rightarrow> world \<Rightarrow> world \<Rightarrow> bool" where
  "processed i v w \<longleftrightarrow>
     map ar_id (analysis_tab w) = map ar_id (analysis_tab v) \<and>
     filter (\<lambda>r. ar_id r \<noteq> i) (analysis_tab w) = filter (\<lambda>r. ar_id r \<noteq> i) (analysis_tab v) \<and>
     map event_core (outbox_tab w) = map event_core (outbox_tab v) \<and>
     map or_status (outbox_tab w) = map or_status (outbox_tab v) \<and> bus w = bus v"

lemma processed_refl [simp]: "processed i w w"
  by (simp add: processed_def)

lemma processed_tick_free: "tick_free (processed i v)"
  by (simp add: tick_free_def processed_def)

lemma processed_frame:
  "processed i v w \<Longrightarrow> analysis_tab w' = analysis_tab w \<Longrightarrow> outbox_tab w' = outbox_tab w \<Longrightarrow> bus w' = bus w \<Longrightarrow> processed i v w'"
  by (simp add: processed_def)

lemma processed_metric [simp]: "processed i v (record_metric m w) = processed i v w"
  by (simp add: processed_def)

lemmas statement_processed = statement_preserves [OF processed_tick_free]

lemma update_processed:
  assumes "processed i v w" "\<And>t r. ar_id (f t r) = ar_id r"
  shows "processed i v (snd (updateByCriteria env (\<lambda>w. if bad then Inl x else locked_update env i f w) ctx w))"
proof -
  have "processed i v u'" if "processed i v u" "(if bad then Inl x else locked_update env i f u) = Inr (y, u')" for u y u'
  proof -
    let ?g = "\<lambda>r. bump_lock (f (now env u) r)\<lparr>ar_updated_at := now env u\<rparr>"
    have "u' = u\<lparr>analysis_tab := update_where (\<lambda>r. ar_id r = i) ?g (analysis_tab u)\<rparr>"
      using that(2) by (auto simp: locked_update_def update_analysis_def split: if_splits)
    moreover have id: "ar_id (?g r) = ar_id r" for r by (simp add: bump_lock_def assms(2))
    have "map ar_id (update_where (\<lambda>r. ar_id r = i) ?g rs) = map ar_id rs" for rs
      by (rule map_update_where) (rule id)
    moreover have "filter (\<lambda>r. ar_id r \<noteq> i) (update_where (\<lambda>r. ar_id r = i) ?g rs) = filter (\<lambda>r. ar_id r \<noteq> i) rs" for rs
      by (induction rs) (simp_all add: update_where_def id)
    ultimately show ?thesis using that(1) by (simp add: processed_def)
  qed
  from statement_processed [OF assms(1) this] show ?thesis
    unfolding updateByCriteria_def by (rule wrap_error_preserves)
qed

lemma analysis_ops_processed:
  assumes "processed i v w"
  shows "processed i v (snd (an_Update env i h sz d w))"
    "processed i v (snd (an_UpdateStatus env i s w))"
    "processed i v (snd (an_UpdateCompletionDuration env i n w))"
    "processed i v (snd (an_MarkFailed env i c t k w))"
proof -
  have plain: "processed i v (snd (updateByCriteria env (\<lambda>w. locked_update env i f w) ctx w))"
    if "\<And>t r. ar_id (f t r) = ar_id r" for f ctx
    using update_processed [OF assms that, where bad = False] by (simp only: if_False)
  show "processed i v (snd (an_Update env i h sz d w))"
    unfolding an_Update_def by (rule update_processed [OF assms]) (simp add: set_completed_def)
  show "processed i v (snd (an_UpdateStatus env i s w))"
    unfolding an_UpdateStatus_def by (rule update_processed [OF assms]) simp
  show "processed i v (snd (an_UpdateCompletionDuration env i n w))"
    unfolding an_UpdateCompletionDuration_def by (rule plain) simp
  show "processed i v (snd (an_MarkFailed env i c t k w))"
    unfolding an_MarkFailed_def by (rule plain) simp
qed

lemma ob_mark_processed:
  assumes "processed i v w"
  shows "processed i v (snd (ob_MarkProcessed env k w))" "processed i v (snd (ob_MarkCompleted env k w))"
proof -
  have "processed i v (snd (mark_event env what k ov f t w))" 
    if "\<And>r. event_core (f t r) = event_core r" "\<And>r. or_status (f t r) = or_status r" for what ov f t
  proof -
    have "processed i v (snd (statement env (mark_rows k ov (f t)) w))"
      by (rule statement_processed [OF assms])
        (auto simp: mark_rows_def processed_def map_update_where that split: if_splits)
    then show ?thesis by (auto simp: mark_event_def split: prod.splits sum.splits)
  qed
  then show "processed i v (snd (ob_MarkProcessed env k w))" "processed i v (snd (ob_MarkCompleted env k w))"
    by (simp_all add: ob_MarkProcessed_def ob_MarkCompleted_def event_core_def)
qed

lemma find_bus: "bus (snd (findByCriteria env c b s w)) = bus w"
proof -
  obtain r w1 where st: "statement env (\<lambda>w. case find_row c b (analysis_tab w) of
      None \<Rightarrow> Inl ErrNoRows | Some r \<Rightarrow> Inr (r, w)) w = (r, w1)" by force
  then have "bus w1 = bus w" by (cases rule: statement_cases) (auto split: option.splits)
  with st show ?thesis by (cases r) (simp_all add: findByCriteria_def)
qed

lemma reads_bus:
  "bus (snd (ob_GetByAggregateID env k w)) = bus w" "bus (snd (an_Find env k w)) = bus w"
  "bus (snd (cache_Delete env k w)) = bus w"
  by (auto simp: ob_GetByAggregateID_def an_Find_def find_bus cache_Delete_def keydb_Delete_def statement_def call_def
      split: outcome.splits prod.splits sum.splits option.splits)

lemma cache_side_processed:
  assumes "processed i v w"
  shows "processed i v (cache_invalidate env P k w)" "processed i v (cache_refresh env P k w)"
proof -
  have "bus (cache_invalidate env P k w) = bus w"
    by (auto simp: cache_invalidate_def reads_bus split: option.splits)
  then show "processed i v (cache_invalidate env P k w)"
    by (intro processed_frame [OF assms]) (simp_all add: frame_simps)
  obtain r w1 where f: "an_Find env k w = (r, w1)" by force
  with reads_bus(2) [of env k w] have "bus (cache_refresh env P k w) = bus w"
    by (cases r) (auto simp: cache_refresh_def cache_Set_tables split: option.splits)
  then show "processed i v (cache_refresh env P k w)"
    by (intro processed_frame [OF assms]) (simp_all add: frame_simps)
qed

lemma begin_processed:
  assumes "processed i v w"
  shows "processed i v (snd (process_begin env P i w))"
proof -
  obtain r1 w1 where s1: "ob_GetByAggregateID env i w = (r1, w1)" by force
  have w1: "processed i v w1"
    by (rule processed_frame [OF assms]) (use s1 ob_Get_frame [of env i w] reads_bus(1) [of env i w] in simp_all)
  obtain r2 w2 where s2: "r1 = Inr ev \<Longrightarrow> ob_MarkProcessed env (oe_id ev) w1 = (r2, w2)" for ev
    by (cases r1) (fastforce+)
  show ?thesis
  proof (cases r1)
    case (Inr ev)
    note w2 = ob_mark_processed(1) [OF w1, of env "oe_id ev", unfolded s2 [OF Inr], simplified]
    obtain r3 w3 where s3: "an_UpdateStatus env i StatusInProgress w2 = (r3, w3)" by force
    note w3 = analysis_ops_processed(2) [OF w2, of env StatusInProgress, unfolded s3, simplified]
    show ?thesis
      using s1 s2 [OF Inr] Inr s3 w2 w3 by (cases r2; cases r3) (simp_all add: process_begin_def cache_side_processed)
  qed (use s1 w1 in \<open>simp add: process_begin_def\<close>)
qed

lemma finish_processed:
  assumes "processed i v w"
  shows "processed i v (snd (process_finish env P i ev h w))"
proof -
  let ?d = "Milliseconds (time_Sub (now env w) (oe_created_at ev))"
  obtain r1 w1 where s1: "an_UpdateCompletionDuration env i ?d w = (r1, w1)" by force
  note w1 = analysis_ops_processed(3) [OF assms, of env ?d, unfolded s1, simplified]
  obtain r2 w2 where s2: "ob_MarkCompleted env (oe_id ev) w1 = (r2, w2)" by force
  note w2 = ob_mark_processed(2) [OF w1, of env "oe_id ev", unfolded s2, simplified]
  show ?thesis
    using s1 s2 w1 w2 by (cases r1; cases r2) (simp_all add: process_finish_def cache_side_processed)
qed

section \<open>What the system needs of the ports\<close>

locale system_contract = worker_contract +
  assumes fetch_bus: "bus (snd (port_fetch P env u t w)) = bus w"
    and check_bus: "port_check P = Some check \<Longrightarrow> bus (snd (check env ls w)) = bus w"
begin

lemma fetch_processed:
  assumes "processed (rp_analysis_id p) v w"
  shows "processed (rp_analysis_id p) v (snd (process_fetch env P p w))"
proof -
  obtain r1 w1 where s1: "port_fetch P env (rp_url p) (opt_timeout (rp_options p)) w = (r1, w1)" by force
  have w1: "processed (rp_analysis_id p) v w1"
    using fetch_frame [OF s1] fetch_bus [of env "rp_url p" "opt_timeout (rp_options p)" w] s1
    by (intro processed_frame [OF assms]) simp_all
  show ?thesis
  proof (cases r1)
    case (Inl e)
    obtain r2 w2 where s2: "an_MarkFailed env (rp_analysis_id p) ''FETCH_ERROR'' (Error e) 0 w1 = (r2, w2)" by force
    note w2 = analysis_ops_processed(4) [OF w1, of env "''FETCH_ERROR''" "Error e" 0, unfolded s2, simplified]
    show ?thesis using s1 Inl s2 w2 by (cases r2) (simp_all add: process_fetch_def cache_side_processed)
  qed (use s1 w1 in \<open>simp add: process_fetch_def\<close>)
qed

lemma store_processed:
  assumes "processed i v w"
  shows "processed i v (snd (store_results env P i h c d res w))"
proof -
  let ?w = "record_metric (ProcessingMetric d) (record_metric (FetchMetric (wp_fetch_duration c)) w)"
  let ?res = "Some (with_timing (wp_fetch_duration c) d res)"
  obtain r w1 where s: "an_Update env i h (int (length (wp_html c))) ?res ?w = (r, w1)" by force
  have "processed i v ?w" using assms by simp
  note w1 = analysis_ops_processed(1) [OF this, of env h "int (length (wp_html c))" ?res, unfolded s, simplified]
  from s w1 show ?thesis by (cases r) (simp_all add: store_results_def cache_side_processed)
qed

lemma content_processed:
  assumes "processed (rp_analysis_id p) v w"
  shows "processed (rp_analysis_id p) v (snd (process_content env P p h c w))"
proof -
  let ?i = "rp_analysis_id p"
  obtain q w1 where d: "checkDuplicateContent env h w = (q, w1)" by force
  have "bus (snd (an_FindByContentHash env h w)) = bus w"
    using find_bus [of env "hash_match h" True "Error ErrNoRows" w]
    by (auto simp: an_FindByContentHash_def split: prod.splits sum.splits)
  with d have "bus w1 = bus w" by (auto simp: checkDuplicateContent_def split: prod.splits sum.splits if_splits)
  with duplicate_frame [OF d] have w1: "processed ?i v w1" by (intro processed_frame [OF assms]) simp_all
  have full: "processed ?i v (snd (performFullAnalysis env P ?i h c (rp_options p) w1))"
  proof (cases "port_analyze P (wp_url c) (wp_html c) (rp_options p)")
    case (Inr res)
    obtain res' w2 where x: "check_external_links env P (rp_options p) res w1 = (res', w2)" by force
    have "bus w2 = bus w1"
      using x check_bus by (auto simp: check_external_links_def split: option.splits if_splits prod.splits)
        (metis snd_conv)
    with check_external_frame [OF x] have "processed ?i v w2" by (intro processed_frame [OF w1]) simp_all
    with Inr x show ?thesis by (simp add: performFullAnalysis_def store_processed)
  qed (use w1 in \<open>simp add: performFullAnalysis_def\<close>)
  have copy: "processed ?i v (snd (copyAnalysisResults env P ?i h src w1))" for src
  proof -
    obtain r w2 where u: "an_Update env ?i h (an_content_size src) (an_results src) w1 = (r, w2)" by force
    note w2 = analysis_ops_processed(1) [OF w1, of env h "an_content_size src" "an_results src", unfolded u, simplified]
    from u w2 show ?thesis by (cases r) (simp_all add: copyAnalysisResults_def cache_side_processed)
  qed
  from d w1 full copy show ?thesis
    by (auto simp: process_content_def split: sum.splits option.splits prod.splits) (metis snd_conv)+
qed

end

lemma Fetch_bus: "bus (snd (Fetch H mx env u t w)) = bus w"
proof -
  have f: "bus (snd (fetchWithRetry env H mx u v)) = bus v" for v
    by (auto simp: fetchWithRetry_def Let_def split: sum.splits)
  have b: "bus (snd (breaker_execute H (fetchWithRetry env H mx u) v)) = bus v" for v
    by (auto simp: breaker_execute_def f split: option.splits)
  let ?w = "if 0 < t then w\<lparr>client_timeout := t\<rparr> else w"
  obtain r w2 where s: "breaker_execute H (fetchWithRetry env H mx u) ?w = (r, w2)" by force
  with b [of ?w] show ?thesis by (auto simp: Fetch_def Let_def split: sum.splits)
qed

lemma checkSingleLink_bus: "bus (snd (checkSingleLink H cfg l w)) = bus w"
proof -
  have f: "bus (snd (performLinkCheck H cfg u v)) = bus v" for u v
    by (auto simp: performLinkCheck_def Let_def split: sum.splits)
  obtain r w1 where s: "breaker_execute H (performLinkCheck H cfg (link_url l)) w = (r, w1)" by force
  have "bus w1 = bus w"
    using s f [of "link_url l" w] by (auto simp: breaker_execute_def split: option.splits)
  with s show ?thesis by (cases r) (auto simp: checkSingleLink_def split: prod.splits)
qed

lemma checkLinks_bus: "bus (snd (checkLinks H cfg ls acc w)) = bus w"
proof (induction ls arbitrary: acc w)
  case (Cons l ls)
  obtain q w1 where s: "checkSingleLink H cfg l w = (q, w1)" by force
  with checkSingleLink_bus [of H cfg l w] Cons.IH show ?case by (cases q) simp_all
qed simp

interpretation whole: system_contract "service_ports H D wsched lsched max_size cfg cache"
  for H D wsched lsched max_size cfg cache
  by unfold_locales (auto simp: service_ports_def Fetch_bus CheckAccessibility_def checkLinks_bus)

section \<open>The steps of a subscriber\<close>

datatype worker_pc =
    WorkerIdle
  | WorkerBegin msg request_payload
  | WorkerFetch msg request_payload outbox_event
  | WorkerContent msg request_payload outbox_event web_page_content
  | WorkerFinish msg request_payload outbox_event string
  | WorkerAck msg

definition worker_step :: "env \<Rightarrow> ports \<Rightarrow> worker_pc \<Rightarrow> world \<Rightarrow> worker_pc \<times> world" where
  "worker_step env P pc w =
     (case pc of
        WorkerIdle \<Rightarrow> (WorkerIdle, w)
      | WorkerBegin m p \<Rightarrow>
          (case process_begin env P (rp_analysis_id p) w of
             (Inl _, w1) \<Rightarrow> (WorkerAck m, w1)
           | (Inr ev, w1) \<Rightarrow> (WorkerFetch m p ev, w1))
      | WorkerFetch m p ev \<Rightarrow>
          (case process_fetch env P p w of
             (Inl _, w1) \<Rightarrow> (WorkerAck m, w1)
           | (Inr c, w1) \<Rightarrow> (WorkerContent m p ev c, w1))
      | WorkerContent m p ev c \<Rightarrow>
          (let h = NewContentHash (sha256_Sum env) (wp_html c)
           in case process_content env P p h c w of
                (Inl _, w1) \<Rightarrow> (WorkerAck m, w1)
              | (Inr _, w1) \<Rightarrow> (WorkerFinish m p ev h, w1))
      | WorkerFinish m p ev h \<Rightarrow> (WorkerAck m, snd (process_finish env P (rp_analysis_id p) ev h w))
      | WorkerAck m \<Rightarrow> (WorkerIdle, snd (ctrl_Ack env m w)))"

text \<open>Five steps are one run of the handler on a message whose body is a payload.\<close>

lemma message_by_steps:
  assumes "Unmarshal dec_payload m = Inr p"
  shows "((\<lambda>(pc, w). worker_step env P pc w) ^^ 5) (WorkerBegin m p, w) = (WorkerIdle, snd (ProcessMessage env P q m w))"
  using assms
  by (auto simp: worker_step_def ProcessMessage_def processAnalysisMessage_Handle_def ProcessAnalysisRequest_def Let_def
      eval_nat_numeral split: prod.splits sum.splits)

section \<open>The steps of the system\<close>

text \<open>
  Where each publisher and each subscriber is, and the world. A publisher takes an event that it has
  found at some time, any event here: the claim decides. A delivery is a message that has been sent, with any
  tag and headers.
\<close>

record settings =
  s_ports :: ports
  s_exchange :: string
  s_delay :: "nat \<Rightarrow> int \<Rightarrow> duration"
  s_retries :: max_retries_by_priority
  s_expiry :: duration

type_synonym system_state = "(nat \<Rightarrow> pub_pc) \<times> (nat \<Rightarrow> worker_pc) \<times> world"

inductive sys_step :: "env \<Rightarrow> settings \<Rightarrow> system_state \<Rightarrow> system_state \<Rightarrow> bool" for env cfg where
  Start: "sys_step env cfg (T, W, w) (T, W, snd (StartAnalysis env (s_retries cfg) (s_expiry cfg) url options w))"
| Query: "sys_step env cfg (T, W, w) (T, W, snd (FetchAnalysis env (s_expiry cfg) i w))"
| Take: "T j = PubIdle \<or> T j = PubDone r \<Longrightarrow> sys_step env cfg (T, W, w) (T(j := PubClaim e), W, w)"
| Publish: "pub_step env (s_exchange cfg) (s_delay cfg) (T j) w = (pc, w') \<Longrightarrow> sys_step env cfg (T, W, w) (T(j := pc), W, w')"
| Receive: "W k = WorkerIdle \<Longrightarrow> msg \<in> set (bus w) \<Longrightarrow> dl_body d = Inr (msg_body msg) \<Longrightarrow> decode_delivery d = Inr m \<Longrightarrow>
     Unmarshal dec_payload m = Inr p \<Longrightarrow> sys_step env cfg (T, W, w) (T, W(k := WorkerBegin m p), w)"
| Refuse: "W k = WorkerIdle \<Longrightarrow> sys_step env cfg (T, W, w) (T, W, snd (settle env v d w))"
| Process: "worker_step env (s_ports cfg) (W k) w = (pc, w') \<Longrightarrow> sys_step env cfg (T, W, w) (T, W(k := pc), w')"

definition sys_start :: system_state where
  "sys_start = (\<lambda>_. PubIdle, \<lambda>_. WorkerIdle, empty_world)"

abbreviation sys_reach :: "env \<Rightarrow> settings \<Rightarrow> system_state \<Rightarrow> bool" where
  "sys_reach env cfg \<equiv> (sys_step env cfg)\<^sup>*\<^sup>* sys_start"

section \<open>Who asked for it\<close>

text \<open>A message asks for the analysis that its payload names.\<close>

definition asks_for :: "message \<Rightarrow> uuid \<Rightarrow> bool" where
  "asks_for m i \<longleftrightarrow> (\<exists>p. msg_body m = Message_marshal (enc_payload p) \<and> rp_analysis_id p = i)"

definition asked :: "world \<Rightarrow> uuid set" where
  "asked w = {i. \<exists>m \<in> set (bus w). asks_for m i}"

definition request_row :: "outbox_row \<Rightarrow> bool" where
  "request_row r \<longleftrightarrow> or_event_type r = OutboxEventAnalysisRequested \<and>
     (\<exists>p. or_payload r = enc_payload p \<and> rp_analysis_id p = or_aggregate_id r)"

definition request_event :: "uuid set \<Rightarrow> outbox_event \<Rightarrow> bool" where
  "request_event ids e \<longleftrightarrow> (\<exists>p. oe_payload e = AnalysisRequestPayload p \<and> rp_analysis_id p \<in> ids)"

definition ids_of :: "world \<Rightarrow> uuid set" where
  "ids_of w = ar_id ` set (analysis_tab w)"

definition world_ok :: "world \<Rightarrow> bool" where
  "world_ok w \<longleftrightarrow> or_aggregate_id ` set (outbox_tab w) = ids_of w \<and> list_all request_row (outbox_tab w) \<and>
     list_all (\<lambda>m. \<exists>i \<in> ids_of w. asks_for m i) (bus w) \<and>
     list_all (\<lambda>r. ar_status r = StatusRequested \<or> ar_id r \<in> asked w) (analysis_tab w)"

definition pub_ok :: "uuid set \<Rightarrow> pub_pc \<Rightarrow> bool" where
  "pub_ok ids pc \<longleftrightarrow> (case pc of PubSend c \<Rightarrow> request_event ids c | _ \<Rightarrow> True)"

definition worker_ok :: "uuid set \<Rightarrow> worker_pc \<Rightarrow> bool" where
  "worker_ok ids pc \<longleftrightarrow>
     (case pc of
        WorkerBegin _ p \<Rightarrow> rp_analysis_id p \<in> ids
      | WorkerFetch _ p _ \<Rightarrow> rp_analysis_id p \<in> ids
      | WorkerContent _ p _ _ \<Rightarrow> rp_analysis_id p \<in> ids
      | WorkerFinish _ p _ _ \<Rightarrow> rp_analysis_id p \<in> ids
      | _ \<Rightarrow> True)"

definition system_ok :: "system_state \<Rightarrow> bool" where
  "system_ok s \<longleftrightarrow>
     (case s of (T, W, w) \<Rightarrow>
        world_ok w \<and> (\<forall>j. pub_ok (ids_of w) (T j)) \<and> (\<forall>k. worker_ok (asked w) (W k)))"
section \<open>The parts keep it\<close>

lemma payload_id: "dec_payload (enc_payload q) = Inr p \<Longrightarrow> rp_analysis_id p = rp_analysis_id q"
  "dec_payload (as_any (enc_payload q)) = Inr p \<Longrightarrow> rp_analysis_id p = rp_analysis_id q"
  by (cases "rp_analysis_id q"; auto simp: enc_payload_def dec_payload_def json_struct_def json_field_def dec_uuid_def
      bind_result_def split: sum.splits)+

lemma delivered_asks:
  assumes "asks_for msg i" "dl_body d = Inr (msg_body msg)" "decode_delivery d = Inr m" "Unmarshal dec_payload m = Inr p"
  shows "rp_analysis_id p = i"
proof -
  from assms(1) obtain q where q: "msg_body msg = Message_marshal (enc_payload q)" "rp_analysis_id q = i"
    by (auto simp: asks_for_def)
  then have "m_body m = as_any (enc_payload q)"
    using assms(2,3) by (auto simp: decode_delivery_def Message_marshal_def json_struct_def json_field_def enc_payload_def)
  with assms(4) have "dec_payload (as_any (enc_payload q)) = Inr p" by (simp add: Unmarshal_def split: sum.splits)
  with payload_id(2) q(2) show ?thesis by blast
qed

definition request_core :: "uuid \<times> uuid \<times> outbox_event_type \<times> json \<Rightarrow> bool" where
  "request_core c \<longleftrightarrow>
     (case c of (_, a, t, j) \<Rightarrow> t = OutboxEventAnalysisRequested \<and> (\<exists>p. j = enc_payload p \<and> rp_analysis_id p = a))"

lemma request_rows_core: "list_all request_row rs \<longleftrightarrow> list_all request_core (map event_core rs)"
  by (auto simp: list_all_iff request_row_def request_core_def event_core_def)

lemma aggregates_core: "or_aggregate_id ` set rs = (\<lambda>c. fst (snd c)) ` set (map event_core rs)"
  by (auto simp: image_image event_core_def)

lemma claimed_request:
  assumes "world_ok w" "ob_ClaimForProcessing env k w = (Inr c, w')"
  shows "request_event (ids_of w) c"
  using assms(2)
proof (rule claim_event_id)
  fix t row
  assume row: "row \<in> set (outbox_tab w)" "convertRowToEvent (set_processing t row) = Inr c"
  with assms(1) have "request_row row" "or_aggregate_id row \<in> ids_of w"
    unfolding world_ok_def list_all_iff by blast+
  then obtain q where q: "or_event_type row = OutboxEventAnalysisRequested" "or_payload row = enc_payload q"
      "rp_analysis_id q = or_aggregate_id row" "or_aggregate_id row \<in> ids_of w"
    by (auto simp: request_row_def)
  from row(2) q(1,2) obtain p where "dec_payload (enc_payload q) = Inr p" "oe_payload c = AnalysisRequestPayload p"
    by (auto simp: convertRowToEvent_def set_processing_def unmarshalPayload_def split: sum.splits)
  with payload_id(1) q(3,4) show ?thesis by (auto simp: request_event_def)
qed

lemma asked_mono: "set (bus w) \<subseteq> set (bus w') \<Longrightarrow> asked w \<subseteq> asked w'"
  by (auto simp: asked_def)

text \<open>Other changes than a run: new messages that ask for known analyses, events but in status and times.\<close>

lemma world_ok_published:
  assumes "world_ok w" "same_requests w w'" "bus w' = bus w @ ms" "list_all (\<lambda>m. \<exists>i \<in> ids_of w. asks_for m i) ms"
  shows "world_ok w'" "ids_of w' = ids_of w" "asked w \<subseteq> asked w'"
proof -
  have tab: "analysis_tab w' = analysis_tab w" and core: "map event_core (outbox_tab w') = map event_core (outbox_tab w)"
    using assms(2) by (simp_all add: same_requests_def)
  show ids: "ids_of w' = ids_of w" by (simp add: ids_of_def tab)
  show mono: "asked w \<subseteq> asked w'" by (rule asked_mono) (simp add: assms(3))
  have "or_aggregate_id ` set (outbox_tab w') = or_aggregate_id ` set (outbox_tab w)"
    by (simp only: aggregates_core core)
  moreover have "list_all request_row (outbox_tab w')"
    using assms(1) by (simp add: world_ok_def request_rows_core core)
  moreover have "list_all (\<lambda>r. ar_status r = StatusRequested \<or> ar_id r \<in> asked w') (analysis_tab w')"
    using assms(1) mono by (auto simp: world_ok_def tab list_all_iff)
  ultimately show "world_ok w'" using assms ids by (simp add: world_ok_def)
qed

lemma world_ok_processed:
  assumes "world_ok w" "processed i w w'" "i \<in> asked w"
  shows "world_ok w'" "ids_of w' = ids_of w" "asked w' = asked w"
proof -
  have ids: "map ar_id (analysis_tab w') = map ar_id (analysis_tab w)"
    and rest: "filter (\<lambda>r. ar_id r \<noteq> i) (analysis_tab w') = filter (\<lambda>r. ar_id r \<noteq> i) (analysis_tab w)"
    and core: "map event_core (outbox_tab w') = map event_core (outbox_tab w)" and bus: "bus w' = bus w"
    using assms(2) by (simp_all add: processed_def)
  show ids': "ids_of w' = ids_of w"
    using arg_cong [OF ids, of set] by (simp add: ids_of_def)
  show asked: "asked w' = asked w" by (simp add: asked_def bus)
  have "or_aggregate_id ` set (outbox_tab w') = or_aggregate_id ` set (outbox_tab w)"
    by (simp only: aggregates_core core)
  moreover have "list_all request_row (outbox_tab w')"
    using assms(1) by (simp add: world_ok_def request_rows_core core)
  moreover have "ar_status r = StatusRequested \<or> ar_id r \<in> asked w" if "r \<in> set (analysis_tab w')" for r
  proof (cases "ar_id r = i")
    case False
    with that have "r \<in> set (filter (\<lambda>r. ar_id r \<noteq> i) (analysis_tab w'))" by simp
    with assms(1) show ?thesis unfolding rest by (simp add: world_ok_def list_all_iff)
  qed (use assms(3) in simp)
  ultimately show "world_ok w'"
    using assms(1) ids' asked bus by (simp add: world_ok_def list_all_iff)
qed

lemma pub_step_requests:
  assumes "pub_step env ex d pc w = (pc', w')"
  shows "same_requests w w'"
    "bus w' = bus w \<or> (\<exists>c. pc = PubSend c \<and> bus w' = bus w @ [message_of ex c])"
proof -
  note same = ob_claim_same [OF same_requests_refl] ob_mark_same [OF same_requests_refl] queue_Publish_same [OF same_requests_refl]
  have fail: "same_requests w (snd (handlePublishFailure env d c x w))" for c x
    by (simp add: handlePublishFailure_def Let_def ob_mark_same)
  show "same_requests w w'"
    using assms fail same(1) [of w env] same(2) [of w env] same(7) [of w env]
    by (auto simp: pub_step_def split: pub_pc.splits prod.splits sum.splits) (metis snd_conv)+
  have send: "bus (snd (queue_Publish env ex k b w)) = bus w \<or> bus (snd (queue_Publish env ex k b w)) = bus w @
      [\<lparr>msg_exchange = ex, msg_routing_key = k, msg_headers = [], msg_body = Message_marshal b\<rparr>]" for k b
    by (auto simp: queue_Publish_def statement_def call_def split: outcome.splits)
  show "bus w' = bus w \<or> (\<exists>c. pc = PubSend c \<and> bus w' = bus w @ [message_of ex c])"
    using assms send ob_claim_bus [of env] ob_mark_bus [of env] failure_bus [of env d]
    by (auto simp: pub_step_def message_of_def split: pub_pc.splits prod.splits sum.splits) (metis snd_conv)+
qed
lemma statement_bus:
  assumes "\<And>w x w'. f w = Inr (x, w') \<Longrightarrow> bus w' = bus w"
  shows "bus (snd (statement env f w)) = bus w"
  using assms [of "w\<lparr>tick := Suc (tick w)\<rparr>"] by (auto simp: statement_def call_def split: outcome.splits sum.splits)

lemma start_body_bus: "bus (snd (start_body env cfg url options w)) = bus w"
proof -
  have version: "bus (snd (getNextVersionWithExecutor env url v)) = bus v" for v
    by (auto simp: getNextVersionWithExecutor_def intro!: statement_bus split: if_splits)
  have row: "bus (snd (statement env (\<lambda>w. insert_analysis (r w) w) v)) = bus v" for r v
    by (rule statement_bus) (auto simp: insert_analysis_def split: if_splits)
  have "bus (snd (an_SaveInTx env url options w)) = bus w"
    using version [of w] row
    by (auto simp: an_SaveInTx_def an_insert_def Let_def wrap_error_def split: sum.splits prod.splits) (metis snd_conv)+
  moreover have "bus (snd (ob_SaveInTx env e v)) = bus v" for e v
    by (auto simp: ob_SaveInTx_def Let_def statement_def call_def insert_outbox_def
        split: outcome.splits sum.splits prod.splits if_splits)
  ultimately show ?thesis
    by (auto simp: start_body_def split: sum.splits prod.splits) (metis snd_conv)+
qed

lemma web_bus: "bus (snd (StartAnalysis env cfg ex url options w)) = bus w" "bus (snd (FetchAnalysis env ex i w)) = bus w"
proof -
  have "bus (snd (in_tx env (start_body env cfg url options) w)) = bus w"
    by (rule in_tx_preserves [OF bus_tick_free]) (simp_all add: start_body_bus)
  then show "bus (snd (StartAnalysis env cfg ex url options w)) = bus w"
    by (auto simp: StartAnalysis_def cache_Set_tables split: sum.splits prod.splits)
  have "bus (snd (cache_Find env i w)) = bus w"
    by (auto simp: cache_Find_def keydb_Get_def statement_def call_def split: outcome.splits sum.splits prod.splits option.splits if_splits)
  then show "bus (snd (FetchAnalysis env ex i w)) = bus w"
    using reads_bus(2) [of env i]
    by (auto simp: FetchAnalysis_def cache_Set_tables split: sum.splits prod.splits) (metis snd_conv)+
qed

lemma world_ok_started:
  assumes "world_ok w"
  shows "world_ok (snd (StartAnalysis env cfg ex url options w))" (is "world_ok ?w")
    "ids_of w \<subseteq> ids_of (snd (StartAnalysis env cfg ex url options w))"
proof -
  have bus: "bus ?w = bus w" "asked ?w = asked w" by (simp_all add: web_bus asked_def)
  have "world_ok ?w \<and> ids_of w \<subseteq> ids_of ?w"
    using StartAnalysis_effect [OF prod.collapse [symmetric], of env cfg ex url options w]
  proof (elim disjE exE conjE)
    assume "analysis_tab ?w = analysis_tab w" "outbox_tab ?w = outbox_tab w"
    with assms bus show ?thesis by (simp add: world_ok_def ids_of_def)
  next
    fix row ev t
    assume new: "analysis_tab ?w = analysis_tab w @ [row]" "outbox_tab ?w = outbox_tab w @ [ev]" "ar_status row = StatusRequested"
      "or_aggregate_id ev = ar_id row" "or_event_type ev = OutboxEventAnalysisRequested"
      "or_payload ev = enc_payload \<lparr>rp_analysis_id = ar_id row, rp_url = url, rp_options = options,
         rp_priority = PriorityNormal, rp_created_at = t\<rparr>"
    then have "request_row ev" unfolding request_row_def by (metis request_payload.select_convs(1))
    with assms new bus show ?thesis
      by (auto simp: world_ok_def ids_of_def list_all_iff)
  qed
  then show "world_ok ?w" "ids_of w \<subseteq> ids_of ?w" by blast+
qed

lemma request_event_mono: "ids \<subseteq> ids' \<Longrightarrow> pub_ok ids pc \<Longrightarrow> pub_ok ids' pc"
  by (auto simp: pub_ok_def request_event_def split: pub_pc.splits)

lemma worker_ok_mono: "ids \<subseteq> ids' \<Longrightarrow> worker_ok ids pc \<Longrightarrow> worker_ok ids' pc"
  by (auto simp: worker_ok_def split: worker_pc.splits)

lemma pub_step_keeps:
  assumes "world_ok w" "pub_ok (ids_of w) pc" "pub_step env ex d pc w = (pc', w')"
  shows "world_ok w'" "pub_ok (ids_of w') pc'" "ids_of w' = ids_of w" "asked w \<subseteq> asked w'"
proof -
  note eff = pub_step_requests [OF assms(3)]
  obtain ms where ms: "bus w' = bus w @ ms" "list_all (\<lambda>m. \<exists>i \<in> ids_of w. asks_for m i) ms"
  proof (cases "bus w' = bus w")
    case False
    with eff(2) obtain c where c: "pc = PubSend c" "bus w' = bus w @ [message_of ex c]" by blast
    with assms(2) obtain p where "oe_payload c = AnalysisRequestPayload p" "rp_analysis_id p \<in> ids_of w"
      by (auto simp: pub_ok_def request_event_def)
    then have "\<exists>i \<in> ids_of w. asks_for (message_of ex c) i"
      by (auto simp: asks_for_def message_of_def enc_event_payload_def)
    with c(2) that show thesis by simp
  qed (use that [of "[]"] in simp)
  note ok = world_ok_published [OF assms(1) eff(1) ms]
  then show "world_ok w'" "ids_of w' = ids_of w" "asked w \<subseteq> asked w'" by simp_all
  have "request_event (ids_of w) c" if "pc' = PubSend c" for c
    using assms(3) that claimed_request [OF assms(1), of env _ c]
    by (auto simp: pub_step_def split: pub_pc.splits prod.splits sum.splits)
  then show "pub_ok (ids_of w') pc'"
    by (auto simp: pub_ok_def ok(2) split: pub_pc.splits)
qed

lemma settle_tables:
  "analysis_tab (snd (settle env v d w)) = analysis_tab w" "outbox_tab (snd (settle env v d w)) = outbox_tab w"
  "bus (snd (settle env v d w)) = bus w"
  by (auto simp: settle_def statement_def call_def split: outcome.splits)

lemma settle_ok_world:
  "world_ok (snd (settle env v d w)) = world_ok w" "ids_of (snd (settle env v d w)) = ids_of w"
  "asked (snd (settle env v d w)) = asked w"
  by (simp_all add: settle_tables world_ok_def ids_of_def asked_def)

context system_contract
begin

lemma worker_step_keeps:
  assumes "world_ok w" "worker_ok (asked w) pc" "worker_step env P pc w = (pc', w')"
  shows "world_ok w' \<and> worker_ok (asked w') pc' \<and> ids_of w' = ids_of w \<and> asked w' = asked w"
proof -
  have run: "world_ok w' \<and> ids_of w' = ids_of w \<and> asked w' = asked w" if "processed i w w'" "i \<in> asked w" for i
    using world_ok_processed [OF assms(1) that] by simp
  show ?thesis
  proof (cases pc)
    case WorkerIdle
    with assms show ?thesis by (auto simp: worker_step_def)
  next
    case (WorkerBegin m p)
    with assms have "worker_ok (asked w) pc'" "rp_analysis_id p \<in> asked w" "w' = snd (process_begin env P (rp_analysis_id p) w)"
      by (auto simp: worker_step_def worker_ok_def split: prod.splits sum.splits)
    with run [of "rp_analysis_id p"] begin_processed [OF processed_refl] show ?thesis by simp
  next
    case (WorkerFetch m p ev)
    with assms have "worker_ok (asked w) pc'" "rp_analysis_id p \<in> asked w" "w' = snd (process_fetch env P p w)"
      by (auto simp: worker_step_def worker_ok_def split: prod.splits sum.splits)
    with run [of "rp_analysis_id p"] fetch_processed [OF processed_refl] show ?thesis by simp
  next
    case (WorkerContent m p ev c)
    with assms have "worker_ok (asked w) pc'" "rp_analysis_id p \<in> asked w"
        "w' = snd (process_content env P p (NewContentHash (sha256_Sum env) (wp_html c)) c w)"
      by (auto simp: worker_step_def worker_ok_def Let_def split: prod.splits sum.splits)
    with run [of "rp_analysis_id p"] content_processed [OF processed_refl] show ?thesis by simp
  next
    case (WorkerFinish m p ev h)
    with assms have "worker_ok (asked w) pc'" "rp_analysis_id p \<in> asked w"
        "w' = snd (process_finish env P (rp_analysis_id p) ev h w)"
      by (auto simp: worker_step_def worker_ok_def)
    with run [of "rp_analysis_id p"] finish_processed [OF processed_refl] show ?thesis by simp
  next
    case (WorkerAck m)
    with assms settle_ok_world show ?thesis by (auto simp: worker_step_def worker_ok_def ctrl_Ack_def)
  qed
qed

end

lemma system_ok_step:
  assumes "system_contract (s_ports cfg)" "sys_step env cfg s s'" "system_ok s"
  shows "system_ok s'"
  using assms(2)
proof (cases rule: sys_step.cases)
  case (Start T W w url options)
  have "asked (snd (StartAnalysis env (s_retries cfg) (s_expiry cfg) url options w)) = asked w"
    by (simp add: asked_def web_bus)
  moreover from assms(3) Start(1) have "world_ok w" by (simp add: system_ok_def)
  note started = world_ok_started [OF this, of env "s_retries cfg" "s_expiry cfg" url options]
  ultimately show ?thesis
    using assms(3) Start request_event_mono [OF started(2)] started(1) by (simp add: system_ok_def)
next
  case (Query T W w i)
  let ?w = "snd (FetchAnalysis env (s_expiry cfg) i w)"
  have "analysis_tab ?w = analysis_tab w" "outbox_tab ?w = outbox_tab w"
    using FetchAnalysis_effect [OF prod.collapse [symmetric]] by blast+
  with assms(3) Query show ?thesis by (simp add: system_ok_def world_ok_def ids_of_def asked_def web_bus)
next
  case (Take T j r W w e)
  with assms(3) show ?thesis by (auto simp: system_ok_def pub_ok_def)
next
  case (Publish T j w pc w' W)
  with assms(3) have ok: "world_ok w" "pub_ok (ids_of w) (T j)" by (simp_all add: system_ok_def)
  note k = pub_step_keeps [OF ok Publish(3)]
  with assms(3) Publish worker_ok_mono [OF k(4)] show ?thesis by (auto simp: system_ok_def)
next
  case (Receive W k msg w d m p T)
  with assms(3) obtain i where "asks_for msg i" by (auto simp: system_ok_def world_ok_def list_all_iff)
  with delivered_asks [OF this Receive(5,6,7)] Receive(4) have "rp_analysis_id p \<in> asked w" by (auto simp: asked_def)
  with assms(3) Receive show ?thesis by (auto simp: system_ok_def worker_ok_def)
next
  case (Refuse W k T w v d)
  with assms(3) settle_ok_world show ?thesis by (auto simp: system_ok_def)
next
  case (Process W k w pc w' T)
  with assms(3) have ok: "world_ok w" "worker_ok (asked w) (W k)" by (simp_all add: system_ok_def)
  note k = system_contract.worker_step_keeps [OF assms(1) ok Process(3)]
  with assms(3) Process show ?thesis by (auto simp: system_ok_def)
qed

lemma system_start_ok: "system_ok sys_start"
  by (simp add: system_ok_def sys_start_def world_ok_def ids_of_def pub_ok_def worker_ok_def empty_world_def)


section \<open>The tables\<close>

lemma busy_statuses:
  assumes "map event_core (outbox_tab w') = map event_core (outbox_tab w)"
    "map or_status (outbox_tab w') = map or_status (outbox_tab w)"
  shows "busy i w' = busy i w"
proof -
  have busy: "busy i v \<longleftrightarrow> i \<in> or_id ` set (outbox_tab v) \<and>
      list_all (\<lambda>(c, s). fst c = i \<longrightarrow> s = OutboxStatusProcessing) (zip (map event_core (outbox_tab v)) (map or_status (outbox_tab v)))" for v
    by (simp add: busy_def zip_map_map zip_same_conv_map list_all_iff event_core_def)
  show ?thesis unfolding busy assms core_ids [OF assms(1)] ..
qed

context system_contract
begin

lemma worker_step_tables:
  assumes "worker_step env P pc w = (pc', w')" "analysis_table_ok w" "outbox_table_ok w"
  shows "analysis_table_ok w' \<and> outbox_table_ok w' \<and> (\<forall>i. busy i w' = busy i w)"
proof -
  have frame: "analysis_table_ok v" "outbox_table_ok v" "busy i v = busy i w"
    if "analysis_tab v = analysis_tab w" "outbox_tab v = outbox_tab w" for v i
    using that assms(2,3) by (simp_all add: analysis_table_ok_def outbox_table_ok_def busy_def)
  have busy: "processed k w w' \<Longrightarrow> busy i w' = busy i w" for k i
    by (rule busy_statuses) (simp_all add: processed_def)
  show ?thesis
  proof (cases pc)
    case (WorkerBegin m p)
    with assms(1) obtain r where r: "process_begin env P (rp_analysis_id p) w = (r, w')"
      by (auto simp: worker_step_def split: prod.splits sum.splits)
    have "processed (rp_analysis_id p) w w'"
      using begin_processed [OF processed_refl [of "rp_analysis_id p" w]] r by (metis snd_conv)
    with process_begin_keeps [OF r assms(2,3)] busy show ?thesis by blast
  next
    case (WorkerFetch m p ev)
    with assms(1) obtain r where r: "process_fetch env P p w = (r, w')"
      by (auto simp: worker_step_def split: prod.splits sum.splits)
    with process_fetch_keeps(1,2) [OF r] assms(2,3) show ?thesis by (simp add: outbox_table_ok_def busy_def)
  next
    case (WorkerContent m p ev c)
    let ?h = "NewContentHash (sha256_Sum env) (wp_html c)"
    from WorkerContent assms(1) obtain r where r: "process_content env P p ?h c w = (r, w')"
      by (auto simp: worker_step_def Let_def split: prod.splits sum.splits)
    with process_content_frame(1,3) [OF r] assms(2,3) show ?thesis by (simp add: outbox_table_ok_def busy_def)
  next
    case (WorkerFinish m p ev h)
    with assms(1) obtain r where r: "process_finish env P (rp_analysis_id p) ev h w = (r, w')"
      by (cases "process_finish env P (rp_analysis_id p) ev h w") (auto simp: worker_step_def)
    have "processed (rp_analysis_id p) w w'"
      using finish_processed [OF processed_refl [of "rp_analysis_id p" w]] r by (metis snd_conv)
    with process_finish_keeps(1) [OF r] assms(2,3) busy show ?thesis by blast
  next
    case (WorkerAck m)
    with assms(1) have "w' = snd (settle env Acked (m_delivery m) w)" by (simp add: worker_step_def ctrl_Ack_def)
    then show ?thesis using frame [of w'] by (simp add: settle_tables)
  qed (use assms in \<open>auto simp: worker_step_def\<close>)
qed

end

definition tables_ok :: "system_state \<Rightarrow> bool" where
  "tables_ok s \<longleftrightarrow> (case s of (T, W, w) \<Rightarrow> analysis_table_ok w \<and> pub_inv (T, w))"

lemma pub_inv_later:
  assumes "pub_inv (T, w)" "outbox_table_ok w'" "\<And>i. busy i w \<Longrightarrow> busy i w'"
  shows "pub_inv (T, w')"
  using assms unfolding pub_inv_def prod.case by blast

lemma started_busy:
  assumes "outbox_table_ok w" "busy i w"
  shows "busy i (snd (StartAnalysis env cfg ex url options w))" (is "busy i ?w")
  using StartAnalysis_effect [OF prod.collapse [symmetric], of env cfg ex url options w]
proof (elim disjE exE conjE)
  fix row ev t
  assume ev: "outbox_tab ?w = outbox_tab w @ [ev]"
  have "outbox_table_ok ?w" by (rule StartAnalysis_keeps(2) [OF assms(1)])
  with ev assms(2) show ?thesis by (auto simp: outbox_table_ok_def busy_def)
qed (use assms(2) in \<open>simp add: busy_def\<close>)

lemma tables_ok_step:
  assumes "system_contract (s_ports cfg)" "sys_step env cfg s s'" "tables_ok s"
  shows "tables_ok s'"
  using assms(2)
proof (cases rule: sys_step.cases)
  case (Start T W w url options)
  with assms(3) have ok: "analysis_table_ok w" "pub_inv (T, w)" by (simp_all add: tables_ok_def)
  then have "outbox_table_ok w" by (simp add: pub_inv_def)
  from pub_inv_later [OF ok(2) StartAnalysis_keeps(2) [OF this] started_busy [OF this]] StartAnalysis_keeps(1) [OF ok(1)]
  show ?thesis by (simp add: Start tables_ok_def)
next
  case (Query T W w i)
  let ?w = "snd (FetchAnalysis env (s_expiry cfg) i w)"
  have "analysis_tab ?w = analysis_tab w" "outbox_tab ?w = outbox_tab w"
    using FetchAnalysis_effect [OF prod.collapse [symmetric]] by blast+
  with assms(3) Query show ?thesis
    by (simp add: tables_ok_def analysis_table_ok_def pub_inv_def outbox_table_ok_def busy_def)
next
  case (Take T j r W w e)
  have "pub_sys env (s_exchange cfg) (s_delay cfg) (T, w) (T(j := PubClaim e), w)" by (rule pub_sys.Fetch) (rule Take(3))
  then have "pub_inv (T(j := PubClaim e), w)" by (rule pub_inv_sys) (use assms(3) Take in \<open>simp add: tables_ok_def\<close>)
  with assms(3) Take show ?thesis by (simp add: tables_ok_def)
next
  case (Publish T j w pc w' W)
  with assms(3) have ok: "analysis_table_ok w" "pub_inv (T, w)" by (simp_all add: tables_ok_def)
  have "analysis_tab w' = analysis_tab w"
    using pub_step_requests(1) [OF Publish(3)] by (simp add: same_requests_def)
  with ok pub_inv_step [OF ok(2) Publish(3)] show ?thesis by (simp add: Publish tables_ok_def analysis_table_ok_def)
next
  case (Receive W k msg w d m p T)
  with assms(3) show ?thesis by (simp add: tables_ok_def)
next
  case (Refuse W k T w v d)
  with assms(3) show ?thesis
    by (simp add: settle_tables tables_ok_def analysis_table_ok_def pub_inv_def outbox_table_ok_def busy_def)
next
  case (Process W k w pc w' T)
  with assms(3) have ok: "analysis_table_ok w" "pub_inv (T, w)" by (simp_all add: tables_ok_def)
  then have "outbox_table_ok w" by (simp add: pub_inv_def)
  from system_contract.worker_step_tables [OF assms(1) Process(3) ok(1) this] pub_inv_later [OF ok(2)]
  show ?thesis by (simp add: Process tables_ok_def)
qed

lemma tables_start_ok: "tables_ok sys_start"
  by (simp add: tables_ok_def sys_start_def pub_inv_def holds_def analysis_table_ok_def outbox_table_ok_def empty_world_def)

interpretation system_run: step_invariant "sys_step env cfg" sys_start
  "\<lambda>s. system_contract (s_ports cfg) \<longrightarrow> system_ok s \<and> tables_ok s"
  for env cfg
  by unfold_locales (use system_ok_step system_start_ok tables_ok_step tables_start_ok in blast)+

section \<open>What holds of the whole\<close>

text \<open>The settings of a system whose subscribers have the adapters of the code.\<close>

definition wired ::
  "settings \<Rightarrow> http_port \<Rightarrow> html_env \<Rightarrow> (writer list \<Rightarrow> writer list) \<Rightarrow> (link list \<Rightarrow> link list) \<Rightarrow> int \<Rightarrow>
     checker_config \<Rightarrow> duration option \<Rightarrow> settings" where
  "wired cfg H D wsched lsched max_size links cache = cfg\<lparr>s_ports := service_ports H D wsched lsched max_size links cache\<rparr>"

lemma wired_reach:
  assumes "sys_reach env (wired cfg H D wsched lsched max_size links cache) s"
  shows "system_ok s" "tables_ok s"
  using system_run.reached [OF assms] whole.system_contract_axioms by (simp_all add: wired_def)

text \<open>C3: No work that nobody asked for. Whatever fails and however requests, publishers and subscribers
  interleave, with messages delivered late, twice or never: every analysis has an event in the outbox
  and every event an analysis; every message that was sent asks for an analysis that exists; and an
  analysis that has left the state requested was asked for by a message.\<close>

theorem no_work_unasked:
  assumes "sys_reach env (wired cfg H D wsched lsched max_size links cache) (T, W, w)"
  shows "or_aggregate_id ` set (outbox_tab w) = ar_id ` set (analysis_tab w) \<and>
    (\<forall>m \<in> set (bus w). \<exists>r \<in> set (analysis_tab w). asks_for m (ar_id r)) \<and>
    (\<forall>r \<in> set (analysis_tab w). ar_status r \<noteq> StatusRequested \<longrightarrow> (\<exists>m \<in> set (bus w). asks_for m (ar_id r)))"
  using wired_reach(1) [OF assms] by (auto simp: system_ok_def world_ok_def ids_of_def asked_def list_all_iff)

text \<open>Also: In the same system both tables keep their invariants, and at most one publisher is between
  claiming an event and marking it, while requests add events and subscribers mark them.\<close>

theorem system_keeps_tables:
  assumes "sys_reach env (wired cfg H D wsched lsched max_size links cache) (T, W, w)"
  shows "analysis_table_ok w \<and> outbox_table_ok w \<and>
    (\<forall>i j k. holds i (T j) \<and> holds i (T k) \<longrightarrow> j = k \<and> busy i w)"
  using wired_reach(2) [OF assms] unfolding tables_ok_def pub_inv_def prod.case by blast

section \<open>A run\<close>

lemma publisher_runs:
  "((\<lambda>(pc, w). pub_step env (s_exchange cfg) (s_delay cfg) pc w) ^^ n) (T j, w) = (pc, w') \<Longrightarrow>
   (sys_step env cfg)\<^sup>*\<^sup>* (T, W, w) (T(j := pc), W, w')"
proof (induction n arbitrary: pc w')
  case (Suc n)
  obtain pc1 w1 where s: "((\<lambda>(pc, w). pub_step env (s_exchange cfg) (s_delay cfg) pc w) ^^ n) (T j, w) = (pc1, w1)" by force
  with Suc.prems have "pub_step env (s_exchange cfg) (s_delay cfg) ((T(j := pc1)) j) w1 = (pc, w')" by simp
  then have "sys_step env cfg (T(j := pc1), W, w1) ((T(j := pc1))(j := pc), W, w')" by (rule sys_step.Publish)
  then have "sys_step env cfg (T(j := pc1), W, w1) (T(j := pc), W, w')" by simp
  with Suc.IH [OF s] show ?case by (rule rtranclp.rtrancl_into_rtrancl)
qed simp

definition sample_settings :: settings where
  "sample_settings = wired \<lparr>s_ports = service_ports empty_page sample_html id id 1000 sample_checker (Some 10),
     s_exchange = ''x'', s_delay = sample_delay, s_retries = default_max_retries, s_expiry = 10\<rparr>
     empty_page sample_html id id 1000 sample_checker (Some 10)"

text \<open>One request, published.\<close>

lemma sample_system:
  obtains T W w m where "sys_reach sample_env sample_settings (T, W, w)" "bus w = [m]" "analysis_tab w \<noteq> []"
proof -
  obtain a where "fst sample_started = Inr a" using sample_requested by (auto split: sum.splits)
  then have s: "StartAnalysis sample_env default_max_retries 10 ''http://a.b/'' sample_options empty_world =
      (Inr a, snd sample_started)"
    by (metis prod.collapse sample_started_def)
  let ?w = "snd sample_started"
  from s show thesis
  proof (rule StartAnalysis_started)
    fix row ev
    assume ev: "analysis_tab ?w = analysis_tab empty_world @ [row]" "outbox_tab ?w = outbox_tab empty_world @ [ev]"
      "or_status ev = OutboxStatusPending" "or_event_type ev = OutboxEventAnalysisRequested"
      "or_payload ev = enc_payload \<lparr>rp_analysis_id = an_id a, rp_url = ''http://a.b/'', rp_options = sample_options,
        rp_priority = PriorityNormal, rp_created_at = an_created_at a\<rparr>"
    then have tab: "outbox_tab ?w = [ev]" by (simp add: empty_world_def)
    obtain c where c: "convertRowToEvent ev = Inr c"
      using convert_request [OF ev(4,5)] by (auto simp: sample_options_def Second_def)
    then have "oe_id c = or_id ev" by (auto simp: convertRowToEvent_def split: sum.splits)
    with ev(3) have "claimable_row (oe_id c) ev" by (simp add: claimable_row_def)
    from publish_no_faults [OF _ _ this _ c, of sample_env ?w "''x''" sample_delay] obtain r w' where
      p: "PublishEvent sample_env ''x'' sample_delay c ?w = (r, w')" "bus w' = bus ?w @ [message_of ''x'' c]"
      by (auto simp: tab)
    have "bus ?w = []" unfolding sample_started_def web_bus by (simp add: empty_world_def)
    with p(2) have bus: "bus w' = [message_of ''x'' c]" by simp
    have "same_requests ?w (snd (PublishEvent sample_env ''x'' sample_delay c ?w))" by (rule PublishEvent_same) simp
    with p(1) ev(1) have row: "analysis_tab w' \<noteq> []" by (simp add: same_requests_def)
    let ?S = "\<lambda>T w. (T, \<lambda>_ :: nat. WorkerIdle, w)"
    have set: "s_retries sample_settings = default_max_retries" "s_expiry sample_settings = 10"
      "s_exchange sample_settings = ''x''" "s_delay sample_settings = sample_delay"
      by (simp_all add: sample_settings_def wired_def)
    have "sys_step sample_env sample_settings sys_start (?S (\<lambda>_. PubIdle) ?w)"
      using sys_step.Start [of sample_env sample_settings "\<lambda>_. PubIdle" "\<lambda>_. WorkerIdle" empty_world "''http://a.b/''" sample_options]
      by (simp add: set sys_start_def sample_started_def)
    moreover have "sys_step sample_env sample_settings (?S (\<lambda>_. PubIdle) ?w) (?S ((\<lambda>_. PubIdle)(0 := PubClaim c)) ?w)"
      by (rule sys_step.Take) simp
    moreover have "(sys_step sample_env sample_settings)\<^sup>*\<^sup>* (?S ((\<lambda>_. PubIdle)(0 := PubClaim c)) ?w)
        (?S (((\<lambda>_. PubIdle)(0 := PubClaim c))(0 := PubDone r)) w')"
      using p(1) by (intro publisher_runs [where n = 3]) (simp add: set publish_by_steps)
    ultimately have "sys_reach sample_env sample_settings (?S (((\<lambda>_. PubIdle)(0 := PubClaim c))(0 := PubDone r)) w')"
      by (meson converse_rtranclp_into_rtranclp)
    from that [OF this bus row] show thesis .
  qed
qed

theorem no_work_unasked_witness:
  "\<exists>T W w m. sys_reach sample_env sample_settings (T, W, w) \<and> bus w = [m] \<and>
     (\<exists>r \<in> set (analysis_tab w). asks_for m (ar_id r) \<and> ar_id r \<in> or_aggregate_id ` set (outbox_tab w))"
proof (rule sample_system)
  fix T W w m
  assume s: "sys_reach sample_env sample_settings (T, W, w)" "bus w = [m]"
  with no_work_unasked [OF s(1) [unfolded sample_settings_def]]
  obtain r where r: "r \<in> set (analysis_tab w)" "asks_for m (ar_id r)" "or_aggregate_id ` set (outbox_tab w) = ar_id ` set (analysis_tab w)"
    by auto
  have "ar_id r \<in> or_aggregate_id ` set (outbox_tab w)" unfolding r(3) using r(1) by (rule imageI)
  with s r show ?thesis by blast
qed

theorem system_keeps_tables_witness:
  "\<exists>T W w. sys_reach sample_env sample_settings (T, W, w) \<and> analysis_tab w \<noteq> [] \<and> analysis_table_ok w \<and> outbox_table_ok w"
proof (rule sample_system)
  fix T W w m
  assume s: "sys_reach sample_env sample_settings (T, W, w)" "analysis_tab w \<noteq> []"
  with system_keeps_tables [OF s(1) [unfolded sample_settings_def]] show ?thesis by blast
qed
end
