(* ===== verification/Link_Workers.thy ===== *)
theory Link_Workers
  imports Link_Checker
begin

text \<open>
  The goroutines of \<open>checkLinks\<close> in \<open>adapters/link_checker.go\<close>: one for each link, on a semaphore, a
  channel of the capacity \<open>MaxConcurrentChecks\<close>, and with a mutex around the list of the bad links. In
  \<open>Link_Checker\<close> they run one after the other; here their steps interleave, a check being one step.
\<close>

section \<open>The steps of a goroutine\<close>

text \<open>Before its send to the channel, before the check, before the append, before the receive, ended.\<close>

datatype check_pc =
    Acquire link
  | Check link
  | Append inaccessible_link
  | Release
  | Finished

record check_run =
  cr_pcs :: "check_pc list"
  cr_semaphore :: nat  \<comment> \<open>how many elements are in the channel\<close>
  cr_inaccessible :: "inaccessible_link slice"
  cr_world :: world

definition check_start :: "link list \<Rightarrow> world \<Rightarrow> check_run" where
  "check_start links w = \<lparr>cr_pcs = map Acquire links, cr_semaphore = 0, cr_inaccessible = None, cr_world = w\<rparr>"

inductive check_step :: "http_port \<Rightarrow> checker_config \<Rightarrow> nat \<Rightarrow> check_run \<Rightarrow> check_run \<Rightarrow> bool" for H cfg capacity where
  acquire: "j < length (cr_pcs s) \<Longrightarrow> cr_pcs s ! j = Acquire l \<Longrightarrow> cr_semaphore s < capacity \<Longrightarrow>
     check_step H cfg capacity s (s\<lparr>cr_pcs := (cr_pcs s)[j := Check l], cr_semaphore := Suc (cr_semaphore s)\<rparr>)"
| good: "j < length (cr_pcs s) \<Longrightarrow> cr_pcs s ! j = Check l \<Longrightarrow> checkSingleLink H cfg l (cr_world s) = (None, w') \<Longrightarrow>
     check_step H cfg capacity s (s\<lparr>cr_pcs := (cr_pcs s)[j := Release], cr_world := w'\<rparr>)"
| bad: "j < length (cr_pcs s) \<Longrightarrow> cr_pcs s ! j = Check l \<Longrightarrow> checkSingleLink H cfg l (cr_world s) = (Some b, w') \<Longrightarrow>
     check_step H cfg capacity s (s\<lparr>cr_pcs := (cr_pcs s)[j := Append b], cr_world := w'\<rparr>)"
| append: "j < length (cr_pcs s) \<Longrightarrow> cr_pcs s ! j = Append b \<Longrightarrow>
     check_step H cfg capacity s (s\<lparr>cr_pcs := (cr_pcs s)[j := Release], cr_inaccessible := go_append (cr_inaccessible s) b\<rparr>)"
| release: "j < length (cr_pcs s) \<Longrightarrow> cr_pcs s ! j = Release \<Longrightarrow> cr_semaphore s = Suc n \<Longrightarrow>
     check_step H cfg capacity s (s\<lparr>cr_pcs := (cr_pcs s)[j := Finished], cr_semaphore := n\<rparr>)"

inductive_cases check_stepE: "check_step H cfg capacity s s'"

abbreviation check_reach :: "http_port \<Rightarrow> checker_config \<Rightarrow> nat \<Rightarrow> link list \<Rightarrow> world \<Rightarrow> check_run \<Rightarrow> bool" where
  "check_reach H cfg capacity links w \<equiv> (check_step H cfg capacity)\<^sup>*\<^sup>* (check_start links w)"

text \<open>\<open>wg.Wait\<close> returns when every goroutine has ended.\<close>

definition waited :: "check_run \<Rightarrow> bool" where
  "waited s \<longleftrightarrow> list_all (\<lambda>pc. pc = Finished) (cr_pcs s)"

section \<open>Sums over the goroutines\<close>

definition held :: "check_pc \<Rightarrow> nat" where
  "held pc = (case pc of Acquire _ \<Rightarrow> 0 | Finished \<Rightarrow> 0 | _ \<Rightarrow> 1)"

definition steps_left :: "check_pc \<Rightarrow> nat" where
  "steps_left pc = (case pc of Acquire _ \<Rightarrow> 4 | Check _ \<Rightarrow> 3 | Append _ \<Rightarrow> 2 | Release \<Rightarrow> 1 | Finished \<Rightarrow> 0)"

definition to_check :: "check_pc \<Rightarrow> link multiset" where
  "to_check pc = (case pc of Acquire l \<Rightarrow> {#l#} | Check l \<Rightarrow> {#l#} | _ \<Rightarrow> {#})"

definition unlisted :: "check_pc \<Rightarrow> inaccessible_link multiset" where
  "unlisted pc = (case pc of Append b \<Rightarrow> {#b#} | _ \<Rightarrow> {#})"

lemma pc_simps [simp]:
  "held (Acquire l) = 0" "held (Check l) = 1" "held (Append b) = 1" "held Release = 1" "held Finished = 0"
  "steps_left (Acquire l) = 4" "steps_left (Check l) = 3" "steps_left (Append b) = 2" "steps_left Release = 1"
  "steps_left Finished = 0"
  "to_check (Acquire l) = {#l#}" "to_check (Check l) = {#l#}" "to_check (Append b) = {#}" "to_check Release = {#}"
  "to_check Finished = {#}"
  "unlisted (Acquire l) = {#}" "unlisted (Check l) = {#}" "unlisted (Append b) = {#b#}" "unlisted Release = {#}"
  "unlisted Finished = {#}"
  by (simp_all add: held_def steps_left_def to_check_def unlisted_def)

lemma sum_update:
  fixes f :: "check_pc \<Rightarrow> 'a :: cancel_comm_monoid_add"
  assumes "j < length pcs"
  shows "sum_list (map f (pcs[j := pc])) + f (pcs ! j) = sum_list (map f pcs) + f pc"
  using assms
proof (induction pcs arbitrary: j)
  case (Cons p pcs)
  then show ?case by (cases j) (simp_all add: ac_simps)
qed simp

lemma sum_at:
  fixes f :: "check_pc \<Rightarrow> nat"
  shows "j < length pcs \<Longrightarrow> f (pcs ! j) \<le> sum_list (map f pcs)"
  by (simp add: member_le_sum_list)

section \<open>No more checks at a time than the semaphore lets\<close>

definition semaphore_ok :: "nat \<Rightarrow> check_run \<Rightarrow> bool" where
  "semaphore_ok capacity s \<longleftrightarrow> cr_semaphore s = sum_list (map held (cr_pcs s)) \<and> cr_semaphore s \<le> capacity"

lemma semaphore_start: "semaphore_ok capacity (check_start links w)"
  by (simp add: semaphore_ok_def check_start_def comp_def)

lemma semaphore_step:
  assumes "check_step H cfg capacity s s'" "semaphore_ok capacity s"
  shows "semaphore_ok capacity s'"
  using assms(1)
proof (cases rule: check_step.cases)
  case (acquire j l)
  with assms(2) sum_update [of j "cr_pcs s" held "Check l"] show ?thesis by (simp add: semaphore_ok_def)
next
  case (good j l w')
  with assms(2) sum_update [of j "cr_pcs s" held Release] show ?thesis by (simp add: semaphore_ok_def)
next
  case (bad j l b w')
  with assms(2) sum_update [of j "cr_pcs s" held "Append b"] show ?thesis by (simp add: semaphore_ok_def)
next
  case (append j b)
  with assms(2) sum_update [of j "cr_pcs s" held Release] show ?thesis by (simp add: semaphore_ok_def)
next
  case (release j n)
  with assms(2) sum_update [of j "cr_pcs s" held Finished] show ?thesis by (simp add: semaphore_ok_def)
qed

interpretation semaphore: step_invariant "check_step H cfg capacity" "check_start links w" "semaphore_ok capacity"
  for H cfg capacity links w
  by unfold_locales (auto intro: semaphore_start semaphore_step)

lemma held_count: "sum_list (map held pcs) = length (filter (\<lambda>pc. held pc = 1) pcs)"
proof (induction pcs)
  case (Cons pc pcs)
  then show ?case by (cases pc) simp_all
qed simp

text \<open>Also: At any time at most \<open>MaxConcurrentChecks\<close> goroutines are between the acquisition of the semaphore and
  its release.\<close>

theorem checks_bounded:
  assumes "check_reach H cfg capacity links w s"
  shows "length (filter (\<lambda>pc. held pc = 1) (cr_pcs s)) \<le> capacity"
  using semaphore.reached [OF assms] by (simp add: semaphore_ok_def held_count)

section \<open>The checks end\<close>

definition work :: "check_run \<Rightarrow> nat" where
  "work s = sum_list (map steps_left (cr_pcs s))"

lemma work_less:
  assumes "j < length (cr_pcs s)" "steps_left pc < steps_left (cr_pcs s ! j)" "cr_pcs s' = (cr_pcs s)[j := pc]"
  shows "work s' < work s"
  using sum_update [OF assms(1), of steps_left pc] assms(2) by (simp add: work_def assms(3))

lemma work_decreases: "check_step H cfg capacity s s' \<Longrightarrow> work s' < work s"
  by (erule check_step.cases) (rule work_less; simp)+

lemma work_start: "work (check_start links w) = 4 * length links"
  by (induction links) (simp_all add: work_def check_start_def)

lemma steps_bounded: "(check_step H cfg capacity ^^ n) s s' \<Longrightarrow> work s' + n \<le> work s"
proof (induction n arbitrary: s')
  case (Suc n)
  then obtain t where "(check_step H cfg capacity ^^ n) s t" "check_step H cfg capacity t s'" by auto
  with Suc.IH [of t] work_decreases [of H cfg capacity t s'] show ?case by simp
qed simp

lemma enabled:
  assumes "semaphore_ok capacity s" "0 < capacity" "\<not> waited s"
  shows "\<exists>s'. check_step H cfg capacity s s'"
proof -
  have step: "\<exists>s'. check_step H cfg capacity s s'" if "j < length (cr_pcs s)" "held (cr_pcs s ! j) = 1" for j
  proof (cases "cr_pcs s ! j")
    case (Check l)
    obtain r w' where "checkSingleLink H cfg l (cr_world s) = (r, w')" by force
    with that Check show ?thesis by (cases r) (blast intro: check_step.good check_step.bad)+
  next
    case Release
    have "0 < cr_semaphore s"
      using sum_at [OF that(1), of held] that(2) assms(1) by (simp add: semaphore_ok_def)
    then obtain n where "cr_semaphore s = Suc n" by (cases "cr_semaphore s") auto
    with that Release show ?thesis by (blast intro: check_step.release)
  qed (use that in \<open>auto intro: check_step.append\<close>)
  show ?thesis
  proof (cases "\<exists>j < length (cr_pcs s). held (cr_pcs s ! j) = 1")
    case False
    then have free: "held pc = 0" if "pc \<in> set (cr_pcs s)" for pc
      using that by (cases pc) (auto simp: in_set_conv_nth)
    then have "cr_semaphore s = 0" using assms(1) by (auto simp: semaphore_ok_def)
    moreover obtain j where "j < length (cr_pcs s)" "cr_pcs s ! j \<noteq> Finished"
      using assms(3) by (auto simp: waited_def list_all_length)
    moreover from this free obtain l where "cr_pcs s ! j = Acquire l" by (cases "cr_pcs s ! j") (fastforce dest: nth_mem)+
    ultimately show ?thesis using assms(2) by (metis check_step.acquire)
  qed (use step in blast)
qed

text \<open>C30: The checks end. With room for at least one, \<open>wg.Wait\<close> returns: whatever the order of the steps, there are
  at most four for each link, and while not all goroutines have ended one of them can go on.\<close>

theorem checks_terminate:
  assumes "0 < capacity" "(check_step H cfg capacity ^^ n) (check_start links w) s"
  shows "n \<le> 4 * length links \<and> (waited s \<or> (\<exists>s'. check_step H cfg capacity s s'))"
proof
  show "n \<le> 4 * length links" using steps_bounded [OF assms(2)] by (simp add: work_start)
  have "check_reach H cfg capacity links w s" using assms(2) by (rule relpowp_imp_rtranclp)
  with semaphore.reached enabled assms(1) show "waited s \<or> (\<exists>s'. check_step H cfg capacity s s')" by blast
qed

text \<open>Also: With no room, as a configured \<open>MaxConcurrentChecks\<close> of 0 gives, the first send to the channel blocks
  every goroutine: nothing is checked, \<open>wg.Wait\<close> never returns, and with it the run of the subscriber.\<close>

theorem no_room_hangs:
  assumes "check_reach H cfg 0 links w s"
  shows "s = check_start links w \<and> \<not> (\<exists>s'. check_step H cfg 0 s s') \<and> (waited s \<longleftrightarrow> links = [])"
proof -
  have stuck: "\<not> check_step H cfg 0 (check_start links w) s'" for s'
    by (rule notI, erule check_step.cases) (auto simp: check_start_def)
  from assms have "s = check_start links w"
    by (induction rule: rtranclp_induct) (use stuck in auto)
  with stuck show ?thesis by (simp add: waited_def check_start_def list_all_length) (cases links; auto)
qed

section \<open>The same as one after the other\<close>

lemma checkLinks_append:
  "checkLinks H cfg (ls @ ms) acc w = (case checkLinks H cfg ls acc w of (r, w1) \<Rightarrow> checkLinks H cfg ms r w1)"
proof (induction ls arbitrary: acc w)
  case (Cons l ls)
  obtain q w1 where "checkSingleLink H cfg l w = (q, w1)" by force
  with Cons.IH show ?case by (cases q) simp_all
qed simp

text \<open>There is an order in which the links that have been checked give the same world and, with those that wait
  for the mutex, the same bad links.\<close>

definition serialised :: "http_port \<Rightarrow> checker_config \<Rightarrow> link list \<Rightarrow> world \<Rightarrow> check_run \<Rightarrow> bool" where
  "serialised H cfg links w0 s \<longleftrightarrow>
     (\<exists>order r. checkLinks H cfg order None w0 = (r, cr_world s) \<and>
        mset order + sum_list (map to_check (cr_pcs s)) = mset links \<and>
        mset (elems (cr_inaccessible s)) + sum_list (map unlisted (cr_pcs s)) = mset (elems r) \<and>
        (cr_inaccessible s = None \<longleftrightarrow> elems (cr_inaccessible s) = []) \<and> (r = None \<longleftrightarrow> elems r = []))"

lemma serialisedE:
  assumes "serialised H cfg links w0 s"
  obtains order r where "checkLinks H cfg order None w0 = (r, cr_world s)"
    "mset order + sum_list (map to_check (cr_pcs s)) = mset links"
    "mset (elems (cr_inaccessible s)) + sum_list (map unlisted (cr_pcs s)) = mset (elems r)"
    "cr_inaccessible s = None \<longleftrightarrow> elems (cr_inaccessible s) = []" "r = None \<longleftrightarrow> elems r = []"
  using assms unfolding serialised_def by (elim exE conjE) (rule that; assumption)

lemma serialisedI:
  "checkLinks H cfg order None w0 = (r, cr_world s) \<Longrightarrow>
   mset order + sum_list (map to_check (cr_pcs s)) = mset links \<Longrightarrow>
   mset (elems (cr_inaccessible s)) + sum_list (map unlisted (cr_pcs s)) = mset (elems r) \<Longrightarrow>
   (cr_inaccessible s = None \<longleftrightarrow> elems (cr_inaccessible s) = []) \<Longrightarrow> (r = None \<longleftrightarrow> elems r = []) \<Longrightarrow>
   serialised H cfg links w0 s"
  unfolding serialised_def by (intro exI [of _ order] exI [of _ r] conjI)

lemma serialised_start: "serialised H cfg links w (check_start links w)"
proof -
  have "sum_list (map to_check (map Acquire links)) = mset links" "sum_list (map unlisted (map Acquire links)) = {#}"
    by (induction links) simp_all
  then show ?thesis
    unfolding serialised_def by (intro exI [of _ "[]"] exI [of _ None]) (simp add: check_start_def)
qed

lemma serialised_step:
  assumes "check_step H cfg capacity s s'" "serialised H cfg links w0 s"
  shows "serialised H cfg links w0 s'"
proof -
  from assms(2) obtain order r where o: "checkLinks H cfg order None w0 = (r, cr_world s)"
    "mset order + sum_list (map to_check (cr_pcs s)) = mset links"
    "mset (elems (cr_inaccessible s)) + sum_list (map unlisted (cr_pcs s)) = mset (elems r)"
    "cr_inaccessible s = None \<longleftrightarrow> elems (cr_inaccessible s) = []" "r = None \<longleftrightarrow> elems r = []"
    by (rule serialisedE)
  note sums = sum_update [of _ "cr_pcs s" to_check] sum_update [of _ "cr_pcs s" unlisted]
  from assms(1) show ?thesis
  proof (cases rule: check_step.cases)
    case (acquire j l)
    with o sums [of j "Check l"] show ?thesis by (auto simp: serialised_def intro!: exI [of _ order] exI [of _ r])
  next
    case (good j l w')
    have "mset (order @ [l]) + sum_list (map to_check ((cr_pcs s)[j := Release])) = mset links"
      using o(2) [symmetric] sums(1) [of j Release, symmetric] good(2,3) by simp
    moreover have "checkLinks H cfg (order @ [l]) None w0 = (r, w')" by (simp add: checkLinks_append o(1) good(4))
    ultimately show ?thesis
      using o(3-5) sums(2) [of j Release] good by (auto simp: serialised_def intro!: exI [of _ "order @ [l]"] exI [of _ r])
  next
    case (bad j l b w')
    have "mset (order @ [l]) + sum_list (map to_check ((cr_pcs s)[j := Append b])) = mset links"
      using o(2) [symmetric] sums(1) [of j "Append b", symmetric] bad(2,3) by simp
    moreover have "checkLinks H cfg (order @ [l]) None w0 = (go_append r b, w')" by (simp add: checkLinks_append o(1) bad(4))
    moreover have "go_append r b = None \<longleftrightarrow> elems (go_append r b) = []" by (simp add: go_append_def)
    moreover have "mset (elems (cr_inaccessible s)) + sum_list (map unlisted ((cr_pcs s)[j := Append b])) = mset (elems (go_append r b))"
      using o(3) sums(2) [of j "Append b"] bad(2,3) by (simp add: ac_simps)
    ultimately show ?thesis
      using o(4) bad(1) by (intro serialisedI [of _ _ "order @ [l]" _ "go_append r b"]) simp_all
  next
    case (append j b)
    have "mset (elems (go_append (cr_inaccessible s) b)) + sum_list (map unlisted ((cr_pcs s)[j := Release])) = mset (elems r)"
      using o(3) [symmetric] sums(2) [of j Release, symmetric] append(2,3) by simp
    moreover have "go_append (cr_inaccessible s) b = None \<longleftrightarrow> elems (go_append (cr_inaccessible s) b) = []"
      by (simp add: go_append_def)
    ultimately show ?thesis
      using o sums(1) [of j Release] append by (auto simp: serialised_def intro!: exI [of _ order] exI [of _ r])
  next
    case (release j n)
    with o sums [of j Finished] show ?thesis by (auto simp: serialised_def intro!: exI [of _ order] exI [of _ r])
  qed
qed

interpretation serialisation: step_invariant "check_step H cfg capacity" "check_start links w" "serialised H cfg links w"
  for H cfg capacity links w
  by unfold_locales (auto intro: serialised_start serialised_step)


text \<open>The end can be reached, so that the theorems apply to a run.\<close>

lemma end_reached:
  assumes "semaphore_ok capacity s" "0 < capacity"
  shows "\<exists>s'. (check_step H cfg capacity)\<^sup>*\<^sup>* s s' \<and> waited s'"
  using assms(1)
proof (induction "work s" arbitrary: s rule: less_induct)
  case less
  show ?case
  proof (cases "waited s")
    case False
    with enabled [OF less.prems assms(2)] obtain t where t: "check_step H cfg capacity s t" by blast
    with less.hyps [OF work_decreases semaphore_step [OF _ less.prems], OF t t]
    show ?thesis by (meson converse_rtranclp_into_rtranclp)
  qed blast
qed

lemma all_checks_end: "0 < capacity \<Longrightarrow> \<exists>s. check_reach H cfg capacity links w s \<and> waited s"
  by (rule end_reached [OF semaphore_start])

section \<open>The theorems on samples\<close>

lemma sample_links_not_empty: "sample_links \<noteq> []"
  by (simp add: sample_links_def)

theorem checks_bounded_witness:
  "length (filter (\<lambda>pc. held pc = 1) (cr_pcs (check_start sample_links empty_world))) \<le> 10"
  by (rule checks_bounded [where H = sample_http and cfg = sample_checker, OF rtranclp.rtrancl_refl])

theorem checks_terminate_witness:
  "(0::nat) < 10 \<and> (check_step sample_http sample_checker 10 ^^ 0) (check_start sample_links empty_world)
     (check_start sample_links empty_world) \<and> (\<exists>s'. check_step sample_http sample_checker 10 (check_start sample_links empty_world) s')"
  using checks_terminate [where capacity = 10 and n = 0 and H = sample_http and cfg = sample_checker and links = sample_links and
      w = empty_world and s = "check_start sample_links empty_world"]
  by (simp add: waited_def check_start_def sample_links_def)

theorem no_room_hangs_witness:
  "\<not> waited (check_start sample_links empty_world) \<and>
   \<not> (\<exists>s'. check_step sample_http sample_checker 0 (check_start sample_links empty_world) s')"
  using no_room_hangs [OF rtranclp.rtrancl_refl, where H = sample_http and cfg = sample_checker and links = sample_links and w = empty_world]
    sample_links_not_empty by blast


end
