(* ===== verification/Clients.thy ===== *)
theory Clients
  imports Settings Link_Workers
begin

text \<open>
  The clients that the programs make of their settings: the HTTP clients and the circuit breakers of
  \<open>adapters/web_fetcher.go\<close> and \<open>adapters/link_checker.go\<close>, the options of the client of the cache of
  \<open>infrastructure/cache.go\<close>, the accessors of \<open>infrastructure/storage.go\<close>. What the packages of the
  clients do with the settings is not part of the repository.
\<close>

section \<open>The HTTP clients and their breakers\<close>

record http_client =
  hc_Timeout :: duration
  hc_RetryCount :: int
  hc_RetryWaitTime :: duration
  hc_RetryMaxWaitTime :: duration
  hc_MaxRedirects :: int
  hc_Headers :: "(string \<times> string) list"

record breaker_settings =
  bs_Name :: string
  bs_MaxRequests :: int
  bs_Interval :: duration
  bs_Timeout :: duration
  bs_ReadyToTrip :: "nat \<Rightarrow> nat \<Rightarrow> bool"

record web_fetcher =
  wf_client :: http_client
  wf_breaker :: breaker_settings
  wf_config :: web_fetcher_config

record link_checker =
  lc_client :: http_client
  lc_breaker :: breaker_settings
  lc_config :: link_checker_config

definition fetcher_headers :: "(string \<times> string) list" where
  "fetcher_headers =
     [(''Accept'', ''text/html,application/xhtml+xml,application/xml;q=0.9,*/*;q=0.8''),
      (''Accept-Language'', ''en-US,en;q=0.5''), (''Accept-Encoding'', ''gzip, deflate''), (''DNT'', ''1''),
      (''Connection'', ''keep-alive''), (''Upgrade-Insecure-Requests'', ''1'')]"

definition defaultTimeout :: duration where
  "defaultTimeout = 30 * Second"

definition NewWebFetcher :: "web_fetcher_config \<Rightarrow> web_fetcher" where
  "NewWebFetcher c =
     \<lparr>wf_client = \<lparr>hc_Timeout = defaultTimeout, hc_RetryCount = wf_MaxRetries c, hc_RetryWaitTime = wf_RetryWaitTime c,
        hc_RetryMaxWaitTime = wf_MaxRetryWaitTime c, hc_MaxRedirects = wf_MaxRedirects c,
        hc_Headers = (''User-Agent'', if wf_UserAgent c \<noteq> [] then wf_UserAgent c else ''WebAnalyzer/1.0'') # fetcher_headers\<rparr>,
      wf_breaker = \<lparr>bs_Name = ''web-fetcher'', bs_MaxRequests = brk_MaxRequests (wf_CircuitBreaker c),
        bs_Interval = brk_Interval (wf_CircuitBreaker c), bs_Timeout = brk_Timeout (wf_CircuitBreaker c),
        bs_ReadyToTrip = fetcher_ReadyToTrip\<rparr>,
      wf_config = c\<rparr>"

definition NewLinkChecker :: "link_checker_config \<Rightarrow> link_checker" where
  "NewLinkChecker c =
     \<lparr>lc_client = \<lparr>hc_Timeout = lc_Timeout c, hc_RetryCount = lc_Retries c, hc_RetryWaitTime = lc_RetryWaitTime c,
        hc_RetryMaxWaitTime = lc_MaxRetryWaitTime c, hc_MaxRedirects = 5,
        hc_Headers = [(''User-Agent'', ''WebAnalyzer-WebCrawler/1.0''), (''Accept'', ''*/*'')]\<rparr>,
      lc_breaker = \<lparr>bs_Name = ''link-checker'', bs_MaxRequests = brk_MaxRequests (lc_CircuitBreaker c),
        bs_Interval = brk_Interval (lc_CircuitBreaker c), bs_Timeout = brk_Timeout (lc_CircuitBreaker c),
        bs_ReadyToTrip = checker_ReadyToTrip\<rparr>,
      lc_config = c\<rparr>"

text \<open>A fetch by a fetcher, whose client has its timeout in \<open>client_timeout\<close>.\<close>

definition fetcher_start :: "web_fetcher \<Rightarrow> world \<Rightarrow> world" where
  "fetcher_start f w = w\<lparr>client_timeout := hc_Timeout (wf_client f)\<rparr>"

definition fetch_with ::
  "web_fetcher \<Rightarrow> http_port \<Rightarrow> env \<Rightarrow> string \<Rightarrow> duration \<Rightarrow> world \<Rightarrow> web_page_content result \<times> world" where
  "fetch_with f H env = Fetch H (wf_MaxResponseSizeBytes (wf_config f)) env"

text \<open>
  The state in which a check of a list of links starts, for no links one without goroutines, or \<open>None\<close> for a
  panic: the slice up to a negative \<open>MaxLinksToCheck\<close> and the channel of a negative capacity panic.
\<close>

definition check_links_start :: "env \<Rightarrow> link_checker \<Rightarrow> link list \<Rightarrow> world \<Rightarrow> check_run option" where
  "check_links_start env lc links w =
     (let external = filterExternalLinks env [] links
      in if links = [] then Some (check_start [] w)
         else if lc_MaxLinksToCheck (lc_config lc) < 0 then None
         else if lc_MaxConcurrentChecks (lc_config lc) < 0 then None
         else Some (check_start (take (nat (lc_MaxLinksToCheck (lc_config lc))) external) w))"

abbreviation checks_run :: "http_port \<Rightarrow> link_checker \<Rightarrow> check_run \<Rightarrow> check_run \<Rightarrow> bool" where
  "checks_run H lc \<equiv> (check_step H (checker_of (lc_config lc)) (nat (lc_MaxConcurrentChecks (lc_config lc))))\<^sup>*\<^sup>*"

section \<open>The timeout of a request\<close>

lemma fetch_timeout:
  assumes "validateURL env u = Inr x" "0 < t" "Fetch H mx env u t w = (r, w')"
  shows "client_timeout w' = t"
proof -
  have get: "fetchWithRetry env H mx u v = (q, v') \<Longrightarrow> client_timeout v' = client_timeout v" for v q v'
    by (auto simp: fetchWithRetry_def Let_def split: sum.splits)
  have "breaker_execute H (fetchWithRetry env H mx u) v = (q, v') \<Longrightarrow> client_timeout v' = client_timeout v" for v q v'
    by (auto simp: breaker_execute_def get split: option.splits)
  from this [of "w\<lparr>client_timeout := t\<rparr>"] show ?thesis
    using assms by (force simp: Fetch_def Let_def split: sum.splits prod.splits)
qed

text \<open>
  Also: The timeout of a request stays on the client, which all requests share: a later one that asks for no timeout
  of its own is made with it, as if it had asked for it, and not with the default of 30 seconds.
\<close>

theorem timeout_sticks:
  assumes "validateURL env u = Inr x" "0 < t" "fetch_with f H env u t w = (r, w1)" "t' \<le> 0"
  shows "fetch_with f H env u' t' w1 = fetch_with f H env u' t w1"
proof -
  have "w1\<lparr>client_timeout := t\<rparr> = w1"
    using fetch_timeout [OF assms(1,2) assms(3) [unfolded fetch_with_def]] by simp
  with assms(2,4) show ?thesis by (cases "validateURL env u'") (simp_all add: fetch_with_def Fetch_def Let_def)
qed

text \<open>Also: Before any request has set one, a request without a timeout has the default.\<close>

theorem first_timeout:
  assumes "t \<le> 0"
  shows "fetch_with (NewWebFetcher c) H env u t (fetcher_start (NewWebFetcher c) w) =
    fetch_with (NewWebFetcher c) H env u (30 * Second) (fetcher_start (NewWebFetcher c) w)"
  using assms by (cases "validateURL env u")
    (simp_all add: fetch_with_def fetcher_start_def NewWebFetcher_def defaultTimeout_def Fetch_def Let_def Second_def)

section \<open>The checks of a configured checker\<close>

text \<open>
  Also: With the default settings a check of any links has at most 100 goroutines, of which at most 10 check at a
  time, and no state that it reaches is stuck: all goroutines have ended, or one of them can go on.
\<close>

theorem default_checks_end:
  assumes "check_links_start env (NewLinkChecker default_link_checker_config) links w = Some s0"
    "checks_run H (NewLinkChecker default_link_checker_config) s0 s"
  shows "length (filter (\<lambda>pc. held pc = 1) (cr_pcs s)) \<le> 10 \<and> length (cr_pcs s0) \<le> 100 \<and>
    (waited s \<or> (\<exists>s'. check_step H (checker_of default_link_checker_config) 10 s s'))"
proof -
  let ?l = "NewLinkChecker default_link_checker_config"
  have c: "lc_MaxConcurrentChecks (lc_config ?l) = 10" "lc_MaxLinksToCheck (lc_config ?l) = 100"
    by (simp_all add: NewLinkChecker_def default_link_checker_config_def)
  have l: "lc_config ?l = default_link_checker_config" by (simp add: NewLinkChecker_def)
  from c have s0: "s0 = check_start (take 100 (filterExternalLinks env [] links)) w"
    using assms(1) by (simp add: check_links_start_def Let_def split: if_splits)
  with assms(2) c l have "semaphore_ok 10 s" using semaphore.reached by simp
  then have "length (filter (\<lambda>pc. held pc = 1) (cr_pcs s)) \<le> 10" by (simp add: semaphore_ok_def held_count)
  with \<open>semaphore_ok 10 s\<close> s0 show ?thesis
    using enabled [of 10 s H "checker_of default_link_checker_config"] by (auto simp: check_start_def)
qed

section \<open>The client of the cache and the storage\<close>

record redis_options =
  ro_Addr :: string
  ro_Password :: string
  ro_DB :: int
  ro_PoolSize :: int
  ro_MinIdleConns :: int
  ro_DialTimeout :: duration
  ro_ReadTimeout :: duration
  ro_WriteTimeout :: duration
  ro_PoolTimeout :: duration
  ro_MaxRetries :: int

definition NewKeyDBClient :: "cache_config \<Rightarrow> redis_options" where
  "NewKeyDBClient c =
     \<lparr>ro_Addr = kdb_Addr c, ro_Password = kdb_Password c, ro_DB = kdb_DB c, ro_PoolSize = kdb_PoolSize c,
      ro_MinIdleConns = kdb_MinIdleConns c, ro_DialTimeout = kdb_DialTimeout c, ro_ReadTimeout = kdb_ReadTimeout c,
      ro_WriteTimeout = kdb_WriteTimeout c, ro_PoolTimeout = kdb_PoolTimeout c, ro_MaxRetries = kdb_MaxRetries c\<rparr>"

text \<open>A ping of the cache, and the health check that wraps it, with its timeout of 2 seconds in the faults.\<close>

definition keydb_Ping :: "env \<Rightarrow> world \<Rightarrow> unit result \<times> world" where
  "keydb_Ping env = statement env (\<lambda>w. Inr ((), w))"

definition keydb_HealthCheck :: "env \<Rightarrow> world \<Rightarrow> unit result \<times> world" where
  "keydb_HealthCheck env w = wrap_error ''redis health check failed'' (keydb_Ping env w)"

text \<open>The database is there once it has been opened; \<open>Close\<close> leaves it in the record.\<close>

record 'db storage =
  sto_config :: storage_config
  sto_db :: "'db option"

definition GetDB :: "'db storage \<Rightarrow> 'db result" where
  "GetDB s = (case sto_db s of None \<Rightarrow> Inl (ErrText ''database connection not initialized'') | Some db \<Rightarrow> Inr db)"

definition storage_Close :: "('db \<Rightarrow> unit result) \<Rightarrow> 'db storage \<Rightarrow> unit result" where
  "storage_Close close s = (case sto_db s of None \<Rightarrow> Inr () | Some db \<Rightarrow> close db)"

definition storage_Ping :: "('db \<Rightarrow> unit result) \<Rightarrow> 'db storage \<Rightarrow> unit result" where
  "storage_Ping ping s =
     (case sto_db s of None \<Rightarrow> Inl (ErrText ''database connection not initialized'') | Some db \<Rightarrow> ping db)"

definition storage_Stats :: "('db \<Rightarrow> 'stats) \<Rightarrow> 'stats \<Rightarrow> 'db storage \<Rightarrow> 'stats" where
  "storage_Stats stats zero s = (case sto_db s of None \<Rightarrow> zero | Some db \<Rightarrow> stats db)"

section \<open>The theorems on samples\<close>

definition sample_fetcher :: web_fetcher where
  "sample_fetcher = NewWebFetcher default_web_fetcher_config"

theorem timeout_sticks_witness:
  "\<exists>r w1. fetch_with sample_fetcher Web_Fetcher.sample_http sample_env ''http://a.b/'' (5 * Second) empty_world = (r, w1) \<and>
     fetch_with sample_fetcher Web_Fetcher.sample_http sample_env ''http://c.d/'' 0 w1 =
     fetch_with sample_fetcher Web_Fetcher.sample_http sample_env ''http://c.d/'' (5 * Second) w1"
proof -
  have v: "validateURL sample_env ''http://a.b/'' = Inr ()" by code_simp
  obtain r w1 where f: "fetch_with sample_fetcher Web_Fetcher.sample_http sample_env ''http://a.b/'' (5 * Second) empty_world = (r, w1)"
    by force
  have "0 < 5 * Second" by (simp add: Second_def)
  from timeout_sticks [OF v this f order_refl, of "''http://c.d/''"] f show ?thesis by blast
qed

theorem first_timeout_witness:
  "fetch_with (NewWebFetcher default_web_fetcher_config) Web_Fetcher.sample_http sample_env ''http://a.b/'' 0
      (fetcher_start (NewWebFetcher default_web_fetcher_config) empty_world) =
    fetch_with (NewWebFetcher default_web_fetcher_config) Web_Fetcher.sample_http sample_env ''http://a.b/'' (30 * Second)
      (fetcher_start (NewWebFetcher default_web_fetcher_config) empty_world)"
  by (rule first_timeout) simp

theorem default_checks_end_witness:
  "\<exists>s0. check_links_start sample_env (NewLinkChecker default_link_checker_config) sample_links empty_world = Some s0 \<and>
     length (cr_pcs s0) \<le> 100"
proof -
  obtain s0 where s: "check_links_start sample_env (NewLinkChecker default_link_checker_config) sample_links empty_world = Some s0"
    by (simp add: check_links_start_def NewLinkChecker_def default_link_checker_config_def Let_def sample_links_not_empty)
  from default_checks_end [OF s rtranclp.rtrancl_refl, of Web_Fetcher.sample_http] s show ?thesis by blast
qed

end
