(* ===== verification/Spec2Isabelle.thy ===== *)
theory Spec2Isabelle
  imports Domain Json Net World Analysis_Repo Outbox_Repo Backoff Cache_Repo Publisher Application
    Subscriber Web_Fetcher Html_Analyzer Link_Checker Queue Worker Health Telemetry Http Key_Service Auth
    Handler Middleware Config_Loader Runtime Wiring Api_Json Programs Use_Cases Queue_Logging Pipeline
    Response_Writer Settings Api_Analysis System Link_Workers Clients
begin

text \<open>
  A model of the web analyzer service (Go, under \<open>src/\<close>) and proofs about it.

  \<^bold>\<open>The system.\<close> Three programs share a database, a cache and a message broker. The web service
  takes a request to analyse a URL and stores, in one transaction, a row of the table \<open>analysis\<close> and an
  event of the table \<open>outbox\<close>; it also answers queries, streams the state of an analysis and has health
  probes. The publisher takes events out of the outbox and sends them to the broker. The subscriber
  receives them, fetches the page, analyses it, checks its links and stores the results.

  \<^bold>\<open>Theories and files.\<close> Paths are under \<open>src/internal\<close> unless they start with \<open>pkg\<close>.

  \<^item> \<open>Prelude\<close>: fixed-width integers, strings, numbers as text, lists that stand for tables, and the
    locale \<open>step_invariant\<close> for step relations.
  \<^item> \<open>Domain\<close>, \<open>Json\<close>, \<open>Net\<close>: \<open>domain/*.go\<close>, that is errors, statuses, analyses, outbox events, with
    what \<open>encoding/json\<close>, \<open>net/url\<close> and \<open>net\<close> do with them.
  \<^item> \<open>World\<close>: the tables with their constraints, the cache, the messages sent, and the environment:
    which call fails, what the clock says. Each call that leaves the process asks the environment, so a
    theorem about every environment is one about every pattern of failures, a commit whose answer is
    lost included. \<open>keeps_invariant\<close> is the locale of operations that keep a table consistent.
  \<^item> \<open>Analysis_Repo\<close>, \<open>Outbox_Repo\<close>, \<open>Cache_Repo\<close>: \<open>adapters/repos\<close> and \<open>infrastructure/cache.go\<close>,
    one definition for each statement, transactions written out.
  \<^item> \<open>Backoff\<close>: \<open>shared/backoff\<close> and the retry limits of \<open>config/settings.go\<close>; floats are reals.
  \<^item> \<open>Publisher\<close>: \<open>service/publisher_service.go\<close> and \<open>adapters/outbox/processor.go\<close>, once as a
    function and once as steps of many publishers that interleave with a writer and a subscriber.
  \<^item> \<open>Application\<close>: \<open>service/application_service.go\<close>; the goroutine of the event stream is a step relation.
  \<^item> \<open>Subscriber\<close>, \<open>Worker\<close>: \<open>service/subscriber_service.go\<close> against the contract of its ports, a locale
    that \<open>Worker\<close> interprets on the adapters below, and \<open>adapters/queue/analysis_worker.go\<close>.
  \<^item> \<open>Web_Fetcher\<close>, \<open>Html_Analyzer\<close>, \<open>Link_Checker\<close>: the adapters of these names.
  \<^item> \<open>Link_Workers\<close>: the goroutines of the link checker with their semaphore and mutex as a step relation; they
    end, and do what \<open>Link_Checker\<close>, which checks one link after the other, does.
  \<^item> \<open>Clients\<close>: the HTTP clients and circuit breakers of fetcher and checker as their settings make them, the
    client of the cache, the accessors of the storage.
  \<^item> \<open>Queue\<close>: \<open>pkg/queue\<close>, connection, channel, consumer loop, deliveries.
  \<^item> \<open>Queue_Logging\<close>: the adapter of the logger and the options of \<open>pkg/queue\<close>, the level of
    \<open>infrastructure/logger.go\<close>; Go values with their types, for the assertions.
  \<^item> \<open>Use_Cases\<close>: the applications of publisher and subscriber in \<open>usecases\<close>, and processor and worker on
    top of them, which are shown to do what the plain ones do.
  \<^item> \<open>Health\<close>, \<open>Telemetry\<close>: \<open>adapters/health_checker.go\<close>; \<open>shared/decorator\<close>, \<open>infrastructure/metrics.go\<close>
    and the adapter between them.
  \<^item> \<open>Http\<close>, \<open>Key_Service\<close>, \<open>Auth\<close>, \<open>Handler\<close>, \<open>Middleware\<close>: requests, the response writer, PASETO
    keys and tokens, \<open>adapters/http/request_handler.go\<close>, \<open>adapters/middleware\<close>, their order in
    \<open>runtime/deps.go\<close>, the wrappers and routes of \<open>http_server_gen.go\<close>. A handler is a function of
    the request, the response so far and the server; \<open>None\<close> is a panic.
  \<^item> \<open>Response_Writer\<close>: \<open>adapters/middleware/response_writer.go\<close>, the wrapper with its status, its byte count
    and the interfaces that it passes on; the response of \<open>Http\<close> is shown to be an abstraction of it.
  \<^item> \<open>Api_Json\<close>: the types of \<open>http_server_gen.go\<close> that take additional properties, their JSON methods, and
    what a client of the probes reads with them.
  \<^item> \<open>Api_Analysis\<close>: the types of \<open>http_server_gen.go\<close> for analyses, requests, errors and reports, and what a
    client that is made with them reads of the answers of \<open>Handler\<close>.
  \<^item> \<open>Config_Loader\<close>: \<open>config/loader.go\<close>, its goroutine as a step relation.
  \<^item> \<open>Settings\<close>: \<open>config/settings.go\<close>, every section with its defaults and its JSON, \<open>Init\<close> and \<open>DumpConfig\<close>
    of the loader, what the other theories read of it, and what the defaults mean for the routes.
  \<^item> \<open>Runtime\<close>: the loop of the outbox processor and the life of the web service, \<open>runtime/dispatcher.go\<close>.
  \<^item> \<open>Programs\<close>: the lives of the publisher and of the subscriber, \<open>runtime/publisher.go\<close> and
    \<open>subscriber.go\<close>: the signal, what is closed, the exit, beside the goroutines that work.
  \<^item> \<open>Wiring\<close>: how the programs are put together, \<open>runtime/deps.go\<close> and \<open>dependency_options.go\<close>, with the
    clients of \<open>infrastructure/storage.go\<close>, \<open>metrics.go\<close> and \<open>tracing.go\<close>, and what the services do when
    the cache did not answer at the start.
  \<^item> \<open>Pipeline\<close>: the way of one request through the three programs; it has no code of its own, and shows that
    what the parts promise fits together.
  \<^item> \<open>System\<close>: any number of publishers and subscribers, at the steps and stages of their operations, beside
    the requests of the web service, with every failure: the step relation of the whole and its invariant.

  \<^bold>\<open>What is shown.\<close> On a healthy system no request is left hanging (\<open>Pipeline\<close>). On any system nothing is
  worked on that nobody asked for, and no analysis is without its event (\<open>System\<close>). Storing a request is
  atomic, and the answer the client gets says which of the cases happened (\<open>Application\<close>, \<open>Handler\<close>),
  in a form that a client of the generated types can read (\<open>Api_Analysis\<close>). Of all publishers at most one works on an event, a healthy
  tick publishes its batch, a failing one leaves the event where its result says (\<open>Publisher\<close>). Every
  delivery is settled, a successful analysis completes its row with what was found (\<open>Worker\<close>). The
  tables keep their invariants under all operations of all programs. What is written is read again: JSON
  of an analysis through the cache, a payload through outbox and broker, results through the table.
  Optimised code equals its reference: the matcher of \<open>Html_Analyzer\<close>, the loop of the backoff, link
  checks in any order, secrets in any order. No operation of the API runs without an acceptable token
  (\<open>Middleware\<close>), and what makes a token acceptable is stated in \<open>Auth\<close>. Loops end: retries of the
  fetcher, of the secret storage, of the consumer, with what they return when they do, and so do the
  concurrent checks of links (\<open>Link_Workers\<close>).

  Many theorems show behaviour that is not what was meant: a token with a bad signature is accepted, the
  configuration is never reloaded, an event whose publisher dies is never published, a transient failure
  loses a request, two goroutines can block on their own channels, a shutdown waits for nobody, the
  cache is needed although the start goes on without it, a client of the generated types cannot read a
  finished analysis. Each says so in its text.

  \<^bold>\<open>Bounds and conventions.\<close> There is no fuel: loops recurse on the attempts that are left or on the
  messages there are, and goroutines that may not end are step relations. Integers of the code are \<open>int\<close>
  with \<open>int64\<close> applied where a product or a sum can leave the range. A goroutine pool is a list in an
  order that a parameter chooses, which \<open>Link_Workers\<close> justifies for the link checker. A mutex makes its section one step. The clock is sampled with each
  call that leaves the process. A select takes any of its ready cases. Times in JSON stand for their
  RFC 3339 text. Case folding is that of ASCII.

  \<^bold>\<open>Parameters.\<close> Code that is not under \<open>src/\<close> is an argument: the URL parser and printer, SHA-256 and
  UUIDs (fields of the environment), the HTML parser, the HTTP client and the circuit breaker, the PASETO
  package, chi and its middlewares, the tracer, the rate limiter, the validator of the API description,
  the client of the secret storage. What a theorem needs of one is a premise, met by an instance in its
  witness.

  \<^bold>\<open>Not modelled.\<close> What the clients of libraries do inside, log lines other than the access log and those
  of the decorators, rounding to \<open>float32\<close> of what is not whole, the package that reads the
  environment, generated types that no code uses, the embedded API description,
  the main functions. Memory is not modelled, and so no data race is.
\<close>

end
